(* ===== verification/Go_Base.thy ===== *)
theory Go_Base
  imports Main "HOL-Library.Word" "HOL-Library.List_Lexorder" "HOL-Library.Char_ord"
    "HOL-Library.Sublist" "HOL-Library.Multiset"
begin

text \<open>
  The prelude of the development: the Go vocabulary the components share.

  \<^item> A Go \<open>string\<close> or \<open>[]byte\<close> is a list of bytes, so it is a HOL \<open>string\<close> (a list of 8-bit
    characters); \<open>len\<close> is \<open>length\<close> and \<open><\<close> is the lexicographic order of the bytes.
  \<^item> An \<open>error\<close> return is the left summand of a sum type; a method with a receiver takes the
    state and returns it together with its outcome.
  \<^item> \<open>strings.TrimSpace\<close>, \<open>HasPrefix\<close>, \<open>Contains\<close>, \<open>Cut\<close> and \<open>SplitN\<close> are the functions of
    the standard library on byte strings.
  \<^item> Signed 64-bit arithmetic is \<open>int\<close> with \<open>wrap64\<close>; unsigned 64-bit values are words.
\<close>

type_synonym u64 = "64 word"

named_theorems go_simps \<open>unfolding rules of the small helper definitions\<close>

section \<open>Signed 64-bit arithmetic\<close>

definition wrap64 :: "int \<Rightarrow> int" where
  "wrap64 x = (x + 2 ^ 63) mod 2 ^ 64 - 2 ^ 63"

lemma wrap64_in_range: "- (2 ^ 63) \<le> x \<Longrightarrow> x < 2 ^ 63 \<Longrightarrow> wrap64 x = x"
  by (simp add: wrap64_def)

lemma wrap64_succ: "0 \<le> x \<Longrightarrow> x < 2 ^ 63 - 1 \<Longrightarrow> wrap64 (x + 1) = x + 1"
  by (simp add: wrap64_def)

section \<open>White space and trimming\<close>

text \<open>
  \<open>unicode.IsSpace\<close> on UTF-8 bytes: the ASCII spaces, and the encodings of U+0085, U+00A0,
  U+1680, U+2000 to U+200A, U+2028, U+2029, U+202F, U+205F and U+3000.
\<close>

definition space_runes :: "string list" where
  "space_runes =
     map (\<lambda>c. [c]) [CHR 0x09, CHR 0x0A, CHR 0x0B, CHR 0x0C, CHR 0x0D, CHR 0x20] @
     [[CHR 0xC2, CHR 0x85], [CHR 0xC2, CHR 0xA0], [CHR 0xE1, CHR 0x9A, CHR 0x80]] @
     map (\<lambda>c. [CHR 0xE2, CHR 0x80, c])
       [CHR 0x80, CHR 0x81, CHR 0x82, CHR 0x83, CHR 0x84, CHR 0x85, CHR 0x86, CHR 0x87,
        CHR 0x88, CHR 0x89, CHR 0x8A, CHR 0xA8, CHR 0xA9, CHR 0xAF] @
     [[CHR 0xE2, CHR 0x81, CHR 0x9F], [CHR 0xE3, CHR 0x80, CHR 0x80]]"

function trim_with :: "string list \<Rightarrow> string \<Rightarrow> string" where
  "trim_with rs s =
     (case find (\<lambda>r. r \<noteq> [] \<and> prefix r s) rs of
        None \<Rightarrow> s
      | Some r \<Rightarrow> trim_with rs (drop (length r) s))"
  by pat_completeness auto
termination
proof (relation "measure (\<lambda>(rs, s). length s)")
  fix rs s r
  assume "find (\<lambda>r. r \<noteq> [] \<and> prefix r s) rs = Some r"
  then have "r \<noteq> [] \<and> prefix r s"
    by (auto simp: find_Some_iff)
  then show "((rs, drop (length r) s), rs, s) \<in> measure (\<lambda>(rs, s). length s)"
    by (cases s) (auto simp: prefix_def)
qed simp

declare trim_with.simps [simp del]

definition trim_left :: "string \<Rightarrow> string" where
  "trim_left s = trim_with space_runes s"

definition trim_right :: "string \<Rightarrow> string" where
  "trim_right s = rev (trim_with (map rev space_runes) (rev s))"

definition trim_space :: "string \<Rightarrow> string" where
  "trim_space s = trim_right (trim_left s)"

text \<open>The idiom \<open>strings.TrimSpace(s) == ""\<close>.\<close>

definition blank :: "string \<Rightarrow> bool" where
  "blank s \<longleftrightarrow> trim_space s = []"

lemma trim_with_suffix: "suffix (trim_with rs s) s"
proof (induction rs s rule: trim_with.induct)
  case (1 rs s)
  show ?case
  proof (cases "find (\<lambda>r. r \<noteq> [] \<and> prefix r s) rs")
    case None
    then show ?thesis by (simp add: trim_with.simps [of rs s])
  next
    case (Some r)
    with "1.IH" have "suffix (trim_with rs (drop (length r) s)) (drop (length r) s)"
      by blast
    also have "suffix (drop (length r) s) s" by (rule suffix_drop)
    finally show ?thesis using Some by (simp add: trim_with.simps [of rs s])
  qed
qed

lemma trim_with_clean:
  "r \<in> set rs \<Longrightarrow> r \<noteq> [] \<Longrightarrow> \<not> prefix r (trim_with rs s)"
proof (induction rs s rule: trim_with.induct)
  case (1 rs s)
  show ?case
  proof (cases "find (\<lambda>r. r \<noteq> [] \<and> prefix r s) rs")
    case None
    then have "trim_with rs s = s" by (simp add: trim_with.simps [of rs s])
    with None "1.prems" show ?thesis by (auto simp: find_None_iff)
  next
    case (Some r')
    with 1 show ?thesis by (simp add: trim_with.simps [of rs s])
  qed
qed

lemma trim_with_fixed:
  "(\<And>r. r \<in> set rs \<Longrightarrow> r \<noteq> [] \<Longrightarrow> \<not> prefix r s) \<Longrightarrow> trim_with rs s = s"
proof -
  assume "\<And>r. r \<in> set rs \<Longrightarrow> r \<noteq> [] \<Longrightarrow> \<not> prefix r s"
  then have "find (\<lambda>r. r \<noteq> [] \<and> prefix r s) rs = None" by (auto simp: find_None_iff)
  then show ?thesis by (simp add: trim_with.simps [of rs s])
qed

lemma trim_with_idem [simp]: "trim_with rs (trim_with rs s) = trim_with rs s"
  by (rule trim_with_fixed) (rule trim_with_clean)

lemma trim_right_idem [simp]: "trim_right (trim_right s) = trim_right s"
  by (simp add: trim_right_def)

lemma trim_right_prefix: "prefix (trim_right s) s"
  using trim_with_suffix [of "map rev space_runes" "rev s"]
  by (simp add: trim_right_def suffix_to_prefix)

lemma trim_left_of_trim_right:
  "trim_left s = s \<Longrightarrow> trim_left (trim_right s) = trim_right s"
  unfolding trim_left_def
  by (rule trim_with_fixed)
    (metis trim_with_clean prefix_order.trans trim_right_prefix)

lemma trim_left_idem [simp]: "trim_left (trim_left s) = trim_left s"
  by (simp add: trim_left_def)

lemma trim_space_idem [simp]: "trim_space (trim_space s) = trim_space s"
  by (simp add: trim_space_def trim_left_of_trim_right)

lemma trim_space_Nil [simp]: "trim_space [] = []"
  by (simp add: trim_space_def trim_left_def trim_right_def trim_with_fixed prefix_Nil)

lemma blank_Nil [simp]: "blank []"
  by (simp add: blank_def)

section \<open>Letters\<close>

text \<open>The ranges of bytes that the tests of names compare with.\<close>

definition byte_range :: "nat \<Rightarrow> nat \<Rightarrow> char \<Rightarrow> bool" where
  "byte_range a b c \<longleftrightarrow> a \<le> of_char c \<and> of_char c \<le> b"

definition lower_letter :: "char \<Rightarrow> bool" where
  "lower_letter c \<longleftrightarrow> byte_range 97 122 c"

definition upper_letter :: "char \<Rightarrow> bool" where
  "upper_letter c \<longleftrightarrow> byte_range 65 90 c"

definition digit_char :: "char \<Rightarrow> bool" where
  "digit_char c \<longleftrightarrow> byte_range 48 57 c"

lemmas letter_defs = lower_letter_def upper_letter_def digit_char_def byte_range_def

section \<open>Searching and splitting\<close>

fun str_contains :: "string \<Rightarrow> string \<Rightarrow> bool" where
  "str_contains s t = (prefix t s \<or> (case s of [] \<Rightarrow> False | c # cs \<Rightarrow> str_contains cs t))"

declare str_contains.simps [simp del]

lemma str_contains_iff: "str_contains s t \<longleftrightarrow> (\<exists>u v. s = u @ t @ v)"
proof (induction s)
  case Nil
  show ?case by (auto simp: str_contains.simps [of "[]"])
next
  case (Cons c cs)
  show ?case
  proof
    assume "str_contains (c # cs) t"
    then consider "prefix t (c # cs)" | "str_contains cs t"
      by (auto simp: str_contains.simps [of "c # cs"])
    then show "\<exists>u v. c # cs = u @ t @ v"
    proof cases
      case 1
      then obtain v where "c # cs = [] @ t @ v" by (auto simp: prefix_def)
      then show ?thesis by blast
    next
      case 2
      then obtain u v where "cs = u @ t @ v" using Cons by blast
      then have "c # cs = (c # u) @ t @ v" by simp
      then show ?thesis by blast
    qed
  next
    assume "\<exists>u v. c # cs = u @ t @ v"
    then obtain u v where e: "c # cs = u @ t @ v" by blast
    show "str_contains (c # cs) t"
    proof (cases u)
      case Nil
      with e have "prefix t (c # cs)" by (auto simp: prefix_def)
      then show ?thesis by (simp add: str_contains.simps [of "c # cs"])
    next
      case (Cons d u')
      with e have "cs = u' @ t @ v" by simp
      then have "str_contains cs t" using Cons.IH by blast
      then show ?thesis by (simp add: str_contains.simps [of "c # cs"])
    qed
  qed
qed

text \<open>\<open>strings.Cut\<close> with a one-byte separator, and \<open>strings.SplitN(s, sep, 2)\<close>.\<close>

fun cut :: "char \<Rightarrow> string \<Rightarrow> (string \<times> string) option" where
  "cut c [] = None"
| "cut c (x # xs) =
     (if x = c then Some ([], xs) else map_option (\<lambda>(a, b). (x # a, b)) (cut c xs))"

definition split_two :: "char \<Rightarrow> string \<Rightarrow> string list" where
  "split_two c s = (case cut c s of None \<Rightarrow> [s] | Some (a, b) \<Rightarrow> [a, b])"

lemma cut_Some: "cut c s = Some (a, b) \<Longrightarrow> s = a @ c # b \<and> c \<notin> set a"
  by (induction s arbitrary: a) (auto split: if_splits)

lemma cut_None: "cut c s = None \<longleftrightarrow> c \<notin> set s"
  by (induction s) auto

lemma cut_append: "c \<notin> set a \<Longrightarrow> cut c (a @ c # b) = Some (a, b)"
  by (induction a) auto

section \<open>Sets and membership\<close>

text \<open>The duplicate-and-reject loops over a \<open>seen\<close> map.\<close>

definition to_set :: "'a list \<Rightarrow> 'a \<Rightarrow> bool" where
  "to_set xs x \<longleftrightarrow> x \<in> set xs"

lemma to_set_iff [simp]: "to_set xs x \<longleftrightarrow> x \<in> set xs"
  by (simp add: to_set_def)

section \<open>Panics\<close>

text \<open>A call that may dereference nil or index out of range.\<close>

datatype 'a outcome = Panic | Returned 'a

section \<open>Splitting at every separator\<close>

text \<open>\<open>strings.Split\<close> with a one-byte separator.\<close>

fun split_all :: "char \<Rightarrow> string \<Rightarrow> string list" where
  "split_all c [] = [[]]"
| "split_all c (x # xs) =
     (if x = c then [] # split_all c xs
      else (case split_all c xs of [] \<Rightarrow> [[x]] | w # ws \<Rightarrow> (x # w) # ws))"

lemma split_all_ne [simp]: "split_all c s \<noteq> []"
  by (induction s) (auto split: list.splits)

lemma split_all_none: "c \<notin> set s \<Longrightarrow> split_all c s = [s]"
  by (induction s) auto

lemma split_all_append: "c \<notin> set a \<Longrightarrow> split_all c (a @ c # b) = a # split_all c b"
  by (induction a) auto

text \<open>\<open>strings.Join\<close>\<close>

fun join_with :: "string \<Rightarrow> string list \<Rightarrow> string" where
  "join_with sep [] = []"
| "join_with sep [x] = x"
| "join_with sep (x # xs) = x @ sep @ join_with sep xs"

lemma join_with_Cons: "xs \<noteq> [] \<Longrightarrow> join_with sep (x # xs) = x @ sep @ join_with sep xs"
  by (cases xs) simp_all

lemma split_join:
  "xs \<noteq> [] \<Longrightarrow> \<forall>x \<in> set xs. c \<notin> set x \<Longrightarrow> split_all c (join_with [c] xs) = xs"
  by (induction xs rule: induct_list012) (simp_all add: split_all_none split_all_append)

section \<open>Parsed URLs\<close>

text \<open>What the program reads of a \<open>url.URL\<close>.\<close>

record go_url =
  url_scheme :: string
  url_host :: string
  url_hostname :: string
  url_port :: string
  url_has_user :: bool
  url_query :: string
  url_fragment :: string
  url_path :: string
  url_string :: string

section \<open>Object keys\<close>

text \<open>
  Plans, drift reports and revisions are sorted by kind and then by identity with the comparison
  \<open>a.Kind == b.Kind ? a.ID < b.ID : a.Kind < b.Kind\<close>. The pair is a linear order of its own.
\<close>

datatype object_key = ObjectKey (key_kind: string) (key_id: string)

instantiation object_key :: linorder
begin

definition less_eq_object_key :: "object_key \<Rightarrow> object_key \<Rightarrow> bool" where
  "less_eq_object_key a b \<longleftrightarrow>
     (if key_kind a = key_kind b then key_id a \<le> key_id b else key_kind a < key_kind b)"

definition less_object_key :: "object_key \<Rightarrow> object_key \<Rightarrow> bool" where
  "less_object_key a b \<longleftrightarrow>
     (if key_kind a = key_kind b then key_id a < key_id b else key_kind a < key_kind b)"

instance
  by standard
    (auto simp: less_eq_object_key_def less_object_key_def object_key.expand split: if_splits)

end

text \<open>Sorting by a key that tells the elements apart does not depend on the input order.\<close>

lemma sort_key_unique:
  assumes "mset xs = mset ys" and "inj_on f (set xs)" and "distinct xs"
  shows "sort_key f xs = sort_key f ys"
proof (rule properties_for_sort_key)
  show "mset (sort_key f ys) = mset xs" using assms(1) by simp
  show "sorted (map f (sort_key f ys))" by simp
  fix k assume "k \<in> set (sort_key f ys)"
  have d: "distinct ys" using assms(1,3) by (metis mset_eq_imp_distinct_iff)
  have i: "inj_on f (set ys)" using assms(1,2) by (metis mset_eq_setD)
  have one: "filter (\<lambda>x. f k = f x) zs = (if k \<in> set zs then [k] else [])"
    if "distinct zs" "inj_on f (set zs \<union> {k})" for zs
    using that by (induction zs) (auto simp: inj_on_def)
  have "k \<in> set ys" using \<open>k \<in> set (sort_key f ys)\<close> by simp
  moreover then have "k \<in> set xs" using assms(1) by (metis mset_eq_setD)
  ultimately show "filter (\<lambda>x. f k = f x) (sort_key f ys) = filter (\<lambda>x. f k = f x) xs"
    using one [of "sort_key f ys"] one [of xs] d i assms(2,3) by (simp add: insert_absorb)
qed

section \<open>Runs of a guarded machine\<close>

text \<open>
  A method is a function from the state and a command to the next state and an outcome.
  \<open>run_all\<close> issues a list of commands and forgets the outcomes.
\<close>

fun run_all :: "('s \<Rightarrow> 'c \<Rightarrow> 's \<times> 'o) \<Rightarrow> 's \<Rightarrow> 'c list \<Rightarrow> 's" where
  "run_all f s [] = s"
| "run_all f s (c # cs) = run_all f (fst (f s c)) cs"

lemma run_all_append: "run_all f s (xs @ ys) = run_all f (run_all f s xs) ys"
  by (induction xs arbitrary: s) auto

text \<open>
  The contract a guarded component keeps on the part of its state that it owns: an error leaves
  that part as it was, and a success keeps the component's invariant. What lies outside the view,
  a store behind an interface, may change on an error too.
\<close>

locale guarded_view =
  fixes exec :: "'s \<Rightarrow> 'c \<Rightarrow> 's \<times> ('e + 'r)"
    and view :: "'s \<Rightarrow> 'v"
    and inv :: "'v \<Rightarrow> bool"
  assumes fail_view: "exec s c = (s', Inl e) \<Longrightarrow> view s' = view s"
    and step_view: "inv (view s) \<Longrightarrow> exec s c = (s', Inr r) \<Longrightarrow> inv (view s')"
begin

lemma step_keeps: "inv (view s) \<Longrightarrow> inv (view (fst (exec s c)))"
  by (cases "exec s c"; cases "snd (exec s c)") (auto dest: fail_view step_view)

lemma run_keeps: "inv (view s) \<Longrightarrow> inv (view (run_all exec s cs))"
  by (induction cs arbitrary: s) (auto intro: step_keeps)

end

text \<open>A component that owns its whole state.\<close>

locale guarded_machine =
  fixes exec :: "'s \<Rightarrow> 'c \<Rightarrow> 's \<times> ('e + 'r)"
    and inv :: "'s \<Rightarrow> bool"
  assumes fail_frame: "exec s c = (s', Inl e) \<Longrightarrow> s' = s"
    and step_inv: "inv s \<Longrightarrow> exec s c = (s', Inr r) \<Longrightarrow> inv s'"

sublocale guarded_machine \<subseteq> guarded_view exec "\<lambda>s. s" inv
  by unfold_locales (auto dest: fail_frame step_inv)

end
