(* ===== verification/Replica_Operation.thy ===== *)
theory Replica_Operation
  imports Go_Base
begin

text \<open>
  \<open>replication/operation.go\<close>: the replicated operation, its validation, its canonical digest
  and its encoding, and \<open>replication/node.go\<close>'s \<open>StateMachine\<close> interface as a locale.

  \<open>encoding/json\<close>'s canonical forms rest on floating-point printing and reflection, and
  SHA-256 is a cryptographic primitive: they are the fields of \<open>codec\<close>, a parameter of every
  definition that uses them. No law is assumed of them in general; a theorem that needs one
  names it for the value at hand.
\<close>

section \<open>The operation\<close>

record committed_meta =
  cm_timestamp :: string

record operation =
  op_id :: string
  op_product :: string
  op_version :: int
  op_kind :: string
  op_object_kind :: string
  op_object_id :: string
  op_revision :: int
  op_domain_revision :: int
  op_payload :: string
  op_origin_node :: string
  op_actor :: string
  op_committed :: committed_meta

datatype op_error =
    OpIDRequired
  | ProductRequired
  | OpVersionUnsupported int
  | KindRequired
  | ObjectIDRequired
  | PayloadRequired
  | KindUnsupported string
  | OpJSON

text \<open>
  What the package uses of \<open>encoding/json\<close> and \<open>crypto/sha256\<close> for operations:
  \<open>normalize\<close> is \<open>Unmarshal\<close> into \<open>any\<close> followed by \<open>Marshal\<close>, \<open>marshal_op\<close> and
  \<open>unmarshal_op\<close> are the two directions for \<open>Operation\<close>, \<open>kv_value\<close> reads the \<open>value\<close>
  member of a payload and \<open>sha_hex\<close> is the hexadecimal SHA-256 sum.
\<close>

record codec =
  normalize :: "string \<Rightarrow> string option"
  marshal_op :: "operation \<Rightarrow> string option"
  unmarshal_op :: "string \<Rightarrow> operation option"
  kv_value :: "string \<Rightarrow> string option"
  sha_hex :: "string \<Rightarrow> string"

definition replication_version :: int where
  "replication_version = 2"

definition supported_version :: "int \<Rightarrow> bool" where
  "supported_version v \<longleftrightarrow> 1 \<le> v \<and> v \<le> replication_version"

definition kind_set :: string where
  "kind_set = ''kv.set''"

definition kind_delete :: string where
  "kind_delete = ''kv.delete''"

definition validate_kind :: "string \<Rightarrow> op_error + unit" where
  "validate_kind k =
     (if k = kind_set \<or> k = kind_delete then Inr () else Inl (KindUnsupported k))"

definition op_validate :: "operation \<Rightarrow> op_error + unit" where
  "op_validate o1 =
     (if blank (op_id o1) then Inl OpIDRequired
      else if blank (op_product o1) then Inl ProductRequired
      else if \<not> supported_version (op_version o1) then Inl (OpVersionUnsupported (op_version o1))
      else if blank (op_kind o1) then Inl KindRequired
      else if blank (op_object_id o1) then Inl ObjectIDRequired
      else if length (trim_space (op_payload o1)) = 0 then Inl PayloadRequired
      else Inr ())"

definition op_digest :: "('a) codec_scheme \<Rightarrow> operation \<Rightarrow> op_error + string" where
  "op_digest J o1 =
     (case normalize J (op_payload o1) of
        None \<Rightarrow> Inl OpJSON
      | Some p \<Rightarrow> Inr (sha_hex J p))"

text \<open>
  \<open>Encode\<close> has a pointer receiver: it leaves the normalised payload and the timestamp in the
  operation it encodes. \<open>now\<close> is the proposing leader's clock, already formatted.
\<close>

definition op_encode ::
  "('a) codec_scheme \<Rightarrow> string \<Rightarrow> operation \<Rightarrow> operation \<times> (op_error + string)" where
  "op_encode J now o1 =
     (case op_validate o1 of
        Inl e \<Rightarrow> (o1, Inl e)
      | Inr _ \<Rightarrow>
          (case normalize J (op_payload o1) of
             None \<Rightarrow> (o1, Inl OpJSON)
           | Some p \<Rightarrow>
               (let o2 = o1\<lparr>op_payload := p\<rparr>;
                    o3 = (if cm_timestamp (op_committed o2) = []
                          then o2\<lparr>op_committed := \<lparr>cm_timestamp = now\<rparr>\<rparr> else o2)
                in (o3, case marshal_op J o3 of None \<Rightarrow> Inl OpJSON | Some b \<Rightarrow> Inr b))))"

definition decode_operation :: "('a) codec_scheme \<Rightarrow> string \<Rightarrow> op_error + operation" where
  "decode_operation J b =
     (case unmarshal_op J b of
        None \<Rightarrow> Inl OpJSON
      | Some o1 \<Rightarrow> (case op_validate o1 of Inl e \<Rightarrow> Inl e | Inr _ \<Rightarrow> Inr o1))"

lemma validate_kind_ok: "validate_kind k = Inr u \<longleftrightarrow> k = kind_set \<or> k = kind_delete"
  by (auto simp: validate_kind_def)

lemma decode_operation_valid:
  "decode_operation J b = Inr o1 \<Longrightarrow> op_validate o1 = Inr ()"
  by (auto simp: decode_operation_def split: option.splits sum.splits)

lemma op_encode_fields:
  assumes "op_encode J now o1 = (o2, Inr b)"
  shows "op_id o2 = op_id o1" "op_product o2 = op_product o1" "op_version o2 = op_version o1"
    "op_kind o2 = op_kind o1" "op_object_id o2 = op_object_id o1"
    "op_revision o2 = op_revision o1" "normalize J (op_payload o1) = Some (op_payload o2)"
    "marshal_op J o2 = Some b" "op_validate o1 = Inr ()"
  using assms
  by (auto simp: op_encode_def Let_def split: sum.splits option.splits if_splits)

lemma op_validate_payload:
  assumes "op_validate o1 = Inr ()" and "\<not> blank (op_payload o2)"
    and "op_id o2 = op_id o1" "op_product o2 = op_product o1" "op_version o2 = op_version o1"
    "op_kind o2 = op_kind o1" "op_object_id o2 = op_object_id o1"
  shows "op_validate o2 = Inr ()"
  using assms by (auto simp: op_validate_def blank_def split: if_splits)

text \<open>Encode/decode round trip: the bytes a leader proposes decode, on every replica, to exactly
  the operation it encoded, with the digest of the operation as submitted; a timestamp the caller
  supplied is kept, and encoding the stored operation again at any later clock gives the same
  bytes. The JSON hypotheses concern this one operation only.\<close>

theorem operation_encode_decode:
  assumes enc: "op_encode J now o1 = (o2, Inr b)"
    and clock: "now \<noteq> []"
    and json: "unmarshal_op J b = Some o2"
    and canonical: "normalize J (op_payload o2) = Some (op_payload o2)" "\<not> blank (op_payload o2)"
  shows "decode_operation J b = Inr o2 \<and> op_digest J o2 = op_digest J o1 \<and>
    (cm_timestamp (op_committed o1) \<noteq> [] \<longrightarrow> op_committed o2 = op_committed o1) \<and>
    op_encode J later o2 = (o2, Inr b)"
proof -
  note f = op_encode_fields [OF enc]
  have v: "op_validate o2 = Inr ()"
    by (rule op_validate_payload [OF f(9) canonical(2)]) (simp_all add: f)
  have ts: "cm_timestamp (op_committed o2) \<noteq> []"
    "cm_timestamp (op_committed o1) \<noteq> [] \<Longrightarrow> op_committed o2 = op_committed o1"
    using enc clock
    by (auto simp: op_encode_def Let_def split: sum.splits option.splits if_splits)
  have "decode_operation J b = Inr o2"
    using json v by (simp add: decode_operation_def)
  moreover have "op_digest J o2 = op_digest J o1"
    using f(7) canonical(1) by (simp add: op_digest_def)
  moreover have "op_encode J later o2 = (o2, Inr b)"
    using v canonical(1) ts(1) f(8) by (simp add: op_encode_def Let_def)
  ultimately show ?thesis using ts(2) by blast
qed

section \<open>A concrete operation and codec, for the witnesses\<close>

definition ex_op :: operation where
  "ex_op = \<lparr>op_id = ''op-1'', op_product = ''kv'', op_version = 1, op_kind = ''kv.set'',
     op_object_kind = ''key'', op_object_id = ''k'', op_revision = 0, op_domain_revision = 0,
     op_payload = ''v1'', op_origin_node = ''n1'', op_actor = [],
     op_committed = \<lparr>cm_timestamp = ''t0''\<rparr>\<rparr>"

text \<open>A payload is its own canonical form and its own value; an operation is transported by its
  identity and payload.\<close>

definition ex_codec :: codec where
  "ex_codec = \<lparr>normalize = (\<lambda>p. Some p),
     marshal_op = (\<lambda>o1. Some (op_id o1 @ CHR ''|'' # op_kind o1 @ CHR ''|'' # op_payload o1)),
     unmarshal_op = (\<lambda>b. case cut (CHR ''|'') b of None \<Rightarrow> None
        | Some (i, r) \<Rightarrow> (case cut (CHR ''|'') r of None \<Rightarrow> None
        | Some (k, p) \<Rightarrow> Some (ex_op\<lparr>op_id := i, op_kind := k, op_payload := p\<rparr>))),
     kv_value = (\<lambda>p. Some p), sha_hex = (\<lambda>p. p)\<rparr>"

lemma ex_not_blank [simp]:
  "\<not> blank ''op-1''" "\<not> blank ''op-2''" "\<not> blank ''kv''" "\<not> blank ''kv.set''" "\<not> blank ''kv.delete''"
  "\<not> blank ''k''" "\<not> blank ''v1''" "\<not> blank ''v2''"
  by code_simp+

lemma ex_op_valid: "op_validate ex_op = Inr ()"
  by code_simp

theorem operation_encode_decode_witness:
  "decode_operation ex_codec ''op-1|kv.set|v1'' = Inr ex_op \<and>
   op_encode ex_codec ''t9'' ex_op = (ex_op, Inr ''op-1|kv.set|v1'')"
proof -
  have "op_encode ex_codec ''t1'' ex_op = (ex_op, Inr ''op-1|kv.set|v1'')" by code_simp
  moreover have "unmarshal_op ex_codec ''op-1|kv.set|v1'' = Some ex_op" by code_simp
  moreover have "normalize ex_codec (op_payload ex_op) = Some (op_payload ex_op)" by code_simp
  moreover have "\<not> blank (op_payload ex_op)" by code_simp
  ultimately show ?thesis
    using operation_encode_decode [of ex_codec "''t1''" ex_op ex_op _ "''t9''"] by blast
qed

end
