(* ===== verification/Replica_Machine.thy ===== *)
theory Replica_Machine
  imports Replica_Operation
begin

text \<open>
  The interface \<open>StateMachine\<close> of \<open>replication/node.go\<close>: what a node relies on in the product
  state machine it drives. \<open>Replica_KVFSM_Laws\<close> interprets it on the reference implementation;
  \<open>Replica_Node\<close> proves the node's side of the acknowledgement contract inside it.
\<close>

text \<open>The committed log entry \<open>raft.Log\<close>, as far as \<open>Apply\<close> reads it.\<close>

record raft_log =
  rl_index :: u64
  rl_term :: u64
  rl_data :: string

locale state_machine =
  fixes decode :: "string \<Rightarrow> op_error + operation"
    and digest :: "operation \<Rightarrow> op_error + string"
    and apply_log :: "'s \<Rightarrow> raft_log \<Rightarrow> 's \<times> ('e + 'r)"
    and known :: "'s \<Rightarrow> string \<Rightarrow> string option"
  assumes apply_fail: "apply_log s l = (s', Inl e) \<Longrightarrow> s' = s"
    and apply_known:
      "decode (rl_data l) = Inr o1 \<Longrightarrow> known s (op_id o1) \<noteq> None \<Longrightarrow> fst (apply_log s l) = s"
    and apply_records:
      "apply_log s l = (s', Inr r) \<Longrightarrow>
       \<exists>o1 d. decode (rl_data l) = Inr o1 \<and> digest o1 = Inr d \<and> known s' (op_id o1) = Some d"
    and known_stable: "known s i = Some d \<Longrightarrow> known (fst (apply_log s l)) i = Some d"
begin

lemma run_known_stable: "known s i = Some d \<Longrightarrow> known (run_all apply_log s ls) i = Some d"
  by (induction ls arbitrary: s) (auto intro: known_stable)

text \<open>An entry whose operation is already recorded can be erased from the rest of a log.\<close>

lemma known_entry_absorbed:
  assumes "decode (rl_data l) = Inr o1" and "known s (op_id o1) = Some d"
  shows "run_all apply_log s (ls @ l # ms) = run_all apply_log s (ls @ ms)"
proof -
  have "known (run_all apply_log s ls) (op_id o1) = Some d"
    using assms(2) by (rule run_known_stable)
  then have "fst (apply_log (run_all apply_log s ls) l) = run_all apply_log s ls"
    by (intro apply_known [OF assms(1)]) simp
  then show ?thesis by (simp add: run_all_append)
qed

lemma duplicate_absorbed:
  assumes "apply_log s l = (s', Inr r)" and "decode (rl_data l) = Inr o1"
    and "decode (rl_data l2) = Inr o2" and "op_id o2 = op_id o1"
  shows "run_all apply_log s (l # ls @ l2 # ms) = run_all apply_log s (l # ls @ ms)"
proof -
  obtain d where "known s' (op_id o2) = Some d"
    using apply_records [OF assms(1)] assms(2,4) by auto
  then have "run_all apply_log s' (ls @ l2 # ms) = run_all apply_log s' (ls @ ms)"
    by (rule known_entry_absorbed [OF assms(3)])
  then show ?thesis using assms(1) by simp
qed

end

end
