(* ===== verification/Replica_KVFSM.thy ===== *)
theory Replica_KVFSM
  imports Replica_Machine
begin

text \<open>
  \<open>replication/kvfsm.go\<close> and \<open>replication/snapshot.go\<close>: the deterministic key/value state
  machine, its semantic snapshots, and the interface \<open>StateMachine\<close> it provides.

  A Go map is a partial function; copying a map is the same function. \<open>Apply\<close> returns
  \<open>interface{}\<close>: an error or a result pointer, which is nil only for a record restored from a
  snapshot without a result.
\<close>

section \<open>State\<close>

record apply_result =
  ar_index :: u64
  ar_term :: u64
  ar_op_id :: string
  ar_object_id :: string
  ar_kind :: string
  ar_version :: int
  ar_revision :: int

record kv_entry =
  ke_value :: string
  ke_revision :: int

record applied_op =
  ao_digest :: string
  ao_result :: "apply_result option"

record kvfsm =
  f_supported :: int
  f_product :: string
  f_state :: "string \<rightharpoonup> kv_entry"
  f_applied :: "string \<rightharpoonup> applied_op"
  f_index :: u64
  f_term :: u64

datatype kv_error =
    KVDecode op_error
  | KVVersion int int
  | KVKind op_error
  | KVDigest op_error
  | KVPayloadChanged string
  | KVPayload
  | KVStale string int int

definition clamp_schema :: "int \<Rightarrow> int" where
  "clamp_schema n =
     (let m = (if n < 1 then 1 else n)
      in if m > replication_version then replication_version else m)"

definition new_kvfsm_with_schema :: "int \<Rightarrow> kvfsm" where
  "new_kvfsm_with_schema n =
     \<lparr>f_supported = clamp_schema n, f_product = [], f_state = Map.empty, f_applied = Map.empty,
      f_index = 0, f_term = 0\<rparr>"

definition kv_set_supported :: "kvfsm \<Rightarrow> int \<Rightarrow> kvfsm" where
  "kv_set_supported f n = f\<lparr>f_supported := clamp_schema n\<rparr>"

section \<open>Apply\<close>

definition kv_current :: "kvfsm \<Rightarrow> string \<Rightarrow> kv_entry" where
  "kv_current f k = (case f_state f k of None \<Rightarrow> \<lparr>ke_value = [], ke_revision = 0\<rparr> | Some e \<Rightarrow> e)"

definition kv_stale :: "kvfsm \<Rightarrow> operation \<Rightarrow> bool" where
  "kv_stale f o1 \<longleftrightarrow> op_revision o1 \<noteq> 0 \<and>
     (f_state f (op_object_id o1) = None \<or>
      ke_revision (kv_current f (op_object_id o1)) \<noteq> op_revision o1)"

text \<open>The \<open>switch op.Kind\<close>: the new keyspace and the new revision, or an error.\<close>

definition kv_mutate ::
  "('a) codec_scheme \<Rightarrow> kvfsm \<Rightarrow> operation \<Rightarrow> kv_error + (string \<rightharpoonup> kv_entry) \<times> int" where
  "kv_mutate J f o1 =
     (let k = op_object_id o1; cur = kv_current f k; new_rev = wrap64 (ke_revision cur + 1)
      in if op_kind o1 = kind_set then
           (case kv_value J (op_payload o1) of
              None \<Rightarrow> Inl KVPayload
            | Some v \<Rightarrow>
                if kv_stale f o1 then Inl (KVStale k (op_revision o1) (ke_revision cur))
                else Inr ((f_state f)(k \<mapsto> \<lparr>ke_value = v, ke_revision = new_rev\<rparr>), new_rev))
         else if op_kind o1 = kind_delete then
           (if kv_stale f o1 then Inl (KVStale k (op_revision o1) (ke_revision cur))
            else Inr ((f_state f)(k := None), new_rev))
         else Inl (KVKind (KindUnsupported (op_kind o1))))"

definition kv_apply_locked ::
  "('a) codec_scheme \<Rightarrow> kvfsm \<Rightarrow> operation \<Rightarrow> u64 \<Rightarrow> u64 \<Rightarrow>
   kvfsm \<times> (kv_error + apply_result option)" where
  "kv_apply_locked J f o1 index trm =
     (if op_version o1 > f_supported f then (f, Inl (KVVersion (op_version o1) (f_supported f)))
      else (case validate_kind (op_kind o1) of
        Inl e \<Rightarrow> (f, Inl (KVKind e))
      | Inr _ \<Rightarrow>
      (case op_digest J o1 of
        Inl e \<Rightarrow> (f, Inl (KVDigest e))
      | Inr digest \<Rightarrow>
      (case f_applied f (op_id o1) of
        Some prior \<Rightarrow>
          if ao_digest prior \<noteq> digest then (f, Inl (KVPayloadChanged (op_id o1)))
          else (f, Inr (ao_result prior))
      | None \<Rightarrow>
      (case kv_mutate J f o1 of
        Inl e \<Rightarrow> (f, Inl e)
      | Inr (state', new_rev) \<Rightarrow>
          (let res = \<lparr>ar_index = index, ar_term = trm, ar_op_id = op_id o1,
                      ar_object_id = op_object_id o1, ar_kind = op_kind o1,
                      ar_version = op_version o1, ar_revision = new_rev\<rparr>
           in (f\<lparr>f_state := state',
                 f_applied := (f_applied f)(op_id o1 \<mapsto> \<lparr>ao_digest = digest, ao_result = Some res\<rparr>),
                 f_product := (if f_product f = [] then op_product o1 else f_product f),
                 f_index := index, f_term := trm\<rparr>,
               Inr (Some res))))))))"

definition kv_apply ::
  "('a) codec_scheme \<Rightarrow> kvfsm \<Rightarrow> raft_log \<Rightarrow> kvfsm \<times> (kv_error + apply_result option)" where
  "kv_apply J f l =
     (case decode_operation J (rl_data l) of
        Inl e \<Rightarrow> (f, Inl (KVDecode e))
      | Inr o1 \<Rightarrow> kv_apply_locked J f o1 (rl_index l) (rl_term l))"

definition kv_op_known :: "kvfsm \<Rightarrow> string \<Rightarrow> string option" where
  "kv_op_known f i = map_option ao_digest (f_applied f i)"

definition kv_get :: "kvfsm \<Rightarrow> string \<Rightarrow> string \<times> int \<times> bool" where
  "kv_get f k = (case f_state f k of None \<Rightarrow> ([], 0, False)
     | Some e \<Rightarrow> (ke_value e, ke_revision e, True))"

definition kv_applied_index :: "kvfsm \<Rightarrow> u64 \<times> u64" where
  "kv_applied_index f = (f_index f, f_term f)"

lemmas kv_apply_splits = option.splits sum.splits if_splits prod.splits

lemma kv_apply_locked_fail:
  "kv_apply_locked J f o1 i t = (f', Inl e) \<Longrightarrow> f' = f"
  by (auto simp: kv_apply_locked_def Let_def split: kv_apply_splits)

lemma kv_apply_fail: "kv_apply J f l = (f', Inl e) \<Longrightarrow> f' = f"
  by (auto simp: kv_apply_def split: sum.splits dest: kv_apply_locked_fail)

lemma kv_apply_supported [simp]: "f_supported (fst (kv_apply J f l)) = f_supported f"
  by (auto simp: kv_apply_def kv_apply_locked_def Let_def split: kv_apply_splits)

text \<open>The two ways an application succeeds: the recorded result, or a new record.\<close>

lemma kv_apply_ok_cases:
  assumes "kv_apply J f l = (f', Inr r)"
  obtains (retry) o1 d where "decode_operation J (rl_data l) = Inr o1"
      "f_applied f (op_id o1) = Some \<lparr>ao_digest = d, ao_result = r\<rparr>"
      "op_digest J o1 = Inr d" "f' = f"
  | (fresh) o1 d st rev res where "decode_operation J (rl_data l) = Inr o1"
      "f_applied f (op_id o1) = None" "op_digest J o1 = Inr d" "r = Some res"
      "kv_mutate J f o1 = Inr (st, rev)" "f_state f' = st"
      "f_applied f' = (f_applied f)(op_id o1 \<mapsto> \<lparr>ao_digest = d, ao_result = Some res\<rparr>)"
      "res = \<lparr>ar_index = rl_index l, ar_term = rl_term l, ar_op_id = op_id o1,
              ar_object_id = op_object_id o1, ar_kind = op_kind o1, ar_version = op_version o1,
              ar_revision = rev\<rparr>"
      "f_index f' = rl_index l" "f_term f' = rl_term l"
proof -
  from assms obtain o1 where d: "decode_operation J (rl_data l) = Inr o1"
    and a: "kv_apply_locked J f o1 (rl_index l) (rl_term l) = (f', Inr r)"
    by (auto simp: kv_apply_def split: sum.splits)
  from a obtain dg where dg: "op_digest J o1 = Inr dg"
    by (auto simp: kv_apply_locked_def split: kv_apply_splits)
  show thesis
  proof (cases "f_applied f (op_id o1)")
    case (Some prior)
    with a dg have "f' = f" "ao_digest prior = dg" "r = ao_result prior"
      by (auto simp: kv_apply_locked_def split: kv_apply_splits)
    with Some d dg show thesis by (intro retry [of o1 dg]) (auto intro: applied_op.equality)
  next
    case None
    with a dg obtain st rev where "kv_mutate J f o1 = Inr (st, rev)"
      by (auto simp: kv_apply_locked_def split: kv_apply_splits)
    with None a dg d show thesis
      by (intro fresh [of o1 dg _ st rev]) (auto simp: kv_apply_locked_def Let_def split: kv_apply_splits)
  qed
qed

section \<open>Snapshots\<close>

definition snapshot_format_version :: int where
  "snapshot_format_version = 1"

record snapshot_envelope =
  se_format :: int
  se_replication :: int
  se_product :: string
  se_index :: u64
  se_term :: u64
  se_state :: "string \<rightharpoonup> kv_entry"
  se_applied :: "string \<rightharpoonup> applied_op"
  se_integrity :: string

text \<open>\<open>encoding/json\<close> for envelopes, added to the parameter.\<close>

record snap_codec = codec +
  marshal_snap :: "snapshot_envelope \<Rightarrow> string option"
  unmarshal_snap :: "string \<Rightarrow> snapshot_envelope option"

datatype snap_error =
    SnapFormat int
  | SnapReplication int
  | SnapJSON
  | SnapIntegrity
  | SnapRead
  | SnapWrite
  | SnapClose
  | SnapUnsupported int int

definition snap_validate :: "snapshot_envelope \<Rightarrow> snap_error + unit" where
  "snap_validate e =
     (if se_format e \<noteq> snapshot_format_version then Inl (SnapFormat (se_format e))
      else if \<not> supported_version (se_replication e) then Inl (SnapReplication (se_replication e))
      else Inr ())"

definition content_digest ::
  "('a) snap_codec_scheme \<Rightarrow> snapshot_envelope \<Rightarrow> snap_error + string" where
  "content_digest J e =
     (case marshal_snap J (e\<lparr>se_integrity := []\<rparr>) of
        None \<Rightarrow> Inl SnapJSON | Some b \<Rightarrow> Inr (sha_hex J b))"

definition snap_encode :: "('a) snap_codec_scheme \<Rightarrow> snapshot_envelope \<Rightarrow> snap_error + string" where
  "snap_encode J e =
     (case snap_validate e of
        Inl err \<Rightarrow> Inl err
      | Inr _ \<Rightarrow>
          (case content_digest J e of
             Inl err \<Rightarrow> Inl err
           | Inr d \<Rightarrow>
               (case marshal_snap J (e\<lparr>se_integrity := d\<rparr>) of
                  None \<Rightarrow> Inl SnapJSON | Some b \<Rightarrow> Inr b)))"

definition decode_snapshot :: "('a) snap_codec_scheme \<Rightarrow> string \<Rightarrow> snap_error + snapshot_envelope" where
  "decode_snapshot J b =
     (case unmarshal_snap J b of
        None \<Rightarrow> Inl SnapJSON
      | Some e \<Rightarrow>
          (case content_digest J e of
             Inl err \<Rightarrow> Inl err
           | Inr d \<Rightarrow> if se_integrity e \<noteq> d then Inl SnapIntegrity else Inr e))"

text \<open>
  \<open>Snapshot\<close> copies the state under the lock; \<open>Persist\<close> builds the envelope, encodes it and
  writes it to a raft sink, cancelling the sink on the way out of an error. A sink is what its
  \<open>Write\<close> and \<open>Close\<close> report.
\<close>

record snap_sink =
  sink_write :: "string \<Rightarrow> bool"
  sink_close :: bool

datatype sink_state = SinkCancelled | SinkWritten string

record kv_snapshot =
  ks_product :: string
  ks_supported :: int
  ks_state :: "string \<rightharpoonup> kv_entry"
  ks_applied :: "string \<rightharpoonup> applied_op"
  ks_index :: u64
  ks_term :: u64

definition kv_snapshot_of :: "kvfsm \<Rightarrow> kv_snapshot" where
  "kv_snapshot_of f =
     \<lparr>ks_product = f_product f, ks_supported = f_supported f, ks_state = f_state f,
      ks_applied = f_applied f, ks_index = f_index f, ks_term = f_term f\<rparr>"

definition snap_envelope :: "kv_snapshot \<Rightarrow> snapshot_envelope" where
  "snap_envelope s =
     \<lparr>se_format = snapshot_format_version, se_replication = ks_supported s,
      se_product = ks_product s, se_index = ks_index s, se_term = ks_term s,
      se_state = ks_state s, se_applied = ks_applied s, se_integrity = []\<rparr>"

definition kv_persist ::
  "('a) snap_codec_scheme \<Rightarrow> snap_sink \<Rightarrow> kv_snapshot \<Rightarrow> sink_state \<times> (snap_error + unit)" where
  "kv_persist J sink s =
     (case snap_encode J (snap_envelope s) of
        Inl e \<Rightarrow> (SinkCancelled, Inl e)
      | Inr b \<Rightarrow>
          if \<not> sink_write sink b then (SinkCancelled, Inl SnapWrite)
          else if \<not> sink_close sink then (SinkWritten b, Inl SnapClose)
          else (SinkWritten b, Inr ()))"

text \<open>\<open>Restore\<close> reads the whole stream first; \<open>None\<close> is a failed read.\<close>

definition kv_restore ::
  "('a) snap_codec_scheme \<Rightarrow> kvfsm \<Rightarrow> string option \<Rightarrow> kvfsm \<times> (snap_error + unit)" where
  "kv_restore J f rc =
     (case rc of None \<Rightarrow> (f, Inl SnapRead) | Some b \<Rightarrow>
     (case decode_snapshot J b of
        Inl e \<Rightarrow> (f, Inl e)
      | Inr env \<Rightarrow>
          (case snap_validate env of
             Inl e \<Rightarrow> (f, Inl e)
           | Inr _ \<Rightarrow>
               if se_replication env > f_supported f
               then (f, Inl (SnapUnsupported (se_replication env) (f_supported f)))
               else (f\<lparr>f_product := se_product env, f_state := se_state env,
                       f_applied := se_applied env, f_index := se_index env,
                       f_term := se_term env\<rparr>, Inr ()))))"

end
