(* ===== verification/Replica_KVFSM_Laws.thy ===== *)
theory Replica_KVFSM_Laws
  imports Replica_KVFSM
begin

text \<open>
  What the reference state machine promises: the interface laws, the lifetime of the
  idempotency record over commits, upgrades and snapshot restarts, optimistic concurrency,
  snapshot integrity and catch-up.
\<close>

section \<open>The interface laws\<close>

lemma kv_apply_known_frame:
  "decode_operation J (rl_data l) = Inr o1 \<Longrightarrow> kv_op_known f (op_id o1) \<noteq> None \<Longrightarrow>
   fst (kv_apply J f l) = f"
  by (auto simp: kv_apply_def kv_apply_locked_def kv_op_known_def split: kv_apply_splits)

lemma kv_apply_applied_stable:
  assumes "f_applied f i = Some a"
  shows "f_applied (fst (kv_apply J f l)) i = Some a"
proof (cases "snd (kv_apply J f l)")
  case (Inl e)
  then have "fst (kv_apply J f l) = f"
    by (metis kv_apply_fail prod.collapse)
  with assms show ?thesis by simp
next
  case (Inr r)
  then have "kv_apply J f l = (fst (kv_apply J f l), Inr r)" by (metis prod.collapse)
  then show ?thesis by (cases rule: kv_apply_ok_cases) (use assms in auto)
qed

lemma kv_apply_records:
  assumes "kv_apply J f l = (f', Inr r)"
  shows "\<exists>o1 d. decode_operation J (rl_data l) = Inr o1 \<and> op_digest J o1 = Inr d \<and>
    f_applied f' (op_id o1) = Some \<lparr>ao_digest = d, ao_result = r\<rparr>"
  using assms by (cases rule: kv_apply_ok_cases) auto

interpretation kv: state_machine "decode_operation J" "op_digest J" "kv_apply J" kv_op_known
  for J :: "('a) codec_scheme"
proof
  show "\<And>s l s' e. kv_apply J s l = (s', Inl e) \<Longrightarrow> s' = s" by (rule kv_apply_fail)
  show "\<And>l o1 s. decode_operation J (rl_data l) = Inr o1 \<Longrightarrow> kv_op_known s (op_id o1) \<noteq> None \<Longrightarrow>
      fst (kv_apply J s l) = s" by (rule kv_apply_known_frame)
  show "\<And>s l s' r. kv_apply J s l = (s', Inr r) \<Longrightarrow>
      \<exists>o1 d. decode_operation J (rl_data l) = Inr o1 \<and> op_digest J o1 = Inr d \<and>
        kv_op_known s' (op_id o1) = Some d"
    by (drule kv_apply_records) (auto simp: kv_op_known_def)
  show "\<And>s i d l. kv_op_known s i = Some d \<Longrightarrow> kv_op_known (fst (kv_apply J s l)) i = Some d"
    by (auto simp: kv_op_known_def kv_apply_applied_stable)
qed

section \<open>Lifetime: commits, upgrades, restarts\<close>

text \<open>
  \<open>snap_transports\<close> is the documented behaviour of \<open>encoding/json\<close> for the one envelope at
  hand: the persisted bytes decode to the envelope that was encoded.
\<close>

definition snap_transports :: "('a) snap_codec_scheme \<Rightarrow> kvfsm \<Rightarrow> string \<Rightarrow> bool" where
  "snap_transports J f b \<longleftrightarrow>
     (\<forall>d. content_digest J (snap_envelope (kv_snapshot_of f)) = Inr d \<longrightarrow>
        unmarshal_snap J b = Some ((snap_envelope (kv_snapshot_of f))\<lparr>se_integrity := d\<rparr>))"

inductive kv_step :: "('a) snap_codec_scheme \<Rightarrow> kvfsm \<Rightarrow> kvfsm \<Rightarrow> bool" for J where
  committed: "kv_step J f (fst (kv_apply J f l))"
| upgraded: "kv_step J f (kv_set_supported f n)"
| restarted: "kv_persist J sink (kv_snapshot_of f) = (SinkWritten b, Inr ()) \<Longrightarrow>
    snap_transports J f b \<Longrightarrow>
    kv_restore J (new_kvfsm_with_schema n) (Some b) = (f', Inr ()) \<Longrightarrow> kv_step J f f'"

lemma kv_persist_bytes:
  assumes "kv_persist J sink s = (SinkWritten b, Inr ())"
  shows "snap_validate (snap_envelope s) = Inr () \<and>
    (\<exists>d. content_digest J (snap_envelope s) = Inr d \<and>
         marshal_snap J ((snap_envelope s)\<lparr>se_integrity := d\<rparr>) = Some b)"
  using assms
  by (auto simp: kv_persist_def snap_encode_def split: sum.splits option.splits if_splits)

lemma kv_restore_persisted:
  assumes "kv_persist J sink (kv_snapshot_of f) = (SinkWritten b, Inr ())"
    and "snap_transports J f b" and "f_supported f \<le> f_supported g"
  shows "kv_restore J g (Some b) = (f\<lparr>f_supported := f_supported g\<rparr>, Inr ())"
proof -
  let ?e = "snap_envelope (kv_snapshot_of f)"
  obtain d where d: "content_digest J ?e = Inr d" and v: "snap_validate ?e = Inr ()"
    using kv_persist_bytes [OF assms(1)] by blast
  have "unmarshal_snap J b = Some (?e\<lparr>se_integrity := d\<rparr>)"
    using assms(2) d by (simp add: snap_transports_def)
  moreover have "content_digest J (?e\<lparr>se_integrity := d\<rparr>) = Inr d"
    using d by (simp add: content_digest_def)
  moreover have "snap_validate (?e\<lparr>se_integrity := d\<rparr>) = Inr ()"
    using v by (simp add: snap_validate_def split: if_splits)
  ultimately show ?thesis using assms(3)
    by (simp add: kv_restore_def decode_snapshot_def snap_envelope_def kv_snapshot_of_def)
qed

lemma kv_restore_ok:
  assumes "kv_restore J f rc = (f', Inr ())"
  shows "\<exists>b e. rc = Some b \<and> unmarshal_snap J b = Some e \<and>
    content_digest J e = Inr (se_integrity e) \<and> snap_validate e = Inr () \<and>
    se_replication e \<le> f_supported f \<and>
    f' = f\<lparr>f_product := se_product e, f_state := se_state e, f_applied := se_applied e,
          f_index := se_index e, f_term := se_term e\<rparr>"
  using assms
  by (auto simp: kv_restore_def decode_snapshot_def split: option.splits sum.splits if_splits)

lemma kv_restart_state:
  assumes "kv_persist J sink (kv_snapshot_of f) = (SinkWritten b, Inr ())"
    and "snap_transports J f b" and "kv_restore J g (Some b) = (f', Inr ())"
  shows "f' = f\<lparr>f_supported := f_supported g\<rparr>"
proof -
  obtain d where d: "content_digest J (snap_envelope (kv_snapshot_of f)) = Inr d"
    using kv_persist_bytes [OF assms(1)] by blast
  then have "unmarshal_snap J b = Some ((snap_envelope (kv_snapshot_of f))\<lparr>se_integrity := d\<rparr>)"
    using assms(2) by (simp add: snap_transports_def)
  with kv_restore_ok [OF assms(3)] show ?thesis
    by (auto simp: snap_envelope_def kv_snapshot_of_def)
qed

lemma kv_step_applied_stable:
  "kv_step J f g \<Longrightarrow> f_applied f i = Some a \<Longrightarrow> f_applied g i = Some a"
proof (induction rule: kv_step.induct)
  case (committed f l)
  then show ?case by (rule kv_apply_applied_stable)
next
  case (upgraded f n)
  then show ?case by (simp add: kv_set_supported_def)
next
  case (restarted sink f b n f')
  then have "f' = f\<lparr>f_supported := f_supported (new_kvfsm_with_schema n)\<rparr>"
    by (intro kv_restart_state)
  with restarted.prems show ?case by simp
qed

lemma kv_steps_applied_stable:
  "(kv_step J)\<^sup>*\<^sup>* f g \<Longrightarrow> f_applied f i = Some a \<Longrightarrow> f_applied g i = Some a"
  by (induction rule: rtranclp.induct) (auto intro: kv_step_applied_stable)

section \<open>Concrete values for the witnesses\<close>

definition ex_kv0 :: kvfsm where
  "ex_kv0 = new_kvfsm_with_schema 2"

definition ex_log :: "u64 \<Rightarrow> string \<Rightarrow> raft_log" where
  "ex_log i b = \<lparr>rl_index = i, rl_term = 1, rl_data = b\<rparr>"

definition ex_res1 :: apply_result where
  "ex_res1 = \<lparr>ar_index = 1, ar_term = 1, ar_op_id = ''op-1'', ar_object_id = ''k'',
     ar_kind = ''kv.set'', ar_version = 1, ar_revision = 1\<rparr>"

definition ex_kv1 :: kvfsm where
  "ex_kv1 = \<lparr>f_supported = 2, f_product = ''kv'',
     f_state = [''k'' \<mapsto> \<lparr>ke_value = ''v1'', ke_revision = 1\<rparr>],
     f_applied = [''op-1'' \<mapsto> \<lparr>ao_digest = ''v1'', ao_result = Some ex_res1\<rparr>],
     f_index = 1, f_term = 1\<rparr>"

text \<open>A codec that transports the snapshot of \<open>ex_kv1\<close>.\<close>

definition ex_snap :: snap_codec where
  "ex_snap = codec.extend ex_codec
     \<lparr>marshal_snap = (\<lambda>e. Some (se_product e @ CHR ''|'' # se_integrity e)),
      unmarshal_snap = (\<lambda>b. Some ((snap_envelope (kv_snapshot_of ex_kv1))\<lparr>se_integrity := ''kv|''\<rparr>))\<rparr>"

definition ex_sink :: snap_sink where
  "ex_sink = \<lparr>sink_write = (\<lambda>_. True), sink_close = True\<rparr>"

lemma ex_snap_fields [simp]:
  "normalize ex_snap = (\<lambda>p. Some p)" "sha_hex ex_snap = (\<lambda>p. p)" "kv_value ex_snap = (\<lambda>p. Some p)"
  "unmarshal_op ex_snap = unmarshal_op ex_codec"
  "marshal_snap ex_snap = (\<lambda>e. Some (se_product e @ CHR ''|'' # se_integrity e))"
  "unmarshal_snap ex_snap = (\<lambda>b. Some ((snap_envelope (kv_snapshot_of ex_kv1))\<lparr>se_integrity := ''kv|''\<rparr>))"
  by (simp_all add: ex_snap_def codec.defs snap_codec.defs ex_codec_def)

lemma ex_decode [simp]:
  "decode_operation ex_snap ''op-1|kv.set|v1'' = Inr ex_op"
  "decode_operation ex_snap ''op-1|kv.set|v2'' = Inr (ex_op\<lparr>op_payload := ''v2''\<rparr>)"
  "decode_operation ex_snap ''op-2|kv.set|v2'' = Inr (ex_op\<lparr>op_id := ''op-2'', op_payload := ''v2''\<rparr>)"
  by (simp_all add: decode_operation_def) code_simp+

lemmas ex_kv_defs = ex_kv0_def ex_kv1_def ex_res1_def ex_log_def new_kvfsm_with_schema_def
  clamp_schema_def replication_version_def

lemma ex_op_fields [simp]:
  "op_id ex_op = ''op-1''" "op_version ex_op = 1" "op_kind ex_op = ''kv.set''" "op_product ex_op = ''kv''"
  "op_object_id ex_op = ''k''" "op_revision ex_op = 0" "op_payload ex_op = ''v1''"
  by (simp_all add: ex_op_def)

lemmas kv_apply_defs = kv_apply_def kv_apply_locked_def validate_kind_def kind_set_def
  kind_delete_def op_digest_def kv_mutate_def kv_current_def kv_stale_def Let_def

lemma ex_first_apply:
  "kv_apply ex_snap ex_kv0 (ex_log 1 ''op-1|kv.set|v1'') = (ex_kv1, Inr (Some ex_res1))"
  by (simp add: ex_kv_defs kv_apply_defs wrap64_def)

lemma ex_persist:
  "kv_persist ex_snap ex_sink (kv_snapshot_of ex_kv1) = (SinkWritten ''kv|kv|'', Inr ())"
  "snap_transports ex_snap ex_kv1 ''kv|kv|''"
  by (simp_all add: kv_persist_def snap_encode_def snap_validate_def content_digest_def
      snap_envelope_def kv_snapshot_of_def ex_kv1_def snapshot_format_version_def
      supported_version_def replication_version_def ex_sink_def snap_transports_def)

lemma ex_restore:
  "kv_restore ex_snap (new_kvfsm_with_schema 2) (Some ''kv|kv|'') = (ex_kv1, Inr ())"
  using kv_restore_persisted [OF ex_persist, of "new_kvfsm_with_schema 2"]
  by (simp add: ex_kv_defs)

lemma ex_restart_run: "(kv_step ex_snap)\<^sup>*\<^sup>* ex_kv1 ex_kv1"
proof -
  have "kv_step ex_snap ex_kv1 ex_kv1"
    using ex_persist ex_restore by (rule kv_step.restarted)
  then show ?thesis by (rule r_into_rtranclp)
qed

section \<open>Retries\<close>

text \<open>C1. Durable idempotency: once an operation has been applied, then after any run of further
  commits, live schema changes and restarts from a persisted snapshot, committing an operation
  with the same ID and the same payload digest returns the original result and changes nothing.\<close>

theorem kv_retry_returns_original:
  assumes first: "kv_apply J f l = (f1, Inr r)" "decode_operation J (rl_data l) = Inr o1"
    and run: "(kv_step J)\<^sup>*\<^sup>* f1 g"
    and retry: "decode_operation J (rl_data l2) = Inr o2" "op_id o2 = op_id o1"
      "op_digest J o2 = op_digest J o1"
    and admitted: "op_version o2 \<le> f_supported g" "validate_kind (op_kind o2) = Inr ()"
  shows "kv_apply J g l2 = (g, Inr r)"
proof -
  obtain d where d: "op_digest J o1 = Inr d"
    and a: "f_applied f1 (op_id o1) = Some \<lparr>ao_digest = d, ao_result = r\<rparr>"
    using kv_apply_records [OF first(1)] first(2) by auto
  have "f_applied g (op_id o2) = Some \<lparr>ao_digest = d, ao_result = r\<rparr>"
    using kv_steps_applied_stable [OF run a] retry(2) by simp
  then show ?thesis
    using retry d admitted by (simp add: kv_apply_def kv_apply_locked_def)
qed

theorem kv_retry_returns_original_witness:
  "kv_apply ex_snap ex_kv1 (ex_log 7 ''op-1|kv.set|v1'') = (ex_kv1, Inr (Some ex_res1))"
proof -
  have d: "decode_operation ex_snap (rl_data (ex_log i ''op-1|kv.set|v1'')) = Inr ex_op" for i
    by (simp add: ex_log_def)
  show ?thesis
    by (rule kv_retry_returns_original [OF ex_first_apply d ex_restart_run d])
      (simp_all add: ex_kv_defs validate_kind_def kind_set_def)
qed

text \<open>C2. Fail closed on a changed payload: after the same kind of run, an operation that reuses an
  applied ID with a different payload digest is refused with the dedicated error and changes
  nothing.\<close>

theorem kv_retry_changed_payload_refused:
  assumes first: "kv_apply J f l = (f1, Inr r)" "decode_operation J (rl_data l) = Inr o1"
    and run: "(kv_step J)\<^sup>*\<^sup>* f1 g"
    and retry: "decode_operation J (rl_data l2) = Inr o2" "op_id o2 = op_id o1"
      "op_digest J o2 = Inr d2" "op_digest J o2 \<noteq> op_digest J o1"
    and admitted: "op_version o2 \<le> f_supported g" "validate_kind (op_kind o2) = Inr ()"
  shows "kv_apply J g l2 = (g, Inl (KVPayloadChanged (op_id o1)))"
proof -
  obtain d where d: "op_digest J o1 = Inr d"
    and a: "f_applied f1 (op_id o1) = Some \<lparr>ao_digest = d, ao_result = r\<rparr>"
    using kv_apply_records [OF first(1)] first(2) by auto
  have "f_applied g (op_id o2) = Some \<lparr>ao_digest = d, ao_result = r\<rparr>"
    using kv_steps_applied_stable [OF run a] retry(2) by simp
  then show ?thesis
    using retry d admitted by (simp add: kv_apply_def kv_apply_locked_def)
qed

theorem kv_retry_changed_payload_refused_witness:
  "kv_apply ex_snap ex_kv1 (ex_log 7 ''op-1|kv.set|v2'') = (ex_kv1, Inl (KVPayloadChanged ''op-1''))"
proof -
  have d: "decode_operation ex_snap (rl_data (ex_log 1 ''op-1|kv.set|v1'')) = Inr ex_op"
    "decode_operation ex_snap (rl_data (ex_log 7 ''op-1|kv.set|v2'')) = Inr (ex_op\<lparr>op_payload := ''v2''\<rparr>)"
    by (simp_all add: ex_log_def)
  have "kv_apply ex_snap ex_kv1 (ex_log 7 ''op-1|kv.set|v2'') = (ex_kv1, Inl (KVPayloadChanged (op_id ex_op)))"
    by (rule kv_retry_changed_payload_refused [OF ex_first_apply d(1) ex_restart_run d(2)])
      (simp_all add: ex_kv_defs op_digest_def validate_kind_def kind_set_def)
  then show ?thesis by simp
qed

text \<open>At most once: a later log entry that repeats the ID of a successfully applied operation can
  be erased from the log without changing the state any replica reaches, whatever lies between
  and after them.\<close>

theorem kv_duplicate_entry_absorbed:
  assumes "kv_apply J f l = (f1, Inr r)" and "decode_operation J (rl_data l) = Inr o1"
    and "decode_operation J (rl_data l2) = Inr o2" and "op_id o2 = op_id o1"
  shows "run_all (kv_apply J) f (l # ls @ l2 # ms) = run_all (kv_apply J) f (l # ls @ ms)"
  using assms by (rule kv.duplicate_absorbed)

theorem kv_duplicate_entry_absorbed_witness:
  "run_all (kv_apply ex_snap) ex_kv0
     [ex_log 1 ''op-1|kv.set|v1'', ex_log 2 ''op-2|kv.set|v2'', ex_log 3 ''op-1|kv.set|v2'']
   = run_all (kv_apply ex_snap) ex_kv0
     [ex_log 1 ''op-1|kv.set|v1'', ex_log 2 ''op-2|kv.set|v2'']"
proof -
  have d: "decode_operation ex_snap (rl_data (ex_log 1 ''op-1|kv.set|v1'')) = Inr ex_op"
    "decode_operation ex_snap (rl_data (ex_log 3 ''op-1|kv.set|v2'')) = Inr (ex_op\<lparr>op_payload := ''v2''\<rparr>)"
    by (simp_all add: ex_log_def)
  show ?thesis
    using kv_duplicate_entry_absorbed [OF ex_first_apply d,
        of "[ex_log 2 ''op-2|kv.set|v2'']" "[]"] by simp
qed

section \<open>Optimistic concurrency\<close>

text \<open>C4. A new \<open>kv.set\<close> is a compare-and-swap on the object's revision: with no precondition, or
  with the current revision of an existing object, it stores the value under the next revision,
  touches no other key and records the result at the entry's position; otherwise it is refused as
  stale and the replica is unchanged.\<close>

theorem kv_set_compare_and_swap:
  assumes dec: "decode_operation J (rl_data l) = Inr o1"
    and set: "op_kind o1 = kind_set" "op_version o1 \<le> f_supported f"
    and payload: "op_digest J o1 = Inr d" "kv_value J (op_payload o1) = Some v"
    and new: "f_applied f (op_id o1) = None"
  shows "if op_revision o1 = 0 \<or>
            (\<exists>e. f_state f (op_object_id o1) = Some e \<and> ke_revision e = op_revision o1)
         then \<exists>f' r. kv_apply J f l = (f', Inr (Some r)) \<and>
            f_state f' = (f_state f)(op_object_id o1 \<mapsto> \<lparr>ke_value = v, ke_revision = ar_revision r\<rparr>) \<and>
            ar_revision r = wrap64 (ke_revision (kv_current f (op_object_id o1)) + 1) \<and>
            ar_op_id r = op_id o1 \<and> kv_applied_index f' = (rl_index l, rl_term l)
         else kv_apply J f l =
            (f, Inl (KVStale (op_object_id o1) (op_revision o1)
                      (ke_revision (kv_current f (op_object_id o1)))))"
  using assms
  by (auto simp: kv_apply_defs kv_applied_index_def split: option.splits)

theorem kv_set_compare_and_swap_witness:
  "\<exists>f' r. kv_apply ex_snap ex_kv1 (ex_log 2 ''op-2|kv.set|v2'') = (f', Inr (Some r)) \<and>
     kv_get f' ''k'' = (''v2'', 2, True)"
proof -
  have "decode_operation ex_snap (rl_data (ex_log 2 ''op-2|kv.set|v2''))
      = Inr (ex_op\<lparr>op_id := ''op-2'', op_payload := ''v2''\<rparr>)" by (simp add: ex_log_def)
  from kv_set_compare_and_swap [OF this, of ex_kv1 "''v2''" "''v2''"] show ?thesis
    by (auto simp: ex_kv_defs kind_set_def op_digest_def kv_get_def kv_current_def wrap64_def)
qed

text \<open>A new \<open>kv.delete\<close> obeys the same precondition and removes exactly its key. (The next
  \<open>kv.set\<close> of the key starts again from revision 1.)\<close>

theorem kv_delete_checked:
  assumes dec: "decode_operation J (rl_data l) = Inr o1"
    and del: "op_kind o1 = kind_delete" "op_version o1 \<le> f_supported f"
    and payload: "op_digest J o1 = Inr d"
    and new: "f_applied f (op_id o1) = None"
  shows "if op_revision o1 = 0 \<or>
            (\<exists>e. f_state f (op_object_id o1) = Some e \<and> ke_revision e = op_revision o1)
         then \<exists>f' r. kv_apply J f l = (f', Inr (Some r)) \<and>
            f_state f' = (f_state f)(op_object_id o1 := None) \<and>
            ke_revision (kv_current f' (op_object_id o1)) = 0
         else kv_apply J f l =
            (f, Inl (KVStale (op_object_id o1) (op_revision o1)
                      (ke_revision (kv_current f (op_object_id o1)))))"
  using assms
  by (auto simp: kv_apply_defs split: option.splits)

theorem kv_delete_checked_witness:
  "\<exists>f' r. kv_apply ex_snap ex_kv1 (ex_log 2 ''op-2|kv.delete|x'') = (f', Inr (Some r)) \<and>
     kv_get f' ''k'' = ([], 0, False)"
proof -
  have "decode_operation ex_snap (rl_data (ex_log 2 ''op-2|kv.delete|x''))
      = Inr (ex_op\<lparr>op_id := ''op-2'', op_kind := ''kv.delete'', op_payload := ''x''\<rparr>)"
    unfolding ex_log_def decode_operation_def ex_snap_fields by code_simp
  from kv_delete_checked [OF this, of ex_kv1 "''x''"] show ?thesis
    by (auto simp: ex_kv_defs kind_delete_def op_digest_def kv_get_def)
qed

section \<open>Invariants of a replica\<close>

text \<open>\<open>rev_bounded n\<close>: every live revision lies in 1 to n. \<open>kv_inv\<close>: the advertised schema is one
  this build has, and a recorded result belongs to its operation.\<close>

definition rev_bounded :: "int \<Rightarrow> kvfsm \<Rightarrow> bool" where
  "rev_bounded n f \<longleftrightarrow> (\<forall>k e. f_state f k = Some e \<longrightarrow> 1 \<le> ke_revision e \<and> ke_revision e \<le> n)"

definition kv_inv :: "kvfsm \<Rightarrow> bool" where
  "kv_inv f \<longleftrightarrow> supported_version (f_supported f) \<and>
     (\<forall>i a. f_applied f i = Some a \<longrightarrow> (\<exists>r. ao_result a = Some r \<and> ar_op_id r = i))"

lemma clamp_schema_supported [simp]: "supported_version (clamp_schema n)"
  by (simp add: clamp_schema_def supported_version_def replication_version_def Let_def)

lemma kv_inv_new [simp]: "kv_inv (new_kvfsm_with_schema n)"
  by (simp add: kv_inv_def new_kvfsm_with_schema_def)

lemma kv_apply_inv:
  assumes "kv_inv f" and "kv_apply J f l = (f', Inr r)"
  shows "kv_inv f'"
proof -
  have s: "f_supported f' = f_supported f"
    using assms(2) kv_apply_supported [of J f l] by simp
  from assms(2) show ?thesis
  proof (cases rule: kv_apply_ok_cases)
    case retry
    with assms(1) show ?thesis by simp
  next
    case fresh
    with assms(1) s show ?thesis by (auto simp: kv_inv_def)
  qed
qed

interpretation kvm: guarded_machine "kv_apply J" kv_inv for J :: "('a) codec_scheme"
  by unfold_locales (auto dest: kv_apply_fail kv_apply_inv)

lemma kv_mutate_bounded:
  assumes "kv_mutate J f o1 = Inr (st, nr)" and "rev_bounded n f" and "0 \<le> n" "n < 2 ^ 63 - 1"
  shows "rev_bounded (n + 1) (f\<lparr>f_state := st\<rparr>) \<and> 1 \<le> nr \<and> nr \<le> n + 1"
proof -
  let ?r = "ke_revision (kv_current f (op_object_id o1))"
  have r: "0 \<le> ?r" "?r \<le> n"
    using assms(2,3) by (fastforce simp: kv_current_def rev_bounded_def split: option.splits)+
  then have w: "wrap64 (?r + 1) = ?r + 1"
    using assms(4) by (intro wrap64_succ) auto
  from assms(1) have "nr = wrap64 (?r + 1)"
    and "st = (f_state f)(op_object_id o1 := None) \<or>
      (\<exists>v. st = (f_state f)(op_object_id o1 \<mapsto> \<lparr>ke_value = v, ke_revision = nr\<rparr>))"
    by (auto simp: kv_mutate_def Let_def split: option.splits if_splits)
  with w r assms(2) show ?thesis
    by (fastforce simp: rev_bounded_def)
qed

lemma rev_bounded_mono: "rev_bounded n f \<Longrightarrow> n \<le> m \<Longrightarrow> rev_bounded m f"
  by (force simp: rev_bounded_def)

lemma kv_apply_bounded:
  assumes "rev_bounded n f" and "0 \<le> n" "n < 2 ^ 63 - 1"
  shows "rev_bounded (n + 1) (fst (kv_apply J f l))"
proof (cases "snd (kv_apply J f l)")
  case (Inl e)
  then have "fst (kv_apply J f l) = f" by (metis kv_apply_fail prod.collapse)
  with assms show ?thesis by (auto intro: rev_bounded_mono)
next
  case (Inr r)
  then have "kv_apply J f l = (fst (kv_apply J f l), Inr r)" by (metis prod.collapse)
  then show ?thesis
  proof (cases rule: kv_apply_ok_cases)
    case retry
    with assms show ?thesis by (auto intro: rev_bounded_mono)
  next
    case (fresh o1 d st nr res)
    with kv_mutate_bounded [OF fresh(5) assms] show ?thesis by (simp add: rev_bounded_def)
  qed
qed

lemma kv_run_bounded:
  "rev_bounded n f \<Longrightarrow> 0 \<le> n \<Longrightarrow> n + int (length ls) < 2 ^ 63 \<Longrightarrow>
   rev_bounded (n + int (length ls)) (run_all (kv_apply J) f ls)"
proof (induction ls arbitrary: n f)
  case (Cons l ls)
  have "rev_bounded (n + 1) (fst (kv_apply J f l))"
    using Cons.prems by (intro kv_apply_bounded) auto
  from Cons.IH [OF this] Cons.prems show ?case by (simp add: algebra_simps)
qed simp

text \<open>C5. No revision overflow: a replica built from an empty state by a log of fewer than \<open>2 ^ 63\<close>
  entries holds only revisions between 1 and the length of the log, keeps a schema of this
  build, and every recorded result carries its own operation ID.\<close>

theorem kv_log_invariants:
  assumes "length ls < 2 ^ 63"
  shows "rev_bounded (int (length ls)) (run_all (kv_apply J) (new_kvfsm_with_schema n) ls) \<and>
    kv_inv (run_all (kv_apply J) (new_kvfsm_with_schema n) ls)"
proof -
  have l: "int (length ls) < 2 ^ 63" using assms by (simp add: of_nat_less_numeral_power_cancel_iff)
  have "rev_bounded 0 (new_kvfsm_with_schema n)"
    by (simp add: rev_bounded_def new_kvfsm_with_schema_def)
  from kv_run_bounded [OF this, of ls J] l show ?thesis
    by (simp add: kvm.run_keeps)
qed

theorem kv_log_invariants_witness:
  "rev_bounded 1 (run_all (kv_apply ex_snap) (new_kvfsm_with_schema 2) [ex_log 1 ''op-1|kv.set|v1''])"
  using kv_log_invariants [of "[ex_log 1 ''op-1|kv.set|v1'']" ex_snap 2] by simp

section \<open>Snapshots\<close>

text \<open>C3. Catch-up equals replay: a node whose schema is that of the producer and which installs a
  persisted snapshot taken after the prefix of a log, then applies the rest, ends in exactly the
  state of a replica that applied the whole log.\<close>

theorem kv_catch_up_equals_replay:
  assumes "kv_persist J sink (kv_snapshot_of (run_all (kv_apply J) f xs)) = (SinkWritten b, Inr ())"
    and "snap_transports J (run_all (kv_apply J) f xs) b"
    and "f_supported g = f_supported (run_all (kv_apply J) f xs)"
  shows "snd (kv_restore J g (Some b)) = Inr () \<and>
    run_all (kv_apply J) (fst (kv_restore J g (Some b))) ys = run_all (kv_apply J) f (xs @ ys)"
  using kv_restore_persisted [OF assms(1,2), of g] assms(3)
  by (simp add: run_all_append)

theorem kv_catch_up_equals_replay_witness:
  "run_all (kv_apply ex_snap) (fst (kv_restore ex_snap (new_kvfsm_with_schema 2) (Some ''kv|kv|'')))
     [ex_log 2 ''op-2|kv.set|v2'']
   = run_all (kv_apply ex_snap) ex_kv0 [ex_log 1 ''op-1|kv.set|v1'', ex_log 2 ''op-2|kv.set|v2'']"
proof -
  have r: "run_all (kv_apply ex_snap) ex_kv0 [ex_log 1 ''op-1|kv.set|v1''] = ex_kv1"
    by (simp add: ex_first_apply)
  show ?thesis
    using kv_catch_up_equals_replay [of ex_snap ex_sink ex_kv0 "[ex_log 1 ''op-1|kv.set|v1'']"
        "''kv|kv|''" "new_kvfsm_with_schema 2" "[ex_log 2 ''op-2|kv.set|v2'']"]
      ex_persist r by (simp add: ex_kv_defs)
qed

text \<open>Restore is atomic and guarded: if it reports an error the state machine is untouched, and
  if it succeeds the bytes decoded to an envelope whose integrity field is the digest of its own
  content, whose format and replication version this build and this node accept, and the new
  state is that envelope's with the node's own schema limit kept.\<close>

theorem kv_restore_atomic:
  "(\<forall>e. snd (kv_restore J f rc) = Inl e \<longrightarrow> fst (kv_restore J f rc) = f) \<and>
   (snd (kv_restore J f rc) = Inr () \<longrightarrow>
     (\<exists>b e. rc = Some b \<and> unmarshal_snap J b = Some e \<and>
       content_digest J e = Inr (se_integrity e) \<and>
       se_format e = snapshot_format_version \<and> supported_version (se_replication e) \<and>
       se_replication e \<le> f_supported f \<and>
       fst (kv_restore J f rc) = f\<lparr>f_product := se_product e, f_state := se_state e,
         f_applied := se_applied e, f_index := se_index e, f_term := se_term e\<rparr>))"
proof (intro conjI allI impI)
  fix e
  assume "snd (kv_restore J f rc) = Inl e"
  then show "fst (kv_restore J f rc) = f"
    by (auto simp: kv_restore_def split: option.splits sum.splits if_splits)
next
  assume "snd (kv_restore J f rc) = Inr ()"
  then have "kv_restore J f rc = (fst (kv_restore J f rc), Inr ())" by (metis prod.collapse)
  from kv_restore_ok [OF this] show "\<exists>b e. rc = Some b \<and> unmarshal_snap J b = Some e \<and>
       content_digest J e = Inr (se_integrity e) \<and>
       se_format e = snapshot_format_version \<and> supported_version (se_replication e) \<and>
       se_replication e \<le> f_supported f \<and>
       fst (kv_restore J f rc) = f\<lparr>f_product := se_product e, f_state := se_state e,
         f_applied := se_applied e, f_index := se_index e, f_term := se_term e\<rparr>"
    by (auto simp: snap_validate_def split: if_splits)
qed

theorem kv_restore_atomic_witness:
  "fst (kv_restore ex_snap (new_kvfsm_with_schema 1) (Some ''kv|kv|'')) = new_kvfsm_with_schema 1"
proof -
  have "snd (kv_restore ex_snap (new_kvfsm_with_schema 1) (Some ''kv|kv|'')) = Inl (SnapUnsupported 2 1)"
    by (simp add: kv_restore_def decode_snapshot_def content_digest_def snap_validate_def
        snap_envelope_def kv_snapshot_of_def ex_kv_defs supported_version_def snapshot_format_version_def)
  then show ?thesis
    using kv_restore_atomic [of ex_snap "new_kvfsm_with_schema 1" "Some ''kv|kv|''"] by blast
qed

end
