(* ===== verification/Replica_Auth.thy ===== *)
theory Replica_Auth
  imports Go_Base
begin

text \<open>
  \<open>replication/auth.go\<close>: connection-establishment handshakes, the reference peer authenticator
  with its consumed-nonce store, and the reference membership store; with the node capabilities
  of \<open>replication/node.go\<close> they carry.

  Times are nanoseconds on one clock. The injected \<open>now\<close> function is an argument of each call.
  HMAC-SHA256, SHA-256, base64 and RFC 3339 parsing are the fields of \<open>handshake_lib\<close>.
\<close>

section \<open>Capabilities and membership\<close>

type_synonym server_id = string
type_synonym server_addr = string

record capabilities =
  cap_id :: server_id
  cap_operations :: "int list"
  cap_snapshots :: "int list"
  cap_features :: "string list"

definition supports_operation :: "capabilities \<Rightarrow> int \<Rightarrow> bool" where
  "supports_operation c v \<longleftrightarrow> list_ex (\<lambda>s. s = v) (cap_operations c)"

definition supports_snapshot_format :: "capabilities \<Rightarrow> int \<Rightarrow> bool" where
  "supports_snapshot_format c f \<longleftrightarrow> list_ex (\<lambda>s. s = f) (cap_snapshots c)"

datatype membership_state = MembershipActive | MembershipDisabled | MembershipRevoked

record membership_status =
  ms_state :: membership_state
  ms_caps :: capabilities
  ms_protocol :: int
  ms_enabled :: bool

type_synonym memory_membership = "server_id \<rightharpoonup> membership_status"

definition membership_set ::
  "memory_membership \<Rightarrow> server_id \<Rightarrow> membership_status \<Rightarrow> memory_membership" where
  "membership_set m i st = m(i \<mapsto> st)"

datatype handshake_error =
    IdentityMismatch
  | IncompatibleProtocol
  | MemberUnknown
  | MemberNotActive
  | NotAuthorized
  | BadTimestamp
  | OutsideSkew
  | BadSignature
  | NonceReplay
  | BodyJSON
  | ExpectedEmpty
  | UnexpectedPeer server_id server_id

definition membership_of :: "memory_membership \<Rightarrow> server_id \<Rightarrow> handshake_error + membership_status" where
  "membership_of m i = (case m i of None \<Rightarrow> Inl MemberUnknown | Some st \<Rightarrow> Inr st)"

definition membership_capabilities :: "memory_membership \<Rightarrow> server_id \<Rightarrow> capabilities option" where
  "membership_capabilities m i = map_option ms_caps (m i)"

section \<open>Handshakes\<close>

record auth_request =
  a_node :: server_id
  a_raft_id :: server_id
  a_raft_addr :: server_addr
  a_protocol :: int
  a_caps :: capabilities
  a_timestamp :: string
  a_nonce :: string
  a_signature :: string
  a_secret :: string

record auth_result =
  r_allowed :: bool
  r_address :: server_addr
  r_reason :: string

record auth_body =
  b_node :: server_id
  b_raft_id :: server_id
  b_raft_addr :: server_addr
  b_protocol :: int
  b_caps :: capabilities

record handshake_lib =
  marshal_body :: "auth_body \<Rightarrow> string option"
  hmac_sha256 :: "string \<Rightarrow> string \<Rightarrow> string"
  sha256_hex :: "string \<Rightarrow> string"
  b64_encode :: "string \<Rightarrow> string"
  b64_decode :: "string \<Rightarrow> string option"
  format_time :: "int \<Rightarrow> string"
  parse_time :: "string \<Rightarrow> int option"

definition handshake_method :: string where
  "handshake_method = ''REPLICATE''"

definition handshake_path :: string where
  "handshake_path = ''/replicate/handshake''"

definition handshake_capability :: string where
  "handshake_capability = ''replication''"

text \<open>Five minutes.\<close>

definition skew_window :: int where
  "skew_window = 5 * 60 * 1000000000"

definition body_of :: "auth_request \<Rightarrow> auth_body" where
  "body_of a = \<lparr>b_node = a_node a, b_raft_id = a_raft_id a, b_raft_addr = a_raft_addr a,
     b_protocol = a_protocol a, b_caps = a_caps a\<rparr>"

definition signature_bytes ::
  "handshake_lib \<Rightarrow> string \<Rightarrow> string \<Rightarrow> string \<Rightarrow> server_id \<Rightarrow> string \<Rightarrow> string" where
  "signature_bytes L secret timestamp nonce request_id body =
     hmac_sha256 L secret
       (handshake_method @ CHR 0x0A # handshake_path @ CHR 0x0A # timestamp @ CHR 0x0A # nonce @
        CHR 0x0A # request_id @ CHR 0x0A # handshake_capability @ CHR 0x0A # sha256_hex L body)"

definition handshake_signature ::
  "handshake_lib \<Rightarrow> string \<Rightarrow> string \<Rightarrow> string \<Rightarrow> server_id \<Rightarrow> string \<Rightarrow> string" where
  "handshake_signature L secret timestamp nonce request_id body =
     b64_encode L (signature_bytes L secret timestamp nonce request_id body)"

definition verify_signature ::
  "handshake_lib \<Rightarrow> string \<Rightarrow> string \<Rightarrow> string \<Rightarrow> server_id \<Rightarrow> string \<Rightarrow> string \<Rightarrow> bool" where
  "verify_signature L secret timestamp nonce request_id body sig =
     (case b64_decode L sig of
        None \<Rightarrow> False
      | Some got \<Rightarrow> got = signature_bytes L secret timestamp nonce request_id body)"

definition verify_handshake_signature :: "handshake_lib \<Rightarrow> string \<Rightarrow> auth_request \<Rightarrow> bool" where
  "verify_handshake_signature L secret a =
     (case marshal_body L (body_of a) of
        None \<Rightarrow> False
      | Some body \<Rightarrow>
          verify_signature L secret (a_timestamp a) (a_nonce a) (a_node a) body (a_signature a))"

definition build_handshake ::
  "handshake_lib \<Rightarrow> server_id \<Rightarrow> server_id \<Rightarrow> server_addr \<Rightarrow> int \<Rightarrow> capabilities \<Rightarrow> string \<Rightarrow> string \<Rightarrow>
   int \<Rightarrow> handshake_error + auth_request" where
  "build_handshake L node raft_id addr proto caps secret nonce now =
     (case marshal_body L \<lparr>b_node = node, b_raft_id = raft_id, b_raft_addr = addr,
             b_protocol = proto, b_caps = caps\<rparr> of
        None \<Rightarrow> Inl BodyJSON
      | Some body \<Rightarrow>
          (let timestamp = format_time L now
           in Inr \<lparr>a_node = node, a_raft_id = raft_id, a_raft_addr = addr, a_protocol = proto,
                a_caps = caps, a_timestamp = timestamp, a_nonce = nonce,
                a_signature = handshake_signature L secret timestamp nonce node body,
                a_secret = secret\<rparr>))"

section \<open>The reference authenticator\<close>

record peer_auth =
  m_secrets :: "server_id \<rightharpoonup> string"
  m_states :: "server_id \<rightharpoonup> membership_state"
  m_enabled :: "server_id \<rightharpoonup> bool"
  m_caps :: "server_id \<rightharpoonup> capabilities"
  m_seen :: "server_id \<rightharpoonup> (string \<rightharpoonup> int)"
  m_protocol :: int

definition new_peer_auth :: "int \<Rightarrow> peer_auth" where
  "new_peer_auth proto = \<lparr>m_secrets = Map.empty, m_states = Map.empty, m_enabled = Map.empty,
     m_caps = Map.empty, m_seen = Map.empty, m_protocol = proto\<rparr>"

definition set_secret :: "peer_auth \<Rightarrow> server_id \<Rightarrow> string \<Rightarrow> peer_auth" where
  "set_secret m i s = m\<lparr>m_secrets := (m_secrets m)(i \<mapsto> s)\<rparr>"

definition set_membership :: "peer_auth \<Rightarrow> server_id \<Rightarrow> membership_state \<Rightarrow> peer_auth" where
  "set_membership m i st = m\<lparr>m_states := (m_states m)(i \<mapsto> st)\<rparr>"

definition set_replication_enabled :: "peer_auth \<Rightarrow> server_id \<Rightarrow> bool \<Rightarrow> peer_auth" where
  "set_replication_enabled m i e = m\<lparr>m_enabled := (m_enabled m)(i \<mapsto> e)\<rparr>"

definition set_capabilities :: "peer_auth \<Rightarrow> server_id \<Rightarrow> capabilities \<Rightarrow> peer_auth" where
  "set_capabilities m i c = m\<lparr>m_caps := (m_caps m)(i \<mapsto> c)\<rparr>"

text \<open>
  \<open>consumeNonce\<close> deletes the expired nonces of the node in place (also when it then reports a
  replay), and records a fresh nonce until \<open>now\<close> plus the skew window.
\<close>

definition prune_seen :: "int \<Rightarrow> (string \<rightharpoonup> int) \<Rightarrow> (string \<rightharpoonup> int)" where
  "prune_seen now seen = (\<lambda>n. case seen n of None \<Rightarrow> None
     | Some expiry \<Rightarrow> if expiry < now then None else Some expiry)"

definition consume_nonce ::
  "peer_auth \<Rightarrow> server_id \<Rightarrow> string \<Rightarrow> int \<Rightarrow> peer_auth \<times> (handshake_error + unit)" where
  "consume_nonce m node nonce now =
     (let seen = (case m_seen m node of None \<Rightarrow> Map.empty | Some s \<Rightarrow> prune_seen now s)
      in if seen nonce \<noteq> None
         then (m\<lparr>m_seen := (m_seen m)(node \<mapsto> seen)\<rparr>, Inl NonceReplay)
         else (m\<lparr>m_seen := (m_seen m)(node \<mapsto> seen(nonce \<mapsto> now + skew_window))\<rparr>, Inr ()))"

definition verify_handshake_common ::
  "handshake_lib \<Rightarrow> peer_auth \<Rightarrow> int \<Rightarrow> auth_request \<Rightarrow> peer_auth \<times> (handshake_error + unit)" where
  "verify_handshake_common L m now a =
     (if a_raft_id a \<noteq> a_node a then (m, Inl IdentityMismatch)
      else if a_protocol a \<noteq> m_protocol m then (m, Inl IncompatibleProtocol)
      else (case (m_secrets m (a_node a), m_states m (a_node a), m_enabled m (a_node a)) of
        (Some secret, Some state, Some enabled) \<Rightarrow>
          if state \<noteq> MembershipActive then (m, Inl MemberNotActive)
          else if \<not> enabled then (m, Inl NotAuthorized)
          else (case parse_time L (a_timestamp a) of
            None \<Rightarrow> (m, Inl BadTimestamp)
          | Some at \<Rightarrow>
              if at < now - skew_window \<or> at > now + skew_window then (m, Inl OutsideSkew)
              else (case marshal_body L (body_of a) of
                None \<Rightarrow> (m, Inl BodyJSON)
              | Some body \<Rightarrow>
                  if \<not> verify_signature L secret (a_timestamp a) (a_nonce a) (a_node a) body
                         (a_signature a)
                  then (m, Inl BadSignature)
                  else consume_nonce m (a_node a) (a_nonce a) now))
      | _ \<Rightarrow> (m, Inl MemberUnknown)))"

definition authenticate ::
  "handshake_lib \<Rightarrow> peer_auth \<Rightarrow> int \<Rightarrow> auth_request \<Rightarrow> peer_auth \<times> (handshake_error + auth_result)" where
  "authenticate L m now a =
     (case verify_handshake_common L m now a of
        (m', Inl e) \<Rightarrow> (m', Inl e)
      | (m', Inr _) \<Rightarrow> (m', Inr \<lparr>r_allowed = True, r_address = a_raft_addr a, r_reason = []\<rparr>))"

definition verify_peer ::
  "handshake_lib \<Rightarrow> peer_auth \<Rightarrow> int \<Rightarrow> server_id \<Rightarrow> auth_request \<Rightarrow>
   peer_auth \<times> (handshake_error + unit)" where
  "verify_peer L m now expected a =
     (if expected = [] then (m, Inl ExpectedEmpty)
      else if a_node a \<noteq> expected \<or> a_raft_id a \<noteq> expected
        then (m, Inl (UnexpectedPeer (a_node a) expected))
      else verify_handshake_common L m now a)"

end
