(* ===== verification/Replica_Auth_Laws.thy ===== *)
theory Replica_Auth_Laws
  imports Replica_Auth
begin

text \<open>
  The interfaces \<open>PeerAuthenticator\<close> and \<open>CapabilitySource\<close> of \<open>replication/auth.go\<close> as
  locales, interpreted on the reference implementations, and what the handshake protects
  against: misbound identities, inactive members, stale clocks and replayed nonces.
\<close>

section \<open>The authenticator interface\<close>

text \<open>A call of either side of a connection, at a time of the authenticator's clock.\<close>

datatype auth_call =
    Accepted (call_time: int) auth_request
  | Dialed (call_time: int) server_id auth_request

text \<open>\<open>remembers s n x t\<close>: at time \<open>t\<close> the nonce \<open>x\<close> of node \<open>n\<close> is still held as consumed.\<close>

locale peer_authenticator =
  fixes authn :: "'s \<Rightarrow> int \<Rightarrow> auth_request \<Rightarrow> 's \<times> ('e + auth_result)"
    and verify :: "'s \<Rightarrow> int \<Rightarrow> server_id \<Rightarrow> auth_request \<Rightarrow> 's \<times> ('e + unit)"
    and remembers :: "'s \<Rightarrow> server_id \<Rightarrow> string \<Rightarrow> int \<Rightarrow> bool"
    and window :: int
  assumes authn_binds: "authn s t a = (s', Inr r) \<Longrightarrow> a_raft_id a = a_node a"
    and verify_binds: "verify s t x a = (s', Inr u) \<Longrightarrow> a_node a = x \<and> a_raft_id a = x"
    and authn_consumes:
      "authn s t a = (s', Inr r) \<Longrightarrow> t' \<le> t + window \<Longrightarrow> remembers s' (a_node a) (a_nonce a) t'"
    and verify_consumes:
      "verify s t x a = (s', Inr u) \<Longrightarrow> t' \<le> t + window \<Longrightarrow> remembers s' (a_node a) (a_nonce a) t'"
    and authn_keeps: "remembers s n x t' \<Longrightarrow> t \<le> t' \<Longrightarrow> remembers (fst (authn s t a)) n x t'"
    and verify_keeps: "remembers s n x t' \<Longrightarrow> t \<le> t' \<Longrightarrow> remembers (fst (verify s t y a)) n x t'"
    and authn_rejects: "remembers s (a_node a) (a_nonce a) t \<Longrightarrow> \<exists>e. snd (authn s t a) = Inl e"
    and verify_rejects: "remembers s (a_node a) (a_nonce a) t \<Longrightarrow> \<exists>e. snd (verify s t x a) = Inl e"
begin

fun exec_call :: "'s \<Rightarrow> auth_call \<Rightarrow> 's \<times> ('e + unit)" where
  "exec_call s (Accepted t a) = map_prod id (map_sum id (\<lambda>_. ())) (authn s t a)"
| "exec_call s (Dialed t x a) = verify s t x a"

lemma exec_call_keeps:
  "remembers s n x t \<Longrightarrow> call_time c \<le> t \<Longrightarrow> remembers (fst (exec_call s c)) n x t"
  by (cases c) (auto intro: authn_keeps verify_keeps)

lemma run_keeps:
  "remembers s n x t \<Longrightarrow> \<forall>c \<in> set cs. call_time c \<le> t \<Longrightarrow> remembers (run_all exec_call s cs) n x t"
  by (induction cs arbitrary: s) (auto intro: exec_call_keeps)

lemma exec_call_consumes:
  assumes "exec_call s c = (s', Inr u)" and "c = Accepted t0 a \<or> c = Dialed t0 y a"
    and "t \<le> t0 + window"
  shows "remembers s' (a_node a) (a_nonce a) t"
  using assms(2)
proof
  assume c: "c = Accepted t0 a"
  with assms(1) have "\<exists>r. authn s t0 a = (s', Inr r)"
    by (cases "authn s t0 a"; cases "snd (authn s t0 a)") auto
  with assms(3) show ?thesis by (auto intro: authn_consumes)
next
  assume "c = Dialed t0 y a"
  with assms(1,3) show ?thesis by (auto intro: verify_consumes)
qed

text \<open>Whatever other handshakes both sides process in between, a nonce consumed from a node is
  rejected from that node for the length of the window, on either side of a connection.\<close>

lemma replay_rejected:
  assumes "exec_call s c = (s', Inr u)"
    and "\<forall>c' \<in> set cs. call_time c' \<le> t" and "t \<le> call_time c + window"
    and "c = Accepted t0 a \<or> c = Dialed t0 y a" and "a_node a2 = a_node a" "a_nonce a2 = a_nonce a"
  shows "\<exists>e1 e2. snd (authn (run_all exec_call s' cs) t a2) = Inl e1 \<and>
    snd (verify (run_all exec_call s' cs) t x a2) = Inl e2"
proof -
  have "remembers s' (a_node a) (a_nonce a) t"
    using assms(1,3,4) by (auto intro: exec_call_consumes)
  then have "remembers (run_all exec_call s' cs) (a_node a2) (a_nonce a2) t"
    using assms(2,5,6) by (simp add: run_keeps)
  then show ?thesis using authn_rejects verify_rejects by blast
qed

end

section \<open>The reference authenticator provides it\<close>

definition remembered :: "peer_auth \<Rightarrow> server_id \<Rightarrow> string \<Rightarrow> int \<Rightarrow> bool" where
  "remembered m n x t \<longleftrightarrow> (\<exists>s e. m_seen m n = Some s \<and> s x = Some e \<and> t \<le> e)"

lemma consume_nonce_ok:
  assumes "consume_nonce m n x now = (m', Inr u)"
  shows "\<exists>s. m_seen m' = (m_seen m)(n \<mapsto> s) \<and> s x = Some (now + skew_window)"
  using assms by (auto simp: consume_nonce_def Let_def split: if_splits)

lemma consume_nonce_keeps:
  assumes "remembered m n x t" and "now \<le> t"
  shows "remembered (fst (consume_nonce m n' x' now)) n x t"
  using assms
  by (auto simp: remembered_def consume_nonce_def Let_def prune_seen_def split: option.splits)

lemma consume_nonce_rejects:
  "remembered m n x now \<Longrightarrow> snd (consume_nonce m n x now) = Inl NonceReplay"
  by (auto simp: remembered_def consume_nonce_def Let_def prune_seen_def)

lemma consume_nonce_other [simp]:
  "m_secrets (fst (consume_nonce m n x now)) = m_secrets m"
  "m_states (fst (consume_nonce m n x now)) = m_states m"
  "m_enabled (fst (consume_nonce m n x now)) = m_enabled m"
  "m_protocol (fst (consume_nonce m n x now)) = m_protocol m"
  by (simp_all add: consume_nonce_def Let_def)

text \<open>Every guard of the handshake, as one condition.\<close>

definition handshake_guards :: "handshake_lib \<Rightarrow> peer_auth \<Rightarrow> int \<Rightarrow> auth_request \<Rightarrow> bool" where
  "handshake_guards L m now a \<longleftrightarrow>
     a_raft_id a = a_node a \<and> a_protocol a = m_protocol m \<and>
     (\<exists>secret. m_secrets m (a_node a) = Some secret \<and> verify_handshake_signature L secret a) \<and>
     m_states m (a_node a) = Some MembershipActive \<and> m_enabled m (a_node a) = Some True \<and>
     (\<exists>at. parse_time L (a_timestamp a) = Some at \<and> now - skew_window \<le> at \<and> at \<le> now + skew_window)"

lemma verify_common_guarded:
  "verify_handshake_common L m now a =
     (if handshake_guards L m now a then consume_nonce m (a_node a) (a_nonce a) now
      else (m, snd (verify_handshake_common L m now a)))"
  by (auto simp: verify_handshake_common_def handshake_guards_def verify_handshake_signature_def
      not_less split: option.splits)

lemma verify_common_refused:
  "\<not> handshake_guards L m now a \<Longrightarrow> \<exists>e. verify_handshake_common L m now a = (m, Inl e)"
  by (auto simp: verify_handshake_common_def handshake_guards_def verify_handshake_signature_def
      not_less split: option.splits if_splits)

lemma verify_common_ok:
  assumes "verify_handshake_common L m now a = (m', Inr u)"
  shows "handshake_guards L m now a" "consume_nonce m (a_node a) (a_nonce a) now = (m', Inr u)"
  using assms verify_common_refused [of L m now a] verify_common_guarded [of L m now a]
  by (auto split: if_splits)

lemma verify_common_remembers:
  assumes "verify_handshake_common L m now a = (m', Inr u)" and "t \<le> now + skew_window"
  shows "remembered m' (a_node a) (a_nonce a) t"
  using consume_nonce_ok [OF verify_common_ok(2) [OF assms(1)]] assms(2)
  by (auto simp: remembered_def)

lemma verify_common_keeps:
  assumes "remembered m n x t" and "now \<le> t"
  shows "remembered (fst (verify_handshake_common L m now a)) n x t"
  by (subst verify_common_guarded) (simp add: assms consume_nonce_keeps)

lemma verify_common_rejects:
  assumes "remembered m (a_node a) (a_nonce a) now"
  shows "\<exists>e. snd (verify_handshake_common L m now a) = Inl e"
  using verify_common_refused [of L m now a] verify_common_guarded [of L m now a]
    consume_nonce_rejects [OF assms]
  by (cases "handshake_guards L m now a") auto

lemma authenticate_fst [simp]: "fst (authenticate L m now a) = fst (verify_handshake_common L m now a)"
  by (simp add: authenticate_def split: prod.splits sum.splits)

lemma authenticate_ok:
  "authenticate L m now a = (m', Inr r) \<longleftrightarrow>
   verify_handshake_common L m now a = (m', Inr ()) \<and>
   r = \<lparr>r_allowed = True, r_address = a_raft_addr a, r_reason = []\<rparr>"
  by (auto simp: authenticate_def split: prod.splits sum.splits)

lemma authenticate_err:
  "snd (authenticate L m now a) = Inl e \<longleftrightarrow> snd (verify_handshake_common L m now a) = Inl e"
  by (auto simp: authenticate_def split: prod.splits sum.splits)

lemma verify_peer_ok:
  "verify_peer L m now x a = (m', Inr u) \<longleftrightarrow>
   x \<noteq> [] \<and> a_node a = x \<and> a_raft_id a = x \<and> verify_handshake_common L m now a = (m', Inr u)"
  by (auto simp: verify_peer_def)

interpretation mem_auth: peer_authenticator "authenticate L" "verify_peer L" remembered skew_window
  for L :: handshake_lib
proof
  fix s t a s' r t' n x e y and u :: unit
  show "authenticate L s t a = (s', Inr r) \<Longrightarrow> a_raft_id a = a_node a"
    by (auto simp: authenticate_ok handshake_guards_def dest: verify_common_ok)
  show "verify_peer L s t y a = (s', Inr u) \<Longrightarrow> a_node a = y \<and> a_raft_id a = y"
    by (simp add: verify_peer_ok)
  show "authenticate L s t a = (s', Inr r) \<Longrightarrow> t' \<le> t + skew_window \<Longrightarrow>
      remembered s' (a_node a) (a_nonce a) t'"
    by (auto simp: authenticate_ok intro: verify_common_remembers)
  show "verify_peer L s t y a = (s', Inr u) \<Longrightarrow> t' \<le> t + skew_window \<Longrightarrow>
      remembered s' (a_node a) (a_nonce a) t'"
    by (auto simp: verify_peer_ok intro: verify_common_remembers)
  show "remembered s n x t' \<Longrightarrow> t \<le> t' \<Longrightarrow> remembered (fst (authenticate L s t a)) n x t'"
    by (simp add: verify_common_keeps)
  show "remembered s n x t' \<Longrightarrow> t \<le> t' \<Longrightarrow> remembered (fst (verify_peer L s t y a)) n x t'"
    by (auto simp: verify_peer_def verify_common_keeps)
  show "remembered s (a_node a) (a_nonce a) t \<Longrightarrow> \<exists>e. snd (authenticate L s t a) = Inl e"
    by (simp add: authenticate_err verify_common_rejects)
  show "remembered s (a_node a) (a_nonce a) t \<Longrightarrow> \<exists>e. snd (verify_peer L s t y a) = Inl e"
    by (auto simp: verify_peer_def verify_common_rejects)
qed

section \<open>The capability interface\<close>

text \<open>A store that records a node's advertised capabilities and answers for it afterwards. Unknown
  nodes have no answer.\<close>

locale capability_source =
  fixes record_caps :: "'s \<Rightarrow> server_id \<Rightarrow> capabilities \<Rightarrow> 's"
    and caps_of :: "'s \<Rightarrow> server_id \<Rightarrow> capabilities option"
  assumes recorded: "caps_of (record_caps s i c) i = Some c"
    and others: "j \<noteq> i \<Longrightarrow> caps_of (record_caps s i c) j = caps_of s j"
begin

lemma record_shadow: "caps_of (record_caps (record_caps s i c) i c') = caps_of (record_caps s i c')"
  by (rule ext) (metis recorded others)

lemma record_commute:
  "i \<noteq> j \<Longrightarrow> caps_of (record_caps (record_caps s i c) j c') = caps_of (record_caps (record_caps s j c') i c)"
  by (rule ext) (metis recorded others)

end

definition membership_advertise :: "membership_status \<Rightarrow> memory_membership \<Rightarrow> server_id \<Rightarrow> capabilities \<Rightarrow> memory_membership" where
  "membership_advertise st m i c = membership_set m i (st\<lparr>ms_caps := c\<rparr>)"

interpretation mem_caps: capability_source "membership_advertise st" membership_capabilities
  for st :: membership_status
  by unfold_locales
    (auto simp: membership_advertise_def membership_set_def membership_capabilities_def)

section \<open>Accepted handshakes\<close>

lemma verify_common_accepts:
  "handshake_guards L m now a \<Longrightarrow> \<not> remembered m (a_node a) (a_nonce a) now \<Longrightarrow>
   \<exists>m'. verify_handshake_common L m now a = (m', Inr ())"
  by (subst verify_common_guarded)
    (auto simp: consume_nonce_def Let_def remembered_def prune_seen_def not_less
      split: option.splits if_splits)

lemma verify_common_iff:
  "(\<exists>m'. verify_handshake_common L m now a = (m', Inr ())) \<longleftrightarrow>
   handshake_guards L m now a \<and> \<not> remembered m (a_node a) (a_nonce a) now"
  using verify_common_accepts [of L m now a] verify_common_rejects [of m a now L]
    verify_common_ok(1) [of L m now a]
  by (metis Inl_Inr_False snd_conv)

lemma verify_common_same:
  assumes "verify_handshake_common L m now a = (m', r)"
  shows "m_secrets m' = m_secrets m \<and> m_states m' = m_states m \<and> m_enabled m' = m_enabled m \<and>
    m_protocol m' = m_protocol m"
proof -
  have "m' = fst (verify_handshake_common L m now a)" using assms by simp
  also have "\<dots> = m \<or> \<dots> = fst (consume_nonce m (a_node a) (a_nonce a) now)"
    by (subst (1 2) verify_common_guarded) auto
  finally show ?thesis by auto
qed

lemma guards_frame:
  assumes "verify_handshake_common L m now a = (m', Inr u)"
    and "parse_time L (a_timestamp a) = Some at" and "now \<le> t2" "t2 \<le> at + skew_window"
  shows "handshake_guards L m' t2 a"
  using verify_common_ok(1) [OF assms(1)] verify_common_same [OF assms(1)] assms(2-4)
  by (auto simp: handshake_guards_def)

lemma expired_guards:
  "parse_time L (a_timestamp a) = Some at \<Longrightarrow> at + skew_window < t \<Longrightarrow> \<not> handshake_guards L m t a"
  by (auto simp: handshake_guards_def)

section \<open>Properties\<close>

text \<open>A concrete library and handshake for the witnesses: node \<open>n1\<close> with secret \<open>k\<close>.\<close>

definition ex_lib :: handshake_lib where
  "ex_lib = \<lparr>marshal_body = (\<lambda>b. Some (b_node b @ b_raft_id b)), hmac_sha256 = (\<lambda>k m. k @ m),
     sha256_hex = (\<lambda>x. x), b64_encode = (\<lambda>x. CHR ''='' # x),
     b64_decode = (\<lambda>x. if x = [] then None else Some (tl x)),
     format_time = (\<lambda>t. if t = 0 then ''0'' else ''9''),
     parse_time = (\<lambda>s. if s = ''0'' then Some 0 else if s = ''9'' then Some 200000000000 else None)\<rparr>"

definition ex_caps :: capabilities where
  "ex_caps = \<lparr>cap_id = ''n1'', cap_operations = [1, 2], cap_snapshots = [1], cap_features = []\<rparr>"

definition ex_hello :: "string \<Rightarrow> auth_request" where
  "ex_hello ts = \<lparr>a_node = ''n1'', a_raft_id = ''n1'', a_raft_addr = ''h:1'', a_protocol = 1,
     a_caps = ex_caps, a_timestamp = ts, a_nonce = ''x'',
     a_signature = handshake_signature ex_lib ''k'' ts ''x'' ''n1'' ''n1n1'', a_secret = ''k''\<rparr>"

definition ex_auth :: peer_auth where
  "ex_auth = set_replication_enabled (set_membership (set_secret (new_peer_auth 1) ''n1'' ''k'')
     ''n1'' MembershipActive) ''n1'' True"

lemmas ex_handshake = ex_lib_def ex_hello_def ex_auth_def set_secret_def set_membership_def
  set_replication_enabled_def new_peer_auth_def body_of_def verify_signature_def
  handshake_signature_def signature_bytes_def skew_window_def

lemma ex_accepts: "\<exists>m. authenticate ex_lib ex_auth 0 (ex_hello ts) = (m, Inr \<lparr>r_allowed = True,
    r_address = ''h:1'', r_reason = []\<rparr>)" if "ts = ''0'' \<or> ts = ''9''"
proof -
  have "handshake_guards ex_lib ex_auth 0 (ex_hello ts)"
    using that by (elim disjE) (simp_all add: handshake_guards_def verify_handshake_signature_def ex_handshake)
  moreover have "\<not> remembered ex_auth (a_node (ex_hello ts)) (a_nonce (ex_hello ts)) 0"
    by (simp add: remembered_def ex_handshake)
  moreover have "a_raft_addr (ex_hello ts) = ''h:1''" by (simp add: ex_hello_def)
  ultimately show ?thesis using verify_common_accepts by (auto simp: authenticate_ok)
qed

text \<open>A handshake is accepted exactly when the raft identity is the node's own, the protocol
  agrees, the node has a secret, is an active member with replication enabled, its timestamp is
  within the skew window of the acceptor's clock, the signature over identity, timestamp, nonce and
  body verifies with that node's secret, and its nonce is not currently held as consumed. A
  handshake that fails a guard changes nothing, so it cannot burn the nonce of a legitimate one.\<close>

theorem handshake_accepted_iff:
  "((\<exists>m' r. authenticate L m now a = (m', Inr r)) \<longleftrightarrow>
     handshake_guards L m now a \<and> \<not> remembered m (a_node a) (a_nonce a) now) \<and>
   fst (authenticate L m now a) = (if handshake_guards L m now a
     then fst (consume_nonce m (a_node a) (a_nonce a) now) else m)"
proof
  show "(\<exists>m' r. authenticate L m now a = (m', Inr r)) \<longleftrightarrow>
     handshake_guards L m now a \<and> \<not> remembered m (a_node a) (a_nonce a) now"
    using verify_common_iff [of L m now a] by (simp add: authenticate_ok)
  show "fst (authenticate L m now a) = (if handshake_guards L m now a
     then fst (consume_nonce m (a_node a) (a_nonce a) now) else m)"
    unfolding authenticate_fst by (subst verify_common_guarded) simp
qed

text \<open>C6. Once either side of a connection accepted a handshake, its nonce is refused from that node
  on both sides for the length of the skew window, whatever other handshakes were processed in
  between, and a handshake that was not dated after its acceptance is refused at every later time:
  it is consumed exactly once.\<close>

theorem handshake_single_use:
  assumes "mem_auth.exec_call L m c = (m1, Inr u)" and "c = Accepted t0 a \<or> c = Dialed t0 y a"
    and "parse_time L (a_timestamp a) = Some at" and "at \<le> t0"
    and "\<forall>c' \<in> set cs. call_time c' \<le> t"
  shows "\<exists>e1 e2. snd (authenticate L (run_all (mem_auth.exec_call L) m1 cs) t a) = Inl e1 \<and>
    snd (verify_peer L (run_all (mem_auth.exec_call L) m1 cs) t x a) = Inl e2"
proof (cases "t \<le> t0 + skew_window")
  case True
  then show ?thesis
    using assms(1,2,5) by (intro mem_auth.replay_rejected [of L m c m1 u cs t t0 a y a x]) auto
next
  case False
  then have "\<not> handshake_guards L (run_all (mem_auth.exec_call L) m1 cs) t a"
    using expired_guards [OF assms(3)] assms(4) by simp
  then obtain e where
    e: "verify_handshake_common L (run_all (mem_auth.exec_call L) m1 cs) t a =
      (run_all (mem_auth.exec_call L) m1 cs, Inl e)"
    using verify_common_refused by blast
  then show ?thesis by (simp add: authenticate_err verify_peer_def)
qed

lemma handshake_single_use_witness:
  "\<exists>m1 e1 e2. mem_auth.exec_call ex_lib ex_auth (Accepted 0 (ex_hello ''0'')) = (m1, Inr ()) \<and>
     snd (authenticate ex_lib (run_all (mem_auth.exec_call ex_lib) m1
        [Dialed 5 ''n1'' (ex_hello ''9'')]) 7 (ex_hello ''0'')) = Inl e1 \<and>
     snd (verify_peer ex_lib (run_all (mem_auth.exec_call ex_lib) m1
        [Dialed 5 ''n1'' (ex_hello ''9'')]) 7 ''n1'' (ex_hello ''0'')) = Inl e2"
proof -
  obtain m1 where m: "mem_auth.exec_call ex_lib ex_auth (Accepted 0 (ex_hello ''0'')) = (m1, Inr ())"
    using ex_accepts [of "''0''"] by auto
  moreover have "parse_time ex_lib (a_timestamp (ex_hello ''0'')) = Some 0"
    by (simp add: ex_lib_def ex_hello_def)
  ultimately show ?thesis
    using handshake_single_use [OF m, of 0 "ex_hello ''0''" "[]" 0 "[Dialed 5 ''n1'' (ex_hello ''9'')]" 7]
    by auto
qed

text \<open>A handshake dated ahead of the acceptor's clock outlives the record of its nonce: accepted
  at \<open>t0\<close> with timestamp \<open>at > t0\<close>, it is accepted a second time at every \<open>t2\<close> with
  \<open>t0 + 5min < t2 \<le> at + 5min\<close>. The nonce is kept from the acceptance, the freshness window runs
  from the timestamp.\<close>

theorem future_handshake_replayable:
  assumes "authenticate L m t0 a = (m1, Inr r)" and "parse_time L (a_timestamp a) = Some at"
    and "t0 + skew_window < t2" and "t2 \<le> at + skew_window"
  shows "\<exists>m2. authenticate L m1 t2 a = (m2, Inr r)"
proof -
  have v: "verify_handshake_common L m t0 a = (m1, Inr ())" and r: "r = \<lparr>r_allowed = True, r_address = a_raft_addr a, r_reason = []\<rparr>"
    using assms(1) by (simp_all add: authenticate_ok)
  have "handshake_guards L m1 t2 a"
    using guards_frame [OF v assms(2) _ assms(4)] assms(3) by (simp add: skew_window_def)
  moreover obtain s where "m_seen m1 = (m_seen m)(a_node a \<mapsto> s)" "s (a_nonce a) = Some (t0 + skew_window)"
    using consume_nonce_ok [OF verify_common_ok(2) [OF v]] by blast
  then have "\<not> remembered m1 (a_node a) (a_nonce a) t2"
    using assms(3) by (simp add: remembered_def)
  ultimately show ?thesis using verify_common_accepts r by (auto simp: authenticate_ok)
qed

lemma future_handshake_replayable_witness:
  "\<exists>m1 m2 r. authenticate ex_lib ex_auth 0 (ex_hello ''9'') = (m1, Inr r) \<and>
     authenticate ex_lib m1 400000000000 (ex_hello ''9'') = (m2, Inr r)"
proof -
  obtain m1 r where m: "authenticate ex_lib ex_auth 0 (ex_hello ''9'') = (m1, Inr r)"
    using ex_accepts [of "''9''"] by auto
  have "parse_time ex_lib (a_timestamp (ex_hello ''9'')) = Some 200000000000"
    by (simp add: ex_lib_def ex_hello_def)
  from future_handshake_replayable [OF m this, of 400000000000] m show ?thesis
    by (auto simp: skew_window_def)
qed

text \<open>A handshake signed by \<open>BuildHandshake\<close> under the secret the acceptor holds for that node
  is accepted within the skew window of its timestamp when the node is an active, enabled member
  of the same protocol and the nonce is fresh, by \<open>Authenticate\<close> and, when that node is the one
  dialed, by \<open>VerifyPeer\<close>; it carries the advertised address and capabilities. The one hypothesis
  on the library is that base64 decodes what it encoded.\<close>

theorem built_handshake_accepted:
  assumes "build_handshake L n n addr proto caps secret nonce now = Inr a"
    and "\<And>x. a_signature a = b64_encode L x \<Longrightarrow> b64_decode L (a_signature a) = Some x"
    and "m_secrets m n = Some secret" "m_states m n = Some MembershipActive" "m_enabled m n = Some True"
    and "m_protocol m = proto" and "parse_time L (format_time L now) = Some at"
    and "at - skew_window \<le> t" "t \<le> at + skew_window" and "\<not> remembered m n nonce t" "n \<noteq> []"
  shows "\<exists>m'. authenticate L m t a = (m', Inr \<lparr>r_allowed = True, r_address = addr, r_reason = []\<rparr>) \<and>
    verify_peer L m t n a = (m', Inr ()) \<and> a_caps a = caps"
proof -
  from assms(1) obtain body where
    b: "marshal_body L (body_of a) = Some body" and
    sig: "a_signature a = b64_encode L (signature_bytes L secret (a_timestamp a) nonce n body)" and
    f: "a_node a = n" "a_raft_id a = n" "a_raft_addr a = addr" "a_protocol a = proto" "a_caps a = caps"
       "a_timestamp a = format_time L now" "a_nonce a = nonce"
    by (auto simp: build_handshake_def body_of_def handshake_signature_def Let_def split: option.splits)
  have "verify_handshake_signature L secret a"
    using assms(2) [OF sig] b f by (simp add: verify_handshake_signature_def verify_signature_def)
  then have "handshake_guards L m t a" using assms f by (simp add: handshake_guards_def)
  then obtain m' where "verify_handshake_common L m t a = (m', Inr ())"
    using verify_common_accepts f assms(10) by blast
  then show ?thesis using f assms(11) by (auto simp: authenticate_ok verify_peer_def)
qed

lemma built_handshake_accepted_witness:
  "\<exists>m'. authenticate ex_lib ex_auth 3 (ex_hello ''0'') = (m', Inr \<lparr>r_allowed = True,
      r_address = ''h:1'', r_reason = []\<rparr>) \<and>
     verify_peer ex_lib ex_auth 3 ''n1'' (ex_hello ''0'') = (m', Inr ()) \<and>
     a_caps (ex_hello ''0'') = ex_caps"
  by (rule built_handshake_accepted [where L = ex_lib and proto = 1 and secret = "''k''" and nonce = "''x''" and now = 0 and at = 0])
    (auto simp: ex_handshake build_handshake_def remembered_def)

end
