(* ===== verification/Go_Bytes.thy ===== *)
theory Go_Bytes
  imports Go_Base
begin

text \<open>
  The byte encodings of Go's standard library that the program relies on: big-endian integers
  (\<open>encoding/binary\<close>), hexadecimal (\<open>encoding/hex\<close>), unpadded base64 (\<open>encoding/base64\<close>) and
  decimal integers (\<open>strconv.Atoi\<close>), with their round trips.
\<close>

section \<open>Big-endian integers\<close>

fun be_bytes :: "nat \<Rightarrow> nat \<Rightarrow> string" where
  "be_bytes 0 n = []"
| "be_bytes (Suc k) n = be_bytes k (n div 256) @ [char_of n]"

definition of_be :: "string \<Rightarrow> nat" where
  "of_be s = foldl (\<lambda>a c. a * 256 + of_char c) 0 s"

lemma length_be_bytes [simp]: "length (be_bytes k n) = k"
  by (induction k arbitrary: n) auto

lemma of_be_snoc: "of_be (s @ [c]) = of_be s * 256 + of_char c"
  by (simp add: of_be_def)

lemma of_be_Nil [simp]: "of_be [] = 0"
  by (simp add: of_be_def)

lemma of_be_be_bytes: "n < 256 ^ k \<Longrightarrow> of_be (be_bytes k n) = n"
proof (induction k arbitrary: n)
  case (Suc k)
  then have "n div 256 < 256 ^ k" by (simp add: less_mult_imp_div_less mult.commute)
  with Suc.IH show ?case by (simp add: of_be_snoc div_mult_mod_eq)
qed simp

lemma of_be_bound: "of_be s < 256 ^ length s"
proof (induction s rule: rev_induct)
  case (snoc c s)
  have "(of_char c :: nat) < 256" by (rule nat_of_char_less_256)
  then have "of_be s * 256 + of_char c < Suc (of_be s) * 256" by simp
  also have "\<dots> \<le> 256 ^ length s * 256" using snoc by (intro mult_le_mono1) simp
  finally show ?case by (simp add: of_be_snoc mult.commute)
qed simp

lemma be_bytes_of_be: "be_bytes (length s) (of_be s) = s"
proof (induction s rule: rev_induct)
  case (snoc c s)
  have c: "(of_char c :: nat) < 256" by (rule nat_of_char_less_256)
  have "(of_be s * 256 + of_char c) div 256 = of_be s"
    using c by (simp add: div_add1_eq)
  moreover have "char_of (of_be s * 256 + of_char c :: nat) = c"
  proof -
    have "char_of (of_be s * 256 + of_char c :: nat) = char_of ((of_be s * 256 + of_char c) mod 256 :: nat)"
      by (rule char_of_mod_256 [symmetric])
    also have "(of_be s * 256 + of_char c) mod 256 = (of_char c :: nat)" using c by simp
    finally show ?thesis by simp
  qed
  ultimately show ?case using snoc by (simp add: of_be_snoc)
qed simp

lemma of_be_Cons: "of_be (c # s) = of_char c * 256 ^ length s + of_be s"
  by (induction s rule: rev_induct)
    (simp_all add: of_be_snoc algebra_simps flip: append_Cons, simp add: of_be_def)

text \<open>Fixed-width big-endian keys sort like the numbers they hold.\<close>

lemma of_be_less_iff:
  assumes "length s = length t"
  shows "of_be s < of_be t \<longleftrightarrow> s < t"
  using assms
proof (induction s t rule: list_induct2)
  case (Cons c s d t)
  have b: "of_be s < 256 ^ length s" "of_be t < 256 ^ length s"
    using of_be_bound [of s] of_be_bound [of t] Cons.hyps by simp_all
  have step: "x * P + a < y * P + b" if "x < y" "a < P" for x y a b P :: nat
  proof -
    have "x * P + a < Suc x * P" using that by simp
    also have "\<dots> \<le> y * P" using that by (intro mult_le_mono1) simp
    finally show ?thesis by simp
  qed
  have ch: "c < d \<longleftrightarrow> (of_char c :: nat) < of_char d" by (simp add: less_char_def)
  consider "(of_char c :: nat) < of_char d" | "(of_char c :: nat) = of_char d" | "(of_char d :: nat) < of_char c"
    by linarith
  then show ?case
  proof cases
    case 1
    then show ?thesis using step [OF 1 b(1)] ch Cons.hyps by (simp add: of_be_Cons)
  next
    case 2
    then show ?thesis using ch Cons by (simp add: of_be_Cons)
  next
    case 3
    then have "of_be (d # t) < of_be (c # s)" using step [OF 3 b(2)] Cons.hyps by (simp add: of_be_Cons)
    then show ?thesis using 3 ch by auto
  qed
qed simp

section \<open>Hexadecimal\<close>

definition hex_digits :: string where
  "hex_digits = ''0123456789abcdef''"

definition hex_value :: "char \<Rightarrow> nat option" where
  "hex_value c =
     (let n = of_char c in
      if 48 \<le> n \<and> n \<le> 57 then Some (n - 48)
      else if 97 \<le> n \<and> n \<le> 102 then Some (n - 87)
      else if 65 \<le> n \<and> n \<le> 70 then Some (n - 55) else None)"

fun hex_encode :: "string \<Rightarrow> string" where
  "hex_encode [] = []"
| "hex_encode (c # s) =
     hex_digits ! (of_char c div 16) # hex_digits ! (of_char c mod 16) # hex_encode s"

fun hex_decode :: "string \<Rightarrow> string option" where
  "hex_decode [] = Some []"
| "hex_decode [c] = None"
| "hex_decode (c # d # s) =
     (case (hex_value c, hex_value d) of
        (Some x, Some y) \<Rightarrow> map_option (\<lambda>r. char_of (16 * x + y) # r) (hex_decode s)
      | _ \<Rightarrow> None)"

lemma less_16: "n < (16 :: nat) \<Longrightarrow> n \<in> set [0..<16]"
  by simp

lemma hex_value_digit: "n < 16 \<Longrightarrow> hex_value (hex_digits ! n) = Some n"
  by (drule less_16) (auto simp: hex_digits_def hex_value_def upt_conv_Cons)

lemma hex_digit_mem: "n < 16 \<Longrightarrow> hex_digits ! n \<in> set hex_digits"
  by (rule nth_mem) (simp add: hex_digits_def)

lemma high_nibble [simp]: "(of_char c :: nat) div 16 < 16"
  using nat_of_char_less_256 [of c] by (intro less_mult_imp_div_less) simp

lemma hex_decode_encode [simp]: "hex_decode (hex_encode s) = Some s"
proof (induction s)
  case (Cons c s)
  then show ?case using Cons by (simp add: hex_value_digit mult.commute [of 16] div_mult_mod_eq)
qed simp

lemma hex_encode_alphabet: "set (hex_encode s) \<subseteq> set hex_digits"
proof (induction s)
  case (Cons c s)
  then show ?case using Cons by (simp add: hex_digit_mem)
qed simp

section \<open>Unpadded base64\<close>

text \<open>
  \<open>RawStdEncoding\<close> and \<open>RawURLEncoding\<close> differ in the last two letters of the alphabet. The
  decoder skips carriage returns and line feeds, rejects every other letter outside the alphabet
  and does not look at the unused bits of a last short group.
\<close>

definition base64_std :: string where
  "base64_std = ''ABCDEFGHIJKLMNOPQRSTUVWXYZabcdefghijklmnopqrstuvwxyz0123456789+/''"

definition base64_url :: string where
  "base64_url = ''ABCDEFGHIJKLMNOPQRSTUVWXYZabcdefghijklmnopqrstuvwxyz0123456789-_''"

fun sextets :: "nat list \<Rightarrow> nat list" where
  "sextets (a # b # c # r) =
     a div 4 # ((a mod 4) * 16 + b div 16) # ((b mod 16) * 4 + c div 64) # c mod 64 # sextets r"
| "sextets [a, b] = [a div 4, (a mod 4) * 16 + b div 16, (b mod 16) * 4]"
| "sextets [a] = [a div 4, (a mod 4) * 16]"
| "sextets [] = []"

fun unsextets :: "nat list \<Rightarrow> nat list option" where
  "unsextets (a # b # c # d # r) =
     map_option (\<lambda>x. (a * 4 + b div 16) # ((b mod 16) * 16 + c div 4) # ((c mod 4) * 64 + d) # x) (unsextets r)"
| "unsextets [a, b, c] = Some [a * 4 + b div 16, (b mod 16) * 16 + c div 4]"
| "unsextets [a, b] = Some [a * 4 + b div 16]"
| "unsextets [a] = None"
| "unsextets [] = Some []"

fun letter_index :: "string \<Rightarrow> char \<Rightarrow> nat option" where
  "letter_index [] c = None"
| "letter_index (x # xs) c = (if x = c then Some 0 else map_option Suc (letter_index xs c))"

fun all_indices :: "string \<Rightarrow> string \<Rightarrow> nat list option" where
  "all_indices al [] = Some []"
| "all_indices al (c # s) =
     (case (letter_index al c, all_indices al s) of (Some n, Some r) \<Rightarrow> Some (n # r) | _ \<Rightarrow> None)"

definition base64_encode :: "string \<Rightarrow> string \<Rightarrow> string" where
  "base64_encode al s = map (\<lambda>n. al ! n) (sextets (map of_char s))"

definition base64_decode :: "string \<Rightarrow> string \<Rightarrow> string option" where
  "base64_decode al s =
     (case all_indices al (filter (\<lambda>c. c \<noteq> CHR 0x0D \<and> c \<noteq> CHR 0x0A) s) of
        None \<Rightarrow> None
      | Some ns \<Rightarrow> map_option (map char_of) (unsextets ns))"

lemma join_div: "q < k \<Longrightarrow> (r * k + q) div k = (r :: nat)"
  by simp

lemma join_mod: "q < k \<Longrightarrow> (r * k + q) mod k = (q :: nat)"
  by simp

lemma byte_parts: "x < 256 \<Longrightarrow> x div 16 < 16" "x < 256 \<Longrightarrow> x div 64 < (4 :: nat)" "x < 256 \<Longrightarrow> x div 4 < 64"
  by (simp_all add: less_mult_imp_div_less)

lemma unsextets_sextets:
  "\<forall>x \<in> set xs. x < 256 \<Longrightarrow> unsextets (sextets xs) = Some xs"
proof (induction xs rule: sextets.induct)
  case (1 a b c r)
  then have q: "b div 16 < 16" "c div 64 < 4" by (simp_all add: byte_parts)
  show ?case using 1 by (simp add: join_div [OF q(1)] join_mod [OF q(1)] join_div [OF q(2)] join_mod [OF q(2)]
      q div_mult_mod_eq)
next
  case (2 a b)
  then have q: "b div 16 < 16" by (simp add: byte_parts)
  have "b mod 16 * 4 div 4 = b mod 16" by simp
  then show ?case by (simp add: join_div [OF q] join_mod [OF q] q div_mult_mod_eq)
qed (simp_all add: div_mult_mod_eq)

lemma join_bound: "r < m \<Longrightarrow> q < k \<Longrightarrow> r * k + q < m * (k :: nat)"
proof -
  assume "r < m" "q < k"
  then have "r * k + q < Suc r * k" by simp
  also have "\<dots> \<le> m * k" using \<open>r < m\<close> by (intro mult_le_mono1) simp
  finally show ?thesis .
qed

lemma sextets_bound: "\<forall>x \<in> set xs. x < 256 \<Longrightarrow> \<forall>y \<in> set (sextets xs). y < 64"
proof (induction xs rule: sextets.induct)
  case (1 a b c r)
  then show ?case
    using join_bound [of "a mod 4" 4 "b div 16" 16] join_bound [of "b mod 16" 16 "c div 64" 4]
    by (simp add: byte_parts)
next
  case (2 a b)
  then show ?case
    using join_bound [of "a mod 4" 4 "b div 16" 16] join_bound [of "b mod 16" 16 0 4]
    by (simp add: byte_parts)
next
  case (3 a)
  then show ?case using join_bound [of "a mod 4" 4 0 16] by (simp add: byte_parts)
qed simp

lemma letter_index_nth: "distinct al \<Longrightarrow> n < length al \<Longrightarrow> letter_index al (al ! n) = Some n"
  by (induction al arbitrary: n) (auto simp: nth_Cons split: nat.splits)

lemma all_indices_nth:
  "distinct al \<Longrightarrow> \<forall>n \<in> set ns. n < length al \<Longrightarrow> all_indices al (map (\<lambda>n. al ! n) ns) = Some ns"
  by (induction ns) (simp_all add: letter_index_nth)

lemma base64_alphabet:
  assumes "length al = 64"
  shows "set (base64_encode al s) \<subseteq> set al"
proof -
  have "\<forall>y \<in> set (sextets (map of_char s)). y < 64"
    by (rule sextets_bound) (auto simp: nat_of_char_less_256)
  then show ?thesis using assms by (auto simp: base64_encode_def)
qed

lemma base64_decode_encode:
  assumes "distinct al" and "length al = 64" and "CHR 0x0D \<notin> set al" and "CHR 0x0A \<notin> set al"
  shows "base64_decode al (base64_encode al s) = Some s"
proof -
  let ?ns = "sextets (map of_char s)"
  have b: "\<forall>y \<in> set ?ns. y < length al"
    using sextets_bound [of "map of_char s"] assms(2) by (auto simp: nat_of_char_less_256)
  have "filter (\<lambda>c. c \<noteq> CHR 0x0D \<and> c \<noteq> CHR 0x0A) (base64_encode al s) = base64_encode al s"
    using base64_alphabet [OF assms(2)] assms(3,4) by (intro filter_True) auto
  moreover have "unsextets ?ns = Some (map of_char s)"
    by (rule unsextets_sextets) (auto simp: nat_of_char_less_256)
  ultimately show ?thesis
    using all_indices_nth [OF assms(1) b] by (simp add: base64_decode_def base64_encode_def comp_def)
qed

section \<open>Decimal integers\<close>

definition decimal_value :: "char \<Rightarrow> int option" where
  "decimal_value c = (if 48 \<le> (of_char c :: int) \<and> (of_char c :: int) \<le> 57 then Some (of_char c - 48) else None)"

fun decimal_loop :: "int \<Rightarrow> string \<Rightarrow> int option" where
  "decimal_loop n [] = Some n"
| "decimal_loop n (c # s) =
     (case decimal_value c of None \<Rightarrow> None | Some d \<Rightarrow> decimal_loop (10 * n + d) s)"

definition in_range64 :: "int \<Rightarrow> int option" where
  "in_range64 n = (if - (2 ^ 63) \<le> n \<and> n < 2 ^ 63 then Some n else None)"

fun atoi :: "string \<Rightarrow> int option" where
  "atoi [] = None"
| "atoi (c # s) =
     (if c = CHR ''-'' \<and> s \<noteq> [] then Option.bind (decimal_loop 0 s) (\<lambda>n. in_range64 (- n))
      else if c = CHR ''+'' \<and> s \<noteq> [] then Option.bind (decimal_loop 0 s) in_range64
      else Option.bind (decimal_loop 0 (c # s)) in_range64)"

text \<open>\<open>strconv.Itoa\<close> and the decimal rendering of a natural number.\<close>

fun decimal :: "nat \<Rightarrow> string" where
  "decimal n = (if n < 10 then [] else decimal (n div 10)) @ [char_of (48 + n mod 10)]"

declare decimal.simps [simp del]

definition itoa :: "int \<Rightarrow> string" where
  "itoa n = (if n < 0 then CHR ''-'' # decimal (nat (- n)) else decimal (nat n))"

lemma decimal_value_char: "d < 10 \<Longrightarrow> decimal_value (char_of (48 + d :: nat)) = Some (int d)"
proof -
  assume "d < 10"
  then have "(of_char (char_of (48 + d :: nat)) :: nat) = 48 + d" by simp
  then have "(of_char (char_of (48 + d :: nat)) :: int) = 48 + int d"
    by (metis of_nat_add of_nat_numeral of_nat_of_char)
  then show ?thesis using \<open>d < 10\<close> by (simp add: decimal_value_def)
qed

lemma decimal_loop_append:
  "decimal_loop k (decimal n @ s) = decimal_loop (k * 10 ^ length (decimal n) + int n) s"
proof (induction n arbitrary: k s rule: decimal.induct)
  case (1 n)
  have d: "decimal_value (char_of (48 + n mod 10 :: nat)) = Some (int (n mod 10))" by (rule decimal_value_char) simp
  show ?case
  proof (cases "n < 10")
    case True
    then show ?thesis using d by (simp add: decimal.simps [of n] mult.commute)
  next
    case False
    then have e: "decimal n = decimal (n div 10) @ [char_of (48 + n mod 10)]" by (simp add: decimal.simps [of n])
    have "int n = 10 * int (n div 10) + int (n mod 10)"
      by (metis mult_div_mod_eq of_nat_add of_nat_mult of_nat_numeral)
    then show ?thesis
      using "1.IH" [OF False, of k "char_of (48 + n mod 10) # s"] d unfolding e by (simp add: algebra_simps)
  qed
qed

lemma decimal_head: "\<exists>c s. decimal n = c # s \<and> (48 :: nat) \<le> of_char c \<and> (of_char c :: nat) \<le> 57"
proof (induction n rule: decimal.induct)
  case (1 n)
  then show ?case by (cases "n < 10") (auto simp: decimal.simps [of n])
qed

lemma atoi_itoa: "- (2 ^ 63) \<le> n \<Longrightarrow> n < 2 ^ 63 \<Longrightarrow> atoi (itoa n) = Some n"
proof -
  assume r: "- (2 ^ 63) \<le> n" "n < 2 ^ 63"
  have l: "decimal_loop 0 (decimal m) = Some (int m)" for m using decimal_loop_append [of 0 m "[]"] by simp
  obtain c s where d: "decimal (nat n) = c # s" "(48 :: nat) \<le> of_char c" using decimal_head by blast
  obtain e t where e: "decimal (nat (- n)) = e # t" using decimal_head by blast
  have "c \<noteq> CHR ''-''" "c \<noteq> CHR ''+''" using d(2) by auto
  then show ?thesis using r l [of "nat n"] l [of "nat (- n)"] d(1) e
    by (cases "n < 0") (simp_all add: itoa_def in_range64_def del: decimal_loop.simps)
qed

text \<open>
  \<open>DecodeString\<close> also returns what it decoded before an error: the complete groups of four letters
  that precede it.
\<close>

definition base64_decode_part :: "string \<Rightarrow> string \<Rightarrow> string" where
  "base64_decode_part al s =
     (case base64_decode al s of
        Some b \<Rightarrow> b
      | None \<Rightarrow>
          (let good = takeWhile (\<lambda>c. c \<in> set al) (filter (\<lambda>c. c \<noteq> CHR 0x0D \<and> c \<noteq> CHR 0x0A) s)
           in case base64_decode al (take (4 * (length good div 4)) good) of Some b \<Rightarrow> b | None \<Rightarrow> []))"

lemma base64_url_ok: "distinct base64_url" "length base64_url = 64" "CHR 0x0D \<notin> set base64_url" "CHR 0x0A \<notin> set base64_url"
  by (simp_all add: base64_url_def)

lemmas base64_url_round_trip [simp] = base64_decode_encode [OF base64_url_ok]

lemma length_sextets: "length xs \<le> length (sextets xs)"
  by (induction xs rule: sextets.induct) auto

lemma base64_encode_ne: "s \<noteq> [] \<Longrightarrow> base64_encode al s \<noteq> []"
  using length_sextets [of "map of_char s"] by (auto simp: base64_encode_def)

section \<open>Digests\<close>

text \<open>The 32 bytes of a 256-bit sum: SHA-256 and HMAC-SHA-256 themselves are arguments.\<close>

definition digest_bytes :: "256 word \<Rightarrow> string" where
  "digest_bytes w = be_bytes 32 (unat w)"

lemma length_digest_bytes [simp]: "length (digest_bytes w) = 32"
  by (simp add: digest_bytes_def)

lemma digest_bytes_ne [simp]: "digest_bytes w \<noteq> []"
  using length_digest_bytes [of w] by fastforce

lemma digest_bytes_inject [simp]: "digest_bytes v = digest_bytes w \<longleftrightarrow> v = w"
proof
  have u: "of_be (digest_bytes x) = unat x" for x
    unfolding digest_bytes_def using unsigned_less [of x] by (intro of_be_be_bytes) simp
  assume "digest_bytes v = digest_bytes w"
  then have "unat v = unat w" using u by metis
  then show "v = w" by (rule unsigned_word_eqI)
qed simp

end
