(* ===== verification/Replica_Authority.thy ===== *)
theory Replica_Authority
  imports Replica_KVFSM Go_Bytes
begin

text \<open>
  \<open>replication/authority.go\<close> and \<open>replication/readiness.go\<close>: the configured mode, the runtime
  readiness, the authoritative mutation matrix, and the driver that derives readiness from the
  raft lifecycle.

  The proposal and forwarding actions are arguments; they carry a world \<open>'w\<close>, so that a rejected
  mutation can be shown to have caused no effect. \<open>time.ParseDuration\<close> is an argument.
\<close>

section \<open>Modes, readiness and request identity\<close>

datatype mode = ModeStandalone | ModeReplicated

definition mode_string :: "mode \<Rightarrow> string" where
  "mode_string m = (if m = ModeReplicated then ''replicated'' else ''standalone'')"

datatype readiness =
    ReadinessStarting
  | ReadinessLearner
  | ReadinessReadyFollower
  | ReadinessReadyLeader
  | ReadinessNoLeader
  | ReadinessUnhealthy
  | ReadinessShuttingDown

fun readiness_string :: "readiness \<Rightarrow> string" where
  "readiness_string ReadinessStarting = ''starting''"
| "readiness_string ReadinessLearner = ''learner/catching-up''"
| "readiness_string ReadinessReadyFollower = ''ready-follower''"
| "readiness_string ReadinessReadyLeader = ''ready-leader''"
| "readiness_string ReadinessNoLeader = ''no-leader''"
| "readiness_string ReadinessUnhealthy = ''unhealthy''"
| "readiness_string ReadinessShuttingDown = ''shutting-down''"

record forward_request =
  fr_kind :: string
  fr_object_id :: string
  fr_op_id :: string
  fr_revision :: int
  fr_payload :: string

text \<open>A context is the chain of its attached values; a lookup finds the innermost one.\<close>

datatype context_value = RequestIDValue string | OtherValue string string

type_synonym go_context = "context_value list"

definition with_request_id :: "go_context \<Rightarrow> string \<Rightarrow> go_context" where
  "with_request_id ctx i = RequestIDValue i # ctx"

fun request_id :: "go_context \<Rightarrow> string" where
  "request_id [] = []"
| "request_id (RequestIDValue i # ctx) = i"
| "request_id (OtherValue k v # ctx) = request_id ctx"

section \<open>Authority\<close>

datatype 'e route_error = Standalone | Unavailable readiness | Action 'e

type_synonym ('w, 'e) action = "go_context \<Rightarrow> 'w \<Rightarrow> 'w \<times> ('e + apply_result option)"

type_synonym ('w, 'e) forward_client =
  "go_context \<Rightarrow> forward_request \<Rightarrow> 'w \<Rightarrow> 'w \<times> ('e + apply_result option)"

record ('w, 'e) authority =
  au_mode :: mode
  au_readiness :: readiness
  au_forward :: "('w, 'e) forward_client option"

definition new_authority :: "('w, 'e) authority" where
  "new_authority = \<lparr>au_mode = ModeStandalone, au_readiness = ReadinessStarting, au_forward = None\<rparr>"

definition set_mode :: "('w, 'e) authority \<Rightarrow> mode \<Rightarrow> ('w, 'e) authority" where
  "set_mode a m = a\<lparr>au_mode := m\<rparr>"

definition set_readiness :: "('w, 'e) authority \<Rightarrow> readiness \<Rightarrow> ('w, 'e) authority" where
  "set_readiness a r = a\<lparr>au_readiness := r\<rparr>"

definition set_forward_client ::
  "('w, 'e) authority \<Rightarrow> ('w, 'e) forward_client option \<Rightarrow> ('w, 'e) authority" where
  "set_forward_client a f = a\<lparr>au_forward := f\<rparr>"

definition authority_state :: "('w, 'e) authority \<Rightarrow> mode \<times> readiness" where
  "authority_state a = (au_mode a, au_readiness a)"

definition route ::
  "('w, 'e) authority \<Rightarrow> go_context \<Rightarrow> ('w, 'e) action \<Rightarrow> ('w, 'e) action \<Rightarrow>
   'w \<Rightarrow> 'w \<times> ('e route_error + apply_result option)" where
  "route a ctx propose forward w =
     (if au_mode a = ModeStandalone then (w, Inl Standalone)
      else (case au_readiness a of
        ReadinessReadyLeader \<Rightarrow> map_prod id (map_sum Action id) (propose ctx w)
      | ReadinessReadyFollower \<Rightarrow> map_prod id (map_sum Action id) (forward ctx w)
      | rd \<Rightarrow> (w, Inl (Unavailable rd))))"

section \<open>The readiness driver\<close>

text \<open>
  \<open>strconv.ParseUint(v, 10, 64)\<close> with its error dropped: zero on a syntax error, the largest
  value once the number leaves 64 bits (the rest of the text is then not read).
\<close>

definition max_u64 :: nat where
  "max_u64 = 2 ^ 64 - 1"

definition digit_value :: "char \<Rightarrow> nat option" where
  "digit_value c = (let n = of_char c in if 48 \<le> n \<and> n \<le> 57 then Some (n - 48) else None)"

fun parse_uint_loop :: "nat \<Rightarrow> string \<Rightarrow> nat" where
  "parse_uint_loop n [] = n"
| "parse_uint_loop n (c # cs) =
     (case digit_value c of
        None \<Rightarrow> 0
      | Some d \<Rightarrow>
          if n \<ge> max_u64 div 10 + 1 then max_u64
          else if n * 10 + d > max_u64 then max_u64
          else parse_uint_loop (n * 10 + d) cs)"

definition parse_index :: "string \<Rightarrow> nat" where
  "parse_index v = (if v = [] then 0 else parse_uint_loop 0 v)"

datatype raft_state = Follower | Candidate | Leader | Shutdown

type_synonym raft_stats = "string \<Rightarrow> string option"

definition stat :: "raft_stats \<Rightarrow> string \<Rightarrow> string" where
  "stat st k = (case st k of None \<Rightarrow> [] | Some v \<Rightarrow> v)"

definition caught_up :: "(string \<Rightarrow> int option) \<Rightarrow> raft_stats \<Rightarrow> bool" where
  "caught_up parse_duration st =
     (let applied = parse_index (stat st ''applied_index'');
          last_index = parse_index (stat st ''last_log_index'')
      in if applied < last_index then False
         else (let contact = stat st ''last_contact''
               in if contact = ''0'' then True
                  else if contact = [] \<or> contact = ''never'' then False
                  else (case parse_duration contact of
                    None \<Rightarrow> False
                  | Some since \<Rightarrow> since < 2 * 1000000000)))"

text \<open>What one wake-up of the driver sees, in the order it looks: the context, the product health,
  the raft state, the known leader address and the raft statistics.\<close>

record observation =
  ob_done :: bool
  ob_healthy :: bool
  ob_state :: raft_state
  ob_leader :: string
  ob_stats :: raft_stats

record readiness_driver =
  rd_has_health :: bool
  rd_interval :: int

definition new_readiness_driver :: "bool \<Rightarrow> int \<Rightarrow> readiness_driver" where
  "new_readiness_driver has_health interval =
     \<lparr>rd_has_health = has_health, rd_interval = (if interval \<le> 0 then 150 * 1000000 else interval)\<rparr>"

definition derive_readiness ::
  "(string \<Rightarrow> int option) \<Rightarrow> readiness_driver \<Rightarrow> observation \<Rightarrow> readiness" where
  "derive_readiness parse_duration d ob =
     (if rd_has_health d \<and> \<not> ob_healthy ob then ReadinessUnhealthy
      else (case ob_state ob of
        Leader \<Rightarrow> ReadinessReadyLeader
      | Follower \<Rightarrow>
          if ob_leader ob \<noteq> [] \<and> caught_up parse_duration (ob_stats ob) then ReadinessReadyFollower
          else if ob_leader ob \<noteq> [] then ReadinessLearner
          else ReadinessNoLeader
      | Candidate \<Rightarrow> ReadinessNoLeader
      | Shutdown \<Rightarrow> ReadinessShuttingDown))"

text \<open>\<open>Run\<close> over the wake-ups until the context is done, reporting each readiness to \<open>set\<close>; the
  second component says whether it returned.\<close>

fun driver_run ::
  "(string \<Rightarrow> int option) \<Rightarrow> readiness_driver \<Rightarrow> ('s \<Rightarrow> readiness \<Rightarrow> 's) \<Rightarrow> 's \<Rightarrow> observation list \<Rightarrow>
   's \<times> bool" where
  "driver_run pd d set_rd s [] = (s, False)"
| "driver_run pd d set_rd s (ob # obs) =
     (if ob_done ob then (set_rd s ReadinessShuttingDown, True)
      else driver_run pd d set_rd (set_rd s (derive_readiness pd d ob)) obs)"

section \<open>The leader's proposal endpoint and the transport's TLS contract\<close>

text \<open>
  \<open>replication/tls.go\<close>. A response is a status and its body; \<open>decode\<close> and \<open>encode\<close> are the JSON of
  the envelope and of the result, \<open>read_body\<close> the request body (\<open>None\<close> when it cannot be read), of
  which at most one mebibyte is read.
\<close>

datatype 'e endpoint_error = Unauthorized | BadRequest | Conflict 'e

definition leader_propose_handler ::
  "('q \<Rightarrow> string option) \<Rightarrow> ('q \<Rightarrow> string option) \<Rightarrow> (string \<Rightarrow> forward_request option) \<Rightarrow>
   (forward_request \<Rightarrow> 'w \<Rightarrow> 'w \<times> ('e + apply_result option)) \<Rightarrow> 'q \<Rightarrow> 'w \<Rightarrow>
   'w \<times> ('e endpoint_error + apply_result option)" where
  "leader_propose_handler authenticate read_body decode rt r w =
     (case authenticate r of
        None \<Rightarrow> (w, Inl Unauthorized)
      | Some _ \<Rightarrow>
          (case read_body r of
             None \<Rightarrow> (w, Inl BadRequest)
           | Some body \<Rightarrow>
               (case decode (take (2 ^ 20) body) of
                  None \<Rightarrow> (w, Inl BadRequest)
                | Some fr \<Rightarrow> map_prod id (map_sum Conflict id) (rt fr w))))"

datatype tls_error = TripletRequired | KeyPair | CARead | CAEmpty

text \<open>\<open>key_pair\<close> loads the certificate and \<open>ca_pool\<close> reads the authority: \<open>None\<close> when the file is
  unreadable, \<open>Some None\<close> when it holds no certificate.\<close>

definition load_tls_config ::
  "(string \<Rightarrow> string \<Rightarrow> 'k option) \<Rightarrow> (string \<Rightarrow> 'p option option) \<Rightarrow> string \<Rightarrow> string \<Rightarrow> string \<Rightarrow>
   tls_error + ('k \<times> 'p) option" where
  "load_tls_config key_pair ca_pool cert key ca =
     (if cert = [] \<and> key = [] \<and> ca = [] then Inr None
      else if cert = [] \<or> key = [] \<or> ca = [] then Inl TripletRequired
      else (case key_pair cert key of
        None \<Rightarrow> Inl KeyPair
      | Some k \<Rightarrow> (case ca_pool ca of
          None \<Rightarrow> Inl CARead
        | Some None \<Rightarrow> Inl CAEmpty
        | Some (Some p) \<Rightarrow> Inr (Some (k, p)))))"

section \<open>Timing profiles\<close>

record timing =
  tm_heartbeat :: int
  tm_election :: int
  tm_lease :: int
  tm_commit :: int
  tm_propose :: int
  tm_revalidate :: int

definition local_test_timing :: timing where
  "local_test_timing = \<lparr>tm_heartbeat = 250 * 1000000, tm_election = 500 * 1000000,
     tm_lease = 250 * 1000000, tm_commit = 20 * 1000000, tm_propose = 3 * 1000000000,
     tm_revalidate = 3600 * 1000000000\<rparr>"

definition production_timing :: timing where
  "production_timing = \<lparr>tm_heartbeat = 1000000000, tm_election = 3 * 1000000000,
     tm_lease = 750 * 1000000, tm_commit = 100 * 1000000, tm_propose = 10 * 1000000000,
     tm_revalidate = 30 * 1000000000\<rparr>"

text \<open>The relations the consensus library requires of a configuration hold for both profiles.\<close>

lemma timing_ordered:
  "tm_lease t \<le> tm_heartbeat t \<and> tm_heartbeat t \<le> tm_election t \<and> tm_commit t < tm_heartbeat t"
  if "t = local_test_timing \<or> t = production_timing"
  using that by (auto simp: local_test_timing_def production_timing_def)

text \<open>An unauthenticated or malformed proposal never reaches the routed action.\<close>

lemma leader_propose_handler_frame:
  "snd (leader_propose_handler au rb de rt r w) = Inl Unauthorized \<or>
   snd (leader_propose_handler au rb de rt r w) = Inl BadRequest \<Longrightarrow>
   fst (leader_propose_handler au rb de rt r w) = w"
  by (auto simp: leader_propose_handler_def map_sum_def split: option.splits sum.splits)

section \<open>Facts\<close>

definition route_open :: "readiness \<Rightarrow> bool" where
  "route_open r \<longleftrightarrow> r = ReadinessReadyLeader \<or> r = ReadinessReadyFollower"

lemma route_closed:
  "au_mode a = ModeReplicated \<Longrightarrow> \<not> route_open (au_readiness a) \<Longrightarrow>
   route a ctx p f w = (w, Inl (Unavailable (au_readiness a)))"
  by (cases "au_readiness a") (auto simp: route_def route_open_def)

lemma driver_run_appends:
  "\<forall>ob \<in> set obs. \<not> ob_done ob \<Longrightarrow>
   driver_run pd d set_rd s (obs @ obs') =
   driver_run pd d set_rd (fst (driver_run pd d set_rd s obs)) obs'"
  by (induction obs arbitrary: s) auto

lemma driver_run_mode:
  "au_mode (fst (driver_run pd d set_readiness a obs)) = au_mode a"
  by (induction obs arbitrary: a) (auto simp: set_readiness_def)

lemma driver_run_last:
  assumes "\<forall>ob \<in> set obs. \<not> ob_done ob"
  shows "au_readiness (fst (driver_run pd d set_readiness a (obs @ [ob]))) =
    (if ob_done ob then ReadinessShuttingDown else derive_readiness pd d ob)"
  using assms by (simp add: driver_run_appends set_readiness_def)

lemma digit_value_char: "d < 10 \<Longrightarrow> digit_value (char_of (48 + d)) = Some d"
  by (simp add: digit_value_def)

lemma parse_uint_loop_decimal:
  "n \<le> max_u64 \<Longrightarrow> parse_uint_loop 0 (decimal n @ cs) = parse_uint_loop n cs"
proof (induction n arbitrary: cs rule: decimal.induct)
  case (1 n)
  have last: "parse_uint_loop (n div 10) (char_of (48 + n mod 10) # cs) = parse_uint_loop n cs"
    if "n \<le> max_u64"
    using that div_le_mono [OF that, of 10] by (simp add: digit_value_char max_u64_def)
  show ?case
  proof (cases "n < 10")
    case True
    with 1 last show ?thesis by (simp add: decimal.simps [of n])
  next
    case False
    then have "decimal n = decimal (n div 10) @ [char_of (48 + n mod 10)]"
      by (simp add: decimal.simps [of n])
    moreover have "n div 10 \<le> max_u64" using "1.prems" by simp
    ultimately show ?thesis using "1.IH" [OF False] last "1.prems" by simp
  qed
qed

lemma parse_index_decimal: "n \<le> max_u64 \<Longrightarrow> parse_index (decimal n) = n"
  using parse_uint_loop_decimal [of n "[]"]
  by (simp add: parse_index_def decimal.simps [of n])

section \<open>Properties\<close>

text \<open>C7. A node configured as replicated never falls open: after any run of the readiness driver, a
  mutation reaches the proposal action only if the last observation was a healthy raft leader, and
  the forwarding action only if it was a healthy follower that knows its leader, has applied its
  whole log and heard from the leader within two seconds; in every other case the mutation is
  rejected and neither action is called. The product's local path is never chosen.\<close>

theorem route_never_falls_open:
  assumes mode: "au_mode a = ModeReplicated"
    and running: "\<forall>o1 \<in> set obs. \<not> ob_done o1"
    and stats: "ob_stats ob ''applied_index'' = Some (decimal i)"
      "ob_stats ob ''last_log_index'' = Some (decimal l)" "i \<le> max_u64" "l \<le> max_u64"
    and run: "a' = fst (driver_run pd d set_readiness a (obs @ [ob]))"
  shows "route a' ctx propose forward w =
     (if ob_done ob then (w, Inl (Unavailable ReadinessShuttingDown))
      else if rd_has_health d \<and> \<not> ob_healthy ob then (w, Inl (Unavailable ReadinessUnhealthy))
      else if ob_state ob = Leader then map_prod id (map_sum Action id) (propose ctx w)
      else if ob_state ob = Follower \<and> ob_leader ob \<noteq> [] \<and> l \<le> i \<and>
           (stat (ob_stats ob) ''last_contact'' = ''0'' \<or>
            stat (ob_stats ob) ''last_contact'' \<noteq> [] \<and> stat (ob_stats ob) ''last_contact'' \<noteq> ''never'' \<and>
            (\<exists>t. pd (stat (ob_stats ob) ''last_contact'') = Some t \<and> t < 2000000000))
        then map_prod id (map_sum Action id) (forward ctx w)
      else (w, Inl (Unavailable (derive_readiness pd d ob))))"
proof -
  have m: "au_mode a' = ModeReplicated"
    and r: "au_readiness a' = (if ob_done ob then ReadinessShuttingDown else derive_readiness pd d ob)"
    by (simp_all add: run mode driver_run_last [OF running] driver_run_mode)
  have c: "caught_up pd (ob_stats ob) \<longleftrightarrow> l \<le> i \<and>
     (stat (ob_stats ob) ''last_contact'' = ''0'' \<or>
      stat (ob_stats ob) ''last_contact'' \<noteq> [] \<and> stat (ob_stats ob) ''last_contact'' \<noteq> ''never'' \<and>
      (\<exists>t. pd (stat (ob_stats ob) ''last_contact'') = Some t \<and> t < 2000000000))"
    using stats parse_index_decimal [of i] parse_index_decimal [of l]
    by (auto simp: caught_up_def stat_def Let_def split: option.splits)
  show ?thesis
    using m r c by (auto simp: route_def derive_readiness_def split: raft_state.splits)
qed

lemma route_never_falls_open_witness:
  "route (fst (driver_run (\<lambda>_. None) (new_readiness_driver True 0) set_readiness
       (set_mode new_authority ModeReplicated)
       [\<lparr>ob_done = False, ob_healthy = True, ob_state = Follower, ob_leader = ''n1'',
         ob_stats = [''applied_index'' \<mapsto> decimal 6, ''last_log_index'' \<mapsto> decimal 7,
           ''last_contact'' \<mapsto> ''0'']\<rparr>]))
     [] (\<lambda>_ n. (Suc n, Inl ())) (\<lambda>_ n. (Suc n, Inl ())) (0::nat) =
   (0, Inl (Unavailable ReadinessLearner))"
proof -
  let ?st = "[''applied_index'' \<mapsto> decimal 6, ''last_log_index'' \<mapsto> decimal 7, ''last_contact'' \<mapsto> ''0'']"
  let ?ob = "\<lparr>ob_done = False, ob_healthy = True, ob_state = Follower, ob_leader = ''n1'', ob_stats = ?st\<rparr>"
  have "derive_readiness (\<lambda>_. None) (new_readiness_driver True 0) ?ob = ReadinessLearner"
    by (simp add: derive_readiness_def new_readiness_driver_def caught_up_def parse_index_decimal
        stat_def max_u64_def)
  moreover have "6 \<le> max_u64" "7 \<le> max_u64" by (simp_all add: max_u64_def)
  ultimately show ?thesis
    using route_never_falls_open [of "set_mode new_authority ModeReplicated" "[]" ?ob 6 7
        "fst (driver_run (\<lambda>_. None) (new_readiness_driver True 0) set_readiness
          (set_mode new_authority ModeReplicated) ([] @ [?ob]))" "\<lambda>_. None"
        "new_readiness_driver True 0" "[]" "\<lambda>_ n. (Suc n, Inl ())" "\<lambda>_ n. (Suc n, Inl ())" "0::nat"]
    by (simp add: set_mode_def new_authority_def)
qed

end
