(* ===== verification/Replica_Wire.thy ===== *)
theory Replica_Wire
  imports Go_Bytes
begin

text \<open>
  The frames of the network transport of \<open>replication/nettransport.go\<close>: one type byte, four
  big-endian length bytes, the payload.
\<close>

section \<open>Frames\<close>

datatype wire_error = FrameTooLarge | WriteFailed | StreamEnded

definition max_frame_bytes :: nat where
  "max_frame_bytes = 64 * 2 ^ 20"

text \<open>A writer appends what it accepts and reports whether it accepted all of it.\<close>

definition write_frame ::
  "('w \<Rightarrow> string \<Rightarrow> 'w \<times> bool) \<Rightarrow> 'w \<Rightarrow> char \<Rightarrow> string \<Rightarrow> 'w \<times> (wire_error + unit)" where
  "write_frame put w tag payload =
     (if length payload > max_frame_bytes then (w, Inl FrameTooLarge)
      else (case put w (tag # be_bytes 4 (length payload mod 2 ^ 32)) of
        (w1, False) \<Rightarrow> (w1, Inl WriteFailed)
      | (w1, True) \<Rightarrow> (case put w1 payload of
          (w2, ok) \<Rightarrow> (w2, if ok then Inr () else Inl WriteFailed))))"

text \<open>A reader is the rest of its stream; the bytes \<open>io.ReadFull\<close> consumed before the end are
  lost with the connection.\<close>

definition read_frame :: "string \<Rightarrow> wire_error + (char \<times> string \<times> string)" where
  "read_frame s =
     (if length s < 5 then Inl StreamEnded
      else (let n = of_be (take 4 (tl s)); rest = drop 5 s
            in if n > max_frame_bytes then Inl FrameTooLarge
               else if length rest < n then Inl StreamEnded
               else Inr (hd s, take n rest, drop n rest)))"

definition buffer_put :: "string \<Rightarrow> string \<Rightarrow> string \<times> bool" where
  "buffer_put w s = (w @ s, True)"

definition frame :: "char \<Rightarrow> string \<Rightarrow> string" where
  "frame tag payload = tag # be_bytes 4 (length payload) @ payload"

lemma write_frame_buffer:
  "length payload \<le> max_frame_bytes \<Longrightarrow>
   write_frame buffer_put w tag payload = (w @ frame tag payload, Inr ())"
  by (simp add: write_frame_def buffer_put_def frame_def max_frame_bytes_def)

lemma read_frame_frame:
  assumes "length payload \<le> max_frame_bytes"
  shows "read_frame (frame tag payload @ rest) = Inr (tag, payload, rest)"
proof -
  have "of_be (be_bytes 4 (length payload)) = length payload"
    using assms by (intro of_be_be_bytes) (simp add: max_frame_bytes_def)
  then show ?thesis using assms by (simp add: read_frame_def frame_def Let_def drop_append)
qed

lemma read_frame_bound:
  "read_frame s = Inr (tag, payload, rest) \<Longrightarrow>
   length payload \<le> max_frame_bytes \<and> s = frame tag payload @ rest"
proof -
  assume r: "read_frame s = Inr (tag, payload, rest)"
  then have l: "5 \<le> length s" by (auto simp: read_frame_def split: if_splits)
  then obtain t h p where s: "s = t # h @ p" "length h = 4"
    by (metis (no_types, lifting) Suc_le_length_iff append_take_drop_id eval_nat_numeral(3) length_take min.absorb2 Suc_le_mono semiring_norm(26,27) numeral_eq_Suc pred_numeral_simps(3))
  with r have n: "of_be h \<le> max_frame_bytes" "of_be h \<le> length p"
    "tag = t" "payload = take (of_be h) p" "rest = drop (of_be h) p"
    by (auto simp: read_frame_def Let_def split: if_splits)
  then have "length payload = of_be h" by simp
  moreover have "be_bytes 4 (of_be h) = h" using be_bytes_of_be [of h] s by simp
  ultimately show ?thesis using s n by (simp add: frame_def)
qed

lemma read_frame_shorter: "read_frame s = Inr (tag, payload, rest) \<Longrightarrow> length rest < length s"
  by (drule read_frame_bound) (simp add: frame_def)

text \<open>Reading a stream frame by frame, to the first error.\<close>

function read_frames :: "string \<Rightarrow> (char \<times> string) list \<times> wire_error" where
  "read_frames s = (case read_frame s of
     Inl e \<Rightarrow> ([], e)
   | Inr (tag, payload, rest) \<Rightarrow> (case read_frames rest of (fs, e) \<Rightarrow> ((tag, payload) # fs, e)))"
  by pat_completeness auto
termination
  by (relation "measure length") (auto dest: read_frame_shorter)

declare read_frames.simps [simp del]

lemma prefix_frame_stream_ended:
  assumes "strict_prefix s (frame tag payload)" and "length payload \<le> max_frame_bytes"
  shows "read_frame s = Inl StreamEnded"
proof (cases "read_frame s")
  case (Inr x)
  then obtain t p r where x: "read_frame s = Inr (t, p, r)" by (cases x) auto
  from assms(1) obtain z where z: "frame tag payload = s @ z" "z \<noteq> []"
    by (auto simp: strict_prefix_def prefix_def)
  have "read_frame (s @ z) = Inr (t, p, r @ z)"
    using read_frame_bound [OF x] read_frame_frame [of p t "r @ z"] by simp
  then have "Inr (tag, payload, []) = Inr (t, p, r @ z)"
    using read_frame_frame [OF assms(2), of tag "[]"] z by simp
  then show ?thesis using z by simp
next
  case (Inl e)
  then show ?thesis
  proof (cases "length s < 5")
    case True
    then show ?thesis by (simp add: read_frame_def)
  next
    case False
    from assms(1) obtain z where z: "frame tag payload = s @ z"
      by (auto simp: strict_prefix_def prefix_def)
    have "take 4 (tl s) = take 4 (tl (s @ z))" using False by (cases s) auto
    also have "\<dots> = be_bytes 4 (length payload)" by (simp add: z [symmetric] frame_def)
    finally have "of_be (take 4 (tl s)) \<le> max_frame_bytes"
      using assms(2) of_be_be_bytes [of "length payload" 4] by (simp add: max_frame_bytes_def)
    with False Inl show ?thesis by (auto simp: read_frame_def Let_def split: if_splits)
  qed
qed

lemma read_frames_written:
  "\<forall>(tag, payload) \<in> set fs. length payload \<le> max_frame_bytes \<Longrightarrow>
   read_frames (concat (map (\<lambda>(tag, payload). frame tag payload) fs) @ s) =
     (fs @ fst (read_frames s), snd (read_frames s))"
proof (induction fs)
  case (Cons a fs)
  then show ?case
    by (cases a; cases "read_frames s")
      (simp add: read_frame_frame read_frames.simps [of "frame _ _ @ _"])
qed simp

section \<open>Properties\<close>

text \<open>Framing: the frames written to a connection are read back in order and whole, and a stream
  cut anywhere inside the next frame yields exactly the complete frames before the cut and then the
  end of the stream; a truncated frame is never delivered.\<close>

theorem frames_read_back:
  assumes "\<forall>(tag, payload) \<in> set fs. length payload \<le> max_frame_bytes"
    and "length payload \<le> max_frame_bytes" and "strict_prefix cut_off (frame tag payload)"
    and "written = foldl (\<lambda>w (tag, payload). fst (write_frame buffer_put w tag payload)) [] fs"
  shows "read_frames (written @ cut_off) = (fs, StreamEnded)"
proof -
  have "foldl (\<lambda>w (tag, payload). fst (write_frame buffer_put w tag payload)) w fs =
      w @ concat (map (\<lambda>(tag, payload). frame tag payload) fs)" for w
    using assms(1) by (induction fs arbitrary: w) (auto simp: write_frame_buffer)
  then have "written = concat (map (\<lambda>(tag, payload). frame tag payload) fs)"
    using assms(4) by simp
  then show ?thesis
    using read_frames_written [OF assms(1), of cut_off]
      prefix_frame_stream_ended [OF assms(3,2)]
    by (simp add: read_frames.simps [of cut_off])
qed

lemma frames_read_back_witness:
  "read_frames (frame CHR 0x01 ''ab'' @ [CHR 0x07, CHR 0x00]) = ([(CHR 0x01, ''ab'')], StreamEnded)"
proof -
  have "strict_prefix [CHR 0x07, CHR 0x00] (frame CHR 0x07 ''c'')"
    by code_simp
  moreover have "frame CHR 0x01 ''ab'' = foldl (\<lambda>w (tag, payload).
      fst (write_frame buffer_put w tag payload)) [] [(CHR 0x01, ''ab'')]"
    by (simp add: write_frame_buffer max_frame_bytes_def)
  ultimately show ?thesis
    by (intro frames_read_back [where payload = "''c''" and tag = "CHR 0x07"])
      (simp_all add: max_frame_bytes_def)
qed

end
