(* ===== verification/Replica_Store.thy ===== *)
theory Replica_Store
  imports Replica_Wire Replica_Machine
begin

text \<open>
  \<open>replication/store.go\<close>: the raft log and stable store over an ordered key/value file. The bbolt
  engine is the parameter \<open>bolt\<close>: a bucket \<open>'b\<close> with lookup, insertion, removal and the cursor
  calls that find a key, of which \<open>bolt_ordered\<close> states the documented behaviour. What a cursor
  returns after its bucket was changed bbolt leaves open: those keys are an argument. A transaction whose function returns
  an error is rolled back. \<open>encoding/json\<close> for log entries is the pair \<open>log_codec\<close>.
\<close>

section \<open>The engine\<close>

record 'b bolt =
  bo_empty :: 'b
  bo_get :: "'b \<Rightarrow> string \<Rightarrow> string option"
  bo_put :: "'b \<Rightarrow> string \<Rightarrow> string \<Rightarrow> 'b option"
  bo_delete :: "'b \<Rightarrow> string \<Rightarrow> 'b option"
  bo_seek :: "'b \<Rightarrow> string \<Rightarrow> string option"
  bo_last :: "'b \<Rightarrow> string option"

record log_codec =
  marshal_log :: "raft_log \<Rightarrow> string option"
  unmarshal_log :: "string \<Rightarrow> raft_log option"

datatype store_error = EngineError | LogNotFound | StoreJSON | KeyNotFound

record 'b bolt_store =
  bs_log :: 'b
  bs_stable :: 'b

definition new_bolt_store :: "'b bolt \<Rightarrow> 'b bolt_store" where
  "new_bolt_store B = \<lparr>bs_log = bo_empty B, bs_stable = bo_empty B\<rparr>"

text \<open>
  \<open>NewBoltStore\<close> over the file's buckets by name: \<open>opened\<close> is what \<open>bolt.Open\<close> found (\<open>None\<close> when it
  failed) and \<open>ok\<close> says whether a bucket can be created. Both buckets are created in one
  transaction; on an error the file keeps what it had and is closed.
\<close>

definition bucket_log :: string where
  "bucket_log = ''log''"

definition bucket_stable :: string where
  "bucket_stable = ''stable''"

definition create_bucket ::
  "'b bolt \<Rightarrow> (string \<Rightarrow> bool) \<Rightarrow> string \<Rightarrow> (string \<rightharpoonup> 'b) \<Rightarrow> (string \<rightharpoonup> 'b) option" where
  "create_bucket B ok n db =
     (case db n of
        Some _ \<Rightarrow> Some db | None \<Rightarrow> if ok n then Some (db(n \<mapsto> bo_empty B)) else None)"

definition open_bolt_store ::
  "'b bolt \<Rightarrow> (string \<Rightarrow> bool) \<Rightarrow> (string \<rightharpoonup> 'b) option \<Rightarrow>
   (string \<rightharpoonup> 'b) option \<times> (store_error + 'b bolt_store)" where
  "open_bolt_store B ok opened =
     (case opened of
        None \<Rightarrow> (None, Inl EngineError)
      | Some db \<Rightarrow>
          (case Option.bind (create_bucket B ok bucket_log db) (create_bucket B ok bucket_stable) of
             None \<Rightarrow> (Some db, Inl EngineError)
           | Some db' \<Rightarrow>
               (Some db', Inr \<lparr>bs_log = the (db' bucket_log), bs_stable = the (db' bucket_stable)\<rparr>)))"

text \<open>A new file opens empty; reopening a file changes nothing of it and shows what it holds.\<close>

lemma open_new_file:
  "(\<And>n. ok n) \<Longrightarrow> snd (open_bolt_store B ok (Some Map.empty)) = Inr (new_bolt_store B)"
  by (simp add: open_bolt_store_def create_bucket_def new_bolt_store_def bucket_log_def bucket_stable_def)

lemma reopen_file:
  "db bucket_log = Some l \<Longrightarrow> db bucket_stable = Some t \<Longrightarrow>
   open_bolt_store B ok (Some db) = (Some db, Inr \<lparr>bs_log = l, bs_stable = t\<rparr>)"
  by (simp add: open_bolt_store_def create_bucket_def)

section \<open>Keys\<close>

definition uint64_to_bytes :: "u64 \<Rightarrow> string" where
  "uint64_to_bytes v = be_bytes 8 (unat v)"

definition bytes_to_uint64 :: "string \<Rightarrow> u64" where
  "bytes_to_uint64 b = (if length b \<noteq> 8 then 0 else of_nat (of_be b))"

section \<open>Operations\<close>

text \<open>The empty key is below every key, so the cursor's first key is the least key not below it.\<close>

definition first_index :: "'b bolt \<Rightarrow> 'b bolt_store \<Rightarrow> u64" where
  "first_index B s = (case bo_seek B (bs_log s) [] of None \<Rightarrow> 0 | Some k \<Rightarrow> bytes_to_uint64 k)"

definition last_index :: "'b bolt \<Rightarrow> 'b bolt_store \<Rightarrow> u64" where
  "last_index B s = (case bo_last B (bs_log s) of None \<Rightarrow> 0 | Some k \<Rightarrow> bytes_to_uint64 k)"

definition get_log :: "'b bolt \<Rightarrow> log_codec \<Rightarrow> 'b bolt_store \<Rightarrow> u64 \<Rightarrow> store_error + raft_log" where
  "get_log B J s i =
     (case bo_get B (bs_log s) (uint64_to_bytes i) of
        None \<Rightarrow> Inl LogNotFound
      | Some v \<Rightarrow> (case unmarshal_log J v of None \<Rightarrow> Inl StoreJSON | Some l \<Rightarrow> Inr l))"

fun put_logs :: "'b bolt \<Rightarrow> log_codec \<Rightarrow> 'b \<Rightarrow> raft_log list \<Rightarrow> store_error + 'b" where
  "put_logs B J b [] = Inr b"
| "put_logs B J b (l # ls) =
     (case marshal_log J l of
        None \<Rightarrow> Inl StoreJSON
      | Some v \<Rightarrow> (case bo_put B b (uint64_to_bytes (rl_index l)) v of
          None \<Rightarrow> Inl EngineError | Some b' \<Rightarrow> put_logs B J b' ls))"

definition store_logs ::
  "'b bolt \<Rightarrow> log_codec \<Rightarrow> 'b bolt_store \<Rightarrow> raft_log list \<Rightarrow> 'b bolt_store \<times> (store_error + unit)" where
  "store_logs B J s ls =
     (case put_logs B J (bs_log s) ls of
        Inl e \<Rightarrow> (s, Inl e) | Inr b \<Rightarrow> (s\<lparr>bs_log := b\<rparr>, Inr ()))"

definition store_log ::
  "'b bolt \<Rightarrow> log_codec \<Rightarrow> 'b bolt_store \<Rightarrow> raft_log \<Rightarrow> 'b bolt_store \<times> (store_error + unit)" where
  "store_log B J s l = store_logs B J s [l]"

text \<open>
  The loop of \<open>DeleteRange\<close> moves the cursor over the bucket it is deleting from. bbolt warns that
  a cursor whose bucket was changed may return unexpected keys until it is repositioned, so the
  loop takes what the cursor returns, key by key, as a list (\<open>None\<close> for a nil key): the key \<open>Seek\<close>
  found and then the answers \<open>cs\<close> of \<open>Next\<close>. When they are used up the loop has not returned,
  which is \<open>None\<close>.
\<close>

fun delete_loop :: "'b bolt \<Rightarrow> 'b \<Rightarrow> string option list \<Rightarrow> u64 \<Rightarrow> (store_error + 'b) option" where
  "delete_loop B b [] mx = None"
| "delete_loop B b (c # cs) mx =
     (case c of
        None \<Rightarrow> Some (Inr b)
      | Some key \<Rightarrow>
          if bytes_to_uint64 key \<le> mx
          then (case bo_delete B b key of
                  None \<Rightarrow> Some (Inl EngineError)
                | Some b' \<Rightarrow> delete_loop B b' cs mx)
          else Some (Inr b))"

definition delete_range ::
  "'b bolt \<Rightarrow> 'b bolt_store \<Rightarrow> u64 \<Rightarrow> u64 \<Rightarrow> string option list \<Rightarrow>
   ('b bolt_store \<times> (store_error + unit)) option" where
  "delete_range B s mn mx cs =
     (case delete_loop B (bs_log s) (bo_seek B (bs_log s) (uint64_to_bytes mn) # cs) mx of
        None \<Rightarrow> None
      | Some (Inl e) \<Rightarrow> Some (s, Inl e)
      | Some (Inr b) \<Rightarrow> Some (s\<lparr>bs_log := b\<rparr>, Inr ()))"

definition stable_set :: "'b bolt \<Rightarrow> 'b bolt_store \<Rightarrow> string \<Rightarrow> string \<Rightarrow> 'b bolt_store \<times> (store_error + unit)" where
  "stable_set B s k v = (case bo_put B (bs_stable s) k v of
     None \<Rightarrow> (s, Inl EngineError) | Some b \<Rightarrow> (s\<lparr>bs_stable := b\<rparr>, Inr ()))"

definition stable_get :: "'b bolt \<Rightarrow> 'b bolt_store \<Rightarrow> string \<Rightarrow> store_error + string" where
  "stable_get B s k = (case bo_get B (bs_stable s) k of None \<Rightarrow> Inl KeyNotFound | Some v \<Rightarrow> Inr v)"

definition set_uint64 :: "'b bolt \<Rightarrow> 'b bolt_store \<Rightarrow> string \<Rightarrow> u64 \<Rightarrow> 'b bolt_store \<times> (store_error + unit)" where
  "set_uint64 B s k v = stable_set B s k (uint64_to_bytes v)"

definition get_uint64 :: "'b bolt \<Rightarrow> 'b bolt_store \<Rightarrow> string \<Rightarrow> store_error + u64" where
  "get_uint64 B s k = (case stable_get B s k of Inl e \<Rightarrow> Inl e | Inr v \<Rightarrow> Inr (bytes_to_uint64 v))"

section \<open>Key order\<close>

lemma length_uint64 [simp]: "length (uint64_to_bytes v) = 8"
  by (simp add: uint64_to_bytes_def)

lemma of_be_uint64: "of_be (uint64_to_bytes v) = unat v"
  using unsigned_less [of v, where 'a = nat] by (simp add: uint64_to_bytes_def of_be_be_bytes)

lemma bytes_uint64 [simp]: "bytes_to_uint64 (uint64_to_bytes v) = v"
  by (simp add: bytes_to_uint64_def of_be_uint64)

lemma uint64_bytes: "length k = 8 \<Longrightarrow> uint64_to_bytes (bytes_to_uint64 k) = k"
proof -
  assume l: "length k = 8"
  then have "of_be k < 2 ^ 64" using of_be_bound [of k] by simp
  then have "unat (of_nat (of_be k) :: u64) = of_be k" by (simp add: unsigned_of_nat take_bit_nat_eq_self)
  then show ?thesis using be_bytes_of_be [of k] l by (simp add: uint64_to_bytes_def bytes_to_uint64_def)
qed

lemma uint64_less_iff: "uint64_to_bytes a < uint64_to_bytes b \<longleftrightarrow> a < b"
  using of_be_less_iff [of "uint64_to_bytes a" "uint64_to_bytes b"]
  by (simp add: of_be_uint64 word_less_nat_alt)

lemma uint64_le_iff: "uint64_to_bytes a \<le> uint64_to_bytes b \<longleftrightarrow> a \<le> b"
  using uint64_less_iff [of b a] by (simp add: not_less [symmetric])

lemma uint64_inj: "uint64_to_bytes a = uint64_to_bytes b \<longleftrightarrow> a = b"
  by (metis bytes_uint64)

lemma bytes_le_iff: "length j = 8 \<Longrightarrow> length k = 8 \<Longrightarrow> bytes_to_uint64 j \<le> bytes_to_uint64 k \<longleftrightarrow> j \<le> k"
  using uint64_less_iff [of "bytes_to_uint64 k" "bytes_to_uint64 j"] by (simp add: uint64_bytes not_less [symmetric])

section \<open>The documented engine\<close>

text \<open>
  \<open>bolt_ordered B v\<close>: through \<open>v\<close> every bucket is a finite ordered map; \<open>Seek\<close> finds the least key
  not below a key; \<open>Last\<close> finds the greatest key.
\<close>

definition keys_above :: "(string \<rightharpoonup> string) \<Rightarrow> (string \<Rightarrow> bool) \<Rightarrow> string option" where
  "keys_above m P = (if \<exists>k \<in> dom m. P k then Some (Min {k \<in> dom m. P k}) else None)"

definition bolt_ordered :: "'b bolt \<Rightarrow> ('b \<Rightarrow> string \<rightharpoonup> string) \<Rightarrow> bool" where
  "bolt_ordered B v \<longleftrightarrow>
     v (bo_empty B) = Map.empty \<and>
     (\<forall>b. finite (dom (v b)) \<and>
        (\<forall>k. bo_get B b k = v b k) \<and>
        (\<forall>k x b'. bo_put B b k x = Some b' \<longrightarrow> v b' = (v b)(k \<mapsto> x)) \<and>
        (\<forall>k b'. bo_delete B b k = Some b' \<longrightarrow> v b' = (v b)(k := None)) \<and>
        (\<forall>k. bo_seek B b k = keys_above (v b) (\<lambda>j. k \<le> j)) \<and>
        bo_last B b = (if dom (v b) = {} then None else Some (Max (dom (v b)))))"

lemma bolt_laws:
  assumes "bolt_ordered B v"
  shows "finite (dom (v b))" "bo_get B b k = v b k"
    "bo_put B b k x = Some b' \<Longrightarrow> v b' = (v b)(k \<mapsto> x)"
    "bo_delete B b k = Some b' \<Longrightarrow> v b' = (v b)(k := None)"
    "bo_seek B b k = keys_above (v b) (\<lambda>j. k \<le> j)"
    "bo_last B b = (if dom (v b) = {} then None else Some (Max (dom (v b))))"
    "v (bo_empty B) = Map.empty"
  using assms by (auto simp: bolt_ordered_def)

text \<open>The abstract store: the log is a finite map from indices to their encodings.\<close>

definition log_keys :: "(string \<rightharpoonup> string) \<Rightarrow> bool" where
  "log_keys m \<longleftrightarrow> (\<forall>k \<in> dom m. length k = 8)"

definition log_view :: "('b \<Rightarrow> string \<rightharpoonup> string) \<Rightarrow> 'b bolt_store \<Rightarrow> u64 \<rightharpoonup> string" where
  "log_view v s = (\<lambda>i. v (bs_log s) (uint64_to_bytes i))"

lemma dom_log_keys:
  assumes "log_keys (v (bs_log s))"
  shows "dom (v (bs_log s)) = uint64_to_bytes ` dom (log_view v s)"
proof
  show "dom (v (bs_log s)) \<subseteq> uint64_to_bytes ` dom (log_view v s)"
  proof
    fix k assume k: "k \<in> dom (v (bs_log s))"
    then have e: "k = uint64_to_bytes (bytes_to_uint64 k)"
      using assms by (simp add: log_keys_def uint64_bytes)
    with k have "bytes_to_uint64 k \<in> dom (log_view v s)" by (auto simp: log_view_def)
    with e show "k \<in> uint64_to_bytes ` dom (log_view v s)" by blast
  qed
qed (auto simp: log_view_def)

lemma mono_uint64: "mono uint64_to_bytes"
  by (rule monoI) (metis le_less not_le uint64_less_iff)

lemma finite_log_view:
  assumes "bolt_ordered B v"
  shows "finite (dom (log_view v s))"
proof (rule finite_imageD)
  have "uint64_to_bytes ` dom (log_view v s) \<subseteq> dom (v (bs_log s))" by (auto simp: log_view_def)
  then show "finite (uint64_to_bytes ` dom (log_view v s))"
    using bolt_laws(1) [OF assms] by (rule finite_subset)
  show "inj_on uint64_to_bytes (dom (log_view v s))" by (rule inj_onI) (simp add: uint64_inj)
qed

lemma put_logs_view:
  assumes "bolt_ordered B v"
  shows "put_logs B J b ls = Inr b' \<Longrightarrow>
    (\<forall>l \<in> set ls. marshal_log J l \<noteq> None) \<and>
    v b' = (v b)(map (\<lambda>l. uint64_to_bytes (rl_index l)) ls [\<mapsto>] map (\<lambda>l. the (marshal_log J l)) ls)"
proof (induction ls arbitrary: b)
  case (Cons l ls)
  then obtain x b1 where x: "marshal_log J l = Some x" and b1: "bo_put B b (uint64_to_bytes (rl_index l)) x = Some b1"
    and rest: "put_logs B J b1 ls = Inr b'"
    by (auto split: option.splits)
  have v1: "v b1 = (v b)(uint64_to_bytes (rl_index l) \<mapsto> x)" by (rule bolt_laws(3) [OF assms b1])
  show ?case using Cons.IH [OF rest, unfolded v1] x by (simp del: fun_upd_apply)
qed simp

lemma put_logs_keys:
  assumes "bolt_ordered B v"
  shows "put_logs B J b ls = Inr b' \<Longrightarrow> log_keys (v b) \<Longrightarrow> log_keys (v b')"
proof (induction ls arbitrary: b)
  case (Cons l ls)
  then obtain x b1 where b1: "bo_put B b (uint64_to_bytes (rl_index l)) x = Some b1"
    and rest: "put_logs B J b1 ls = Inr b'"
    by (auto split: option.splits)
  have "log_keys (v b1)"
    using Cons.prems(2) bolt_laws(3) [OF assms b1] by (simp add: log_keys_def)
  then show ?case by (rule Cons.IH [OF rest])
qed simp

lemma map_upds_uint64:
  "(m(map (\<lambda>l. uint64_to_bytes (f l)) ls [\<mapsto>] map g ls)) (uint64_to_bytes i) =
   ((\<lambda>i. m (uint64_to_bytes i))(map f ls [\<mapsto>] map g ls)) i"
  by (induction ls arbitrary: m) (simp_all add: fun_upd_def uint64_inj if_distrib cong: if_cong)

text \<open>The keys the deletion loop stands on: up to a nil key or one past the maximum.\<close>

definition cursor_stops :: "u64 \<Rightarrow> string option \<Rightarrow> bool" where
  "cursor_stops mx c = (case c of None \<Rightarrow> True | Some k \<Rightarrow> \<not> bytes_to_uint64 k \<le> mx)"

definition cursor_range :: "u64 \<Rightarrow> string option list \<Rightarrow> string option list" where
  "cursor_range mx cs = takeWhile (\<lambda>c. \<not> cursor_stops mx c) cs"

lemma cursor_range_simps [simp]:
  "cursor_range mx [] = []"
  "cursor_range mx (None # cs) = []"
  "cursor_range mx (Some k # cs) = (if bytes_to_uint64 k \<le> mx then Some k # cursor_range mx cs else [])"
  by (simp_all add: cursor_range_def cursor_stops_def)

lemma cursor_range_bound: "Some k \<in> set (cursor_range mx cs) \<Longrightarrow> bytes_to_uint64 k \<le> mx"
  unfolding cursor_range_def by (drule set_takeWhileD) (simp add: cursor_stops_def)

lemma delete_loop_returns: "list_ex (cursor_stops mx) cs \<Longrightarrow> delete_loop B b cs mx \<noteq> None"
  by (induction cs arbitrary: b) (auto simp: cursor_stops_def split: option.splits)

lemma delete_loop_view:
  assumes "bolt_ordered B v"
  shows "delete_loop B b cs mx = Some (Inr b') \<Longrightarrow>
    list_ex (cursor_stops mx) cs \<and>
    v b' = (\<lambda>j. if Some j \<in> set (cursor_range mx cs) then None else v b j)"
proof (induction cs arbitrary: b)
  case (Cons c cs)
  show ?case
  proof (cases "cursor_stops mx c")
    case True
    then show ?thesis using Cons.prems by (cases c) (auto simp: cursor_stops_def)
  next
    case False
    then obtain k b1 where k: "c = Some k" "bytes_to_uint64 k \<le> mx" and b1: "bo_delete B b k = Some b1"
      and rest: "delete_loop B b1 cs mx = Some (Inr b')"
      using Cons.prems by (auto simp: cursor_stops_def split: option.splits)
    have "v b1 = (v b)(k := None)" by (rule bolt_laws(4) [OF assms b1])
    with Cons.IH [OF rest] k show ?thesis by (auto simp: fun_eq_iff)
  qed
qed simp

text \<open>What bbolt documents for a cursor over an unchanged bucket, carried over to this loop: each
  \<open>Next\<close> gives the least key above the one just deleted.\<close>

fun cursor_ordered :: "(string \<rightharpoonup> string) \<Rightarrow> (string \<Rightarrow> bool) \<Rightarrow> string option list \<Rightarrow> bool" where
  "cursor_ordered m P [] = True"
| "cursor_ordered m P (c # cs) =
     (c = keys_above m P \<and>
      (case c of None \<Rightarrow> True | Some k \<Rightarrow> cursor_ordered (m(k := None)) (\<lambda>j. k < j) cs))"

lemma keys_above_least:
  assumes "finite (dom m)" "keys_above m P = Some k"
  shows "k \<in> dom m" "P k" "j \<in> dom m \<Longrightarrow> P j \<Longrightarrow> k \<le> j"
proof -
  let ?S = "{k \<in> dom m. P k}"
  have S: "finite ?S" "?S \<noteq> {}" "k = Min ?S"
    using assms by (auto simp: keys_above_def split: if_splits)
  have "k \<in> ?S" using S Min_in [of ?S] by simp
  then show "k \<in> dom m" "P k" by simp_all
  show "k \<le> j" if "j \<in> dom m" "P j" using S that Min_le [of ?S j] by simp
qed

lemma keys_above_none: "keys_above m P = None \<Longrightarrow> j \<in> dom m \<Longrightarrow> \<not> P j"
  by (auto simp: keys_above_def split: if_splits)

lemma cursor_ordered_range:
  "cursor_ordered m P cs \<Longrightarrow> finite (dom m) \<Longrightarrow> log_keys m \<Longrightarrow> (\<And>i j. P i \<Longrightarrow> i \<le> j \<Longrightarrow> P j) \<Longrightarrow>
   list_ex (cursor_stops mx) cs \<Longrightarrow> j \<in> dom m \<Longrightarrow>
   Some j \<in> set (cursor_range mx cs) \<longleftrightarrow> P j \<and> bytes_to_uint64 j \<le> mx"
proof (induction cs arbitrary: m P)
  case (Cons c cs)
  show ?case
  proof (cases c)
    case None
    then show ?thesis using Cons.prems(1) keys_above_none [OF _ Cons.prems(6), of P] by simp
  next
    case (Some k)
    then have "keys_above m P = Some k" using Cons.prems(1) by simp
    note k = keys_above_least [OF Cons.prems(2) this]
    have P: "P j \<longleftrightarrow> k \<le> j" using k Cons.prems(4,6) by blast
    have le: "bytes_to_uint64 k \<le> bytes_to_uint64 j \<longleftrightarrow> k \<le> j"
      using k(1) Cons.prems(3,6) by (simp add: log_keys_def bytes_le_iff)
    show ?thesis
    proof (cases "bytes_to_uint64 k \<le> mx")
      case False
      then have "\<not> (P j \<and> bytes_to_uint64 j \<le> mx)" using P le order_trans by blast
      then show ?thesis using Some False by simp
    next
      case True
      show ?thesis
      proof (cases "j = k")
        case True
        then show ?thesis using Some k(2) \<open>bytes_to_uint64 k \<le> mx\<close> by simp
      next
        case False
        have "Some j \<in> set (cursor_range mx cs) \<longleftrightarrow> k < j \<and> bytes_to_uint64 j \<le> mx"
        proof (rule Cons.IH)
          show "cursor_ordered (m(k := None)) (\<lambda>j. k < j) cs" using Cons.prems(1) Some by simp
          show "finite (dom (m(k := None)))" using Cons.prems(2) by simp
          show "log_keys (m(k := None))" using Cons.prems(3) by (simp add: log_keys_def)
          show "k < j" if "k < i" "i \<le> j" for i j using that by (rule less_le_trans)
          have "\<not> cursor_stops mx c" using Some True by (simp add: cursor_stops_def)
          then show "list_ex (cursor_stops mx) cs" using Cons.prems(5) by simp
          show "j \<in> dom (m(k := None))" using Cons.prems(6) False by simp
        qed
        then show ?thesis using Some True False P by (auto simp: le_less)
      qed
    qed
  qed
qed simp

text \<open>\<open>Seek\<close> stands on the least entry not below an index.\<close>

lemma seek_finds_least:
  assumes bolt: "bolt_ordered B v" and keys: "log_keys (v (bs_log s))"
    and i: "i \<in> dom (log_view v s)" "mn \<le> i" "\<forall>j \<in> dom (log_view v s). mn \<le> j \<longrightarrow> i \<le> j"
  shows "bo_seek B (bs_log s) (uint64_to_bytes mn) = Some (uint64_to_bytes i)"
proof -
  let ?P = "\<lambda>j. uint64_to_bytes mn \<le> j"
  have Pi: "uint64_to_bytes i \<in> dom (v (bs_log s))" "?P (uint64_to_bytes i)"
    using i by (auto simp: log_view_def uint64_le_iff)
  then obtain k where k: "keys_above (v (bs_log s)) ?P = Some k"
    using keys_above_none [of "v (bs_log s)" ?P] by (cases "keys_above (v (bs_log s)) ?P") auto
  note kl = keys_above_least [OF bolt_laws(1) [OF bolt] k]
  have ki: "k = uint64_to_bytes (bytes_to_uint64 k)" using keys kl(1) by (simp add: log_keys_def uint64_bytes)
  then have "bytes_to_uint64 k \<in> dom (log_view v s)" using kl(1) by (simp add: log_view_def dom_def)
  moreover have "mn \<le> bytes_to_uint64 k" using kl(2) ki uint64_le_iff [of mn "bytes_to_uint64 k"] by simp
  ultimately have "i \<le> bytes_to_uint64 k" using i(3) by blast
  then have "k = uint64_to_bytes i"
    using kl(3) [OF Pi] ki uint64_le_iff [of i "bytes_to_uint64 k"] by simp
  then show ?thesis using k by (simp add: bolt_laws(5) [OF bolt])
qed

text \<open>An engine over association lists, for the witnesses.\<close>

definition list_above :: "(string \<times> string) list \<Rightarrow> (string \<Rightarrow> bool) \<Rightarrow> string option" where
  "list_above b P = (let ks = filter P (map fst b) in if ks = [] then None else Some (Min (set ks)))"

definition list_bolt :: "(string \<times> string) list bolt" where
  "list_bolt = \<lparr>bo_empty = [], bo_get = map_of, bo_put = (\<lambda>b k x. Some ((k, x) # b)),
     bo_delete = (\<lambda>b k. Some (filter (\<lambda>e. fst e \<noteq> k) b)),
     bo_seek = (\<lambda>b k. list_above b (\<lambda>j. k \<le> j)),
     bo_last = (\<lambda>b. if b = [] then None else Some (Max (set (map fst b))))\<rparr>"

lemma list_above_keys: "list_above b P = keys_above (map_of b) P"
proof -
  have "set (filter P (map fst b)) = {k \<in> dom (map_of b). P k}" by (auto simp: dom_map_of_conv_image_fst)
  moreover have "filter P (map fst b) = [] \<longleftrightarrow> set (filter P (map fst b)) = {}"
    by (simp only: set_empty)
  ultimately show ?thesis unfolding list_above_def keys_above_def Let_def by auto
qed

lemma map_of_delete: "map_of (filter (\<lambda>e. fst e \<noteq> k) b) = (map_of b)(k := None)"
  by (induction b) (auto simp: fun_eq_iff)

lemma list_bolt_ordered: "bolt_ordered list_bolt map_of"
  by (auto simp: bolt_ordered_def list_bolt_def list_above_keys map_of_delete finite_dom_map_of
      dom_map_of_conv_image_fst)

definition ex_log_codec :: log_codec where
  "ex_log_codec = \<lparr>marshal_log = (\<lambda>l. Some (rl_data l)),
     unmarshal_log = (\<lambda>x. Some \<lparr>rl_index = 3, rl_term = 1, rl_data = x\<rparr>)\<rparr>"

section \<open>Properties\<close>

text \<open>C13. The log store refines a finite map from indices to entries. Storing entries inserts them all
  or, on an error, none; each stored entry is read back by its index when its JSON survives the
  round trip; an absent index reports \<open>ErrLogNotFound\<close>; and \<open>FirstIndex\<close> and \<open>LastIndex\<close> are the
  least and the greatest stored index, because big-endian keys sort as the numbers do (0 for an
  empty log).\<close>

theorem log_store_refines_map:
  assumes bolt: "bolt_ordered B v" and keys: "log_keys (v (bs_log s))"
    and stored: "store_logs B J s ls = (s', out)"
  shows "(case out of
       Inl e \<Rightarrow> s' = s
     | Inr _ \<Rightarrow> log_keys (v (bs_log s')) \<and> bs_stable s' = bs_stable s \<and>
         log_view v s' = (log_view v s)(map rl_index ls [\<mapsto>] map (\<lambda>l. the (marshal_log J l)) ls)) \<and>
    get_log B J s i = (case log_view v s i of None \<Rightarrow> Inl LogNotFound
       | Some x \<Rightarrow> (case unmarshal_log J x of None \<Rightarrow> Inl StoreJSON | Some l \<Rightarrow> Inr l)) \<and>
    first_index B s = (if dom (log_view v s) = {} then 0 else Min (dom (log_view v s))) \<and>
    last_index B s = (if dom (log_view v s) = {} then 0 else Max (dom (log_view v s)))"
proof (intro conjI)
  let ?D = "dom (log_view v s)"
  have fin: "finite ?D" by (rule finite_log_view [OF bolt])
  have dom: "dom (v (bs_log s)) = uint64_to_bytes ` ?D" by (rule dom_log_keys [of v s, OF keys])
  show "case out of Inl e \<Rightarrow> s' = s
     | Inr _ \<Rightarrow> log_keys (v (bs_log s')) \<and> bs_stable s' = bs_stable s \<and>
         log_view v s' = (log_view v s)(map rl_index ls [\<mapsto>] map (\<lambda>l. the (marshal_log J l)) ls)"
  proof (cases "put_logs B J (bs_log s) ls")
    case (Inl e)
    then show ?thesis using stored by (auto simp: store_logs_def)
  next
    case (Inr b)
    then have s': "s' = s\<lparr>bs_log := b\<rparr>" "out = Inr ()" using stored by (auto simp: store_logs_def)
    note pv = put_logs_view [OF bolt Inr]
    have "log_keys (v b)" by (rule put_logs_keys [OF bolt Inr keys])
    moreover have "log_view v s' = (log_view v s)(map rl_index ls [\<mapsto>] map (\<lambda>l. the (marshal_log J l)) ls)"
      by (rule ext) (simp add: log_view_def s' pv map_upds_uint64)
    ultimately show ?thesis using s' by simp
  qed
  show "get_log B J s i = (case log_view v s i of None \<Rightarrow> Inl LogNotFound
       | Some x \<Rightarrow> (case unmarshal_log J x of None \<Rightarrow> Inl StoreJSON | Some l \<Rightarrow> Inr l))"
    by (simp add: get_log_def log_view_def bolt_laws(2) [OF bolt])
  show "first_index B s = (if ?D = {} then 0 else Min ?D)"
  proof (cases "?D = {}")
    case False
    then have "Min (uint64_to_bytes ` ?D) = uint64_to_bytes (Min ?D)"
      using fin by (simp add: mono_Min_commute [OF mono_uint64])
    then show ?thesis using False dom
      by (auto simp: first_index_def bolt_laws(5) [OF bolt] keys_above_def)
  qed (use dom in \<open>auto simp: first_index_def bolt_laws(5) [OF bolt] keys_above_def\<close>)
  show "last_index B s = (if ?D = {} then 0 else Max ?D)"
  proof (cases "?D = {}")
    case False
    then have "Max (uint64_to_bytes ` ?D) = uint64_to_bytes (Max ?D)"
      using fin by (simp add: mono_Max_commute [OF mono_uint64])
    then show ?thesis using False dom by (simp add: last_index_def bolt_laws(6) [OF bolt])
  qed (use dom in \<open>simp add: last_index_def bolt_laws(6) [OF bolt]\<close>)
qed

lemma log_store_refines_map_witness:
  "log_view map_of (fst (store_logs list_bolt ex_log_codec (new_bolt_store list_bolt)
      [\<lparr>rl_index = 300, rl_term = 1, rl_data = ''a''\<rparr>, \<lparr>rl_index = 2, rl_term = 1, rl_data = ''b''\<rparr>])) =
     [300 \<mapsto> ''a'', 2 \<mapsto> ''b'']"
proof -
  let ?s = "new_bolt_store list_bolt"
  let ?ls = "[\<lparr>rl_index = 300, rl_term = 1, rl_data = ''a''\<rparr>, \<lparr>rl_index = 2, rl_term = 1, rl_data = ''b''\<rparr>]"
  have k: "log_keys (map_of (bs_log ?s))" by (simp add: new_bolt_store_def list_bolt_def log_keys_def)
  have e: "log_view map_of ?s = Map.empty"
    by (simp add: new_bolt_store_def list_bolt_def log_view_def)
  obtain s' where s: "store_logs list_bolt ex_log_codec ?s ?ls = (s', Inr ())"
    by (simp add: store_logs_def new_bolt_store_def list_bolt_def ex_log_codec_def)
  from log_store_refines_map [OF list_bolt_ordered k s] show ?thesis
    by (simp add: s e) (simp add: ex_log_codec_def)
qed

text \<open>C14. \<open>DeleteRange\<close>, whatever keys the cursor returns once the loop has begun to delete under it
  (bbolt leaves that open): it returns when the cursor comes to a nil key or past \<open>max\<close>. An engine
  error leaves the store as it was. On success exactly the entries the cursor stood on are gone:
  none above \<open>max\<close>, the least entry not below \<open>min\<close> always unless it lies above \<open>max\<close>, and with
  \<open>min\<close> at or below \<open>FirstIndex\<close> nothing outside the range. If the cursor goes on in order after
  each deletion, the entries from \<open>min\<close> to \<open>max\<close>, both included, are gone and all others kept.\<close>

theorem delete_range_within:
  assumes bolt: "bolt_ordered B v" and keys: "log_keys (v (bs_log s))"
    and visited: "visited = bo_seek B (bs_log s) (uint64_to_bytes mn) # cs"
  shows "(list_ex (cursor_stops mx) visited \<longrightarrow> delete_range B s mn mx cs \<noteq> None) \<and>
    (\<forall>s' e. delete_range B s mn mx cs = Some (s', Inl e) \<longrightarrow> s' = s) \<and>
    (\<forall>s'. delete_range B s mn mx cs = Some (s', Inr ()) \<longrightarrow>
       bs_stable s' = bs_stable s \<and> log_keys (v (bs_log s')) \<and>
       (\<forall>i. log_view v s' i =
          (if Some (uint64_to_bytes i) \<in> set (cursor_range mx visited) then None else log_view v s i)) \<and>
       (\<forall>i. mx < i \<longrightarrow> log_view v s' i = log_view v s i) \<and>
       (\<forall>i \<in> dom (log_view v s). mn \<le> i \<and> i \<le> mx \<and> (\<forall>j \<in> dom (log_view v s). mn \<le> j \<longrightarrow> i \<le> j) \<longrightarrow>
          log_view v s' i = None) \<and>
       ((\<forall>j \<in> dom (log_view v s). mn \<le> j) \<longrightarrow>
          (\<forall>i. log_view v s' i \<noteq> log_view v s i \<longrightarrow> mn \<le> i \<and> i \<le> mx)) \<and>
       (cursor_ordered (v (bs_log s)) (\<lambda>j. uint64_to_bytes mn \<le> j) visited \<longrightarrow>
          log_view v s' = (\<lambda>i. if mn \<le> i \<and> i \<le> mx then None else log_view v s i)))"
proof (intro conjI allI impI)
  show "delete_range B s mn mx cs \<noteq> None" if "list_ex (cursor_stops mx) visited"
    using delete_loop_returns [OF that, of B "bs_log s"]
    by (auto simp: delete_range_def visited split: option.splits sum.splits)
  show "s' = s" if "delete_range B s mn mx cs = Some (s', Inl e)" for s' e
    using that by (auto simp: delete_range_def split: option.splits sum.splits)
  fix s' assume "delete_range B s mn mx cs = Some (s', Inr ())"
  then obtain b where b: "delete_loop B (bs_log s) visited mx = Some (Inr b)" "s' = s\<lparr>bs_log := b\<rparr>"
    by (auto simp: delete_range_def visited split: option.splits sum.splits)
  note dl = delete_loop_view [OF bolt b(1)]
  have view: "log_view v s' i =
      (if Some (uint64_to_bytes i) \<in> set (cursor_range mx visited) then None else log_view v s i)" for i
    using dl b(2) by (simp add: log_view_def)
  have bound: "i \<le> mx" if "Some (uint64_to_bytes i) \<in> set (cursor_range mx visited)" for i
    using cursor_range_bound [OF that] by simp
  show "bs_stable s' = bs_stable s" using b(2) by simp
  show "log_keys (v (bs_log s'))" using keys dl b(2) by (auto simp: log_keys_def split: if_splits)
  show "log_view v s' i =
      (if Some (uint64_to_bytes i) \<in> set (cursor_range mx visited) then None else log_view v s i)" for i
    by (rule view)
  show "log_view v s' i = log_view v s i" if "mx < i" for i
    using view [of i] bound [of i] that by (auto simp: not_le [symmetric])
  show "mn \<le> i" "i \<le> mx"
    if "\<forall>j \<in> dom (log_view v s). mn \<le> j" "log_view v s' i \<noteq> log_view v s i" for i
  proof -
    have v: "Some (uint64_to_bytes i) \<in> set (cursor_range mx visited)" "log_view v s i \<noteq> None"
      using that(2) view [of i] by (metis, metis)
    then have "i \<in> dom (log_view v s)" by (simp add: domIff)
    then show "mn \<le> i" using that(1) by blast
    show "i \<le> mx" by (rule bound [OF v(1)])
  qed
  show "\<forall>i \<in> dom (log_view v s). mn \<le> i \<and> i \<le> mx \<and> (\<forall>j \<in> dom (log_view v s). mn \<le> j \<longrightarrow> i \<le> j) \<longrightarrow>
      log_view v s' i = None"
    using view seek_finds_least [OF bolt keys] by (auto simp: visited)
  show "log_view v s' = (\<lambda>i. if mn \<le> i \<and> i \<le> mx then None else log_view v s i)"
    if o: "cursor_ordered (v (bs_log s)) (\<lambda>j. uint64_to_bytes mn \<le> j) visited"
  proof
    fix i
    have "Some (uint64_to_bytes i) \<in> set (cursor_range mx visited) \<longleftrightarrow> mn \<le> i \<and> i \<le> mx"
      if "log_view v s i \<noteq> None"
    proof -
      have d: "uint64_to_bytes i \<in> dom (v (bs_log s))" using that by (simp add: log_view_def domIff)
      have up: "uint64_to_bytes mn \<le> b" if "uint64_to_bytes mn \<le> a" "a \<le> b" for a b
        using that by (rule order_trans)
      show ?thesis
        using cursor_ordered_range [OF o bolt_laws(1) [OF bolt] keys up conjunct1 [OF dl] d]
        by (simp add: uint64_le_iff)
    qed
    then show "log_view v s' i = (if mn \<le> i \<and> i \<le> mx then None else log_view v s i)"
      using view [of i] by (cases "log_view v s i") auto
  qed
qed

definition ex_log_store :: "(string \<times> string) list bolt_store" where
  "ex_log_store = \<lparr>bs_log = [(uint64_to_bytes 7, ''x''), (uint64_to_bytes 5, ''z''), (uint64_to_bytes 2, ''y'')],
     bs_stable = []\<rparr>"

lemma ex_log_seek: "bo_seek list_bolt (bs_log ex_log_store) (uint64_to_bytes 3) = Some (uint64_to_bytes 5)"
proof -
  have "uint64_to_bytes 5 < uint64_to_bytes 7" by (simp add: uint64_less_iff)
  then show ?thesis
    by (simp add: list_bolt_def list_above_def ex_log_store_def uint64_le_iff min_absorb2)
qed

lemma delete_range_within_witness:
  "\<exists>s'. delete_range list_bolt ex_log_store 3 9 [Some (uint64_to_bytes 7), None] = Some (s', Inr ()) \<and>
     log_view map_of s' 7 = None \<and> log_view map_of s' 5 = None \<and> log_view map_of s' 2 = Some ''y''"
proof -
  let ?s = ex_log_store and ?cs = "[Some (uint64_to_bytes 7), None]"
  have k: "log_keys (map_of (bs_log ?s))" by (auto simp: ex_log_store_def log_keys_def dom_def split: if_splits)
  obtain s' where d: "delete_range list_bolt ?s 3 9 ?cs = Some (s', Inr ())"
    using ex_log_seek by (simp add: delete_range_def) (simp add: list_bolt_def)
  have "\<forall>i. log_view map_of s' i = (if Some (uint64_to_bytes i) \<in>
      set (cursor_range 9 (bo_seek list_bolt (bs_log ?s) (uint64_to_bytes 3) # ?cs)) then None else log_view map_of ?s i)"
    using delete_range_within [OF list_bolt_ordered k refl, of 9 3 ?cs] d by blast
  then have "log_view map_of s' 7 = None" "log_view map_of s' 5 = None" "log_view map_of s' 2 = Some ''y''"
    by (simp_all add: ex_log_seek uint64_inj) (simp add: log_view_def ex_log_store_def uint64_inj)
  with d show ?thesis by blast
qed

text \<open>An engine as documented may let the cursor skip a key after a deletion; the loop then reports
  success and leaves an entry of the range in the log.\<close>

lemma delete_range_may_skip:
  "\<exists>s'. delete_range list_bolt ex_log_store 3 9 [None] = Some (s', Inr ()) \<and>
     log_view map_of s' 7 = Some ''x''"
  using ex_log_seek
  by (simp add: delete_range_def) (simp add: list_bolt_def log_view_def ex_log_store_def uint64_inj)

end
