(* ===== verification/Replica_Fabric.thy ===== *)
theory Replica_Fabric
  imports Replica_Auth_Laws Replica_KVFSM
begin

text \<open>
  \<open>replication/fabric.go\<close>: the fault-injectable in-process network of the harness. Partition
  rules are a set of directed edges; nodes, transports and capabilities are maps. The delivery of
  a message over a channel (the consumer and the response channel with their timeouts) is the
  argument \<open>deliver\<close>; a nil dereference is the outcome \<open>Panic\<close>.
\<close>

section \<open>State\<close>

record node_transport =
  nt_id :: server_id
  nt_addr :: server_addr

record 'n fabric =
  fb_by_id :: "server_id \<rightharpoonup> node_transport"
  fb_by_addr :: "server_addr \<rightharpoonup> node_transport"
  fb_nodes :: "server_id \<rightharpoonup> 'n"
  fb_caps :: "server_id \<rightharpoonup> capabilities"
  fb_partitioned :: "(server_id \<times> server_id) set"
  fb_send_timeout :: int

definition new_fabric :: "'n fabric" where
  "new_fabric = \<lparr>fb_by_id = Map.empty, fb_by_addr = Map.empty, fb_nodes = Map.empty,
     fb_caps = Map.empty, fb_partitioned = {}, fb_send_timeout = 500 * 1000000\<rparr>"

definition register_transport :: "'n fabric \<Rightarrow> node_transport \<Rightarrow> 'n fabric" where
  "register_transport f nt = f\<lparr>fb_by_id := (fb_by_id f)(nt_id nt \<mapsto> nt),
     fb_by_addr := (fb_by_addr f)(nt_addr nt \<mapsto> nt)\<rparr>"

definition new_node_transport ::
  "server_id \<Rightarrow> server_addr \<Rightarrow> 'n fabric option \<Rightarrow> 'n fabric option \<times> node_transport" where
  "new_node_transport i addr f =
     (let nt = \<lparr>nt_id = i, nt_addr = addr\<rparr>
      in (map_option (\<lambda>fb. register_transport fb nt) f, nt))"

definition register_node :: "'n fabric \<Rightarrow> server_id \<Rightarrow> 'n \<Rightarrow> 'n fabric" where
  "register_node f i n = f\<lparr>fb_nodes := (fb_nodes f)(i \<mapsto> n)\<rparr>"

definition register_capabilities :: "'n fabric \<Rightarrow> server_id \<Rightarrow> capabilities \<Rightarrow> 'n fabric" where
  "register_capabilities f i c = f\<lparr>fb_caps := (fb_caps f)(i \<mapsto> c)\<rparr>"

definition fabric_capabilities :: "'n fabric \<Rightarrow> server_id \<Rightarrow> capabilities option" where
  "fabric_capabilities f i = fb_caps f i"

section \<open>Partitions\<close>

definition partition :: "'n fabric \<Rightarrow> server_id \<Rightarrow> server_id \<Rightarrow> 'n fabric" where
  "partition f a b = f\<lparr>fb_partitioned := insert (a, b) (fb_partitioned f)\<rparr>"

definition unpartition :: "'n fabric \<Rightarrow> server_id \<Rightarrow> server_id \<Rightarrow> 'n fabric" where
  "unpartition f a b = f\<lparr>fb_partitioned := fb_partitioned f - {(a, b)}\<rparr>"

definition isolate :: "'n fabric \<Rightarrow> server_id \<Rightarrow> 'n fabric" where
  "isolate f i = f\<lparr>fb_partitioned := fb_partitioned f \<union>
     (\<lambda>x. (i, x)) ` dom (fb_by_id f) \<union> (\<lambda>x. (x, i)) ` dom (fb_by_id f)\<rparr>"

definition reconnect :: "'n fabric \<Rightarrow> server_id \<Rightarrow> 'n fabric" where
  "reconnect f i = f\<lparr>fb_partitioned := Set.filter (\<lambda>e. \<not> (fst e = i \<or> snd e = i)) (fb_partitioned f)\<rparr>"

definition blocked :: "'n fabric \<Rightarrow> server_id \<Rightarrow> server_id \<Rightarrow> bool" where
  "blocked f a b \<longleftrightarrow> (a, b) \<in> fb_partitioned f"

section \<open>Routing\<close>

datatype raft_rpc = AppendEntries | RequestVote | InstallSnapshot | TimeoutNow

datatype 'r delivery = Responded raft_rpc 'r | SendTimedOut | CommandTimedOut

datatype fabric_error =
    UnknownPeer server_addr
  | Partitioned server_id server_id
  | SendTimeout
  | CommandTimeout
  | UnexpectedResponse raft_rpc

text \<open>
  \<open>route\<close> looks the address up and asks \<open>blocked(from, nt.id)\<close> before it tests whether the
  lookup succeeded, so an unknown address dereferences a nil transport.
\<close>

definition fabric_route ::
  "'n fabric \<Rightarrow> (node_transport \<Rightarrow> raft_rpc \<Rightarrow> int \<Rightarrow> 'r delivery) \<Rightarrow> server_id \<Rightarrow> server_addr \<Rightarrow>
   raft_rpc \<Rightarrow> int \<Rightarrow> (fabric_error + raft_rpc \<times> 'r) outcome" where
  "fabric_route f deliver sender target rpc timeout =
     (case fb_by_addr f target of
        None \<Rightarrow> Panic
      | Some nt \<Rightarrow>
          if blocked f sender (nt_id nt) then Returned (Inl (Partitioned sender (nt_id nt)))
          else (case deliver nt rpc timeout of
            Responded k r \<Rightarrow> Returned (Inr (k, r))
          | SendTimedOut \<Rightarrow> Returned (Inl SendTimeout)
          | CommandTimedOut \<Rightarrow> Returned (Inl CommandTimeout)))"

text \<open>The four RPCs of the transport: each forwards with its timeout and refuses a response of
  another type.\<close>

definition rpc_timeout :: "'n fabric \<Rightarrow> raft_rpc \<Rightarrow> int" where
  "rpc_timeout f rpc = (case rpc of
     InstallSnapshot \<Rightarrow> 10 * fb_send_timeout f | TimeoutNow \<Rightarrow> 10 * fb_send_timeout f
   | _ \<Rightarrow> fb_send_timeout f)"

definition transport_call ::
  "'n fabric \<Rightarrow> (node_transport \<Rightarrow> raft_rpc \<Rightarrow> int \<Rightarrow> 'r delivery) \<Rightarrow> node_transport \<Rightarrow> server_addr \<Rightarrow>
   raft_rpc \<Rightarrow> (fabric_error + 'r) outcome" where
  "transport_call f deliver nt target rpc =
     (case fabric_route f deliver (nt_id nt) target rpc (rpc_timeout f rpc) of
        Panic \<Rightarrow> Panic
      | Returned (Inl e) \<Rightarrow> Returned (Inl e)
      | Returned (Inr (k, r)) \<Rightarrow>
          if k = rpc then Returned (Inr r) else Returned (Inl (UnexpectedResponse k)))"

definition append_entries ::
  "'n fabric \<Rightarrow> (node_transport \<Rightarrow> raft_rpc \<Rightarrow> int \<Rightarrow> 'r delivery) \<Rightarrow> node_transport \<Rightarrow> server_addr \<Rightarrow>
   (fabric_error + 'r) outcome" where
  "append_entries f deliver nt target = transport_call f deliver nt target AppendEntries"

definition request_vote ::
  "'n fabric \<Rightarrow> (node_transport \<Rightarrow> raft_rpc \<Rightarrow> int \<Rightarrow> 'r delivery) \<Rightarrow> node_transport \<Rightarrow> server_addr \<Rightarrow>
   (fabric_error + 'r) outcome" where
  "request_vote f deliver nt target = transport_call f deliver nt target RequestVote"

definition install_snapshot ::
  "'n fabric \<Rightarrow> (node_transport \<Rightarrow> raft_rpc \<Rightarrow> int \<Rightarrow> 'r delivery) \<Rightarrow> node_transport \<Rightarrow> server_addr \<Rightarrow>
   (fabric_error + 'r) outcome" where
  "install_snapshot f deliver nt target = transport_call f deliver nt target InstallSnapshot"

definition timeout_now ::
  "'n fabric \<Rightarrow> (node_transport \<Rightarrow> raft_rpc \<Rightarrow> int \<Rightarrow> 'r delivery) \<Rightarrow> node_transport \<Rightarrow> server_addr \<Rightarrow>
   (fabric_error + 'r) outcome" where
  "timeout_now f deliver nt target = transport_call f deliver nt target TimeoutNow"

definition encode_peer :: "server_id \<Rightarrow> server_addr \<Rightarrow> string" where
  "encode_peer i addr = addr"

definition decode_peer :: "string \<Rightarrow> server_addr" where
  "decode_peer b = b"

section \<open>Proposal forwarding\<close>

datatype 'e forward_error = UnknownNode server_id | ForwardPartitioned server_id server_id | NodeError 'e

text \<open>
  The fabric holds pointers \<open>'n\<close> to nodes; \<open>propose_local\<close> is the receiving node's method on the
  heap \<open>'h\<close> of all nodes.
\<close>

definition forward_proposal ::
  "('h \<Rightarrow> 'n \<Rightarrow> operation \<Rightarrow> 'h \<times> ('e + 'r)) \<Rightarrow> 'n fabric \<Rightarrow> 'h \<Rightarrow> server_id \<Rightarrow> server_id \<Rightarrow> operation \<Rightarrow>
   'h \<times> ('e forward_error + 'r)" where
  "forward_proposal propose_local f h a b op =
     (case fb_nodes f b of
        None \<Rightarrow> (h, Inl (UnknownNode b))
      | Some n \<Rightarrow>
          if blocked f a b then (h, Inl (ForwardPartitioned a b))
          else (case propose_local h n op of
            (h', Inl e) \<Rightarrow> (h', Inl (NodeError e))
          | (h', Inr r) \<Rightarrow> (h', Inr r)))"

section \<open>Facts\<close>

interpretation fabric_caps: capability_source register_capabilities fabric_capabilities
  by unfold_locales (simp_all add: register_capabilities_def fabric_capabilities_def)

lemma blocked_simps [simp]:
  "blocked (partition f a b) x y \<longleftrightarrow> (x, y) = (a, b) \<or> blocked f x y"
  "blocked (unpartition f a b) x y \<longleftrightarrow> (x, y) \<noteq> (a, b) \<and> blocked f x y"
  "blocked (isolate f i) x y \<longleftrightarrow>
     x = i \<and> y \<in> dom (fb_by_id f) \<or> y = i \<and> x \<in> dom (fb_by_id f) \<or> blocked f x y"
  "blocked (reconnect f i) x y \<longleftrightarrow> x \<noteq> i \<and> y \<noteq> i \<and> blocked f x y"
  by (auto simp: blocked_def partition_def unpartition_def isolate_def reconnect_def)

text \<open>A fabric whose transports registered consistently: an address names the node that owns it.\<close>

definition fabric_wf :: "'n fabric \<Rightarrow> bool" where
  "fabric_wf f \<longleftrightarrow> (\<forall>addr nt. fb_by_addr f addr = Some nt \<longrightarrow> nt_id nt \<in> dom (fb_by_id f))"

lemma fabric_wf_new [simp]: "fabric_wf new_fabric"
  by (simp add: fabric_wf_def new_fabric_def)

lemma fabric_wf_register: "fabric_wf f \<Longrightarrow> fabric_wf (register_transport f nt)"
  by (auto simp: fabric_wf_def register_transport_def)

lemma fabric_wf_keeps [simp]:
  "fabric_wf (partition f a b) = fabric_wf f" "fabric_wf (unpartition f a b) = fabric_wf f"
  "fabric_wf (isolate f i) = fabric_wf f" "fabric_wf (reconnect f i) = fabric_wf f"
  "fabric_wf (register_node f i n) = fabric_wf f" "fabric_wf (register_capabilities f i c) = fabric_wf f"
  by (simp_all add: fabric_wf_def partition_def unpartition_def isolate_def reconnect_def
      register_node_def register_capabilities_def)

section \<open>Properties\<close>

text \<open>Isolation is complete and reversible: once a node is isolated, every raft RPC from or to it
  over a registered address fails as partitioned without being delivered, and so does proposal
  forwarding between it and a registered node; reconnecting removes exactly the rules that involve
  it, so that all its directions are open again and every other rule stands.\<close>

theorem isolate_reconnect:
  assumes "fabric_wf f" and "fb_by_addr f addr = Some nt" and "i = sender \<or> i = nt_id nt"
    and "sender \<in> dom (fb_by_id f)"
  shows "fabric_route (isolate f i) deliver sender addr rpc t =
      Returned (Inl (Partitioned sender (nt_id nt))) \<and>
    (fb_nodes f (nt_id nt) = Some n \<longrightarrow>
      forward_proposal pl (isolate f i) h sender (nt_id nt) op =
        (h, Inl (ForwardPartitioned sender (nt_id nt)))) \<and>
    \<not> blocked (reconnect (isolate f i) i) sender (nt_id nt) \<and>
    (x \<noteq> i \<longrightarrow> y \<noteq> i \<longrightarrow> blocked (reconnect (isolate f i) i) x y = blocked f x y)"
proof -
  have "nt_id nt \<in> dom (fb_by_id f)" using assms(1,2) by (auto simp: fabric_wf_def)
  then have b: "blocked (isolate f i) sender (nt_id nt)" using assms(3,4) by auto
  have k: "fb_by_addr (isolate f i) = fb_by_addr f" "fb_nodes (isolate f i) = fb_nodes f"
    by (simp_all add: isolate_def)
  show ?thesis using b k assms(2,3) by (auto simp: fabric_route_def forward_proposal_def)
qed

definition ex_fabric :: "nat fabric" where
  "ex_fabric = register_node (register_transport (register_transport new_fabric
     \<lparr>nt_id = ''a'', nt_addr = ''A''\<rparr>) \<lparr>nt_id = ''b'', nt_addr = ''B''\<rparr>) ''b'' 7"

lemma isolate_reconnect_witness:
  "fabric_route (isolate ex_fabric ''b'') (\<lambda>_ k _. Responded k ()) ''a'' ''B'' AppendEntries 5 =
     Returned (Inl (Partitioned ''a'' ''b'')) \<and>
   forward_proposal (\<lambda>h n op. (Suc h, Inr op)) (isolate ex_fabric ''b'') 0 ''a'' ''b'' ex_op =
     (0, Inl (ForwardPartitioned ''a'' ''b'' :: unit forward_error)) \<and>
   \<not> blocked (reconnect (isolate ex_fabric ''b'') ''b'') ''a'' ''b''"
proof -
  have "fabric_wf ex_fabric" by (simp add: ex_fabric_def fabric_wf_register)
  then show ?thesis
    using isolate_reconnect [of ex_fabric "''B''" "\<lparr>nt_id = ''b'', nt_addr = ''B''\<rparr>" "''b''" "''a''"
        "\<lambda>_ k _. Responded k ()" AppendEntries 5 7 "\<lambda>h n op. (Suc h, Inr op)" 0 ex_op "''x''" "''y''"]
    by (auto simp: ex_fabric_def register_node_def register_transport_def)
qed

text \<open>Routing to an address no transport registered does not return the intended "unknown peer
  address" error: \<open>route\<close> reads the identity of the missing transport first and panics, for every
  sender, message and timeout. It panics in no other case, so the error is never returned.\<close>

theorem route_panics_iff_unknown:
  "(fabric_route f deliver sender addr rpc t = Panic \<longleftrightarrow> fb_by_addr f addr = None) \<and>
   fabric_route f deliver sender addr rpc t \<noteq> Returned (Inl (UnknownPeer addr'))"
  by (auto simp: fabric_route_def split: option.splits delivery.splits)

end
