(* ===== verification/Replica_Node.thy ===== *)
theory Replica_Node
  imports Replica_Fabric Replica_Authority Replica_KVFSM_Laws
begin

text \<open>
  \<open>replication/node.go\<close> and the harness of \<open>replication/cluster.go\<close>: construction of a node, the
  proposal and acknowledgement contract, the schema gate, follower forwarding and learner
  promotion.

  The consensus library is a parameter: \<open>raft_boot\<close> is what construction uses of it and
  \<open>raft_lib\<close> what a running node uses. \<open>rf_apply\<close> returns the raft handle and the state machine
  as the library leaves them (it may have applied other entries first), and either the future's
  error or the value \<open>FSM.Apply\<close> returned for the entry. Nodes live in a heap of pointers that the
  fabric and the harness share. Loggers are left out.
\<close>

section \<open>The consensus library\<close>

record server =
  srv_id :: server_id
  srv_addr :: server_addr
  srv_voter :: bool

datatype ('e, 'r) apply_response = RespError 'e | RespResult 'r | RespOther

datatype membership_change =
    AddVoter server_id server_addr
  | AddNonvoter server_id server_addr
  | RemoveServer server_id
  | DemoteVoter server_id

record ('r, 'f, 'e, 'x) raft_lib =
  rf_state :: "'r \<Rightarrow> raft_state"
  rf_leader :: "'r \<Rightarrow> server_addr \<times> server_id"
  rf_last_index :: "'r \<Rightarrow> u64"
  rf_configuration :: "'r \<Rightarrow> string + server list"
  rf_apply :: "'r \<Rightarrow> 'f \<Rightarrow> string \<Rightarrow> int \<Rightarrow> 'r \<times> 'f \<times> (string + ('e, 'x) apply_response)"
  rf_change :: "'r \<Rightarrow> membership_change \<Rightarrow> int \<Rightarrow> 'r \<times> (string + unit)"

record raft_conf =
  rc_local_id :: server_id
  rc_heartbeat :: int
  rc_election :: int
  rc_commit :: int
  rc_lease :: int
  rc_snapshot_interval :: int
  rc_snapshot_threshold :: nat
  rc_trailing :: nat
  rc_shutdown_on_remove :: bool

record ('st, 't, 'f, 'r) raft_boot =
  default_config :: raft_conf
  has_existing_state :: "'st \<Rightarrow> string + bool"
  bootstrap_cluster :: "raft_conf \<Rightarrow> 'st \<Rightarrow> 't \<Rightarrow> server list \<Rightarrow> string + 'st"
  new_raft :: "raft_conf \<Rightarrow> 'f \<Rightarrow> 'st \<Rightarrow> 't \<Rightarrow> string + 'r"

section \<open>Construction\<close>

text \<open>
  The capability source is an interface value: absent, the node's fabric pointer (which may be
  nil inside a non-nil interface), or a source the product supplied.
\<close>

datatype caps_source =
    CapsNone
  | CapsFabric
  | CapsSource "server_id \<Rightarrow> capabilities option"

record ('r, 'f) node =
  n_id :: server_id
  n_addr :: server_addr
  n_raft :: 'r
  n_fsm :: 'f
  n_fabric :: bool
  n_timeout :: int
  n_caps :: capabilities
  n_caps_src :: caps_source
  n_local :: "string \<rightharpoonup> string"

datatype node_error =
    StoresRequired
  | RaftError string
  | BootstrapError string
  | NotLeader
  | NodeOp op_error
  | OpPayloadChanged string
  | SchemaUnsupported server_id int
  | VoterUnknown server_id
  | VoterBehind server_id int
  | UnexpectedApplyResponse

record ('st, 't, 'f) node_options =
  o_id :: server_id
  o_addr :: server_addr
  o_transport :: "'t option"
  o_stores :: "'st option"
  o_fsm :: "'f option"
  o_bootstrap :: bool
  o_heartbeat :: int
  o_election :: int
  o_commit :: int
  o_lease :: int
  o_propose_timeout :: int
  o_max_schema :: int
  o_snap_format :: int
  o_features :: "string list"
  o_caps_source :: "(server_id \<Rightarrow> capabilities option) option"

definition over :: "int \<Rightarrow> int \<Rightarrow> int" where
  "over d x = (if x > 0 then x else d)"

definition node_conf :: "raft_conf \<Rightarrow> ('st, 't, 'f) node_options \<Rightarrow> raft_conf" where
  "node_conf d o1 = d\<lparr>rc_local_id := o_id o1,
     rc_heartbeat := over (rc_heartbeat d) (o_heartbeat o1),
     rc_election := over (rc_election d) (o_election o1),
     rc_commit := over (rc_commit d) (o_commit o1),
     rc_lease := over (rc_lease d) (o_lease o1),
     rc_snapshot_interval := 24 * 3600 * 1000000000, rc_snapshot_threshold := 2 ^ 30,
     rc_trailing := 8, rc_shutdown_on_remove := False\<rparr>"

definition max_schema_of :: "int \<Rightarrow> int" where
  "max_schema_of v = (let m = (if v \<le> 0 then replication_version else v)
     in if m > replication_version then replication_version else m)"

text \<open>\<open>new_fsm\<close> builds the reference state machine when none is supplied. The options' stores stand
  together: all three are needed.\<close>

definition node_capabilities :: "('st, 't, 'f) node_options \<Rightarrow> capabilities" where
  "node_capabilities o1 =
     \<lparr>cap_id = o_id o1, cap_operations = [1 .. max_schema_of (o_max_schema o1)],
      cap_snapshots = [if o_snap_format o1 \<le> 0 then snapshot_format_version else o_snap_format o1],
      cap_features = o_features o1\<rparr>"

definition bootstrap_stores ::
  "('st, 't, 'f, 'r) raft_boot \<Rightarrow> raft_conf \<Rightarrow> ('st, 't, 'f) node_options \<Rightarrow> 'st \<Rightarrow> 't \<Rightarrow>
   node_error + 'st" where
  "bootstrap_stores B conf o1 st tr =
     (if \<not> o_bootstrap o1 then Inr st
      else (case has_existing_state B st of
        Inl e \<Rightarrow> Inl (RaftError e)
      | Inr True \<Rightarrow> Inr st
      | Inr False \<Rightarrow>
          (case bootstrap_cluster B conf st tr
                  [\<lparr>srv_id = o_id o1, srv_addr = o_addr o1, srv_voter = True\<rparr>] of
             Inl e \<Rightarrow> Inl (BootstrapError e) | Inr st' \<Rightarrow> Inr st')))"

definition new_node ::
  "('st, 't, 'f, 'r) raft_boot \<Rightarrow> (int \<Rightarrow> 'f) \<Rightarrow> ('st, 't, 'f) node_options \<Rightarrow> 'n fabric option \<Rightarrow>
   'n fabric option \<times> (node_error + ('r, 'f) node)" where
  "new_node B new_fsm o1 fb =
     (case (o_stores o1, o_transport o1) of
        (Some st, Some tr) \<Rightarrow>
          (let fsm = (case o_fsm o1 of None \<Rightarrow> new_fsm (max_schema_of (o_max_schema o1)) | Some f \<Rightarrow> f);
               conf = node_conf (default_config B) o1;
               caps = node_capabilities o1
           in case bootstrap_stores B conf o1 st tr of
                Inl e \<Rightarrow> (fb, Inl e)
              | Inr st' \<Rightarrow>
                (case new_raft B conf fsm st' tr of
                   Inl e \<Rightarrow> (fb, Inl (RaftError e))
                 | Inr r \<Rightarrow>
                    (map_option (\<lambda>f. register_capabilities f (o_id o1) caps) fb,
                     Inr \<lparr>n_id = o_id o1, n_addr = o_addr o1, n_raft = r, n_fsm = fsm,
                          n_fabric = (fb \<noteq> None),
                          n_timeout = over (5 * 1000000000) (o_propose_timeout o1), n_caps = caps,
                          n_caps_src = (case o_caps_source o1 of None \<Rightarrow> CapsFabric | Some c \<Rightarrow> CapsSource c),
                          n_local = Map.empty\<rparr>)))
      | _ \<Rightarrow> (fb, Inl StoresRequired))"

definition set_supported_replication_version ::
  "('f \<Rightarrow> int \<Rightarrow> 'f) \<Rightarrow> ('r, 'f) node \<Rightarrow> 'n fabric option \<Rightarrow> int \<Rightarrow> 'n fabric option \<times> ('r, 'f) node" where
  "set_supported_replication_version set_supported n fb mx =
     (let m = clamp_schema mx; caps = (n_caps n)\<lparr>cap_operations := [1 .. m]\<rparr>
      in (map_option (\<lambda>f. register_capabilities f (n_id n) caps) fb,
          n\<lparr>n_caps := caps, n_fsm := set_supported (n_fsm n) m\<rparr>))"

definition set_local :: "('r, 'f) node \<Rightarrow> string \<Rightarrow> string \<Rightarrow> ('r, 'f) node" where
  "set_local n k v = n\<lparr>n_local := (n_local n)(k \<mapsto> v)\<rparr>"

definition get_local :: "('r, 'f) node \<Rightarrow> string \<Rightarrow> string option" where
  "get_local n k = n_local n k"

section \<open>Proposals\<close>

text \<open>\<open>proposeLocal\<close> reads the raft state; a leader encodes, submits and reads the response.\<close>

definition submit_local ::
  "('r, 'f, 'e, 'x) raft_lib \<Rightarrow> ('a) codec_scheme \<Rightarrow> string \<Rightarrow> ('r, 'f) node \<Rightarrow> operation \<Rightarrow>
   ('r, 'f) node \<times> ((node_error + 'e) + 'x)" where
  "submit_local R J now n op =
     (case op_encode J now op of
        (_, Inl e) \<Rightarrow> (n, Inl (Inl (NodeOp e)))
      | (_, Inr data) \<Rightarrow>
          (case rf_apply R (n_raft n) (n_fsm n) data (n_timeout n) of
             (r, f, fut) \<Rightarrow>
               (n\<lparr>n_raft := r, n_fsm := f\<rparr>,
                case fut of
                  Inl e \<Rightarrow> Inl (Inl (RaftError e))
                | Inr (RespError e) \<Rightarrow> Inl (Inr e)
                | Inr (RespResult x) \<Rightarrow> Inr x
                | Inr RespOther \<Rightarrow> Inl (Inl UnexpectedApplyResponse))))"

definition propose_local ::
  "('r, 'f, 'e, 'x) raft_lib \<Rightarrow> ('a) codec_scheme \<Rightarrow> string \<Rightarrow> 'r \<Rightarrow> ('r, 'f) node \<Rightarrow> operation \<Rightarrow>
   ('r, 'f) node \<times> ((node_error + 'e) + 'x)" where
  "propose_local R J now seen n op =
     (if rf_state R seen \<noteq> Leader then (n, Inl (Inl NotLeader)) else submit_local R J now n op)"

definition source_caps ::
  "'n fabric option \<Rightarrow> caps_source \<Rightarrow> server_id \<Rightarrow> capabilities option outcome" where
  "source_caps fb src i = (case src of
     CapsSource c \<Rightarrow> Returned (c i)
   | CapsFabric \<Rightarrow> (case fb of None \<Rightarrow> Panic | Some f \<Rightarrow> Returned (fabric_capabilities f i))
   | CapsNone \<Rightarrow> Returned None)"

fun require_servers ::
  "(server_id \<Rightarrow> capabilities option outcome) \<Rightarrow> int \<Rightarrow> server list \<Rightarrow> (node_error + unit) outcome" where
  "require_servers caps v [] = Returned (Inr ())"
| "require_servers caps v (s # ss) =
     (if \<not> srv_voter s then require_servers caps v ss
      else (case caps (srv_id s) of
        Panic \<Rightarrow> Panic
      | Returned None \<Rightarrow> Returned (Inl (VoterUnknown (srv_id s)))
      | Returned (Some c) \<Rightarrow>
          if \<not> supports_operation c v then Returned (Inl (VoterBehind (srv_id s) v))
          else require_servers caps v ss))"

definition require_voter_schema_support ::
  "('r, 'f, 'e, 'x) raft_lib \<Rightarrow> 'n fabric option \<Rightarrow> ('r, 'f) node \<Rightarrow> int \<Rightarrow> (node_error + unit) outcome" where
  "require_voter_schema_support R fb n v =
     (if \<not> supports_operation (n_caps n) v then Returned (Inl (SchemaUnsupported (n_id n) v))
      else (case n_caps_src n of
        CapsNone \<Rightarrow> Returned (Inr ())
      | src \<Rightarrow> (case rf_configuration R (n_raft n) of
          Inl e \<Rightarrow> Returned (Inl (RaftError e))
        | Inr cfg \<Rightarrow> require_servers (source_caps fb src) v cfg)))"

text \<open>
  \<open>Propose\<close> holds no lock: it asks the state machine whether it knows the ID, reads the raft state,
  reads the configuration and the voters' capabilities, reads the raft state again in
  \<open>proposeLocal\<close> and submits, and raft goes on running between any two of these. What each read
  finds is a value of its own: the state machine, the raft handle, the node with the fabric, the
  raft handle again; the node given to \<open>propose\<close> is the one that submits. Every voter's
  capabilities are looked up once, so one fabric stands for all the answers. \<open>known\<close> is the state
  machine's \<open>OpKnown\<close>.
\<close>

record ('r, 'f, 'n) propose_reads =
  pr_known :: 'f
  pr_state :: 'r
  pr_gate :: "('r, 'f) node"
  pr_fabric :: "'n fabric option"
  pr_local :: 'r

definition reads_now :: "'n fabric option \<Rightarrow> ('r, 'f) node \<Rightarrow> ('r, 'f, 'n) propose_reads" where
  "reads_now fb n = \<lparr>pr_known = n_fsm n, pr_state = n_raft n, pr_gate = n, pr_fabric = fb, pr_local = n_raft n\<rparr>"

definition propose ::
  "('f \<Rightarrow> string \<Rightarrow> string option) \<Rightarrow> ('r, 'f, 'e, 'x) raft_lib \<Rightarrow> ('a) codec_scheme \<Rightarrow> string \<Rightarrow>
   ('r, 'f, 'n) propose_reads \<Rightarrow> ('r, 'f) node \<Rightarrow> operation \<Rightarrow>
   (('r, 'f) node \<times> ((node_error + 'e) + 'x)) outcome" where
  "propose known R J now seen n op =
     (let submit =
            (if rf_state R (pr_state seen) = Leader
             then (case require_voter_schema_support R (pr_fabric seen) (pr_gate seen) (op_version op) of
                     Panic \<Rightarrow> Panic
                   | Returned (Inl e) \<Rightarrow> Returned (n, Inl (Inl e))
                   | Returned (Inr _) \<Rightarrow> Returned (propose_local R J now (pr_local seen) n op))
             else Returned (propose_local R J now (pr_local seen) n op))
      in case known (pr_known seen) (op_id op) of
           None \<Rightarrow> submit
         | Some digest \<Rightarrow>
             (case op_digest J op of
                Inl e \<Rightarrow> Returned (n, Inl (Inl (NodeOp e)))
              | Inr d \<Rightarrow>
                  if d \<noteq> digest then Returned (n, Inl (Inl (OpPayloadChanged (op_id op))))
                  else submit))"

section \<open>Routing between nodes\<close>

type_synonym ('r, 'f) node_heap = "nat \<Rightarrow> ('r, 'f) node"

definition heap_propose_local ::
  "('r, 'f, 'e, 'x) raft_lib \<Rightarrow> ('a) codec_scheme \<Rightarrow> string \<Rightarrow> ('r, 'f) node_heap \<Rightarrow> nat \<Rightarrow> operation \<Rightarrow>
   ('r, 'f) node_heap \<times> ((node_error + 'e) + 'x)" where
  "heap_propose_local R J now h p op =
     (case propose_local R J now (n_raft (h p)) (h p) op of (n, r) \<Rightarrow> (h(p := n), r))"

definition handle_propose ::
  "('r, 'f, 'e, 'x) raft_lib \<Rightarrow> ('a) codec_scheme \<Rightarrow> string \<Rightarrow> nat fabric \<Rightarrow> ('r, 'f) node_heap \<Rightarrow>
   nat \<Rightarrow> operation \<Rightarrow> ('r, 'f) node_heap \<times> ((node_error + 'e) forward_error + 'x)" where
  "handle_propose R J now f h p op =
     (if rf_state R (n_raft (h p)) = Leader
      then map_prod id (map_sum NodeError id) (heap_propose_local R J now h p op)
      else if \<not> n_fabric (h p) then (h, Inl (NodeError (Inl NotLeader)))
      else (let lid = snd (rf_leader R (n_raft (h p)))
            in if lid = [] then (h, Inl (NodeError (Inl NotLeader)))
               else forward_proposal (heap_propose_local R J now) f h (n_id (h p)) lid op))"

definition node_change ::
  "('r, 'f, 'e, 'x) raft_lib \<Rightarrow> ('r, 'f) node \<Rightarrow> membership_change \<Rightarrow> ('r, 'f) node \<times> (string + unit)" where
  "node_change R n c = (case rf_change R (n_raft n) c (n_timeout n) of (r, e) \<Rightarrow> (n\<lparr>n_raft := r\<rparr>, e))"

definition add_voter ::
  "('r, 'f, 'e, 'x) raft_lib \<Rightarrow> ('r, 'f) node \<Rightarrow> server_id \<Rightarrow> server_addr \<Rightarrow> ('r, 'f) node \<times> (string + unit)" where
  "add_voter R n i a = node_change R n (AddVoter i a)"

definition add_nonvoter ::
  "('r, 'f, 'e, 'x) raft_lib \<Rightarrow> ('r, 'f) node \<Rightarrow> server_id \<Rightarrow> server_addr \<Rightarrow> ('r, 'f) node \<times> (string + unit)" where
  "add_nonvoter R n i a = node_change R n (AddNonvoter i a)"

definition remove_server ::
  "('r, 'f, 'e, 'x) raft_lib \<Rightarrow> ('r, 'f) node \<Rightarrow> server_id \<Rightarrow> ('r, 'f) node \<times> (string + unit)" where
  "remove_server R n i = node_change R n (RemoveServer i)"

definition demote_voter ::
  "('r, 'f, 'e, 'x) raft_lib \<Rightarrow> ('r, 'f) node \<Rightarrow> server_id \<Rightarrow> ('r, 'f) node \<times> (string + unit)" where
  "demote_voter R n i = node_change R n (DemoteVoter i)"

section \<open>Logical snapshots of the reference state machine\<close>

definition memory_sink :: snap_sink where
  "memory_sink = \<lparr>sink_write = (\<lambda>_. True), sink_close = True\<rparr>"

definition export_snapshot :: "('a) snap_codec_scheme \<Rightarrow> ('r, kvfsm) node \<Rightarrow> snap_error + string" where
  "export_snapshot J n =
     (case kv_persist J memory_sink (kv_snapshot_of (n_fsm n)) of
        (_, Inl e) \<Rightarrow> Inl e
      | (SinkWritten b, Inr _) \<Rightarrow> Inr b
      | (SinkCancelled, Inr _) \<Rightarrow> Inr [])"

definition apply_snapshot ::
  "('a) snap_codec_scheme \<Rightarrow> ('r, kvfsm) node \<Rightarrow> string \<Rightarrow> ('r, kvfsm) node \<times> (snap_error + unit)" where
  "apply_snapshot J n b =
     (case kv_restore J (n_fsm n) (Some b) of (f, r) \<Rightarrow> (n\<lparr>n_fsm := f\<rparr>, r))"

text \<open>\<open>WaitApplied\<close> polls the applied index until it reaches the target or the context is done.\<close>

datatype wait_result = WaitReached | WaitCancelled | WaitPolling

fun wait_applied :: "u64 \<Rightarrow> (u64 \<times> bool) list \<Rightarrow> wait_result" where
  "wait_applied index [] = WaitPolling"
| "wait_applied index ((applied, cancelled) # ps) =
     (if applied \<ge> index then WaitReached
      else if cancelled then WaitCancelled else wait_applied index ps)"

section \<open>Harness\<close>

text \<open>
  The node map holds pointers into the heap, of which \<open>cl_next\<close> is the next free one; a durable
  store is named by the file it has open.
\<close>

record ('r, 'f) cluster =
  cl_fabric :: "nat fabric"
  cl_heap :: "('r, 'f) node_heap"
  cl_next :: nat
  cl_nodes :: "(server_id \<times> nat) list"
  cl_stores :: "(server_id \<times> string) list"
  cl_heartbeat :: int
  cl_election :: int
  cl_commit :: int
  cl_lease :: int
  cl_propose :: int

text \<open>\<open>Leader\<close> returns a node in state leader in map order; the list is one such order.\<close>

definition cluster_leader :: "('r, 'f, 'e, 'x) raft_lib \<Rightarrow> ('r, 'f) cluster \<Rightarrow> nat option" where
  "cluster_leader R c = map_option snd (find (\<lambda>(i, p). rf_state R (n_raft (cl_heap c p)) = Leader) (cl_nodes c))"

definition cluster_propose ::
  "('r, 'f, 'e, 'x) raft_lib \<Rightarrow> ('a) codec_scheme \<Rightarrow> string \<Rightarrow> ('r, 'f) cluster \<Rightarrow> server_id \<Rightarrow> operation \<Rightarrow>
   ('r, 'f) cluster \<times> ((node_error + 'e) forward_error + 'x)" where
  "cluster_propose R J now c i op =
     (case map_of (cl_nodes c) i of
        None \<Rightarrow> (c, Inl (UnknownNode i))
      | Some p \<Rightarrow> (case handle_propose R J now (cl_fabric c) (cl_heap c) p op of
          (h, r) \<Rightarrow> (c\<lparr>cl_heap := h\<rparr>, r)))"

definition cluster_join ::
  "('r, 'f, 'e, 'x) raft_lib \<Rightarrow> ('r, 'f) cluster \<Rightarrow> (('r, 'f) node \<Rightarrow> ('r, 'f) node \<times> (string + unit)) \<Rightarrow>
   ('r, 'f) cluster \<times> (string option + unit)" where
  "cluster_join R c change =
     (case cluster_leader R c of
        None \<Rightarrow> (c, Inl None)
      | Some p \<Rightarrow> (case change (cl_heap c p) of
          (n, r) \<Rightarrow> (c\<lparr>cl_heap := (cl_heap c)(p := n)\<rparr>, map_sum Some id r)))"

definition join :: "('r, 'f, 'e, 'x) raft_lib \<Rightarrow> ('r, 'f) cluster \<Rightarrow> server_id \<Rightarrow> server_addr \<Rightarrow>
   ('r, 'f) cluster \<times> (string option + unit)" where
  "join R c i a = cluster_join R c (\<lambda>n. add_voter R n i a)"

definition add_learner :: "('r, 'f, 'e, 'x) raft_lib \<Rightarrow> ('r, 'f) cluster \<Rightarrow> server_id \<Rightarrow> server_addr \<Rightarrow>
   ('r, 'f) cluster \<times> (string option + unit)" where
  "add_learner R c i a = cluster_join R c (\<lambda>n. add_nonvoter R n i a)"

text \<open>
  \<open>PromoteLearnerAfterCatchUp\<close> over its polls: the clock and the cluster as each poll finds them.
  The last component of a result is the cluster the promotion changed. A learner that is not in
  the node map dereferences nil.
\<close>

datatype promotion = Promoted "string + unit" | Refused | StillPolling | PromotionPanic

fun promote_learner ::
  "('r, 'f, 'e, 'x) raft_lib \<Rightarrow> server_id \<Rightarrow> int \<Rightarrow> (int \<times> ('r, 'f) cluster) list \<Rightarrow>
   ('r, 'f) cluster option \<times> promotion" where
  "promote_learner R i deadline [] = (None, StillPolling)"
| "promote_learner R i deadline ((now, c) # polls) =
     (if \<not> now < deadline then (None, Refused)
      else (case cluster_leader R c of
        None \<Rightarrow> promote_learner R i deadline polls
      | Some l \<Rightarrow>
          (case map_of (cl_nodes c) i of
             None \<Rightarrow> (None, PromotionPanic)
           | Some p \<Rightarrow>
               if rf_last_index R (n_raft (cl_heap c p)) \<ge> rf_last_index R (n_raft (cl_heap c l))
               then (case add_voter R (cl_heap c l) i (n_addr (cl_heap c p)) of
                       (n, r) \<Rightarrow> (Some (c\<lparr>cl_heap := (cl_heap c)(l := n)\<rparr>), Promoted r))
               else promote_learner R i deadline polls)))"

end
