(* ===== verification/Replica_Node_Laws.thy ===== *)
theory Replica_Node_Laws
  imports Replica_Node
begin

text \<open>
  The acknowledgement contract of a node, over any state machine and any capability source that
  keep their interfaces, and where the harness routing departs from it.
\<close>

section \<open>The schema gate\<close>

definition voters_support :: "(server_id \<Rightarrow> capabilities option) \<Rightarrow> int \<Rightarrow> server list \<Rightarrow> bool" where
  "voters_support caps v ss \<longleftrightarrow>
     (\<forall>s \<in> set ss. srv_voter s \<longrightarrow> (\<exists>c. caps (srv_id s) = Some c \<and> supports_operation c v))"

lemma require_servers_iff:
  "require_servers (\<lambda>i. Returned (caps i)) v ss = Returned (Inr ()) \<longleftrightarrow> voters_support caps v ss"
  by (induction ss) (auto simp: voters_support_def split: option.splits)

lemma require_servers_refuses:
  "\<not> voters_support caps v ss \<Longrightarrow>
   \<exists>e. require_servers (\<lambda>i. Returned (caps i)) v ss = Returned (Inl e)"
  by (induction ss) (auto simp: voters_support_def split: option.splits)

lemma require_servers_panics:
  "list_ex srv_voter ss \<Longrightarrow> require_servers (\<lambda>i. Panic) v ss = Panic"
  by (induction ss) auto

text \<open>The lookup a node's source stands for, when it can be asked.\<close>

definition source_lookup :: "'n fabric option \<Rightarrow> caps_source \<Rightarrow> (server_id \<Rightarrow> capabilities option) option" where
  "source_lookup fb src = (case src of
     CapsSource c \<Rightarrow> Some c | CapsFabric \<Rightarrow> map_option fabric_capabilities fb | CapsNone \<Rightarrow> None)"

lemma source_caps_lookup:
  "source_lookup fb src = Some c \<Longrightarrow> source_caps fb src = (\<lambda>i. Returned (c i))"
  by (auto simp: source_lookup_def source_caps_def split: caps_source.splits)

lemma gate_ok:
  assumes "source_lookup fb (n_caps_src n) = Some c"
    and "require_voter_schema_support R fb n v = Returned (Inr u)"
  shows "supports_operation (n_caps n) v \<and>
    (\<exists>cfg. rf_configuration R (n_raft n) = Inr cfg \<and> voters_support c v cfg)"
  using assms source_caps_lookup [OF assms(1)] require_servers_iff [of c v]
  by (cases "n_caps_src n")
    (auto simp: require_voter_schema_support_def source_lookup_def split: sum.splits if_splits)

lemma gate_refuses:
  assumes "source_lookup fb (n_caps_src n) = Some c"
    and "rf_configuration R (n_raft n) = Inr cfg" and "\<not> voters_support c v cfg"
  shows "\<exists>e. require_voter_schema_support R fb n v = Returned (Inl e)"
  using assms source_caps_lookup [OF assms(1)] require_servers_refuses [OF assms(3)]
  by (cases "n_caps_src n") (auto simp: require_voter_schema_support_def source_lookup_def)

lemma reads_now_fields [simp]:
  "pr_known (reads_now fb n) = n_fsm n" "pr_state (reads_now fb n) = n_raft n"
  "pr_gate (reads_now fb n) = n" "pr_fabric (reads_now fb n) = fb" "pr_local (reads_now fb n) = n_raft n"
  by (simp_all add: reads_now_def)

lemma propose_refused:
  assumes "rf_state R (pr_state seen) = Leader"
    and "require_voter_schema_support R (pr_fabric seen) (pr_gate seen) (op_version op) = Returned (Inl e)"
  shows "\<exists>e'. propose known R J now seen n op = Returned (n, Inl (Inl e'))"
  using assms by (auto simp: propose_def Let_def split: option.splits sum.splits)

lemma propose_ok:
  assumes "propose known R J now seen n op = Returned (n', Inr x)"
  shows "rf_state R (pr_local seen) = Leader"
    and "rf_state R (pr_state seen) = Leader \<Longrightarrow>
      require_voter_schema_support R (pr_fabric seen) (pr_gate seen) (op_version op) = Returned (Inr ())"
    and "submit_local R J now n op = (n', Inr x)"
    and "known (pr_known seen) (op_id op) = Some d \<Longrightarrow> op_digest J op = Inr d"
  using assms
  by (auto simp: propose_def propose_local_def Let_def
      split: option.splits sum.splits if_splits outcome.splits)

lemma submit_local_ok:
  assumes "submit_local R J now n op = (n', Inr x)"
  shows "\<exists>o2 data r. op_encode J now op = (o2, Inr data) \<and>
    rf_apply R (n_raft n) (n_fsm n) data (n_timeout n) = (r, n_fsm n', Inr (RespResult x))"
  using assms
  by (auto simp: submit_local_def split: if_splits prod.splits sum.splits apply_response.splits)

text \<open>The first of the two state reads decides whether the gate is asked: a node that is elected
  between them submits whatever its voters advertise.\<close>

lemma elected_between_reads_bypasses_gate:
  assumes "rf_state R (pr_state seen) \<noteq> Leader" and "rf_state R (pr_local seen) = Leader"
    and "known (pr_known seen) (op_id op) = None"
  shows "propose known R J now seen n op = Returned (submit_local R J now n op)"
  using assms by (simp add: propose_def propose_local_def Let_def)

section \<open>The state machine behind a node\<close>

text \<open>
  What the consensus library documents of \<open>Apply\<close>: a future without error carries the value
  \<open>FSM.Apply\<close> returned for a committed entry with the submitted data, after the entries committed
  before it.
\<close>

definition commits_through ::
  "('f \<Rightarrow> raft_log \<Rightarrow> 'f \<times> ('e + 'x)) \<Rightarrow> ('r, 'f, 'e, 'x) raft_lib \<Rightarrow> ('r, 'f) node \<Rightarrow> bool" where
  "commits_through apply_log R n \<longleftrightarrow>
     (\<forall>data t r f resp. rf_apply R (n_raft n) (n_fsm n) data t = (r, f, Inr resp) \<longrightarrow>
        (\<exists>ls l out. rl_data l = data \<and> apply_log (run_all apply_log (n_fsm n) ls) l = (f, out) \<and>
           resp = (case out of Inl e \<Rightarrow> RespError e | Inr x \<Rightarrow> RespResult x)))"

lemma commits_through_result:
  assumes "commits_through apply_log R n"
    and "rf_apply R (n_raft n) (n_fsm n) data t = (r, f, Inr (RespResult x))"
  obtains ls l where "rl_data l = data" "apply_log (run_all apply_log (n_fsm n) ls) l = (f, Inr x)"
proof -
  from assms(2) have "\<exists>ls l out. rl_data l = data \<and>
      apply_log (run_all apply_log (n_fsm n) ls) l = (f, out) \<and>
      RespResult x = (case out of Inl e \<Rightarrow> RespError e | Inr x \<Rightarrow> RespResult x)"
    by (rule assms(1) [unfolded commits_through_def, rule_format])
  then obtain ls l out where l: "rl_data l = data"
    and a: "apply_log (run_all apply_log (n_fsm n) ls) l = (f, out)"
    and x: "RespResult x = (case out of Inl e \<Rightarrow> RespError e | Inr x \<Rightarrow> RespResult x)"
    by blast
  from x have "out = Inr x" by (cases out) auto
  with l a show thesis by (intro that) simp_all
qed

context state_machine
begin

text \<open>An acknowledged proposal is a committed entry the state machine accepted; if the operation was
  known before, its entry changed nothing.\<close>

lemma node_acknowledged:
  assumes "commits_through apply_log R n"
    and "submit_local R J now n op = (n', Inr x)"
    and "op_encode J now op = (o2, Inr data)" "decode data = Inr o2"
  shows "\<exists>ls l. rl_data l = data \<and> apply_log (run_all apply_log (n_fsm n) ls) l = (n_fsm n', Inr x) \<and>
    (\<exists>d. digest o2 = Inr d \<and> known (n_fsm n') (op_id op) = Some d) \<and>
    (known (n_fsm n) (op_id op) \<noteq> None \<longrightarrow> n_fsm n' = run_all apply_log (n_fsm n) ls)"
proof -
  obtain r where "rf_apply R (n_raft n) (n_fsm n) data (n_timeout n) = (r, n_fsm n', Inr (RespResult x))"
    using submit_local_ok [OF assms(2)] assms(3) by auto
  then obtain ls l where l: "rl_data l = data"
    and a: "apply_log (run_all apply_log (n_fsm n) ls) l = (n_fsm n', Inr x)"
    using commits_through_result [OF assms(1)] by blast
  have i: "op_id o2 = op_id op" using op_encode_fields(1) [OF assms(3)] .
  have "\<exists>d. digest o2 = Inr d \<and> known (n_fsm n') (op_id op) = Some d"
    using apply_records [OF a] assms(4) l i by auto
  moreover have "n_fsm n' = run_all apply_log (n_fsm n) ls" if "known (n_fsm n) (op_id op) \<noteq> None"
  proof -
    from that i obtain d where "known (n_fsm n) (op_id o2) = Some d" by force
    then have "known (run_all apply_log (n_fsm n) ls) (op_id o2) = Some d" by (rule run_known_stable)
    then have "fst (apply_log (run_all apply_log (n_fsm n) ls) l) = run_all apply_log (n_fsm n) ls"
      using l assms(4) by (intro apply_known [of l o2]) auto
    then show ?thesis using a by simp
  qed
  ultimately show ?thesis using l a by blast
qed

end

section \<open>Properties\<close>

lemma kv_run_applied_stable:
  "f_applied f i = Some a \<Longrightarrow> f_applied (run_all (kv_apply J) f ls) i = Some a"
  by (induction ls arbitrary: f) (auto intro: kv_apply_applied_stable)

text \<open>C8. The acknowledgement contract: a successful \<open>Propose\<close> means that this node led when
  \<open>proposeLocal\<close> looked, that an ID its state machine knew at the start had this payload's digest,
  and that the result is the one its state machine returned for a committed entry holding the
  operation, whose ID is now recorded with its digest. When the ID was already recorded at the
  submission, the acknowledged result is the original one and the entry changed nothing. The
  schema gate binds a node that already led when \<open>Propose\<close> first looked: then every voter of the
  configuration it read advertised the operation's schema. Raft may change its state, its
  configuration and the applied entries between any two of these reads.\<close>

theorem proposal_acknowledged:
  assumes ok: "propose kv_op_known R J now seen n op = Returned (n', Inr x)"
    and source: "source_lookup (pr_fabric seen) (n_caps_src (pr_gate seen)) = Some caps"
    and raft: "commits_through (kv_apply J) R n"
    and json: "op_encode J now op = (o2, Inr data)" "decode_operation J data = Inr o2"
  shows "rf_state R (pr_local seen) = Leader \<and>
    (rf_state R (pr_state seen) = Leader \<longrightarrow>
      supports_operation (n_caps (pr_gate seen)) (op_version op) \<and>
      (\<exists>cfg. rf_configuration R (n_raft (pr_gate seen)) = Inr cfg \<and>
         voters_support caps (op_version op) cfg)) \<and>
    (\<forall>d. kv_op_known (pr_known seen) (op_id op) = Some d \<longrightarrow> op_digest J op = Inr d) \<and>
    (\<exists>ls l d. rl_data l = data \<and> kv_apply J (run_all (kv_apply J) (n_fsm n) ls) l = (n_fsm n', Inr x) \<and>
       op_digest J o2 = Inr d \<and> kv_op_known (n_fsm n') (op_id op) = Some d \<and>
       (\<forall>a. f_applied (n_fsm n) (op_id op) = Some a \<longrightarrow>
          x = ao_result a \<and> n_fsm n' = run_all (kv_apply J) (n_fsm n) ls))"
proof -
  note p = propose_ok [OF ok]
  from kv.node_acknowledged [OF raft p(3) json] obtain ls l d where
    l: "rl_data l = data" and a: "kv_apply J (run_all (kv_apply J) (n_fsm n) ls) l = (n_fsm n', Inr x)"
    and d: "op_digest J o2 = Inr d" "kv_op_known (n_fsm n') (op_id op) = Some d"
    and s: "kv_op_known (n_fsm n) (op_id op) \<noteq> None \<Longrightarrow> n_fsm n' = run_all (kv_apply J) (n_fsm n) ls"
    by blast
  have i: "op_id o2 = op_id op" using op_encode_fields(1) [OF json(1)] .
  have "x = ao_result a0 \<and> n_fsm n' = run_all (kv_apply J) (n_fsm n) ls"
    if "f_applied (n_fsm n) (op_id op) = Some a0" for a0
  proof -
    have "f_applied (run_all (kv_apply J) (n_fsm n) ls) (op_id op) = Some a0"
      using that by (rule kv_run_applied_stable)
    with a l json(2) i have "x = ao_result a0"
      by (cases rule: kv_apply_ok_cases [OF a]) auto
    moreover have "n_fsm n' = run_all (kv_apply J) (n_fsm n) ls"
      using s that by (simp add: kv_op_known_def)
    ultimately show ?thesis by simp
  qed
  with l a d show ?thesis using p(1,4) gate_ok [OF source p(2)] by blast
qed

text \<open>A one-node library whose leader commits what it is given, for the witnesses.\<close>

definition ex_raft :: "server list \<Rightarrow> (nat, kvfsm, kv_error, apply_result option) raft_lib" where
  "ex_raft ss = \<lparr>rf_state = (\<lambda>_. Leader), rf_leader = (\<lambda>_. (''A'', ''a'')), rf_last_index = of_nat,
     rf_configuration = (\<lambda>_. Inr ss),
     rf_apply = (\<lambda>r f data t. case kv_apply ex_snap f \<lparr>rl_index = of_nat (Suc r), rl_term = 1, rl_data = data\<rparr> of
        (f', Inl e) \<Rightarrow> (Suc r, f', Inr (RespError e)) | (f', Inr x) \<Rightarrow> (Suc r, f', Inr (RespResult x))),
     rf_change = (\<lambda>r c t. (Suc r, Inr ()))\<rparr>"

definition ex_node :: "caps_source \<Rightarrow> (nat, kvfsm) node" where
  "ex_node src = \<lparr>n_id = ''a'', n_addr = ''A'', n_raft = 0, n_fsm = ex_kv0, n_fabric = True, n_timeout = 5,
     n_caps = \<lparr>cap_id = ''a'', cap_operations = [1, 2], cap_snapshots = [1], cap_features = []\<rparr>,
     n_caps_src = src, n_local = Map.empty\<rparr>"

definition ex_voters :: "server list" where
  "ex_voters = [\<lparr>srv_id = ''a'', srv_addr = ''A'', srv_voter = True\<rparr>]"

definition ex_caps_of :: "int list \<Rightarrow> server_id \<Rightarrow> capabilities option" where
  "ex_caps_of vs i = Some \<lparr>cap_id = i, cap_operations = vs, cap_snapshots = [1], cap_features = []\<rparr>"

lemma ex_raft_commits: "commits_through (kv_apply ex_snap) (ex_raft ss) n"
  unfolding commits_through_def
proof (intro allI impI)
  fix data t r f resp
  assume "rf_apply (ex_raft ss) (n_raft n) (n_fsm n) data t = (r, f, Inr resp)"
  then show "\<exists>ls l out. rl_data l = data \<and>
      kv_apply ex_snap (run_all (kv_apply ex_snap) (n_fsm n) ls) l = (f, out) \<and>
      resp = (case out of Inl e \<Rightarrow> RespError e | Inr x \<Rightarrow> RespResult x)"
    by (intro exI [of _ "[]"] exI [of _ "\<lparr>rl_index = of_nat (Suc (n_raft n)), rl_term = 1, rl_data = data\<rparr>"])
      (auto simp: ex_raft_def split: prod.splits sum.splits)
qed

lemma ex_encode: "op_encode ex_snap ''t9'' ex_op = (ex_op, Inr ''op-1|kv.set|v1'')"
proof -
  have "marshal_op ex_snap = marshal_op ex_codec"
    by (simp add: ex_snap_def codec.defs ex_codec_def)
  then show ?thesis
    by (simp add: op_encode_def ex_op_valid) (simp add: ex_op_def ex_codec_def)
qed

lemma ex_voters_support [simp]: "voters_support (ex_caps_of vs) v ex_voters \<longleftrightarrow> v \<in> set vs"
  by (auto simp: voters_support_def ex_voters_def ex_caps_of_def supports_operation_def list_ex_iff)

lemma ex_submit:
  "submit_local (ex_raft ss) ex_snap ''t9'' (ex_node src) ex_op =
     ((ex_node src)\<lparr>n_raft := 1, n_fsm := ex_kv1\<rparr>, Inr (Some ex_res1))"
  using ex_first_apply
  by (simp add: submit_local_def ex_encode) (simp add: ex_raft_def ex_node_def ex_log_def)

lemma ex_node_fields [simp]:
  "n_fsm (ex_node src) = ex_kv0" "n_caps_src (ex_node src) = src"
  "rf_state (ex_raft ss) r = Leader" "rf_configuration (ex_raft ss) r = Inr ss"
  by (simp_all add: ex_node_def ex_raft_def)

lemma ex_known [simp]: "kv_op_known ex_kv0 i = None"
  by (simp add: kv_op_known_def ex_kv_defs)

lemma proposal_acknowledged_witness:
  "\<exists>n' x. propose kv_op_known (ex_raft ex_voters) ex_snap ''t9''
      (reads_now (None :: nat fabric option) (ex_node (CapsSource (ex_caps_of [1]))))
      (ex_node (CapsSource (ex_caps_of [1]))) ex_op = Returned (n', Inr x) \<and>
     voters_support (ex_caps_of [1]) (op_version ex_op) ex_voters \<and>
     kv_op_known (n_fsm n') ''op-1'' = Some ''v1''"
proof -
  let ?n = "ex_node (CapsSource (ex_caps_of [1]))" and ?R = "ex_raft ex_voters"
  have g: "require_voter_schema_support ?R (None :: nat fabric option) ?n 1 = Returned (Inr ())"
    by (simp add: require_voter_schema_support_def ex_node_def ex_raft_def supports_operation_def
        ex_voters_def source_caps_def ex_caps_of_def)
  have ok: "propose kv_op_known ?R ex_snap ''t9'' (reads_now (None :: nat fabric option) ?n) ?n ex_op =
      Returned (?n\<lparr>n_raft := 1, n_fsm := ex_kv1\<rparr>, Inr (Some ex_res1))"
    using g ex_submit [of ex_voters "CapsSource (ex_caps_of [1])"]
    by (simp add: propose_def propose_local_def Let_def)
  have s: "source_lookup (pr_fabric (reads_now (None :: nat fabric option) ?n))
      (n_caps_src (pr_gate (reads_now (None :: nat fabric option) ?n))) = Some (ex_caps_of [1])"
    by (simp add: ex_node_def source_lookup_def)
  have d: "decode_operation ex_snap ''op-1|kv.set|v1'' = Inr ex_op" by simp
  from proposal_acknowledged [OF ok s ex_raft_commits ex_encode d] ok show ?thesis
    by (auto simp: op_digest_def)
qed

text \<open>The rolling-version rule fails closed: while some voter of a leader's configuration does not
  advertise the operation's schema, or is unknown to the capability source, \<open>Propose\<close> returns an
  error and submits nothing. The routing that \<open>Cluster.Propose\<close>, \<open>handlePropose\<close> and
  \<open>ForwardProposal\<close> use goes straight to \<open>proposeLocal\<close>, so that in the same situation it submits
  the operation.\<close>

theorem schema_gate_and_bypass:
  assumes leads: "rf_state R (n_raft (h p)) = Leader"
    and source: "source_lookup (Some fb) (n_caps_src (h p)) = Some caps"
    and behind: "rf_configuration R (n_raft (h p)) = Inr cfg" "\<not> voters_support caps (op_version op) cfg"
  shows "(\<exists>e. propose known R J now (reads_now (Some fb) (h p)) (h p) op = Returned (h p, Inl (Inl e))) \<and>
    handle_propose R J now fb h p op =
      map_prod (\<lambda>n. h(p := n)) (map_sum NodeError id) (submit_local R J now (h p) op)"
proof -
  let ?seen = "reads_now (Some fb) (h p)"
  obtain e where "require_voter_schema_support R (Some fb) (h p) (op_version op) = Returned (Inl e)"
    using gate_refuses [OF source behind] by blast
  then have "\<exists>e. propose known R J now ?seen (h p) op = Returned (h p, Inl (Inl e))"
    using leads by (intro propose_refused) simp_all
  then show ?thesis
    using leads by (auto simp: handle_propose_def heap_propose_local_def propose_local_def split: prod.splits)
qed

lemma schema_gate_and_bypass_witness:
  "(\<exists>e. propose kv_op_known (ex_raft ex_voters) ex_snap ''t9''
      (reads_now (Some (new_fabric :: nat fabric)) (ex_node (CapsSource (ex_caps_of []))))
      (ex_node (CapsSource (ex_caps_of []))) ex_op = Returned (ex_node (CapsSource (ex_caps_of [])), Inl (Inl e))) \<and>
   snd (handle_propose (ex_raft ex_voters) ex_snap ''t9'' new_fabric
      (\<lambda>_. ex_node (CapsSource (ex_caps_of []))) 0 ex_op) = Inr (Some ex_res1)"
proof -
  let ?n = "ex_node (CapsSource (ex_caps_of []))" and ?R = "ex_raft ex_voters"
  have h: "rf_state ?R (n_raft ?n) = Leader"
    "source_lookup (Some (new_fabric :: nat fabric)) (n_caps_src ?n) = Some (ex_caps_of [])"
    "rf_configuration ?R (n_raft ?n) = Inr ex_voters"
    "\<not> voters_support (ex_caps_of []) (op_version ex_op) ex_voters"
    by (simp add: ex_raft_def, simp add: ex_node_def source_lookup_def, simp add: ex_raft_def, simp)
  show ?thesis
    using schema_gate_and_bypass [of ?R "\<lambda>_. ?n" 0 new_fabric "ex_caps_of []" ex_voters ex_op
        kv_op_known ex_snap "''t9''"] h ex_submit [of ex_voters "CapsSource (ex_caps_of [])"]
    by simp
qed

text \<open>A node built with neither a fabric nor a capability source holds a nil fabric pointer inside
  its non-nil capability interface: the nil test of the schema gate does not catch it, and once
  the node leads a configuration with a voter, every \<open>Propose\<close> of a schema it supports panics
  (unless the ID was already applied with another payload).\<close>

theorem standalone_leader_panics:
  assumes built: "new_node B mk o1 None = (fb, Inr n)" "o_caps_source o1 = None"
    and leads: "rf_state R (n_raft n) = Leader" "rf_configuration R (n_raft n) = Inr cfg"
      "list_ex srv_voter cfg"
    and op: "1 \<le> op_version op" "op_version op \<le> max_schema_of (o_max_schema o1)"
      "known (n_fsm n) (op_id op) = None"
  shows "propose known R J now (reads_now fb n) n op = Panic"
proof -
  from built have n: "n_caps n = node_capabilities o1" "n_caps_src n = CapsFabric" "fb = None"
    by (auto simp: new_node_def Let_def split: option.splits sum.splits)
  have "supports_operation (n_caps n) (op_version op)"
    using op n by (simp add: node_capabilities_def supports_operation_def list_ex_iff)
  moreover have "source_caps fb CapsFabric = (\<lambda>i. Panic)"
    using n by (simp add: source_caps_def fun_eq_iff)
  ultimately have "require_voter_schema_support R fb n (op_version op) = Panic"
    using n leads require_servers_panics [OF leads(3)] by (simp add: require_voter_schema_support_def)
  then show ?thesis using leads op(3) by (simp add: propose_def Let_def)
qed

definition ex_boot :: "(unit, unit, kvfsm, nat) raft_boot" where
  "ex_boot = \<lparr>default_config = \<lparr>rc_local_id = [], rc_heartbeat = 1, rc_election = 1, rc_commit = 1,
       rc_lease = 1, rc_snapshot_interval = 1, rc_snapshot_threshold = 1, rc_trailing = 1,
       rc_shutdown_on_remove = True\<rparr>,
     has_existing_state = (\<lambda>_. Inr False), bootstrap_cluster = (\<lambda>_ st _ _. Inr st),
     new_raft = (\<lambda>_ _ _ _. Inr 0)\<rparr>"

definition ex_options :: "(unit, unit, kvfsm) node_options" where
  "ex_options = \<lparr>o_id = ''a'', o_addr = ''A'', o_transport = Some (), o_stores = Some (), o_fsm = None,
     o_bootstrap = True, o_heartbeat = 0, o_election = 0, o_commit = 0, o_lease = 0,
     o_propose_timeout = 0, o_max_schema = 0, o_snap_format = 0, o_features = [], o_caps_source = None\<rparr>"

lemma standalone_leader_panics_witness:
  "\<exists>n. new_node ex_boot new_kvfsm_with_schema ex_options (None :: nat fabric option) = (None, Inr n) \<and>
     propose kv_op_known (ex_raft ex_voters) ex_snap ''t9'' (reads_now (None :: nat fabric option) n) n ex_op = Panic"
proof -
  obtain n where n: "new_node ex_boot new_kvfsm_with_schema ex_options (None :: nat fabric option) = (None, Inr n)"
    "n_fsm n = new_kvfsm_with_schema 2"
    by (simp add: new_node_def ex_boot_def ex_options_def bootstrap_stores_def Let_def
        max_schema_of_def replication_version_def)
  have "o_caps_source ex_options = None" "rf_state (ex_raft ex_voters) (n_raft n) = Leader"
    "rf_configuration (ex_raft ex_voters) (n_raft n) = Inr ex_voters" "list_ex srv_voter ex_voters"
    "1 \<le> op_version ex_op" "op_version ex_op \<le> max_schema_of (o_max_schema ex_options)"
    "kv_op_known (n_fsm n) (op_id ex_op) = None"
    by (simp_all add: ex_options_def ex_raft_def ex_voters_def max_schema_of_def
        replication_version_def n(2) kv_op_known_def new_kvfsm_with_schema_def)
  from standalone_leader_panics [where known = kv_op_known and n = n and op = ex_op, OF n(1) this] n(1) show ?thesis by blast
qed

text \<open>What a poll decides: it promotes on its leader, or the learner is behind (or nobody leads).\<close>

definition poll_promotes ::
  "('r, 'f, 'e, 'x) raft_lib \<Rightarrow> server_id \<Rightarrow> ('r, 'f) cluster \<Rightarrow> ('r, 'f) cluster \<Rightarrow> string + unit \<Rightarrow> bool" where
  "poll_promotes R i c c' r \<longleftrightarrow>
     (\<exists>l p n. cluster_leader R c = Some l \<and> map_of (cl_nodes c) i = Some p \<and>
        rf_last_index R (n_raft (cl_heap c l)) \<le> rf_last_index R (n_raft (cl_heap c p)) \<and>
        add_voter R (cl_heap c l) i (n_addr (cl_heap c p)) = (n, r) \<and>
        c' = c\<lparr>cl_heap := (cl_heap c)(l := n)\<rparr>)"

definition poll_behind :: "('r, 'f, 'e, 'x) raft_lib \<Rightarrow> server_id \<Rightarrow> ('r, 'f) cluster \<Rightarrow> bool" where
  "poll_behind R i c \<longleftrightarrow>
     (\<forall>l p. cluster_leader R c = Some l \<longrightarrow> map_of (cl_nodes c) i = Some p \<longrightarrow>
        rf_last_index R (n_raft (cl_heap c p)) < rf_last_index R (n_raft (cl_heap c l)))"

lemma promote_learner_step:
  "promote_learner R i deadline ((now, c) # polls) = (Some c', Promoted r) \<Longrightarrow>
   now < deadline \<and> (poll_promotes R i c c' r \<or>
     poll_behind R i c \<and> promote_learner R i deadline polls = (Some c', Promoted r))"
  by (auto simp: poll_promotes_def poll_behind_def not_le split: if_splits option.splits prod.splits)

text \<open>A lagging learner never gets a vote: \<open>PromoteLearnerAfterCatchUp\<close> asks the leader to add the
  voter only at a poll before its deadline in which the learner's last log index has reached the
  leader's, it changes no node but that leader, and every earlier poll found no leader or a
  learner behind it.\<close>

theorem learner_promoted_caught_up:
  assumes "promote_learner R i deadline polls = (Some c', Promoted r)"
  shows "\<exists>before now c after. polls = before @ (now, c) # after \<and> now < deadline \<and>
    poll_promotes R i c c' r \<and> (\<forall>(t, c0) \<in> set before. t < deadline \<and> poll_behind R i c0)"
  using assms
proof (induction polls)
  case Nil
  then show ?case by simp
next
  case (Cons a polls)
  obtain now c where a: "a = (now, c)" by (cases a)
  with Cons.prems have step: "now < deadline \<and> (poll_promotes R i c c' r \<or>
      poll_behind R i c \<and> promote_learner R i deadline polls = (Some c', Promoted r))"
    by (intro promote_learner_step) simp
  show ?case
  proof (cases "poll_promotes R i c c' r")
    case True
    then show ?thesis using a step by (intro exI [of _ "[]"]) auto
  next
    case False
    with step Cons.IH obtain before now' c0 after where "polls = before @ (now', c0) # after"
      "now' < deadline" "poll_promotes R i c0 c' r"
      "\<forall>(t, c0) \<in> set before. t < deadline \<and> poll_behind R i c0"
      by blast
    then show ?thesis using a step False
      by (intro exI [of _ "(now, c) # before"] exI [of _ now'] exI [of _ c0] exI [of _ after]) auto
  qed
qed

definition ex_cluster :: "nat \<Rightarrow> (nat, kvfsm) cluster" where
  "ex_cluster k = \<lparr>cl_fabric = new_fabric,
     cl_heap = (\<lambda>p. (ex_node CapsNone)\<lparr>n_raft := (if p = 0 then 7 else k)\<rparr>),
     cl_next = 2, cl_nodes = [(''a'', 0), (''b'', 1)], cl_stores = [],
     cl_heartbeat = 100, cl_election = 200, cl_commit = 20, cl_lease = 100, cl_propose = 3000\<rparr>"

lemma learner_promoted_caught_up_witness:
  "\<exists>c' before now c after. promote_learner (ex_raft ex_voters) ''b'' 9 [(1, ex_cluster 3), (2, ex_cluster 7)] =
     (Some c', Promoted (Inr ())) \<and>
   [(1::int, ex_cluster 3), (2, ex_cluster 7)] = before @ (now, c) # after \<and> now < 9 \<and>
   poll_promotes (ex_raft ex_voters) ''b'' c c' (Inr ())"
proof -
  have "\<exists>c'. promote_learner (ex_raft ex_voters) ''b'' 9 [(1, ex_cluster 3), (2, ex_cluster 7)] =
      (Some c', Promoted (Inr ()))"
    by (simp add: ex_cluster_def cluster_leader_def ex_raft_def add_voter_def node_change_def)
  then obtain c' where c: "promote_learner (ex_raft ex_voters) ''b'' 9 [(1, ex_cluster 3), (2, ex_cluster 7)] =
      (Some c', Promoted (Inr ()))" ..
  from learner_promoted_caught_up [OF c] c show ?thesis by blast
qed

end
