(* ===== verification/Replica_Net.thy ===== *)
theory Replica_Net
  imports Replica_Auth_Laws Replica_Wire
begin

text \<open>
  \<open>replication/nettransport.go\<close>: the production transport. Mutual authentication when a connection
  is dialed and accepted, the table of connections with its revalidation, and the frame loops of
  both sides.

  Sockets are numbers. The dialer's and the acceptor's surroundings (membership, TCP and TLS,
  nonces, JSON of the handshake messages, the bytes the other side sends) are the records
  \<open>dial_env\<close> and \<open>accept_env\<close>; the authenticator is the reference one. Goroutines appear as the
  steps they take on the connection table, whose lock makes each step atomic.
\<close>

section \<open>Options\<close>

record net_options =
  nx_id :: server_id
  nx_addr :: server_addr
  nx_has_auth :: bool
  nx_tls :: bool
  nx_plaintext :: bool
  nx_membership :: bool
  nx_secret :: string
  nx_creds :: "(server_id \<Rightarrow> string option) option"
  nx_protocol :: int
  nx_caps :: capabilities
  nx_dial :: int
  nx_send :: int
  nx_revalidate :: int

record peer_conn =
  pc_conn :: nat
  pc_expected :: server_id

record net_transport =
  x_opts :: net_options
  x_conns :: "server_addr \<rightharpoonup> peer_conn"
  x_peer_ids :: "server_addr \<rightharpoonup> server_id"
  x_accepted :: "nat set"
  x_closed :: bool
  x_shut :: "nat set"

datatype net_error =
    NeedsAuthenticator
  | NeedsTLS
  | ListenFailed
  | TransportClosed
  | PeerNotActive server_id
  | DialFailed
  | NonceFailed
  | NoCredential server_id
  | HandshakeFailed handshake_error
  | NetJSON
  | NetWire wire_error
  | UnexpectedFrame char
  | HandshakeRejected string
  | NoIdentityProof
  | PeerAuthFailed handshake_error
  | RemoteError string

definition positive_or :: "int \<Rightarrow> int \<Rightarrow> int" where
  "positive_or x d = (if x \<le> 0 then d else x)"

text \<open>\<open>bound\<close> is the address the listener reports, \<open>None\<close> when it cannot listen.\<close>

definition new_net_transport :: "net_options \<Rightarrow> server_addr option \<Rightarrow> net_error + net_transport" where
  "new_net_transport o1 bound =
     (if \<not> nx_has_auth o1 then Inl NeedsAuthenticator
      else if \<not> nx_tls o1 \<and> \<not> nx_plaintext o1 then Inl NeedsTLS
      else (case bound of
        None \<Rightarrow> Inl ListenFailed
      | Some addr \<Rightarrow> Inr
          \<lparr>x_opts = o1\<lparr>nx_dial := positive_or (nx_dial o1) (5 * 1000000000),
               nx_send := positive_or (nx_send o1) (10 * 1000000000),
               nx_revalidate := positive_or (nx_revalidate o1) 1000000000,
               nx_protocol := positive_or (nx_protocol o1) 2, nx_addr := addr\<rparr>,
           x_conns = Map.empty, x_peer_ids = Map.empty, x_accepted = {}, x_closed = False,
           x_shut = {}\<rparr>))"

definition outbound_secret :: "net_options \<Rightarrow> server_id \<Rightarrow> string option" where
  "outbound_secret o1 peer = (case nx_creds o1 of Some f \<Rightarrow> f peer | None \<Rightarrow> Some (nx_secret o1))"

section \<open>Dialing\<close>

record handshake_response =
  hr_result :: auth_result
  hr_server :: "auth_request option"

definition frame_append_entries :: char where "frame_append_entries = CHR 0x01"
definition frame_install_snapshot :: char where "frame_install_snapshot = CHR 0x04"
definition frame_timeout_now :: char where "frame_timeout_now = CHR 0x05"
definition frame_response :: char where "frame_response = CHR 0x06"
definition frame_auth :: char where "frame_auth = CHR 0x07"
definition frame_auth_resp :: char where "frame_auth_resp = CHR 0x08"

record dial_env =
  de_member :: "server_id \<Rightarrow> handshake_error + membership_status"
  de_connect :: "server_addr \<Rightarrow> nat option"
  de_nonce :: "string option"
  de_sent :: int
  de_now :: int
  de_marshal :: "auth_request \<Rightarrow> string option"
  de_unmarshal :: "string \<Rightarrow> handshake_response option"
  de_reply :: "string \<Rightarrow> string option"

text \<open>The membership test the dialer, the acceptor and the revalidation loop share.\<close>

definition member_active :: "net_options \<Rightarrow> handshake_error + membership_status \<Rightarrow> bool" where
  "member_active o1 r = (case r of
     Inl _ \<Rightarrow> False
   | Inr st \<Rightarrow> ms_state st = MembershipActive \<and> ms_enabled st \<and> ms_protocol st = nx_protocol o1)"

text \<open>The clock is read once to build the hello (\<open>de_sent\<close>) and once to verify the answer (\<open>de_now\<close>).
  \<open>de_reply\<close> is what the peer answers to the bytes of the auth frame, \<open>None\<close> when the write fails.\<close>

definition dial_hello ::
  "handshake_lib \<Rightarrow> dial_env \<Rightarrow> net_options \<Rightarrow> server_id \<Rightarrow> net_error + string" where
  "dial_hello L E o1 expected =
     (case de_nonce E of
        None \<Rightarrow> Inl NonceFailed
      | Some nonce \<Rightarrow>
      (case outbound_secret o1 expected of
        None \<Rightarrow> Inl (NoCredential expected)
      | Some secret \<Rightarrow>
      (case build_handshake L (nx_id o1) (nx_id o1) (nx_addr o1) (nx_protocol o1) (nx_caps o1)
             secret nonce (de_sent E) of
        Inl e \<Rightarrow> Inl (HandshakeFailed e)
      | Inr req \<Rightarrow>
      (case de_marshal E req of
        None \<Rightarrow> Inl NetJSON
      | Some body \<Rightarrow>
          if length body > max_frame_bytes then Inl (NetWire FrameTooLarge)
          else Inr (frame frame_auth body)))))"

definition dial_answer ::
  "handshake_lib \<Rightarrow> dial_env \<Rightarrow> peer_auth \<Rightarrow> server_id \<Rightarrow> string \<Rightarrow> peer_auth \<times> (net_error + unit)" where
  "dial_answer L E m expected answer =
     (case read_frame answer of
        Inl e \<Rightarrow> (m, Inl (NetWire e))
      | Inr (tag, payload, _) \<Rightarrow>
          if tag \<noteq> frame_auth_resp then (m, Inl (UnexpectedFrame tag))
          else (case de_unmarshal E payload of
            None \<Rightarrow> (m, Inl NetJSON)
          | Some hr \<Rightarrow>
              if \<not> r_allowed (hr_result hr) then (m, Inl (HandshakeRejected (r_reason (hr_result hr))))
              else (case hr_server hr of
                None \<Rightarrow> (m, Inl NoIdentityProof)
              | Some a \<Rightarrow> (case verify_peer L m (de_now E) expected a of
                  (m', Inl e) \<Rightarrow> (m', Inl (PeerAuthFailed e))
                | (m', Inr _) \<Rightarrow> (m', Inr ())))))"

text \<open>The second component is the socket a failed dial closed.\<close>

definition dial ::
  "handshake_lib \<Rightarrow> dial_env \<Rightarrow> net_options \<Rightarrow> peer_auth \<Rightarrow> server_addr \<Rightarrow> server_id \<Rightarrow>
   peer_auth \<times> nat option \<times> (net_error + peer_conn)" where
  "dial L E o1 m target expected =
     (if nx_membership o1 \<and> \<not> member_active o1 (de_member E expected)
      then (m, None, Inl (PeerNotActive expected))
      else (case de_connect E target of
        None \<Rightarrow> (m, None, Inl DialFailed)
      | Some c \<Rightarrow>
          (case dial_hello L E o1 expected of
             Inl e \<Rightarrow> (m, Some c, Inl e)
           | Inr hello \<Rightarrow>
               (case de_reply E hello of
                  None \<Rightarrow> (m, Some c, Inl (NetWire WriteFailed))
                | Some answer \<Rightarrow>
                    (case dial_answer L E m expected answer of
                       (m', Inl e) \<Rightarrow> (m', Some c, Inl e)
                     | (m', Inr _) \<Rightarrow> (m', None, Inr \<lparr>pc_conn = c, pc_expected = expected\<rparr>))))))"

section \<open>Accepting\<close>

record accept_env =
  ae_now :: int
  ae_proved :: int
  ae_nonce :: "string option"
  ae_unmarshal :: "string \<Rightarrow> auth_request option"
  ae_marshal :: "handshake_response \<Rightarrow> string"

text \<open>
  The handshake part of \<open>serveConn\<close>, which reads the clock to verify the request (\<open>ae_now\<close>) and again
  to build its own proof (\<open>ae_proved\<close>): the bytes written back, and the authenticated node with the
  unread rest of the stream when the connection goes on to serve requests.
\<close>

definition serve_reply ::
  "handshake_lib \<Rightarrow> accept_env \<Rightarrow> net_options \<Rightarrow> server_id \<Rightarrow> (handshake_error + auth_result) \<Rightarrow>
   handshake_response option" where
  "serve_reply L E o1 peer res =
     (case res of
        Inr r \<Rightarrow>
          if r_allowed r
          then (case outbound_secret o1 peer of
            None \<Rightarrow> None
          | Some secret \<Rightarrow>
            (case ae_nonce E of
               None \<Rightarrow> None
             | Some nonce \<Rightarrow>
               (case build_handshake L (nx_id o1) (nx_id o1) (nx_addr o1) (nx_protocol o1) (nx_caps o1)
                       secret nonce (ae_proved E) of
                  Inl _ \<Rightarrow> None
                | Inr a \<Rightarrow> Some \<lparr>hr_result = r, hr_server = Some a\<rparr>)))
          else Some \<lparr>hr_result = \<lparr>r_allowed = False, r_address = [], r_reason = ''authentication failed''\<rparr>,
                     hr_server = None\<rparr>
      | Inl _ \<Rightarrow> Some \<lparr>hr_result = \<lparr>r_allowed = False, r_address = [], r_reason = ''authentication failed''\<rparr>,
                     hr_server = None\<rparr>)"

definition serve_handshake ::
  "handshake_lib \<Rightarrow> accept_env \<Rightarrow> net_options \<Rightarrow> peer_auth \<Rightarrow> string \<Rightarrow>
   peer_auth \<times> string \<times> (server_id \<times> string) option" where
  "serve_handshake L E o1 m stream =
     (case read_frame stream of
        Inl _ \<Rightarrow> (m, [], None)
      | Inr (tag, payload, rest) \<Rightarrow>
          if tag \<noteq> frame_auth then (m, [], None)
          else (case ae_unmarshal E payload of
            None \<Rightarrow> (m, [], None)
          | Some req \<Rightarrow>
              (case authenticate L m (ae_now E) req of (m', res) \<Rightarrow>
                (case serve_reply L E o1 (a_node req) res of
                   None \<Rightarrow> (m', [], None)
                 | Some hr \<Rightarrow>
                     (case write_frame buffer_put [] frame_auth_resp (ae_marshal E hr) of
                        (w, Inl _) \<Rightarrow> (m', w, None)
                      | (w, Inr _) \<Rightarrow>
                          (m', w, if r_allowed (hr_result hr) then Some (a_node req, rest) else None))))))"

section \<open>Serving requests\<close>

text \<open>
  The consumer is the raft side: it may read the snapshot data behind a request (at most the
  announced size) and answers, or the transport shuts down. \<open>rs_decode\<close> is the JSON decoder of
  the request types 1 to 5.
\<close>

record ('c, 'q, 'p) rpc_server =
  rs_decode :: "char \<Rightarrow> string \<Rightarrow> 'q option"
  rs_size :: "'q \<Rightarrow> nat"
  rs_consume :: "'c \<Rightarrow> 'q \<Rightarrow> string \<Rightarrow> 'c \<times> (nat \<times> 'p) option"
  rs_marshal :: "'p \<Rightarrow> string option"

definition request_tag :: "char \<Rightarrow> bool" where
  "request_tag t \<longleftrightarrow> frame_append_entries \<le> t \<and> t \<le> frame_timeout_now"

function serve_loop :: "('c, 'q, 'p) rpc_server \<Rightarrow> 'c \<Rightarrow> string \<Rightarrow> string \<Rightarrow> 'c \<times> string" where
  "serve_loop S c stream w =
     (case read_frame stream of
        Inl _ \<Rightarrow> (c, w)
      | Inr (tag, payload, rest) \<Rightarrow>
        (case (if request_tag tag then rs_decode S tag payload else None) of
           None \<Rightarrow> (c, w)
         | Some cmd \<Rightarrow>
           (let avail = (if tag = frame_install_snapshot then take (rs_size S cmd) rest else [])
            in case rs_consume S c cmd avail of
                 (c', None) \<Rightarrow> (c', w)
               | (c', Some (used, resp)) \<Rightarrow>
                   (case rs_marshal S resp of
                      None \<Rightarrow> (c', w)
                    | Some out \<Rightarrow>
                        (case write_frame buffer_put w frame_response out of
                           (w', Inl _) \<Rightarrow> (c', w')
                         | (w', Inr _) \<Rightarrow>
                             serve_loop S c' (drop (min used (length avail)) rest) w')))))"
  by pat_completeness auto
termination
  by (relation "measure (\<lambda>(S, c, stream, w). length stream)")
    (auto dest!: read_frame_shorter split: if_splits)

declare serve_loop.simps [simp del]

section \<open>The connection table\<close>

definition close_conn :: "net_transport \<Rightarrow> nat \<Rightarrow> net_transport" where
  "close_conn t c = t\<lparr>x_shut := insert c (x_shut t)\<rparr>"

text \<open>\<open>getConn\<close> takes the lock twice: to look the target up, and to install what it dialed.\<close>

definition get_conn_cached ::
  "net_transport \<Rightarrow> server_addr \<Rightarrow> server_id \<Rightarrow> net_error + peer_conn option" where
  "get_conn_cached t target expected =
     (if x_closed t then Inl TransportClosed else Inr (x_conns t target))"

definition get_conn_install ::
  "net_transport \<Rightarrow> server_addr \<Rightarrow> server_id \<Rightarrow> peer_conn \<Rightarrow> net_transport \<times> (net_error + peer_conn)" where
  "get_conn_install t target expected pc =
     (if x_closed t then (close_conn t (pc_conn pc), Inl TransportClosed)
      else (case x_conns t target of
        Some existing \<Rightarrow> (close_conn t (pc_conn pc), Inr existing)
      | None \<Rightarrow> (t\<lparr>x_conns := (x_conns t)(target \<mapsto> pc),
                   x_peer_ids := (x_peer_ids t)(target \<mapsto> expected)\<rparr>, Inr pc)))"

definition get_conn ::
  "handshake_lib \<Rightarrow> dial_env \<Rightarrow> peer_auth \<Rightarrow> net_transport \<Rightarrow> server_addr \<Rightarrow> server_id \<Rightarrow>
   peer_auth \<times> net_transport \<times> (net_error + peer_conn)" where
  "get_conn L E m t target expected =
     (case get_conn_cached t target expected of
        Inl e \<Rightarrow> (m, t, Inl e)
      | Inr (Some pc) \<Rightarrow> (m, t, Inr pc)
      | Inr None \<Rightarrow>
          (case dial L E (x_opts t) m target expected of
             (m', c, Inl e) \<Rightarrow> (m', (case c of None \<Rightarrow> t | Some c \<Rightarrow> close_conn t c), Inl e)
           | (m', _, Inr pc) \<Rightarrow> (m', get_conn_install t target expected pc)))"

definition drop_conn :: "net_transport \<Rightarrow> server_addr \<Rightarrow> peer_conn \<Rightarrow> net_transport" where
  "drop_conn t target pc =
     (let t1 = (if x_conns t target = Some pc
                then t\<lparr>x_conns := (x_conns t)(target := None), x_peer_ids := (x_peer_ids t)(target := None)\<rparr>
                else t)
      in close_conn t1 (pc_conn pc))"

text \<open>One tick of \<open>revalidateLoop\<close>: the list of connections, in some map order, then the drops.\<close>

definition peer_id_of :: "net_transport \<Rightarrow> server_addr \<Rightarrow> server_id" where
  "peer_id_of t addr = (case x_peer_ids t addr of None \<Rightarrow> [] | Some i \<Rightarrow> i)"

fun revalidate_list ::
  "(server_id \<Rightarrow> handshake_error + membership_status) \<Rightarrow> net_transport \<Rightarrow>
   (server_addr \<times> peer_conn \<times> server_id) list \<Rightarrow> net_transport" where
  "revalidate_list mem t [] = t"
| "revalidate_list mem t ((addr, pc, i) # l) =
     revalidate_list mem (if member_active (x_opts t) (mem i) then t else drop_conn t addr pc) l"

definition revalidate ::
  "(server_id \<Rightarrow> handshake_error + membership_status) \<Rightarrow> net_transport \<Rightarrow> server_addr list \<Rightarrow> net_transport" where
  "revalidate mem t order =
     revalidate_list mem t
       (concat (map (\<lambda>addr. case x_conns t addr of None \<Rightarrow> [] | Some pc \<Rightarrow> [(addr, pc, peer_id_of t addr)]) order))"

text \<open>The dialed and accepted sockets a \<open>Close\<close> closes; \<open>peerIDs\<close> is left as it was.\<close>

definition transport_close :: "net_transport \<Rightarrow> net_transport" where
  "transport_close t =
     (if x_closed t then t
      else t\<lparr>x_closed := True, x_conns := Map.empty,
             x_shut := x_shut t \<union> pc_conn ` ran (x_conns t) \<union> x_accepted t\<rparr>)"

section \<open>Requests\<close>

text \<open>
  \<open>xchg\<close> sends bytes on a socket and gives the bytes that come back, \<open>None\<close> when the write fails;
  \<open>wire_response\<close> is the decoded envelope and \<open>de_body\<close> the decoder of the payload.
\<close>

record wire_response =
  wr_error :: string
  wr_payload :: string

definition read_response ::
  "(string \<Rightarrow> wire_response option) \<Rightarrow> (string \<Rightarrow> 'p option) \<Rightarrow> net_transport \<Rightarrow> server_addr \<Rightarrow> peer_conn \<Rightarrow>
   string \<Rightarrow> net_transport \<times> (net_error + 'p option)" where
  "read_response unwire de_body t target pc bytes =
     (case read_frame bytes of
        Inl e \<Rightarrow> (drop_conn t target pc, Inl (NetWire e))
      | Inr (tag, payload, _) \<Rightarrow>
          if tag \<noteq> frame_response then (drop_conn t target pc, Inl (UnexpectedFrame tag))
          else (case unwire payload of
            None \<Rightarrow> (drop_conn t target pc, Inl NetJSON)
          | Some wr \<Rightarrow>
              if wr_error wr \<noteq> [] then (t, Inl (RemoteError (wr_error wr)))
              else if wr_payload wr = [] then (t, Inr None)
              else (case de_body (wr_payload wr) of
                None \<Rightarrow> (drop_conn t target pc, Inl NetJSON)
              | Some p \<Rightarrow> (t, Inr (Some p)))))"

definition round_trip ::
  "handshake_lib \<Rightarrow> dial_env \<Rightarrow> (nat \<Rightarrow> string \<Rightarrow> string option) \<Rightarrow> (string \<Rightarrow> wire_response option) \<Rightarrow>
   (string \<Rightarrow> 'p option) \<Rightarrow> peer_auth \<Rightarrow> net_transport \<Rightarrow> server_id \<Rightarrow> server_addr \<Rightarrow> char \<Rightarrow> string \<Rightarrow> string \<Rightarrow>
   peer_auth \<times> net_transport \<times> (net_error + 'p option)" where
  "round_trip L E xchg unwire de_body m t i target tag payload data =
     (case get_conn L E m t target i of
        (m', t', Inl e) \<Rightarrow> (m', t', Inl e)
      | (m', t', Inr pc) \<Rightarrow>
          if length payload > max_frame_bytes
          then (m', drop_conn t' target pc, Inl (NetWire FrameTooLarge))
          else (case xchg (pc_conn pc) (frame tag payload @ data) of
            None \<Rightarrow> (m', drop_conn t' target pc, Inl (NetWire WriteFailed))
          | Some bytes \<Rightarrow> (m', read_response unwire de_body t' target pc bytes)))"

end
