(* ===== verification/Replica_Net_Laws.thy ===== *)
theory Replica_Net_Laws
  imports Replica_Net
begin

text \<open>
  What the production transport guarantees: mutual authentication of both ends, the binding of
  cached connections to identities, eviction of peers that left the active state, and the order of
  responses.
\<close>

section \<open>Dialing\<close>

lemma dial_hello_ok:
  assumes "dial_hello L E o1 expected = Inr hello"
  shows "\<exists>req body. hello = frame frame_auth body \<and> length body \<le> max_frame_bytes \<and>
    de_marshal E req = Some body \<and> a_node req = nx_id o1 \<and> a_raft_id req = nx_id o1"
  using assms
  by (fastforce simp: dial_hello_def build_handshake_def Let_def
      split: option.splits sum.splits if_splits)

lemma dial_answer_ok:
  assumes "dial_answer L E m expected answer = (m', Inr u)"
  shows "\<exists>payload rest hr a. read_frame answer = Inr (frame_auth_resp, payload, rest) \<and>
    de_unmarshal E payload = Some hr \<and> r_allowed (hr_result hr) \<and> hr_server hr = Some a \<and>
    verify_peer L m (de_now E) expected a = (m', Inr ())"
  using assms
  by (fastforce simp: dial_answer_def split: option.splits sum.splits prod.splits if_splits)

lemma dial_ok:
  assumes "dial L E o1 m target expected = (m', cl, Inr pc)"
  shows "\<exists>hello answer. dial_hello L E o1 expected = Inr hello \<and> de_reply E hello = Some answer \<and>
      dial_answer L E m expected answer = (m', Inr ())"
    and "pc_expected pc = expected" "cl = None" "de_connect E target = Some (pc_conn pc)"
    and "nx_membership o1 \<Longrightarrow> member_active o1 (de_member E expected)"
  using assms
  by (auto simp: dial_def split: option.splits sum.splits prod.splits if_splits)

lemma serve_reply_allowed:
  assumes "serve_reply L E o1 peer res = Some hr" "r_allowed (hr_result hr)"
  shows "\<exists>r a. res = Inr r \<and> r_allowed r \<and> hr_server hr = Some a \<and> a_node a = nx_id o1"
  using assms
  by (auto simp: serve_reply_def build_handshake_def Let_def split: sum.splits option.splits if_splits)

lemma serve_handshake_reads:
  assumes "read_frame (fst (snd (serve_handshake L A o2 m2 (frame frame_auth body)))) = Inr (tag, payload, rest)"
    and "length body \<le> max_frame_bytes"
  shows "\<exists>req m' res hr. ae_unmarshal A body = Some req \<and> authenticate L m2 (ae_now A) req = (m', res) \<and>
    serve_reply L A o2 (a_node req) res = Some hr \<and> tag = frame_auth_resp \<and> payload = ae_marshal A hr \<and>
    snd (snd (serve_handshake L A o2 m2 (frame frame_auth body))) =
      (if r_allowed (hr_result hr) then Some (a_node req, []) else None)"
proof -
  have nil: "read_frame [] = Inl StreamEnded" by (simp add: read_frame_def)
  have r: "read_frame (frame frame_auth body) = Inr (frame_auth, body, [])"
    using read_frame_frame [OF assms(2), of frame_auth "[]"] by simp
  from assms(1) obtain req where u: "ae_unmarshal A body = Some req"
    by (cases "ae_unmarshal A body") (simp_all add: serve_handshake_def r nil)
  obtain m' res where a: "authenticate L m2 (ae_now A) req = (m', res)" by fastforce
  from assms(1) obtain hr where h: "serve_reply L A o2 (a_node req) res = Some hr"
    by (cases "serve_reply L A o2 (a_node req) res") (simp_all add: serve_handshake_def r u a nil)
  have l: "length (ae_marshal A hr) \<le> max_frame_bytes"
    using assms(1)
    by (rule contrapos_pp) (simp add: serve_handshake_def r u a h write_frame_def nil)
  have w: "write_frame buffer_put [] frame_auth_resp (ae_marshal A hr) = (frame frame_auth_resp (ae_marshal A hr), Inr ())"
    using write_frame_buffer [OF l, of "[]"] by simp
  have "tag = frame_auth_resp \<and> payload = ae_marshal A hr"
    using assms(1) read_frame_frame [OF l, of frame_auth_resp "[]"]
    by (simp add: serve_handshake_def r u a h w)
  then show ?thesis using u a h by (simp add: serve_handshake_def r w)
qed

section \<open>The connection table\<close>

text \<open>The steps goroutines take on the table. A dialed or accepted socket is new to the transport, and a
  connection is dropped for the address it was obtained for.\<close>

definition fresh_socket :: "net_transport \<Rightarrow> nat \<Rightarrow> bool" where
  "fresh_socket t c \<longleftrightarrow> c \<notin> x_shut t \<and> c \<notin> x_accepted t \<and> (\<forall>a pc. x_conns t a = Some pc \<longrightarrow> pc_conn pc \<noteq> c)"

inductive net_step :: "net_transport \<Rightarrow> net_transport \<Rightarrow> bool" where
  installed: "fresh_socket t (pc_conn pc) \<Longrightarrow> pc_expected pc = i \<Longrightarrow>
    net_step t (fst (get_conn_install t target i pc))"
| accepted: "fresh_socket t c \<Longrightarrow> net_step t (t\<lparr>x_accepted := insert c (x_accepted t)\<rparr>)"
| finished: "c \<in> x_accepted t \<Longrightarrow>
    net_step t (close_conn (t\<lparr>x_accepted := x_accepted t - {c}\<rparr>) c)"
| dropped: "\<forall>a pc'. x_conns t a = Some pc' \<longrightarrow> pc_conn pc' = pc_conn pc \<longrightarrow> a = target \<and> pc' = pc \<Longrightarrow>
    net_step t (drop_conn t target pc)"
| closed: "net_step t (transport_close t)"

inductive_cases net_stepE: "net_step t t'"

definition sockets_distinct :: "(server_addr \<rightharpoonup> peer_conn) \<Rightarrow> bool" where
  "sockets_distinct m \<longleftrightarrow>
     (\<forall>a pc a' pc'. m a = Some pc \<longrightarrow> m a' = Some pc' \<longrightarrow> pc_conn pc = pc_conn pc' \<longrightarrow> a = a')"

definition net_inv :: "net_transport \<Rightarrow> bool" where
  "net_inv t \<longleftrightarrow>
     (\<forall>a pc. x_conns t a = Some pc \<longrightarrow> x_peer_ids t a = Some (pc_expected pc)) \<and>
     (\<forall>a pc. x_conns t a = Some pc \<longrightarrow> pc_conn pc \<notin> x_shut t) \<and>
     (\<forall>a pc. x_conns t a = Some pc \<longrightarrow> pc_conn pc \<notin> x_accepted t) \<and>
     sockets_distinct (x_conns t) \<and> (x_closed t \<longrightarrow> x_conns t = Map.empty)"

lemma sockets_distinct_empty [simp]: "sockets_distinct Map.empty"
  by (simp add: sockets_distinct_def)

lemma sockets_distinct_del: "sockets_distinct m \<Longrightarrow> sockets_distinct (m(a := None))"
  unfolding sockets_distinct_def by (metis fun_upd_apply option.distinct(1))

lemma sockets_distinct_add:
  "sockets_distinct m \<Longrightarrow> \<forall>a pc'. m a = Some pc' \<longrightarrow> pc_conn pc' \<noteq> pc_conn pc \<Longrightarrow>
   sockets_distinct (m(a \<mapsto> pc))"
  unfolding sockets_distinct_def by (metis fun_upd_apply option.inject)

lemma net_inv_new: "new_net_transport o1 addr = Inr t \<Longrightarrow> net_inv t"
  by (auto simp: new_net_transport_def net_inv_def split: if_splits option.splits)

lemma drop_conn_simps [simp]:
  "x_opts (drop_conn t a pc) = x_opts t" "x_accepted (drop_conn t a pc) = x_accepted t"
  "x_closed (drop_conn t a pc) = x_closed t" "x_shut (drop_conn t a pc) = insert (pc_conn pc) (x_shut t)"
  "x_conns (drop_conn t a pc) = (if x_conns t a = Some pc then (x_conns t)(a := None) else x_conns t)"
  "x_peer_ids (drop_conn t a pc) = (if x_conns t a = Some pc then (x_peer_ids t)(a := None) else x_peer_ids t)"
  by (simp_all add: drop_conn_def close_conn_def Let_def)

lemma net_inv_drop:
  assumes "net_inv t"
    and owner: "\<And>a pc'. x_conns t a = Some pc' \<Longrightarrow> pc_conn pc' = pc_conn pc \<Longrightarrow> a = target \<and> pc' = pc"
  shows "net_inv (drop_conn t target pc)"
proof -
  have "x_conns t a = Some pc' \<Longrightarrow> a \<noteq> target \<or> x_conns t target \<noteq> Some pc \<Longrightarrow> pc_conn pc' \<noteq> pc_conn pc" for a pc'
    using owner by metis
  then show ?thesis
    using assms(1) sockets_distinct_del [of "x_conns t" target]
    by (cases "x_conns t target = Some pc") (auto simp: net_inv_def)
qed

lemma net_inv_install:
  assumes "net_inv t" "fresh_socket t (pc_conn pc)" "pc_expected pc = i"
  shows "net_inv (fst (get_conn_install t target i pc))"
proof (cases "\<not> x_closed t \<and> x_conns t target = None")
  case True
  have "sockets_distinct ((x_conns t)(target \<mapsto> pc))"
    using assms by (intro sockets_distinct_add) (auto simp: net_inv_def fresh_socket_def)
  then show ?thesis using True assms by (auto simp: net_inv_def get_conn_install_def fresh_socket_def)
next
  case False
  then have "fst (get_conn_install t target i pc) = close_conn t (pc_conn pc)"
    by (auto simp: get_conn_install_def)
  then show ?thesis using assms by (auto simp: net_inv_def close_conn_def fresh_socket_def)
qed

lemma net_inv_step: "net_step t t' \<Longrightarrow> net_inv t \<Longrightarrow> net_inv t'"
proof (induction rule: net_step.induct)
  case (installed t pc i target)
  then show ?case by (intro net_inv_install)
next
  case (accepted t c)
  then show ?case by (auto simp: net_inv_def fresh_socket_def)
next
  case (finished c t)
  then show ?case by (auto simp: net_inv_def close_conn_def)
next
  case (dropped t pc target)
  then show ?case by (intro net_inv_drop) blast+
next
  case (closed t)
  then show ?case by (auto simp: net_inv_def transport_close_def)
qed

lemma net_inv_run: "net_step\<^sup>*\<^sup>* t t' \<Longrightarrow> net_inv t \<Longrightarrow> net_inv t'"
  by (induction rule: rtranclp_induct) (auto intro: net_inv_step)

lemma net_inv_owner:
  "net_inv t \<Longrightarrow> x_conns t addr = Some pc \<Longrightarrow>
   x_conns t a = Some pc' \<Longrightarrow> pc_conn pc' = pc_conn pc \<Longrightarrow> a = addr \<and> pc' = pc"
  unfolding net_inv_def sockets_distinct_def by (metis option.inject)

text \<open>What a tick evicts.\<close>

definition evicted ::
  "(server_id \<Rightarrow> handshake_error + membership_status) \<Rightarrow> net_transport \<Rightarrow> server_addr \<Rightarrow> peer_conn option" where
  "evicted mem t a = (case x_conns t a of
     None \<Rightarrow> None
   | Some pc \<Rightarrow> if member_active (x_opts t) (mem (pc_expected pc)) then None else Some pc)"

lemma revalidate_list_spec:
  assumes "net_inv t" and "distinct (map fst l)"
    and "\<forall>(a, pc, i) \<in> set l. x_conns t a = Some pc \<and> i = pc_expected pc"
  shows "net_inv (revalidate_list mem t l) \<and> x_opts (revalidate_list mem t l) = x_opts t \<and>
    (\<forall>a. x_conns (revalidate_list mem t l) a =
      (if a \<in> fst ` set l \<and> evicted mem t a \<noteq> None then None else x_conns t a)) \<and>
    (\<forall>a pc. a \<in> fst ` set l \<longrightarrow> evicted mem t a = Some pc \<longrightarrow> pc_conn pc \<in> x_shut (revalidate_list mem t l)) \<and>
    x_shut t \<subseteq> x_shut (revalidate_list mem t l)"
  using assms
proof (induction l arbitrary: t)
  case Nil
  then show ?case by simp
next
  case (Cons x l)
  obtain addr pc i where x: "x = (addr, pc, i)" by (cases x)
  with Cons.prems have c: "x_conns t addr = Some pc" "i = pc_expected pc" "addr \<notin> fst ` set l" by auto
  define t1 where "t1 = (if member_active (x_opts t) (mem i) then t else drop_conn t addr pc)"
  have conns: "x_conns t1 a = (if a = addr \<and> evicted mem t addr \<noteq> None then None else x_conns t a)" for a
    using c by (simp add: t1_def evicted_def)
  have opts: "x_opts t1 = x_opts t" by (simp add: t1_def)
  have ev: "evicted mem t1 a = evicted mem t a" if "a \<noteq> addr" for a
    using that opts by (simp add: evicted_def conns split: option.split)
  have "net_inv t1"
    using Cons.prems(1) net_inv_drop [OF Cons.prems(1), of pc addr] net_inv_owner [OF Cons.prems(1) c(1)]
    by (auto simp: t1_def)
  moreover have "\<forall>(a, pc, i) \<in> set l. x_conns t1 a = Some pc \<and> i = pc_expected pc"
    using Cons.prems(3) c(3) conns by (force simp: x)
  moreover have "distinct (map fst l)" using Cons.prems(2) by simp
  ultimately have ih: "net_inv (revalidate_list mem t1 l)" "x_opts (revalidate_list mem t1 l) = x_opts t1"
    "\<And>a. x_conns (revalidate_list mem t1 l) a =
      (if a \<in> fst ` set l \<and> evicted mem t1 a \<noteq> None then None else x_conns t1 a)"
    "\<And>a pc. a \<in> fst ` set l \<Longrightarrow> evicted mem t1 a = Some pc \<Longrightarrow> pc_conn pc \<in> x_shut (revalidate_list mem t1 l)"
    "x_shut t1 \<subseteq> x_shut (revalidate_list mem t1 l)"
    using Cons.IH [of t1] by blast+
  have r: "revalidate_list mem t (x # l) = revalidate_list mem t1 l" by (simp add: x t1_def)
  have s: "evicted mem t addr = Some pc' \<Longrightarrow> pc_conn pc' \<in> x_shut t1" for pc'
    using c by (auto simp: evicted_def t1_def split: if_splits)
  have "x_conns (revalidate_list mem t1 l) a =
      (if a \<in> fst ` set (x # l) \<and> evicted mem t a \<noteq> None then None else x_conns t a)" for a
    using ih(3) [of a] conns [of a] ev [of a] c(3) by (cases "a = addr") (auto simp: x)
  moreover have "pc_conn pc' \<in> x_shut (revalidate_list mem t1 l)"
    if "a \<in> fst ` set (x # l)" "evicted mem t a = Some pc'" for a pc'
    using that ih(4) [of a pc'] ih(5) s [of pc'] ev [of a] by (cases "a = addr") (auto simp: x)
  moreover have "x_opts t1 = x_opts t" "x_shut t \<subseteq> x_shut t1" by (auto simp: t1_def)
  ultimately show ?case using ih(1,2,5) r by auto
qed

lemma conn_list_mem:
  "(a, pc, i) \<in> set (concat (map (\<lambda>addr. case m addr of None \<Rightarrow> [] | Some pc \<Rightarrow> [(addr, pc, g addr)]) order))
    \<longleftrightarrow> a \<in> set order \<and> m a = Some pc \<and> i = g a"
  by (induction order) (auto split: option.split)

lemma conn_list_distinct:
  "distinct order \<Longrightarrow>
   distinct (map fst (concat (map (\<lambda>addr. case m addr of None \<Rightarrow> [] | Some pc \<Rightarrow> [(addr, pc, g addr)]) order)))"
  by (induction order) (auto split: option.split)

lemma revalidate_spec:
  assumes "net_inv t" and "distinct order" and "dom (x_conns t) \<subseteq> set order"
  shows "net_inv (revalidate mem t order) \<and>
    (\<forall>a. x_conns (revalidate mem t order) a = (if evicted mem t a \<noteq> None then None else x_conns t a)) \<and>
    (\<forall>a pc. evicted mem t a = Some pc \<longrightarrow> pc_conn pc \<in> x_shut (revalidate mem t order))"
proof -
  let ?f = "\<lambda>addr. case x_conns t addr of None \<Rightarrow> [] | Some pc \<Rightarrow> [(addr, pc, peer_id_of t addr)]"
  define l where "l = concat (map ?f order)"
  have ids: "peer_id_of t a = pc_expected pc" if "x_conns t a = Some pc" for a pc
    using assms(1) that by (simp add: net_inv_def peer_id_of_def)
  have dl: "distinct (map fst l)" unfolding l_def by (rule conn_list_distinct [OF assms(2)])
  have mem_l: "(a, pc, i) \<in> set l \<longleftrightarrow> a \<in> set order \<and> x_conns t a = Some pc \<and> i = peer_id_of t a" for a pc i
    unfolding l_def by (rule conn_list_mem)
  have "\<forall>(a, pc, i) \<in> set l. x_conns t a = Some pc \<and> i = pc_expected pc"
    by (auto simp: mem_l ids)
  moreover have "a \<in> fst ` set l \<longleftrightarrow> x_conns t a \<noteq> None" for a
  proof
    assume "a \<in> fst ` set l"
    then obtain e where "e \<in> set l" "a = fst e" by (rule imageE)
    then have "(a, fst (snd e), snd (snd e)) \<in> set l" by simp
    then show "x_conns t a \<noteq> None" using mem_l by blast
  next
    assume "x_conns t a \<noteq> None"
    then obtain pc where "x_conns t a = Some pc" by blast
    then have "(a, pc, peer_id_of t a) \<in> set l" using mem_l assms(3) by blast
    then show "a \<in> fst ` set l" by (rule rev_image_eqI) simp
  qed
  ultimately show ?thesis
    using revalidate_list_spec [OF assms(1) dl, of mem] unfolding revalidate_def l_def [symmetric]
    by (auto simp: evicted_def split: option.splits)
qed

section \<open>Properties\<close>

text \<open>C11. Mutual authentication: when a dialer gets a connection from a peer that runs \<open>serveConn\<close>, then
  the peer is the node the dialer expected, the peer goes on serving the connection as the
  dialer's own node ID, and each side's handshake passed all guards of the other side's
  authenticator. The hypotheses on JSON say that decoding the hello of this dialer, or a reply of this peer,
  yields no other message.\<close>

theorem mutual_authentication:
  assumes dialed: "dial L D o1 m1 target expected = (m1', cl, Inr pc)"
    and peer: "\<And>hello. de_reply D hello = Some (fst (snd (serve_handshake L A o2 m2 hello)))"
    and json: "\<And>req req' body. dial_hello L D o1 expected = Inr (frame frame_auth body) \<Longrightarrow>
        de_marshal D req = Some body \<Longrightarrow> ae_unmarshal A body = Some req' \<Longrightarrow> req' = req"
      "\<And>peer res hr hr'. serve_reply L A o2 peer res = Some hr \<Longrightarrow>
        de_unmarshal D (ae_marshal A hr) = Some hr' \<Longrightarrow> hr' = hr"
  shows "expected = nx_id o2 \<and> pc_expected pc = nx_id o2 \<and>
    (\<exists>hello req proof rest. dial_hello L D o1 expected = Inr hello \<and>
       snd (snd (serve_handshake L A o2 m2 hello)) = Some (nx_id o1, rest) \<and>
       a_node req = nx_id o1 \<and> handshake_guards L m2 (ae_now A) req \<and>
       a_node proof = nx_id o2 \<and> handshake_guards L m1 (de_now D) proof)"
proof -
  obtain hello answer where h: "dial_hello L D o1 expected = Inr hello" "de_reply D hello = Some answer"
    "dial_answer L D m1 expected answer = (m1', Inr ())"
    using dial_ok(1) [OF dialed] by blast
  obtain req body where b: "hello = frame frame_auth body" "length body \<le> max_frame_bytes"
    "de_marshal D req = Some body" "a_node req = nx_id o1" "a_raft_id req = nx_id o1"
    using dial_hello_ok [OF h(1)] by blast
  obtain payload rest hr a where p: "read_frame answer = Inr (frame_auth_resp, payload, rest)"
    "de_unmarshal D payload = Some hr" "r_allowed (hr_result hr)" "hr_server hr = Some a"
    "verify_peer L m1 (de_now D) expected a = (m1', Inr ())"
    using dial_answer_ok [OF h(3)] by blast
  have answer: "answer = fst (snd (serve_handshake L A o2 m2 (frame frame_auth body)))"
    using h(2) peer b(1) by simp
  obtain req' m' res hr' where s: "ae_unmarshal A body = Some req'"
    "authenticate L m2 (ae_now A) req' = (m', res)" "serve_reply L A o2 (a_node req') res = Some hr'"
    "payload = ae_marshal A hr'"
    "snd (snd (serve_handshake L A o2 m2 (frame frame_auth body))) =
       (if r_allowed (hr_result hr') then Some (a_node req', []) else None)"
    using serve_handshake_reads [OF p(1) [unfolded answer] b(2)] by blast
  have eq: "req' = req" "hr' = hr" using json(1) [OF h(1) [unfolded b(1)] b(3) s(1)] json(2) [OF s(3)] p(2) s(4) by auto
  obtain r a' where r: "res = Inr r" "hr_server hr = Some a'" "a_node a' = nx_id o2"
    using serve_reply_allowed [OF s(3)] p(3) eq by blast
  have v: "a_node a = expected" "verify_handshake_common L m1 (de_now D) a = (m1', Inr ())"
    using p(5) by (simp_all add: verify_peer_ok)
  have g1: "handshake_guards L m1 (de_now D) a" by (rule verify_common_ok(1) [OF v(2)])
  have g2: "handshake_guards L m2 (ae_now A) req"
    using s(2) r(1) eq by (auto simp: authenticate_ok dest: verify_common_ok(1))
  have "a = a'" using p(4) r(2) by simp
  then show ?thesis
    using v(1) r(3) dial_ok(2) [OF dialed] h(1) s(5) p(3) eq b(1,4) g1 g2 by auto
qed

text \<open>Two nodes with the reference library: \<open>n1\<close> dials \<open>n2\<close> over socket 4.\<close>

definition ex_net :: "server_id \<Rightarrow> net_options" where
  "ex_net i = \<lparr>nx_id = i, nx_addr = ''h:1'', nx_has_auth = True, nx_tls = True, nx_plaintext = False,
     nx_membership = False, nx_secret = ''k'', nx_creds = None, nx_protocol = 1, nx_caps = ex_caps,
     nx_dial = 1, nx_send = 1, nx_revalidate = 1\<rparr>"

definition ex_proof :: "server_id \<Rightarrow> auth_request" where
  "ex_proof i = \<lparr>a_node = i, a_raft_id = i, a_raft_addr = ''h:1'', a_protocol = 1, a_caps = ex_caps,
     a_timestamp = ''0'', a_nonce = ''x'',
     a_signature = handshake_signature ex_lib ''k'' ''0'' ''x'' i (i @ i), a_secret = ''k''\<rparr>"

definition ex_peer :: "server_id \<Rightarrow> peer_auth" where
  "ex_peer i = set_replication_enabled (set_membership (set_secret (new_peer_auth 1) i ''k'') i
     MembershipActive) i True"

definition ex_welcome :: handshake_response where
  "ex_welcome = \<lparr>hr_result = \<lparr>r_allowed = True, r_address = ''h:1'', r_reason = []\<rparr>,
     hr_server = Some (ex_proof ''n2'')\<rparr>"

definition ex_accept :: accept_env where
  "ex_accept = \<lparr>ae_now = 0, ae_proved = 0, ae_nonce = Some ''x'',
     ae_unmarshal = (\<lambda>b. if b = ''q'' then Some (ex_proof ''n1'') else None),
     ae_marshal = (\<lambda>hr. if hr = ex_welcome then ''w'' else ''-'')\<rparr>"

definition ex_dial :: dial_env where
  "ex_dial = \<lparr>de_member = (\<lambda>_. Inl MemberUnknown), de_connect = (\<lambda>_. Some 4), de_nonce = Some ''x'',
     de_sent = 0, de_now = 0, de_marshal = (\<lambda>r. if r = ex_proof ''n1'' then Some ''q'' else None),
     de_unmarshal = (\<lambda>b. if b = ''w'' then Some ex_welcome else None),
     de_reply = (\<lambda>hello. Some (fst (snd (serve_handshake ex_lib ex_accept (ex_net ''n2'') (ex_peer ''n1'') hello))))\<rparr>"

lemma ex_proof_verified:
  "\<exists>m. verify_handshake_common ex_lib (ex_peer i) 0 (ex_proof i) = (m, Inr ())"
proof (rule verify_common_accepts)
  show "handshake_guards ex_lib (ex_peer i) 0 (ex_proof i)"
    by (simp add: handshake_guards_def verify_handshake_signature_def ex_proof_def ex_peer_def ex_handshake)
  show "\<not> remembered (ex_peer i) (a_node (ex_proof i)) (a_nonce (ex_proof i)) 0"
    by (simp add: remembered_def ex_peer_def ex_handshake)
qed

lemma ex_built: "build_handshake ex_lib i i ''h:1'' 1 ex_caps ''k'' ''x'' 0 = Inr (ex_proof i)"
proof -
  have "marshal_body ex_lib = (\<lambda>b. Some (b_node b @ b_raft_id b))" "format_time ex_lib 0 = ''0''"
    by (simp_all add: ex_lib_def)
  then show ?thesis by (simp add: build_handshake_def ex_proof_def Let_def)
qed

lemma ex_dialed:
  "\<exists>m. dial ex_lib ex_dial (ex_net ''n1'') (ex_peer ''n2'') ''h:2'' ''n2'' = (m, None, Inr \<lparr>pc_conn = 4, pc_expected = ''n2''\<rparr>)"
proof -
  have hello: "dial_hello ex_lib ex_dial (ex_net ''n1'') ''n2'' = Inr (frame frame_auth ''q'')"
    by (simp add: dial_hello_def ex_dial_def ex_net_def outbound_secret_def ex_built max_frame_bytes_def)
  obtain m1 where "verify_handshake_common ex_lib (ex_peer ''n1'') 0 (ex_proof ''n1'') = (m1, Inr ())"
    using ex_proof_verified by blast
  then have a: "authenticate ex_lib (ex_peer ''n1'') 0 (ex_proof ''n1'') =
      (m1, Inr \<lparr>r_allowed = True, r_address = ''h:1'', r_reason = []\<rparr>)"
    by (simp add: authenticate_def) (simp add: ex_proof_def)
  have "serve_reply ex_lib ex_accept (ex_net ''n2'') ''n1'' (Inr \<lparr>r_allowed = True, r_address = ''h:1'', r_reason = []\<rparr>) = Some ex_welcome"
    by (simp add: serve_reply_def ex_net_def outbound_secret_def ex_built ex_accept_def ex_welcome_def)
  moreover have "read_frame (frame frame_auth ''q'') = Inr (frame_auth, ''q'', [])"
    using read_frame_frame [of "''q''" frame_auth "[]"] by (simp add: max_frame_bytes_def)
  moreover have "a_node (ex_proof ''n1'') = ''n1''" by (simp add: ex_proof_def)
  ultimately have w: "fst (snd (serve_handshake ex_lib ex_accept (ex_net ''n2'') (ex_peer ''n1'') (frame frame_auth ''q''))) =
      frame frame_auth_resp ''w''"
    using a write_frame_buffer [of "''w''" "[]" frame_auth_resp]
    by (simp add: serve_handshake_def ex_accept_def max_frame_bytes_def ex_welcome_def)
  have r: "read_frame (frame frame_auth_resp ''w'') = Inr (frame_auth_resp, ''w'', [])"
    using read_frame_frame [of "''w''" frame_auth_resp "[]"] by (simp add: max_frame_bytes_def)
  obtain m2 where "verify_handshake_common ex_lib (ex_peer ''n2'') 0 (ex_proof ''n2'') = (m2, Inr ())"
    using ex_proof_verified by blast
  then have "verify_peer ex_lib (ex_peer ''n2'') 0 ''n2'' (ex_proof ''n2'') = (m2, Inr ())"
    by (simp add: verify_peer_ok) (simp add: ex_proof_def)
  then have "dial_answer ex_lib ex_dial (ex_peer ''n2'') ''n2'' (frame frame_auth_resp ''w'') = (m2, Inr ())"
    by (simp add: dial_answer_def r ex_dial_def ex_welcome_def)
  moreover have "de_reply ex_dial (frame frame_auth ''q'') = Some (frame frame_auth_resp ''w'')"
    using w by (simp add: ex_dial_def)
  moreover have "de_connect ex_dial ''h:2'' = Some 4" "\<not> nx_membership (ex_net ''n1'')"
    by (simp_all add: ex_dial_def ex_net_def)
  ultimately show ?thesis using hello by (simp add: dial_def)
qed

lemma mutual_authentication_witness:
  "\<exists>m pc. dial ex_lib ex_dial (ex_net ''n1'') (ex_peer ''n2'') ''h:2'' ''n2'' = (m, None, Inr pc) \<and>
     pc_expected pc = nx_id (ex_net ''n2'')"
proof -
  obtain m where d: "dial ex_lib ex_dial (ex_net ''n1'') (ex_peer ''n2'') ''h:2'' ''n2'' =
      (m, None, Inr \<lparr>pc_conn = 4, pc_expected = ''n2''\<rparr>)" using ex_dialed by blast
  have "pc_expected \<lparr>pc_conn = 4, pc_expected = ''n2''\<rparr> = nx_id (ex_net ''n2'')"
    by (rule mutual_authentication [OF d, of ex_accept, THEN conjunct2, THEN conjunct1])
      (auto simp: ex_dial_def ex_accept_def split: if_splits)
  with d show ?thesis by blast
qed

text \<open>C12. The connection table, in every state the dialing, serving, dropping and closing goroutines
  reach: every cached connection is open, is owned by one address and is recorded under the
  identity it was authenticated as; one revalidation tick closes and forgets exactly the
  connections whose peer is no longer an active, enabled member of this protocol; and a closed
  transport caches nothing and hands out no connection.\<close>

theorem connections_bound_and_revalidated:
  assumes "new_net_transport o1 bound = Inr t0" and "net_step\<^sup>*\<^sup>* t0 t"
    and "distinct order" and "dom (x_conns t) \<subseteq> set order"
  shows "(x_conns t addr = Some pc \<longrightarrow> pc_conn pc \<notin> x_shut t \<and> x_peer_ids t addr = Some (pc_expected pc)) \<and>
    x_conns (revalidate mem t order) addr =
      (case x_conns t addr of None \<Rightarrow> None
       | Some pc \<Rightarrow> if member_active (x_opts t) (mem (pc_expected pc)) then Some pc else None) \<and>
    (x_conns t addr = Some pc \<and> x_conns (revalidate mem t order) addr = None \<longrightarrow>
       pc_conn pc \<in> x_shut (revalidate mem t order)) \<and>
    snd (get_conn_install (transport_close t) addr i pc) = Inl TransportClosed"
proof -
  have inv: "net_inv t" using net_inv_run [OF assms(2)] net_inv_new [OF assms(1)] by blast
  note r = revalidate_spec [OF inv assms(3,4), of mem]
  have "x_conns (revalidate mem t order) addr =
      (case x_conns t addr of None \<Rightarrow> None
       | Some pc \<Rightarrow> if member_active (x_opts t) (mem (pc_expected pc)) then Some pc else None)"
    using r by (auto simp: evicted_def split: option.split)
  moreover have "pc_conn pc \<in> x_shut (revalidate mem t order)"
    if "x_conns t addr = Some pc" "x_conns (revalidate mem t order) addr = None"
  proof -
    have "evicted mem t addr = Some pc" using that r by (auto simp: evicted_def split: if_splits)
    then show ?thesis using r by blast
  qed
  moreover have "snd (get_conn_install (transport_close t) addr i pc) = Inl TransportClosed"
    by (simp add: get_conn_install_def transport_close_def)
  ultimately show ?thesis using inv by (auto simp: net_inv_def)
qed

definition ex_transport :: net_transport where
  "ex_transport = \<lparr>x_opts = (ex_net ''n1'')\<lparr>nx_addr := ''h:1''\<rparr>, x_conns = Map.empty, x_peer_ids = Map.empty,
     x_accepted = {}, x_closed = False, x_shut = {}\<rparr>"

lemma ex_transport_new: "new_net_transport (ex_net ''n1'') (Some ''h:1'') = Inr ex_transport"
  by (simp add: new_net_transport_def ex_net_def ex_transport_def positive_or_def)

definition ex_connected :: net_transport where
  "ex_connected = fst (get_conn_install ex_transport ''h:2'' ''n2'' \<lparr>pc_conn = 4, pc_expected = ''n2''\<rparr>)"

lemma ex_connected_reachable: "net_step\<^sup>*\<^sup>* ex_transport ex_connected"
  unfolding ex_connected_def
  by (intro r_into_rtranclp net_step.installed) (simp_all add: fresh_socket_def ex_transport_def)

lemma ex_connected_conns: "x_conns ex_connected = [''h:2'' \<mapsto> \<lparr>pc_conn = 4, pc_expected = ''n2''\<rparr>]"
  by (simp add: ex_connected_def get_conn_install_def ex_transport_def)

lemma connections_bound_and_revalidated_witness:
  "x_conns (revalidate (\<lambda>_. Inl MemberUnknown) ex_connected [''h:2'']) ''h:2'' = None \<and>
   4 \<in> x_shut (revalidate (\<lambda>_. Inl MemberUnknown) ex_connected [''h:2''])"
  using connections_bound_and_revalidated [OF ex_transport_new ex_connected_reachable, of "[''h:2'']"
      "''h:2''" "\<lparr>pc_conn = 4, pc_expected = ''n2''\<rparr>" "\<lambda>_. Inl MemberUnknown"]
  by (simp add: ex_connected_conns member_active_def)

text \<open>The table is keyed by address alone: asked for a connection to another node at an address that
  already has one, \<open>getConn\<close> returns the cached connection without dialing, so the request goes to
  a peer that was authenticated as a different node than the expected one.\<close>

theorem cached_connection_ignores_identity:
  assumes "\<not> x_closed t" and "x_conns t target = Some pc"
    and "length payload \<le> max_frame_bytes" and "xchg (pc_conn pc) (frame tag payload @ data) = Some bytes"
  shows "get_conn L E m t target i = (m, t, Inr pc) \<and>
    round_trip L E xchg unwire de_body m t i target tag payload data =
      (m, read_response unwire de_body t target pc bytes)"
  using assms by (simp add: get_conn_def get_conn_cached_def round_trip_def)

lemma cached_connection_ignores_identity_witness:
  "\<forall>L E m. \<exists>pc. get_conn L E m ex_connected ''h:2'' ''n3'' = (m, ex_connected, Inr pc) \<and> pc_expected pc \<noteq> ''n3''"
proof (intro allI)
  fix L E m
  have c: "\<not> x_closed ex_connected"
    by (simp add: ex_connected_def get_conn_install_def ex_transport_def)
  have "x_conns ex_connected ''h:2'' = Some \<lparr>pc_conn = 4, pc_expected = ''n2''\<rparr>"
    by (simp add: ex_connected_conns)
  from cached_connection_ignores_identity [OF c this, where payload = "[]" and data = "[]" and i = "''n3''"
      and xchg = "\<lambda>_ _. Some []" and bytes = "[]" and L = L and E = E and m = m and tag = frame_append_entries
      and unwire = "\<lambda>_. None" and de_body = "\<lambda>_. None :: unit option"]
  show "\<exists>pc. get_conn L E m ex_connected ''h:2'' ''n3'' = (m, ex_connected, Inr pc) \<and>
      pc_expected pc \<noteq> ''n3''"
    by (simp add: max_frame_bytes_def)
qed

end
