(* ===== verification/Prop_Model.thy ===== *)
theory Prop_Model
  imports Go_Base
begin

text \<open>
  \<open>propagation/model.go\<close>, \<open>plan.go\<close>, \<open>conflict.go\<close>, \<open>target.go\<close>, \<open>secrets.go\<close> and \<open>preview.go\<close>:
  the propagated object, its validation, the plan that brings a destination up to date, conflict
  policies, target selection, secret checks and the dry run.

  The canonical form of a JSON payload, SHA-256, HMAC, hexadecimal decoding, the JSON of a plan and
  \<open>strings.ToLower\<close> are the fields of \<open>prop_lib\<close>. A destination is the list of its entries in the
  order the map iteration happens to take.
\<close>

section \<open>Envelopes\<close>

datatype conflict_policy =
    PolicyReject
  | PolicySourceWins
  | PolicyDestinationWins
  | PolicyManual
  | PolicyAuthoritative
  | PolicyMerge
  | PolicyOther string

record secret_ref =
  sr_name :: string
  sr_required :: bool

record actor =
  act_kind :: string
  act_id :: string
  act_permission :: string

record envelope =
  en_kind :: string
  en_id :: string
  en_schema :: int
  en_revision :: int
  en_source :: string
  en_created :: int
  en_digest :: string
  en_deps :: "string list"
  en_secrets :: "secret_ref list"
  en_target :: string
  en_conflict :: conflict_policy
  en_actor :: actor
  en_payload :: string
  en_signature :: string

record existing =
  xs_kind :: string
  xs_id :: string
  xs_digest :: string
  xs_owner :: string
  xs_revision :: int
  xs_schema :: int

datatype change = Create | Update | Delete | Noop | Conflict

record plan_item =
  pi_kind :: string
  pi_id :: string
  pi_change :: change
  pi_reason :: string
  pi_from :: int
  pi_to :: int

record plan =
  pl_id :: string
  pl_source :: string
  pl_target :: string
  pl_created :: int
  pl_items :: "plan_item list"
  pl_signature :: string

record prop_lib =
  canonical_json :: "string \<Rightarrow> string option"
  digest_hex :: "string \<Rightarrow> string"
  plan_json :: "plan \<Rightarrow> string option"
  hmac_hex :: "string \<Rightarrow> string \<Rightarrow> string"
  hmac_raw :: "string \<Rightarrow> string \<Rightarrow> string"
  hex_decode :: "string \<Rightarrow> string option"
  to_lower :: "string \<Rightarrow> string"

datatype prop_error =
    KindIDRequired
  | PositiveRequired
  | SourceTargetRequired
  | UnsupportedPolicy string
  | PropPayloadRequired
  | PayloadJSON
  | DigestMismatch
  | SecretNameRequired
  | DuplicateSecret string
  | SigningKeyShort
  | PlanJSON
  | MissingSignature
  | SignatureHex
  | InvalidSignature
  | SelectorEmpty
  | SecretProviderRequired
  | SecretLookup string
  | SecretUnavailable string
  | OwnerSourceRequired
  | OwnedBy string string

definition canonical_digest :: "('a) prop_lib_scheme \<Rightarrow> string \<Rightarrow> prop_error + string" where
  "canonical_digest L p = (case canonical_json L p of
     None \<Rightarrow> Inl PayloadJSON | Some b \<Rightarrow> Inr (digest_hex L b))"

fun check_secret_refs :: "string list \<Rightarrow> secret_ref list \<Rightarrow> prop_error + unit" where
  "check_secret_refs seen [] = Inr ()"
| "check_secret_refs seen (s # ss) =
     (if sr_name s = [] then Inl SecretNameRequired
      else if sr_name s \<in> set seen then Inl (DuplicateSecret (sr_name s))
      else check_secret_refs (sr_name s # seen) ss)"

definition policy_error :: "conflict_policy \<Rightarrow> prop_error option" where
  "policy_error p = (case p of PolicyOther s \<Rightarrow> Some (UnsupportedPolicy s) | _ \<Rightarrow> None)"

text \<open>\<open>Validate\<close> has a pointer receiver: it fills an empty digest and sorts the dependencies.\<close>

definition env_validate :: "('a) prop_lib_scheme \<Rightarrow> envelope \<Rightarrow> prop_error + envelope" where
  "env_validate L e =
     (if blank (en_kind e) \<or> blank (en_id e) then Inl KindIDRequired
      else if en_schema e < 1 \<or> en_revision e < 1 then Inl PositiveRequired
      else if blank (en_source e) \<or> blank (en_target e) then Inl SourceTargetRequired
      else (case policy_error (en_conflict e) of
        Some err \<Rightarrow> Inl err
      | None \<Rightarrow>
      if en_payload e = [] then Inl PropPayloadRequired
      else (case canonical_digest L (en_payload e) of
        Inl err \<Rightarrow> Inl err
      | Inr d \<Rightarrow>
      if en_digest e \<noteq> [] \<and> en_digest e \<noteq> d then Inl DigestMismatch
      else (case check_secret_refs [] (en_secrets e) of
        Inl err \<Rightarrow> Inl err
      | Inr _ \<Rightarrow> Inr (e\<lparr>en_digest := d, en_deps := sort (en_deps e)\<rparr>)))))"

section \<open>Planning\<close>

definition resolve_conflict :: "envelope \<Rightarrow> existing \<Rightarrow> change \<times> string" where
  "resolve_conflict e d =
     (if en_revision e \<le> xs_revision d
      then (case en_conflict e of
          PolicySourceWins \<Rightarrow> (Update, ''source wins despite destination revision'')
        | PolicyDestinationWins \<Rightarrow> (Noop, ''destination wins'')
        | PolicyAuthoritative \<Rightarrow>
            if xs_owner d = [] \<or> xs_owner d = en_source e then (Update, ''authoritative source'')
            else (Conflict, ''different authoritative owner'')
        | PolicyMerge \<Rightarrow> (Conflict, ''merge requires an object-specific merge adapter'')
        | PolicyManual \<Rightarrow> (Conflict, ''manual approval required'')
        | _ \<Rightarrow> (Conflict, ''destination is same or newer revision''))
      else if en_conflict e = PolicyDestinationWins then (Noop, ''destination wins'')
      else (Update, ''newer source revision''))"

definition env_key :: "envelope \<Rightarrow> string" where
  "env_key e = en_kind e @ CHR ''/'' # en_id e"

definition item_key :: "plan_item \<Rightarrow> object_key" where
  "item_key i = ObjectKey (pi_kind i) (pi_id i)"

definition diff_item :: "(string \<times> existing) list \<Rightarrow> envelope \<Rightarrow> plan_item" where
  "diff_item dest e =
     (case map_of dest (env_key e) of
        None \<Rightarrow> \<lparr>pi_kind = en_kind e, pi_id = en_id e, pi_change = Create, pi_reason = [],
                 pi_from = 0, pi_to = en_revision e\<rparr>
      | Some d \<Rightarrow>
          if xs_digest d = en_digest e
          then \<lparr>pi_kind = en_kind e, pi_id = en_id e, pi_change = Noop, pi_reason = [],
                pi_from = xs_revision d, pi_to = en_revision e\<rparr>
          else (case resolve_conflict e d of (ch, reason) \<Rightarrow>
                \<lparr>pi_kind = en_kind e, pi_id = en_id e, pi_change = ch, pi_reason = reason,
                 pi_from = xs_revision d, pi_to = en_revision e\<rparr>))"

fun diff_source ::
  "('a) prop_lib_scheme \<Rightarrow> (string \<times> existing) list \<Rightarrow> envelope list \<Rightarrow> prop_error + plan_item list" where
  "diff_source L dest [] = Inr []"
| "diff_source L dest (e # es) =
     (case env_validate L e of
        Inl err \<Rightarrow> Inl err
      | Inr e' \<Rightarrow> (case diff_source L dest es of
          Inl err \<Rightarrow> Inl err | Inr items \<Rightarrow> Inr (diff_item dest e' # items)))"

text \<open>The deletions: a key without a slash indexes past the end of its parts.\<close>

fun diff_deletes :: "string list \<Rightarrow> (string \<times> existing) list \<Rightarrow> plan_item list outcome" where
  "diff_deletes seen [] = Returned []"
| "diff_deletes seen ((k, d) # dest) =
     (if k \<in> set seen then diff_deletes seen dest
      else (case split_two (CHR ''/'') k of
        [kind, i] \<Rightarrow>
          (case diff_deletes seen dest of
             Panic \<Rightarrow> Panic
           | Returned items \<Rightarrow> Returned
               (\<lparr>pi_kind = kind, pi_id = i, pi_change = Delete, pi_reason = [],
                 pi_from = xs_revision d, pi_to = 0\<rparr> # items))
      | _ \<Rightarrow> Panic))"

definition diff ::
  "('a) prop_lib_scheme \<Rightarrow> envelope list \<Rightarrow> (string \<times> existing) list \<Rightarrow> bool \<Rightarrow>
   (prop_error + plan_item list) outcome" where
  "diff L source dest allow_delete =
     (case diff_source L dest source of
        Inl err \<Rightarrow> Returned (Inl err)
      | Inr items \<Rightarrow>
          (if allow_delete
           then (case diff_deletes (map env_key source) dest of
                   Panic \<Rightarrow> Panic
                 | Returned dels \<Rightarrow> Returned (Inr (sort_key item_key (items @ dels))))
           else Returned (Inr (sort_key item_key items))))"

definition new_plan :: "string \<Rightarrow> string \<Rightarrow> string \<Rightarrow> plan_item list \<Rightarrow> int \<Rightarrow> plan" where
  "new_plan i source target items now = \<lparr>pl_id = i, pl_source = source, pl_target = target,
     pl_created = now, pl_items = items, pl_signature = []\<rparr>"

definition plan_canonical :: "('a) prop_lib_scheme \<Rightarrow> plan \<Rightarrow> prop_error + string" where
  "plan_canonical L p = (case plan_json L (p\<lparr>pl_signature := []\<rparr>) of
     None \<Rightarrow> Inl PlanJSON | Some b \<Rightarrow> Inr b)"

definition plan_sign :: "('a) prop_lib_scheme \<Rightarrow> plan \<Rightarrow> string \<Rightarrow> plan \<times> (prop_error + unit)" where
  "plan_sign L p key =
     (if length key < 16 then (p, Inl SigningKeyShort)
      else (case plan_canonical L p of
        Inl e \<Rightarrow> (p, Inl e)
      | Inr b \<Rightarrow> (p\<lparr>pl_signature := hmac_hex L key b\<rparr>, Inr ())))"

definition plan_verify :: "('a) prop_lib_scheme \<Rightarrow> plan \<Rightarrow> string \<Rightarrow> prop_error + unit" where
  "plan_verify L p key =
     (if pl_signature p = [] then Inl MissingSignature
      else (case plan_canonical L p of
        Inl e \<Rightarrow> Inl e
      | Inr b \<Rightarrow> (case hex_decode L (pl_signature p) of
          None \<Rightarrow> Inl SignatureHex
        | Some got \<Rightarrow> if got \<noteq> hmac_raw L key b then Inl InvalidSignature else Inr ())))"

section \<open>Ownership\<close>

record ownership =
  ow_owner :: string
  ow_source :: string

definition validate_ownership :: "conflict_policy \<Rightarrow> ownership \<Rightarrow> prop_error + unit" where
  "validate_ownership p w =
     (if p \<noteq> PolicyAuthoritative then Inr ()
      else if ow_source w = [] then Inl OwnerSourceRequired
      else if ow_owner w \<noteq> [] \<and> ow_owner w \<noteq> ow_source w then Inl (OwnedBy (ow_owner w) (ow_source w))
      else Inr ())"

section \<open>Targets\<close>

record member =
  mb_id :: string
  mb_labels :: "string list"
  mb_caps :: "string list"
  mb_enabled :: bool

record selector =
  sl_nodes :: "string list"
  sl_labels :: "string list"
  sl_caps :: "string list"
  sl_exclude :: "string list"
  sl_all :: bool

definition has_any :: "('a) prop_lib_scheme \<Rightarrow> string list \<Rightarrow> string list \<Rightarrow> bool" where
  "has_any L have want = (want \<noteq> [] \<and> list_ex (\<lambda>x. to_lower L x \<in> set (map (to_lower L) have)) want)"

definition has_all :: "('a) prop_lib_scheme \<Rightarrow> string list \<Rightarrow> string list \<Rightarrow> bool" where
  "has_all L have want = (want \<noteq> [] \<and> list_all (\<lambda>x. to_lower L x \<in> set (map (to_lower L) have)) want)"

definition member_matches :: "('a) prop_lib_scheme \<Rightarrow> selector \<Rightarrow> member \<Rightarrow> bool" where
  "member_matches L s m \<longleftrightarrow> sl_all s \<or> mb_id m \<in> set (sl_nodes s) \<or>
     has_any L (mb_labels m) (sl_labels s) \<or> has_all L (mb_caps m) (sl_caps s)"

text \<open>The set of wanted identities is a map, sorted at the end.\<close>

definition select :: "('a) prop_lib_scheme \<Rightarrow> selector \<Rightarrow> member list \<Rightarrow> prop_error + string list" where
  "select L s ms =
     (if \<not> sl_all s \<and> sl_nodes s = [] \<and> sl_labels s = [] \<and> sl_caps s = [] then Inl SelectorEmpty
      else Inr (sort (remdups (map mb_id
        (filter (\<lambda>m. mb_enabled m \<and> mb_id m \<notin> set (sl_exclude s) \<and> member_matches L s m) ms)))))"

section \<open>Secrets\<close>

record secret_status =
  ss_name :: string
  ss_present :: bool
  ss_required :: bool

text \<open>The statuses so far are returned with the error of a missing required secret.\<close>

fun check_secrets_loop ::
  "(string \<Rightarrow> bool option) \<Rightarrow> secret_ref list \<Rightarrow> secret_status list \<Rightarrow>
   secret_status list \<times> (prop_error + unit)" where
  "check_secrets_loop has [] out = (out, Inr ())"
| "check_secrets_loop has (r # rs) out =
     (case has (sr_name r) of
        None \<Rightarrow> ([], Inl (SecretLookup (sr_name r)))
      | Some ok \<Rightarrow>
          (let out' = out @ [\<lparr>ss_name = sr_name r, ss_present = ok, ss_required = sr_required r\<rparr>]
           in if sr_required r \<and> \<not> ok then (out', Inl (SecretUnavailable (sr_name r)))
              else check_secrets_loop has rs out'))"

definition check_secrets ::
  "(string \<Rightarrow> bool option) option \<Rightarrow> secret_ref list \<Rightarrow> secret_status list \<times> (prop_error + unit)" where
  "check_secrets provider refs =
     (case provider of
        None \<Rightarrow> if refs \<noteq> [] then ([], Inl SecretProviderRequired) else ([], Inr ())
      | Some has \<Rightarrow> check_secrets_loop has refs [])"

type_synonym map_secrets = "string \<rightharpoonup> bool"

definition map_secrets_has :: "map_secrets \<Rightarrow> string \<Rightarrow> bool option" where
  "map_secrets_has m n = Some (m n = Some True)"

section \<open>Dry run\<close>

datatype issue_kind = IncompatibleSchema | MissingDependency | MissingSecret | PermissionDenied

record preview_issue =
  is_kind :: issue_kind
  is_object :: string
  is_detail :: "string + int"

record target_state =
  ts_existing :: "(string \<times> existing) list"
  ts_schemas :: "string \<rightharpoonup> int"
  ts_deps :: "string \<rightharpoonup> bool"
  ts_secrets :: map_secrets
  ts_permissions :: "string \<rightharpoonup> bool"

record preview =
  pv_items :: "plan_item list"
  pv_issues :: "preview_issue list"
  pv_applicable :: bool

text \<open>The dependencies were sorted in place by the validation inside \<open>Diff\<close>.\<close>

definition env_issues :: "target_state \<Rightarrow> envelope \<Rightarrow> preview_issue list" where
  "env_issues t e =
     (case ts_schemas t (en_kind e) of
        Some mx \<Rightarrow> if en_schema e > mx
          then [\<lparr>is_kind = IncompatibleSchema, is_object = env_key e, is_detail = Inr (en_schema e)\<rparr>] else []
      | None \<Rightarrow> [\<lparr>is_kind = IncompatibleSchema, is_object = env_key e, is_detail = Inr (en_schema e)\<rparr>]) @
     map (\<lambda>d. \<lparr>is_kind = MissingDependency, is_object = env_key e, is_detail = Inl d\<rparr>)
       (filter (\<lambda>d. ts_deps t d \<noteq> Some True) (sort (en_deps e))) @
     map (\<lambda>s. \<lparr>is_kind = MissingSecret, is_object = env_key e, is_detail = Inl (sr_name s)\<rparr>)
       (filter (\<lambda>s. sr_required s \<and> ts_secrets t (sr_name s) \<noteq> Some True) (en_secrets e)) @
     (if act_permission (en_actor e) \<noteq> [] \<and> ts_permissions t (act_permission (en_actor e)) \<noteq> Some True
      then [\<lparr>is_kind = PermissionDenied, is_object = env_key e,
             is_detail = Inl (act_permission (en_actor e))\<rparr>] else [])"

definition dry_run ::
  "('a) prop_lib_scheme \<Rightarrow> envelope list \<Rightarrow> target_state \<Rightarrow> bool \<Rightarrow> (prop_error + preview) outcome" where
  "dry_run L source target allow_delete =
     (case diff L source (ts_existing target) allow_delete of
        Panic \<Rightarrow> Panic
      | Returned (Inl e) \<Rightarrow> Returned (Inl e)
      | Returned (Inr items) \<Rightarrow>
          (let issues = concat (map (env_issues target) source)
           in Returned (Inr \<lparr>pv_items = items, pv_issues = issues, pv_applicable = (issues = [])\<rparr>)))"

end
