(* ===== verification/Prop_Model_Laws.thy ===== *)
theory Prop_Model_Laws
  imports Prop_Model
begin

text \<open>
  What plans promise: which changes they contain, that they never overwrite a destination its
  policy protects, that they do not depend on map order; when a dry run is applicable; and the
  interface \<open>SecretProvider\<close> as a locale.
\<close>

section \<open>Validation\<close>

lemma check_secret_refs_ok:
  "check_secret_refs seen ss = Inr u \<longleftrightarrow>
   (\<forall>s \<in> set ss. sr_name s \<noteq> [] \<and> sr_name s \<notin> set seen) \<and> distinct (map sr_name ss)"
  by (induction ss arbitrary: seen) (auto simp: image_iff)

definition validated :: "('a) prop_lib_scheme \<Rightarrow> envelope \<Rightarrow> envelope" where
  "validated L e = (case env_validate L e of Inl _ \<Rightarrow> e | Inr e' \<Rightarrow> e')"

lemma env_validate_ok:
  assumes "env_validate L e = Inr e'"
  shows "\<exists>d. e' = e\<lparr>en_digest := d, en_deps := sort (en_deps e)\<rparr>"
    "canonical_digest L (en_payload e) = Inr (en_digest e')"
    "1 \<le> en_schema e" "1 \<le> en_revision e" "policy_error (en_conflict e) = None"
    "distinct (map sr_name (en_secrets e))"
  using assms
  by (auto simp: env_validate_def check_secret_refs_ok split: if_splits option.splits sum.splits)

lemma validated_fields:
  assumes "env_validate L e = Inr e'"
  shows "en_kind e' = en_kind e" "en_id e' = en_id e" "en_revision e' = en_revision e"
    "en_conflict e' = en_conflict e" "en_source e' = en_source e" "env_key e' = env_key e"
  using env_validate_ok(1) [OF assms] by (auto simp: env_key_def)

section \<open>The items of a plan\<close>

lemma diff_source_ok:
  "diff_source L dest es = Inr items \<longleftrightarrow>
   (\<forall>e \<in> set es. \<exists>e'. env_validate L e = Inr e') \<and> items = map (\<lambda>e. diff_item dest (validated L e)) es"
proof (induction es arbitrary: items)
  case (Cons e es)
  show ?case
  proof (cases "env_validate L e")
    case (Inr e')
    show ?thesis
    proof (cases "diff_source L dest es")
      case (Inl x)
      then have "\<not> (\<forall>e \<in> set es. \<exists>e'. env_validate L e = Inr e')"
        using Cons.IH [of "map (\<lambda>e. diff_item dest (validated L e)) es"] by simp
      then show ?thesis using Inl Inr by auto
    next
      case (Inr y)
      then show ?thesis using Cons.IH [of y] \<open>env_validate L e = Inr e'\<close>
        by (auto simp: validated_def)
    qed
  qed simp
qed auto

definition delete_item :: "string \<times> existing \<Rightarrow> plan_item" where
  "delete_item x = (case cut (CHR ''/'') (fst x) of
     None \<Rightarrow> \<lparr>pi_kind = fst x, pi_id = [], pi_change = Delete, pi_reason = [],
              pi_from = xs_revision (snd x), pi_to = 0\<rparr>
   | Some (kind, i) \<Rightarrow> \<lparr>pi_kind = kind, pi_id = i, pi_change = Delete, pi_reason = [],
              pi_from = xs_revision (snd x), pi_to = 0\<rparr>)"

lemma diff_deletes_ok:
  "diff_deletes seen dest = Returned items \<longleftrightarrow>
   (\<forall>x \<in> set dest. fst x \<notin> set seen \<longrightarrow> CHR ''/'' \<in> set (fst x)) \<and>
   items = map delete_item (filter (\<lambda>x. fst x \<notin> set seen) dest)"
proof (induction dest arbitrary: items)
  case (Cons x dest)
  obtain k d where x: "x = (k, d)" by (cases x)
  show ?case
  proof (cases "k \<in> set seen")
    case True
    then show ?thesis using Cons by (simp add: x)
  next
    case False
    then show ?thesis
    proof (cases "cut (CHR ''/'') k")
      case None
      then have "CHR ''/'' \<notin> set k" using cut_None by metis
      then show ?thesis using False None by (simp add: x split_two_def)
    next
      case (Some p)
      then have "CHR ''/'' \<in> set k" by (metis cut_None option.distinct(1))
      then show ?thesis using False Some Cons.IH
        by (cases p; cases "diff_deletes seen dest") (auto simp: x split_two_def delete_item_def)
    qed
  qed
qed auto

lemma diff_ok:
  assumes "diff L source dest ad = Returned (Inr items)"
  shows "\<forall>e \<in> set source. \<exists>e'. env_validate L e = Inr e'"
    and "sorted (map item_key items)"
    and "mset items = mset (map (\<lambda>e. diff_item dest (validated L e)) source) +
      (if ad then mset (map delete_item (filter (\<lambda>x. fst x \<notin> set (map env_key source)) dest)) else {#})"
  using assms
  by (auto simp: diff_def diff_source_ok diff_deletes_ok split: sum.splits if_splits outcome.splits)

lemma diff_item_fields [simp]: "pi_kind (diff_item dest e) = en_kind e" "pi_id (diff_item dest e) = en_id e"
  by (auto simp: diff_item_def split: option.splits prod.splits)

text \<open>When a source object may replace what the destination has, when the destination keeps it, and the
  one item a plan has for each object and for each deletion.\<close>

definition may_replace :: "envelope \<Rightarrow> existing \<Rightarrow> bool" where
  "may_replace e d \<longleftrightarrow>
     xs_revision d < en_revision e \<and> en_conflict e \<noteq> PolicyDestinationWins \<or>
     en_conflict e = PolicySourceWins \<or>
     en_conflict e = PolicyAuthoritative \<and> (xs_owner d = [] \<or> xs_owner d = en_source e)"

definition same_payload :: "('a) prop_lib_scheme \<Rightarrow> envelope \<Rightarrow> existing \<Rightarrow> bool" where
  "same_payload L e d \<longleftrightarrow> canonical_digest L (en_payload e) = Inr (xs_digest d)"

definition plans_object ::
  "('a) prop_lib_scheme \<Rightarrow> (string \<times> existing) list \<Rightarrow> envelope \<Rightarrow> plan_item \<Rightarrow> bool" where
  "plans_object L dest e i \<longleftrightarrow>
     pi_kind i = en_kind e \<and> pi_id i = en_id e \<and> pi_to i = en_revision e \<and>
     (case map_of dest (env_key e) of
        None \<Rightarrow> pi_change i = Create \<and> pi_from i = 0
      | Some d \<Rightarrow> pi_from i = xs_revision d \<and>
          pi_change i =
            (if same_payload L e d \<or> \<not> may_replace e d \<and> en_conflict e = PolicyDestinationWins then Noop
             else if may_replace e d then Update else Conflict))"

definition plans_deletion :: "string \<times> existing \<Rightarrow> plan_item \<Rightarrow> bool" where
  "plans_deletion x i \<longleftrightarrow>
     pi_change i = Delete \<and> pi_from i = xs_revision (snd x) \<and>
     fst x = pi_kind i @ CHR ''/'' # pi_id i \<and> CHR ''/'' \<notin> set (pi_kind i)"

lemma diff_item_plans:
  assumes v: "env_validate L e = Inr e'"
  shows "plans_object L dest e (diff_item dest e')"
proof -
  note f = validated_fields [OF v] env_validate_ok(2) [OF v]
  show ?thesis
  proof (cases "map_of dest (env_key e)")
    case None
    then show ?thesis using f by (simp add: plans_object_def diff_item_def)
  next
    case (Some d)
    then show ?thesis using f
      by (auto simp: plans_object_def diff_item_def same_payload_def may_replace_def resolve_conflict_def not_le
          split: conflict_policy.split)
  qed
qed

lemma diff_item_not_delete: "pi_change (diff_item dest e) \<noteq> Delete"
  by (auto simp: diff_item_def resolve_conflict_def
      split: option.splits if_splits conflict_policy.splits prod.splits)

section \<open>Map order\<close>

lemma delete_item_key:
  "CHR ''/'' \<in> set k \<Longrightarrow> \<exists>a b. cut (CHR ''/'') k = Some (a, b) \<and> k = a @ CHR ''/'' # b \<and>
     item_key (delete_item (k, d)) = ObjectKey a b"
proof -
  assume "CHR ''/'' \<in> set k"
  then obtain p where "cut (CHR ''/'') k = Some p" using cut_None [of "CHR ''/''" k] by auto
  then show ?thesis using cut_Some by (cases p) (auto simp: item_key_def delete_item_def)
qed

lemma delete_item_plans:
  assumes "CHR ''/'' \<in> set (fst x)"
  shows "plans_deletion x (delete_item x)"
proof -
  obtain a b where c: "cut (CHR ''/'') (fst x) = Some (a, b)" "fst x = a @ CHR ''/'' # b"
    using delete_item_key [OF assms, of "snd x"] by auto
  moreover have "CHR ''/'' \<notin> set a" using cut_Some [OF c(1)] by simp
  ultimately show ?thesis by (simp add: plans_deletion_def delete_item_def)
qed

lemma delete_item_inj:
  assumes "\<forall>x \<in> S. CHR ''/'' \<in> set (fst x)" and "inj_on fst S"
  shows "inj_on (\<lambda>x. item_key (delete_item x)) S"
proof (rule inj_onI)
  fix x y assume xy: "x \<in> S" "y \<in> S" and e: "item_key (delete_item x) = item_key (delete_item y)"
  obtain a b where "fst x = a @ CHR ''/'' # b" "item_key (delete_item x) = ObjectKey a b"
    using delete_item_key [of "fst x" "snd x"] assms(1) xy(1) by auto
  moreover obtain a' b' where "fst y = a' @ CHR ''/'' # b'" "item_key (delete_item y) = ObjectKey a' b'"
    using delete_item_key [of "fst y" "snd y"] assms(1) xy(2) by auto
  ultimately have "fst x = fst y" using e by simp
  then show "x = y" using assms(2) xy by (auto dest: inj_onD)
qed

lemma item_keys_distinct:
  assumes "distinct (map (\<lambda>e. (en_kind e, en_id e)) source)" and "\<forall>e \<in> set source. CHR ''/'' \<notin> set (en_kind e)"
    and "\<forall>e \<in> set source. \<exists>e'. env_validate L e = Inr e'"
    and "distinct (map fst dels)" "\<forall>x \<in> set dels. CHR ''/'' \<in> set (fst x) \<and> fst x \<notin> set (map env_key source)"
  shows "distinct (map item_key (map (\<lambda>e. diff_item dest (validated L e)) source @ map delete_item dels))"
proof -
  have v: "en_kind (validated L e) = en_kind e" "en_id (validated L e) = en_id e" if "e \<in> set source" for e
  proof -
    obtain e' where "env_validate L e = Inr e'" using assms(3) \<open>e \<in> set source\<close> by blast
    then show "en_kind (validated L e) = en_kind e" "en_id (validated L e) = en_id e"
      by (simp_all add: validated_def validated_fields)
  qed
  have m: "map item_key (map (\<lambda>e. diff_item dest (validated L e)) source) = map (\<lambda>e. ObjectKey (en_kind e) (en_id e)) source"
    using v by (simp add: item_key_def)
  have "distinct (map (\<lambda>e. ObjectKey (en_kind e) (en_id e)) source)"
    using assms(1) by (auto simp: distinct_map inj_on_def)
  moreover have "distinct (map (\<lambda>x. item_key (delete_item x)) dels)"
    using assms(4,5) delete_item_inj [of "set dels"] by (simp add: distinct_map)
  moreover have "ObjectKey (en_kind e) (en_id e) \<noteq> item_key (delete_item x)"
    if m: "e \<in> set source" "x \<in> set dels" for e x
  proof
    assume e: "ObjectKey (en_kind e) (en_id e) = item_key (delete_item x)"
    obtain a b where "fst x = a @ CHR ''/'' # b" "item_key (delete_item x) = ObjectKey a b"
      using delete_item_key [of "fst x" "snd x"] assms(5) m(2) by auto
    then have "fst x = env_key e" using e by (simp add: env_key_def)
    then show False using assms(5) m by auto
  qed
  ultimately show ?thesis unfolding map_append distinct_append m by (auto simp: comp_def)
qed

section \<open>Secret providers\<close>

text \<open>The interface \<open>SecretProvider\<close>, for providers whose lookups do not fail: a name is present when
  the store says so.\<close>

locale secret_provider =
  fixes has :: "'s \<Rightarrow> string \<Rightarrow> bool option" and present :: "'s \<Rightarrow> string \<Rightarrow> bool"
  assumes has_total: "has s n = Some (present s n)"
begin

lemma check_loop:
  "check_secrets_loop (has s) refs out =
     (case find (\<lambda>r. sr_required r \<and> \<not> present s (sr_name r)) refs of
        None \<Rightarrow> (out @ map (\<lambda>r. \<lparr>ss_name = sr_name r, ss_present = present s (sr_name r), ss_required = sr_required r\<rparr>) refs, Inr ())
      | Some r \<Rightarrow> (out @ map (\<lambda>r. \<lparr>ss_name = sr_name r, ss_present = present s (sr_name r), ss_required = sr_required r\<rparr>)
            (takeWhile (\<lambda>r. \<not> (sr_required r \<and> \<not> present s (sr_name r))) refs @ [r]),
          Inl (SecretUnavailable (sr_name r))))"
  by (induction refs arbitrary: out) (auto simp: has_total Let_def split: option.splits)

lemma check_ok:
  "snd (check_secrets (Some (has s)) refs) = Inr () \<longleftrightarrow>
   (\<forall>r \<in> set refs. sr_required r \<longrightarrow> present s (sr_name r))"
  by (auto simp: check_secrets_def check_loop find_None_iff split: option.splits)
    (auto simp: find_Some_iff)

end

interpretation map_secrets: secret_provider map_secrets_has "\<lambda>m n. m n = Some True"
  by unfold_locales (simp add: map_secrets_has_def)

section \<open>Properties\<close>

text \<open>A library and objects for the witnesses.\<close>

definition ex_prop_lib :: prop_lib where
  "ex_prop_lib = \<lparr>canonical_json = (\<lambda>p. Some p), digest_hex = (\<lambda>b. CHR ''#'' # b),
     plan_json = (\<lambda>p. Some (pl_id p @ pl_signature p)), hmac_hex = (\<lambda>k b. CHR ''h'' # b),
     hmac_raw = (\<lambda>k b. b), hex_decode = (\<lambda>s. if s = [] then None else Some (tl s)), to_lower = (\<lambda>s. s)\<rparr>"

definition ex_env :: "string \<Rightarrow> int \<Rightarrow> conflict_policy \<Rightarrow> envelope" where
  "ex_env i rv p = \<lparr>en_kind = ''svc'', en_id = i, en_schema = 1, en_revision = rv, en_source = ''n1'',
     en_created = 0, en_digest = [], en_deps = [], en_secrets = [], en_target = ''all'', en_conflict = p,
     en_actor = \<lparr>act_kind = ''user'', act_id = ''u'', act_permission = []\<rparr>, en_payload = ''p'', en_signature = []\<rparr>"

definition ex_old :: "string \<Rightarrow> string \<Rightarrow> int \<Rightarrow> existing" where
  "ex_old i d rv = \<lparr>xs_kind = ''svc'', xs_id = i, xs_digest = d, xs_owner = [], xs_revision = rv, xs_schema = 1\<rparr>"

lemma ex_name_not_blank [simp]: "\<not> blank ''svc''" "\<not> blank ''a''" "\<not> blank ''b''" "\<not> blank ''n1''" "\<not> blank ''all''"
  by code_simp+

lemma ex_env_valid:
  "i = ''a'' \<or> i = ''b'' \<Longrightarrow> policy_error p = None \<Longrightarrow> 1 \<le> rv \<Longrightarrow>
   env_validate ex_prop_lib (ex_env i rv p) = Inr ((ex_env i rv p)\<lparr>en_digest := ''#p''\<rparr>)"
  by (auto simp: env_validate_def ex_env_def canonical_digest_def ex_prop_lib_def)

text \<open>C15. A plan contains exactly one item for each source object, in a one-to-one correspondence, and,
  when deletions are allowed, one for each destination entry whose key the source does not have,
  and nothing else; it is sorted by kind and identity. An object absent from the destination is
  created, one with the same payload digest is left alone, and a different one is updated when
  its revision is newer and its policy is not destination-wins, or its policy is source-wins, or
  it is authoritative for an object nobody else owns; otherwise it is left alone under
  destination-wins and a conflict under every other policy. Items carry the revisions they go
  from and to.\<close>

theorem plan_never_overwrites:
  assumes "diff L source dest ad = Returned (Inr items)"
  shows "sorted (map item_key items) \<and>
    (\<exists>objects deletions. mset items = mset objects + mset deletions \<and>
       list_all2 (plans_object L dest) source objects \<and>
       list_all2 plans_deletion
         (if ad then filter (\<lambda>x. fst x \<notin> set (map env_key source)) dest else []) deletions)"
proof -
  note ok = diff_ok [OF assms]
  let ?dels = "if ad then filter (\<lambda>x. fst x \<notin> set (map env_key source)) dest else []"
  let ?objects = "map (\<lambda>e. diff_item dest (validated L e)) source"
  have "plans_object L dest e (diff_item dest (validated L e))" if "e \<in> set source" for e
    using ok(1) that diff_item_plans [of L e _ dest] by (auto simp: validated_def)
  then have "list_all2 (plans_object L dest) source ?objects"
    by (simp add: list_all2_map2 list_all2_same)
  moreover have "CHR ''/'' \<in> set (fst x)" if "x \<in> set ?dels" for x
    using assms that by (auto simp: diff_def diff_deletes_ok split: sum.splits if_splits outcome.splits)
  then have "list_all2 plans_deletion ?dels (map delete_item ?dels)"
    using delete_item_plans by (simp add: list_all2_map2 list_all2_same)
  moreover have "mset items = mset ?objects + mset (map delete_item ?dels)"
    unfolding ok(3) by (cases ad) simp_all
  ultimately show ?thesis using ok(2) by blast
qed

lemma ex_plan:
  "diff ex_prop_lib [ex_env ''b'' 2 PolicyReject, ex_env ''a'' 2 PolicyManual]
      [(''svc/a'', ex_old ''a'' ''#q'' 5), (''svc/z'', ex_old ''z'' ''#z'' 1)] True =
   Returned (Inr [\<lparr>pi_kind = ''svc'', pi_id = ''a'', pi_change = Conflict, pi_reason = ''manual approval required'', pi_from = 5, pi_to = 2\<rparr>,
     \<lparr>pi_kind = ''svc'', pi_id = ''b'', pi_change = Create, pi_reason = [], pi_from = 0, pi_to = 2\<rparr>,
     \<lparr>pi_kind = ''svc'', pi_id = ''z'', pi_change = Delete, pi_reason = [], pi_from = 1, pi_to = 0\<rparr>])"
  by (simp add: diff_def ex_env_valid policy_error_def)
    (simp add: diff_item_def ex_env_def ex_old_def env_key_def split_two_def resolve_conflict_def
      item_key_def less_eq_object_key_def less_object_key_def)

lemma plan_never_overwrites_witness:
  "\<exists>items. diff ex_prop_lib [ex_env ''b'' 2 PolicyReject, ex_env ''a'' 2 PolicyManual]
      [(''svc/a'', ex_old ''a'' ''#q'' 5), (''svc/z'', ex_old ''z'' ''#z'' 1)] True = Returned (Inr items) \<and>
     sorted (map item_key items) \<and> length items = 3"
  using plan_never_overwrites [OF ex_plan] ex_plan by (auto simp: env_key_def ex_env_def)

text \<open>A plan does not depend on the iteration order of the destination map: for source objects that
  differ in kind or identity, whose kinds contain no slash, every order of the same destination
  entries gives the same result, errors and panics included.\<close>

theorem plan_independent_of_map_order:
  assumes "mset dest = mset dest2" and "distinct (map fst dest)"
    and "distinct (map (\<lambda>e. (en_kind e, en_id e)) source)"
    and "\<forall>e \<in> set source. CHR ''/'' \<notin> set (en_kind e)"
  shows "diff L source dest ad = diff L source dest2 ad"
proof -
  have set: "set dest = set dest2" using assms(1) by (rule mset_eq_setD)
  have "mset (map fst dest) = mset (map fst dest2)" using assms(1) by simp
  then have d2: "distinct (map fst dest2)" using assms(2) by (metis mset_eq_imp_distinct_iff)
  have m: "map_of dest = map_of dest2"
    using set assms(2) d2 by (metis map_of_inject_set map_of_eq_Some_iff ext option.exhaust)
  have item: "diff_item dest e = diff_item dest2 e" for e by (simp add: diff_item_def m)
  have src: "diff_source L dest es = diff_source L dest2 es" for es
    by (induction es) (simp_all add: item split: sum.split)
  let ?f = "filter (\<lambda>x. fst x \<notin> set (map env_key source))"
  show ?thesis
  proof (cases "\<exists>items. diff_source L dest source = Inr items \<and> ad")
    case False
    then show ?thesis by (auto simp: diff_def src split: sum.split)
  next
    case True
    then obtain items where items: "diff_source L dest source = Inr items" ad by blast
    then have v: "\<forall>e \<in> set source. \<exists>e'. env_validate L e = Inr e'"
      and i: "items = map (\<lambda>e. diff_item dest (validated L e)) source"
      by (simp_all add: diff_source_ok)
    show ?thesis
    proof (cases "\<forall>x \<in> set dest. fst x \<notin> set (map env_key source) \<longrightarrow> CHR ''/'' \<in> set (fst x)")
      case False
      then have "diff_deletes (map env_key source) dest = Panic" "diff_deletes (map env_key source) dest2 = Panic"
        using diff_deletes_ok set by (metis outcome.exhaust)+
      then show ?thesis using items src by (simp add: diff_def)
    next
      case slash: True
      have del: "diff_deletes (map env_key source) dest = Returned (map delete_item (?f dest))"
        "diff_deletes (map env_key source) dest2 = Returned (map delete_item (?f dest2))"
        using slash set by (simp_all add: diff_deletes_ok)
      have "distinct (map item_key (map (\<lambda>e. diff_item dest (validated L e)) source @ map delete_item (?f dest)))"
        using slash assms(2) by (intro item_keys_distinct [OF assms(3,4) v]) (auto simp: distinct_map intro: inj_on_subset)
      then have di: "inj_on item_key (set (items @ map delete_item (?f dest)))" "distinct (items @ map delete_item (?f dest))"
        unfolding i by (simp_all only: distinct_map)
      have "mset (?f dest) = mset (?f dest2)" using assms(1) by simp
      then have "mset (items @ map delete_item (?f dest)) = mset (items @ map delete_item (?f dest2))"
        by (simp del: mset_filter)
      from sort_key_unique [OF this di] show ?thesis
        using items src [of source] del by (simp add: diff_def)
    qed
  qed
qed

lemma plan_independent_of_map_order_witness:
  "diff ex_prop_lib [ex_env ''b'' 2 PolicyReject, ex_env ''a'' 2 PolicyManual]
      [(''svc/z'', ex_old ''z'' ''#z'' 1), (''svc/a'', ex_old ''a'' ''#q'' 5)] True =
   diff ex_prop_lib [ex_env ''b'' 2 PolicyReject, ex_env ''a'' 2 PolicyManual]
      [(''svc/a'', ex_old ''a'' ''#q'' 5), (''svc/z'', ex_old ''z'' ''#z'' 1)] True"
  by (rule plan_independent_of_map_order) (simp_all add: ex_env_def)

text \<open>A dry run is applicable exactly when every source object has a schema the target supports,
  every dependency it names is there, every secret it requires is present and the permission its
  actor needs is granted; its items are those of the plan, and it reports one issue per failure.\<close>

theorem dry_run_applicable_iff:
  assumes "dry_run L source t ad = Returned (Inr p)"
  shows "diff L source (ts_existing t) ad = Returned (Inr (pv_items p)) \<and>
    (pv_applicable p \<longleftrightarrow> (\<forall>e \<in> set source.
       (\<exists>mx. ts_schemas t (en_kind e) = Some mx \<and> en_schema e \<le> mx) \<and>
       (\<forall>d \<in> set (en_deps e). ts_deps t d = Some True) \<and>
       snd (check_secrets (Some (map_secrets_has (ts_secrets t))) (en_secrets e)) = Inr () \<and>
       (act_permission (en_actor e) = [] \<or> ts_permissions t (act_permission (en_actor e)) = Some True))) \<and>
    (pv_applicable p \<longleftrightarrow> pv_issues p = [])"
proof -
  from assms have p: "diff L source (ts_existing t) ad = Returned (Inr (pv_items p))"
    "pv_issues p = concat (map (env_issues t) source)" "pv_applicable p \<longleftrightarrow> pv_issues p = []"
    by (auto simp: dry_run_def Let_def split: outcome.splits sum.splits)
  have "env_issues t e = [] \<longleftrightarrow>
       (\<exists>mx. ts_schemas t (en_kind e) = Some mx \<and> en_schema e \<le> mx) \<and>
       (\<forall>d \<in> set (en_deps e). ts_deps t d = Some True) \<and>
       snd (check_secrets (Some (map_secrets_has (ts_secrets t))) (en_secrets e)) = Inr () \<and>
       (act_permission (en_actor e) = [] \<or> ts_permissions t (act_permission (en_actor e)) = Some True)" for e
    unfolding map_secrets.check_ok
    by (auto simp: env_issues_def filter_empty_conv split: option.split)
  then show ?thesis using p by simp
qed

lemma dry_run_applicable_iff_witness:
  "\<exists>p. dry_run ex_prop_lib [ex_env ''a'' 2 PolicyReject]
      \<lparr>ts_existing = [], ts_schemas = [''svc'' \<mapsto> 1], ts_deps = Map.empty, ts_secrets = Map.empty,
       ts_permissions = Map.empty\<rparr> False = Returned (Inr p) \<and> pv_applicable p"
proof -
  let ?t = "\<lparr>ts_existing = [], ts_schemas = [''svc'' \<mapsto> 1], ts_deps = Map.empty, ts_secrets = Map.empty,
       ts_permissions = Map.empty\<rparr> :: target_state"
  obtain p where p: "dry_run ex_prop_lib [ex_env ''a'' 2 PolicyReject] ?t False = Returned (Inr p)"
    by (simp add: dry_run_def diff_def ex_env_valid policy_error_def Let_def)
  from dry_run_applicable_iff [OF p] p show ?thesis
    by (auto simp: ex_env_def check_secrets_def)
qed

end
