(* ===== verification/Prop_Apply.thy ===== *)
theory Prop_Apply
  imports Prop_Model_Laws
begin

text \<open>
  \<open>propagation/transaction.go\<close>, \<open>runtime.go\<close>, \<open>manager.go\<close>, \<open>distributed.go\<close> and \<open>ui.go\<close>: applying
  a plan to several nodes, applying a bundle of objects to the local node with rollback, the
  history the manager records, and the fan-out over nodes.

  The product's executor, adapter and state store are records of functions on a world \<open>'w\<close>. An
  error is its message.
\<close>

section \<open>Transactions over nodes\<close>

record applied_revision =
  av_kind :: string
  av_id :: string
  av_before :: int
  av_after :: int
  av_reversible :: bool

record node_result =
  nr_node :: string
  nr_validated :: bool
  nr_applied :: bool
  nr_rolled_back :: bool
  nr_revisions :: "applied_revision list"
  nr_error :: string

record 'w executor =
  ex_validate :: "'w \<Rightarrow> string \<Rightarrow> plan \<Rightarrow> 'w \<times> string option"
  ex_apply :: "'w \<Rightarrow> string \<Rightarrow> plan \<Rightarrow> 'w \<times> (string + applied_revision list)"
  ex_rollback :: "'w \<Rightarrow> string \<Rightarrow> plan \<Rightarrow> applied_revision list \<Rightarrow> 'w \<times> string option"

record transaction_result =
  tx_plan :: string
  tx_started :: int
  tx_finished :: int
  tx_results :: "node_result list"
  tx_partial :: bool

definition new_result :: "string \<Rightarrow> node_result" where
  "new_result n = \<lparr>nr_node = n, nr_validated = False, nr_applied = False, nr_rolled_back = False,
     nr_revisions = [], nr_error = []\<rparr>"

fun validate_nodes :: "'w executor \<Rightarrow> plan \<Rightarrow> 'w \<Rightarrow> string list \<Rightarrow> 'w \<times> node_result list" where
  "validate_nodes X p w [] = (w, [])"
| "validate_nodes X p w (n # ns) =
     (case ex_validate X w n p of (w1, err) \<Rightarrow>
       (case validate_nodes X p w1 ns of (w2, rs) \<Rightarrow>
         (w2, (case err of
            Some e \<Rightarrow> (new_result n)\<lparr>nr_error := e\<rparr>
          | None \<Rightarrow> (new_result n)\<lparr>nr_validated := True\<rparr>) # rs)))"

text \<open>The rollback loop after a failed apply: every earlier result that was applied, whether or not it
  was rolled back before.\<close>

fun rollback_nodes :: "'w executor \<Rightarrow> plan \<Rightarrow> 'w \<Rightarrow> node_result list \<Rightarrow> 'w \<times> node_result list" where
  "rollback_nodes X p w [] = (w, [])"
| "rollback_nodes X p w (r # rs) =
     (case (if \<not> nr_applied r then (w, r)
            else (case ex_rollback X w (nr_node r) p (nr_revisions r) of
              (w1, None) \<Rightarrow> (w1, r\<lparr>nr_rolled_back := True\<rparr>)
            | (w1, Some e) \<Rightarrow> (w1, if nr_error r = [] then r\<lparr>nr_error := ''rollback: '' @ e\<rparr> else r))) of
       (w1, r1) \<Rightarrow> (case rollback_nodes X p w1 rs of (w2, rs2) \<Rightarrow> (w2, r1 # rs2)))"

fun apply_nodes_tx ::
  "'w executor \<Rightarrow> plan \<Rightarrow> bool \<Rightarrow> 'w \<Rightarrow> node_result list \<Rightarrow> node_result list \<Rightarrow> 'w \<times> node_result list" where
  "apply_nodes_tx X p rb w prev [] = (w, prev)"
| "apply_nodes_tx X p rb w prev (r # rs) =
     (if \<not> nr_validated r then apply_nodes_tx X p rb w (prev @ [r]) rs
      else (case ex_apply X w (nr_node r) p of
        (w1, Inr revs) \<Rightarrow>
          apply_nodes_tx X p rb w1 (prev @ [r\<lparr>nr_applied := True, nr_revisions := revs\<rparr>]) rs
      | (w1, Inl e) \<Rightarrow>
          (if rb then (case rollback_nodes X p w1 prev of (w2, prev2) \<Rightarrow>
               apply_nodes_tx X p rb w2 (prev2 @ [r\<lparr>nr_error := e\<rparr>]) rs)
           else apply_nodes_tx X p rb w1 (prev @ [r\<lparr>nr_error := e\<rparr>]) rs)))"

definition successes :: "node_result list \<Rightarrow> nat" where
  "successes rs = length (filter (\<lambda>r. nr_applied r \<and> \<not> nr_rolled_back r) rs)"

datatype execute_error = ExecutorRequired

definition execute ::
  "'w executor option \<Rightarrow> plan \<Rightarrow> string list \<Rightarrow> bool \<Rightarrow> int \<Rightarrow> int \<Rightarrow> 'w \<Rightarrow>
   'w \<times> (execute_error + transaction_result)" where
  "execute ex p nodes rb t1 t2 w =
     (case ex of
        None \<Rightarrow> (w, Inl ExecutorRequired)
      | Some X \<Rightarrow>
          (case validate_nodes X p w nodes of (w1, rs) \<Rightarrow>
            (case apply_nodes_tx X p rb w1 [] rs of (w2, rs2) \<Rightarrow>
              (w2, Inr \<lparr>tx_plan = pl_id p, tx_started = t1, tx_finished = t2, tx_results = rs2,
                 tx_partial = (0 < successes rs2 \<and> successes rs2 < length rs2)\<rparr>))))"

record ui_progress =
  up_node :: string
  up_state :: string
  up_detail :: string

definition present_result :: "transaction_result \<Rightarrow> ui_progress list" where
  "present_result t = map (\<lambda>n.
     \<lparr>up_node = nr_node n,
      up_state = (if nr_rolled_back n then ''rolled-back''
        else if nr_error n \<noteq> [] then ''failed''
        else if nr_applied n then ''applied''
        else if nr_validated n then ''validated'' else ''pending''),
      up_detail = nr_error n\<rparr>) (tx_results t)"

section \<open>Bundles on the local node\<close>

record object_state =
  os_existing :: existing
  os_payload :: string
  os_reversible :: bool

record 'w local_adapter =
  la_target_state :: "'w \<Rightarrow> envelope list \<Rightarrow> actor \<Rightarrow> string + target_state"
  la_snapshot :: "'w \<Rightarrow> string list \<Rightarrow> string + (string \<rightharpoonup> object_state)"
  la_apply :: "'w \<Rightarrow> envelope \<Rightarrow> 'w \<times> (string + applied_revision)"
  la_restore :: "'w \<Rightarrow> object_state \<Rightarrow> 'w \<times> string option"

record bundle_result =
  br_revisions :: "applied_revision list"
  br_rolled_back :: bool
  br_count :: int
  br_error :: string

datatype apply_error =
    AdapterRequired
  | AdapterError string
  | PlanError prop_error
  | BlockingIssues nat

definition empty_bundle :: bundle_result where
  "empty_bundle = \<lparr>br_revisions = [], br_rolled_back = False, br_count = 0, br_error = []\<rparr>"

definition preview_local ::
  "('a) prop_lib_scheme \<Rightarrow> 'w local_adapter option \<Rightarrow> 'w \<Rightarrow> envelope list \<Rightarrow> actor \<Rightarrow> bool \<Rightarrow>
   (apply_error + preview) outcome" where
  "preview_local L la w source act ad =
     (case la of
        None \<Rightarrow> Returned (Inl AdapterRequired)
      | Some A \<Rightarrow>
          (case la_target_state A w source act of
             Inl e \<Rightarrow> Returned (Inl (AdapterError e))
           | Inr t \<Rightarrow> (case dry_run L source t ad of
               Panic \<Rightarrow> Panic
             | Returned (Inl e) \<Rightarrow> Returned (Inl (PlanError e))
             | Returned (Inr p) \<Rightarrow> Returned (Inr p))))"

text \<open>The state an object is restored to: its snapshot, or the absent object of its key.\<close>

definition absent_existing :: "string \<Rightarrow> string \<Rightarrow> existing" where
  "absent_existing kind i = \<lparr>xs_kind = kind, xs_id = i, xs_digest = [], xs_owner = [], xs_revision = 0, xs_schema = 0\<rparr>"

definition restore_state :: "(string \<rightharpoonup> object_state) \<Rightarrow> string \<Rightarrow> object_state outcome" where
  "restore_state before k =
     (case before k of
        Some st \<Rightarrow> Returned st
      | None \<Rightarrow> (case split_two (CHR ''/'') k of
          [kind, i] \<Rightarrow> Returned \<lparr>os_existing = absent_existing kind i, os_payload = [], os_reversible = True\<rparr>
        | _ \<Rightarrow> Panic))"

fun rollback_keys ::
  "'w local_adapter \<Rightarrow> (string \<rightharpoonup> object_state) \<Rightarrow> 'w \<Rightarrow> string list \<Rightarrow> bundle_result \<Rightarrow>
   ('w \<times> bundle_result) outcome" where
  "rollback_keys A before w [] out = Returned (w, out)"
| "rollback_keys A before w (k # ks) out =
     (case restore_state before k of
        Panic \<Rightarrow> Panic
      | Returned st \<Rightarrow>
          (if \<not> os_reversible st then rollback_keys A before w ks out
           else (case la_restore A w st of
             (w1, Some e) \<Rightarrow> rollback_keys A before w1 ks
               (out\<lparr>br_error := br_error out @ ''; rollback '' @ k @ '': '' @ e\<rparr>)
           | (w1, None) \<Rightarrow> rollback_keys A before w1 ks
               (out\<lparr>br_rolled_back := True, br_count := br_count out + 1\<rparr>))))"

fun apply_bundle ::
  "'w local_adapter \<Rightarrow> (string \<rightharpoonup> object_state) \<Rightarrow> 'w \<Rightarrow> string list \<Rightarrow> bundle_result \<Rightarrow> envelope list \<Rightarrow>
   ('w \<times> bundle_result \<times> apply_error option) outcome" where
  "apply_bundle A before w applied out [] = Returned
     (w, out\<lparr>br_revisions := sort_key (\<lambda>r. ObjectKey (av_kind r) (av_id r)) (br_revisions out)\<rparr>, None)"
| "apply_bundle A before w applied out (e # es) =
     (case la_apply A w e of
        (w1, Inr r) \<Rightarrow>
          apply_bundle A before w1 (env_key e # applied) (out\<lparr>br_revisions := br_revisions out @ [r]\<rparr>) es
      | (w1, Inl err) \<Rightarrow>
          (case rollback_keys A before w1 applied (out\<lparr>br_error := err\<rparr>) of
             Panic \<Rightarrow> Panic
           | Returned (w2, out2) \<Rightarrow> Returned (w2, out2, Some (AdapterError err))))"

definition apply_local ::
  "('a) prop_lib_scheme \<Rightarrow> 'w local_adapter option \<Rightarrow> 'w \<Rightarrow> envelope list \<Rightarrow> actor \<Rightarrow>
   ('w \<times> bundle_result \<times> apply_error option) outcome" where
  "apply_local L la w source act =
     (case preview_local L la w source act False of
        Panic \<Rightarrow> Panic
      | Returned (Inl e) \<Rightarrow> Returned (w, empty_bundle, Some e)
      | Returned (Inr p) \<Rightarrow>
          (if \<not> pv_applicable p then Returned (w, empty_bundle, Some (BlockingIssues (length (pv_issues p))))
           else (case la of
             None \<Rightarrow> Returned (w, empty_bundle, Some AdapterRequired)
           | Some A \<Rightarrow>
               (case la_snapshot A w (map en_kind source) of
                  Inl e \<Rightarrow> Returned (w, empty_bundle, Some (AdapterError e))
                | Inr before \<Rightarrow> apply_bundle A before w [] empty_bundle source))))"

section \<open>The manager's history\<close>

record history_record =
  hr_id :: string
  hr_plan :: string
  hr_actor :: string
  hr_target :: string
  hr_status :: string
  hr_applied :: int
  hr_failed :: int
  hr_rolled_back :: int
  hr_detail :: string
  hr_created :: int

definition history_of ::
  "string \<Rightarrow> actor \<Rightarrow> string \<Rightarrow> int \<Rightarrow> bundle_result \<Rightarrow> apply_error option \<Rightarrow> history_record" where
  "history_of plan_id act target now r err =
     (let h = \<lparr>hr_id = plan_id @ ''-local'', hr_plan = plan_id, hr_actor = act_kind act @ CHR '':'' # act_id act,
               hr_target = target,
               hr_status = (if err = None then ''applied'' else ''failed''),
               hr_applied = int (length (br_revisions r)), hr_failed = (if err = None then 0 else 1),
               hr_rolled_back = (if br_rolled_back r then br_count r else 0),
               hr_detail = (if err = None then [] else br_error r), hr_created = now\<rparr>
      in if br_rolled_back r \<and> br_count r \<ge> hr_applied h then h\<lparr>hr_status := ''rolled-back''\<rparr> else h)"

definition manager_apply ::
  "('a) prop_lib_scheme \<Rightarrow> 'w local_adapter option \<Rightarrow> ('w \<Rightarrow> history_record \<Rightarrow> 'w) option \<Rightarrow> 'w \<Rightarrow>
   string \<Rightarrow> envelope list \<Rightarrow> actor \<Rightarrow> string \<Rightarrow> int \<Rightarrow> ('w \<times> bundle_result \<times> apply_error option) outcome" where
  "manager_apply L la store w plan_id source act target now =
     (case apply_local L la w source act of
        Panic \<Rightarrow> Panic
      | Returned (w1, r, err) \<Rightarrow> Returned
          (case store of None \<Rightarrow> w1 | Some rec \<Rightarrow> rec w1 (history_of plan_id act target now r err), r, err))"

definition history_limit :: "int \<Rightarrow> int" where
  "history_limit l = (if l \<le> 0 \<or> l > 200 then 50 else l)"

section \<open>Fan-out over nodes\<close>

record 'a node_outcome =
  no_node :: string
  no_value :: 'a
  no_error :: string

text \<open>
  One goroutine per node. Its turn is a pair of the node and whether it got a slot before the
  context ended; the list is the order in which the turns happen. A failing call still carries
  its value.
\<close>

fun run_turns ::
  "('w \<Rightarrow> string \<Rightarrow> 'w \<times> 'a \<times> string option) \<Rightarrow> 'a \<Rightarrow> string \<Rightarrow> 'w \<Rightarrow> (string \<times> bool) list \<Rightarrow>
   'w \<times> 'a node_outcome list" where
  "run_turns fn zero cancelled w [] = (w, [])"
| "run_turns fn zero cancelled w ((n, started) # ts) =
     (case (if started
            then (case fn w n of (w1, v, err) \<Rightarrow>
                   (w1, \<lparr>no_node = n, no_value = v, no_error = (case err of None \<Rightarrow> [] | Some e \<Rightarrow> e)\<rparr>))
            else (w, \<lparr>no_node = n, no_value = zero, no_error = cancelled\<rparr>)) of
       (w1, r) \<Rightarrow> (case run_turns fn zero cancelled w1 ts of (w2, rs) \<Rightarrow> (w2, r # rs)))"

definition fan_out ::
  "('w \<Rightarrow> string \<Rightarrow> 'w \<times> 'a \<times> string option) \<Rightarrow> 'a \<Rightarrow> string \<Rightarrow> 'w \<Rightarrow> (string \<times> bool) list \<Rightarrow>
   'w \<times> 'a node_outcome list" where
  "fan_out fn zero cancelled w turns =
     (case run_turns fn zero cancelled w turns of (w1, rs) \<Rightarrow> (w1, sort_key no_node rs))"

definition empty_preview :: preview where
  "empty_preview = \<lparr>pv_items = [], pv_issues = [], pv_applicable = False\<rparr>"

definition preview_nodes ::
  "('w \<Rightarrow> string \<Rightarrow> 'w \<times> preview \<times> string option) \<Rightarrow> string \<Rightarrow> 'w \<Rightarrow> (string \<times> bool) list \<Rightarrow>
   'w \<times> preview node_outcome list" where
  "preview_nodes fn cancelled w turns = fan_out fn empty_preview cancelled w turns"

definition apply_nodes ::
  "('w \<Rightarrow> string \<Rightarrow> 'w \<times> bundle_result \<times> string option) \<Rightarrow> string \<Rightarrow> 'w \<Rightarrow> (string \<times> bool) list \<Rightarrow>
   'w \<times> bundle_result node_outcome list" where
  "apply_nodes fn cancelled w turns = fan_out fn empty_bundle cancelled w turns"

end
