(* ===== verification/Prop_Apply_Laws.thy ===== *)
theory Prop_Apply_Laws
  imports Prop_Apply
begin

text \<open>
  What applying guarantees and what it does not: the exact outcome and the rollback calls of a
  transaction over nodes, the exact run of a bundle on the local node, and the
  independence of a fan-out from goroutine order.
\<close>

section \<open>Transactions\<close>

text \<open>An executor whose answers depend on the node alone, recording its calls.\<close>

datatype tx_call = ValidateCall string | ApplyCall string | RollbackCall string

definition logging_executor ::
  "(string \<Rightarrow> string option) \<Rightarrow> (string \<Rightarrow> string + applied_revision list) \<Rightarrow> (string \<Rightarrow> string option) \<Rightarrow>
   tx_call list executor" where
  "logging_executor V A R =
     \<lparr>ex_validate = (\<lambda>w n p. (w @ [ValidateCall n], V n)),
      ex_apply = (\<lambda>w n p. (w @ [ApplyCall n], A n)),
      ex_rollback = (\<lambda>w n p revs. (w @ [RollbackCall n], R n))\<rparr>"

definition apply_fails :: "(string \<Rightarrow> string option) \<Rightarrow> (string \<Rightarrow> string + applied_revision list) \<Rightarrow> string \<Rightarrow> bool" where
  "apply_fails V A n \<longleftrightarrow> V n = None \<and> (\<exists>e. A n = Inl e)"

definition apply_succeeds :: "(string \<Rightarrow> string option) \<Rightarrow> (string \<Rightarrow> string + applied_revision list) \<Rightarrow> string \<Rightarrow> bool" where
  "apply_succeeds V A n \<longleftrightarrow> V n = None \<and> (\<exists>revs. A n = Inr revs)"

definition validate_result :: "(string \<Rightarrow> string option) \<Rightarrow> string \<Rightarrow> node_result" where
  "validate_result V n = (case V n of
     Some e \<Rightarrow> (new_result n)\<lparr>nr_error := e\<rparr> | None \<Rightarrow> (new_result n)\<lparr>nr_validated := True\<rparr>)"

lemma validate_nodes_log:
  "validate_nodes (logging_executor V A R) p w ns = (w @ map ValidateCall ns, map (validate_result V) ns)"
  by (induction ns arbitrary: w) (auto simp: logging_executor_def validate_result_def split: option.split)

lemma validate_result_fields [simp]:
  "nr_node (validate_result V n) = n" "nr_validated (validate_result V n) \<longleftrightarrow> V n = None"
  "\<not> nr_applied (validate_result V n)" "\<not> nr_rolled_back (validate_result V n)"
  by (auto simp: validate_result_def new_result_def split: option.split)

definition rolled :: "(string \<Rightarrow> string option) \<Rightarrow> node_result \<Rightarrow> node_result" where
  "rolled R r = (if \<not> nr_applied r then r else (case R (nr_node r) of
     None \<Rightarrow> r\<lparr>nr_rolled_back := True\<rparr>
   | Some e \<Rightarrow> if nr_error r = [] then r\<lparr>nr_error := ''rollback: '' @ e\<rparr> else r))"

lemma rolled_fields [simp]:
  "nr_node (rolled R r) = nr_node r" "nr_applied (rolled R r) = nr_applied r"
  "nr_validated (rolled R r) = nr_validated r"
  "nr_rolled_back (rolled R r) \<longleftrightarrow> nr_rolled_back r \<or> nr_applied r \<and> R (nr_node r) = None"
  by (auto simp: rolled_def split: option.split)

lemma rollback_nodes_log:
  "rollback_nodes (logging_executor V A R) p w rs =
     (w @ map (\<lambda>r. RollbackCall (nr_node r)) (filter nr_applied rs), map (rolled R) rs)"
  by (induction rs arbitrary: w) (auto simp: logging_executor_def rolled_def split: option.split)

lemma rolled_pow_fields [simp]:
  "nr_node ((rolled R ^^ k) r) = nr_node r" "nr_applied ((rolled R ^^ k) r) = nr_applied r"
  "nr_validated ((rolled R ^^ k) r) = nr_validated r"
  "nr_rolled_back ((rolled R ^^ k) r) \<longleftrightarrow> nr_rolled_back r \<or> 0 < k \<and> nr_applied r \<and> R (nr_node r) = None"
  by (induction k) auto

text \<open>How many times the rest of the transaction rolls the earlier nodes back.\<close>

definition rollbacks :: "bool \<Rightarrow> (string \<Rightarrow> string option) \<Rightarrow> (string \<Rightarrow> string + applied_revision list) \<Rightarrow> string list \<Rightarrow> nat" where
  "rollbacks rb V A ns = (if rb then length (filter (apply_fails V A) ns) else 0)"

lemma rollbacks_simps [simp]:
  "rollbacks rb V A [] = 0"
  "rollbacks rb V A (n # ns) = (if rb \<and> apply_fails V A n then Suc (rollbacks rb V A ns) else rollbacks rb V A ns)"
  by (auto simp: rollbacks_def)

fun tx_spec ::
  "bool \<Rightarrow> (string \<Rightarrow> string option) \<Rightarrow> (string \<Rightarrow> string + applied_revision list) \<Rightarrow> (string \<Rightarrow> string option) \<Rightarrow>
   string list \<Rightarrow> node_result list" where
  "tx_spec rb V A R [] = []"
| "tx_spec rb V A R (n # ns) =
     (if V n \<noteq> None then validate_result V n
      else (case A n of
        Inl e \<Rightarrow> (validate_result V n)\<lparr>nr_error := e\<rparr>
      | Inr revs \<Rightarrow> (rolled R ^^ rollbacks rb V A ns)
          ((validate_result V n)\<lparr>nr_applied := True, nr_revisions := revs\<rparr>))) # tx_spec rb V A R ns"

lemma apply_tx_results:
  "snd (apply_nodes_tx (logging_executor V A R) p rb w prev (map (validate_result V) ns)) =
     map (rolled R ^^ rollbacks rb V A ns) prev @ tx_spec rb V A R ns"
proof (induction ns arbitrary: w prev)
  case (Cons n ns)
  show ?case
  proof (cases "V n")
    case (Some e)
    have "(rolled R ^^ k) (validate_result V n) = validate_result V n" for k
      by (induction k) (simp_all add: rolled_def)
    then show ?thesis using Some Cons.IH by (simp add: apply_fails_def)
  next
    case None
    show ?thesis
    proof (cases "A n")
      case (Inr revs)
      then show ?thesis using None Cons.IH
        by (simp add: apply_fails_def) (simp add: logging_executor_def)
    next
      case (Inl e)
      let ?r = "(validate_result V n)\<lparr>nr_error := e\<rparr>"
      have f: "(rolled R ^^ k) ?r = ?r" for k by (induction k) (simp_all add: rolled_def)
      have x: "ex_apply (logging_executor V A R) w n p = (w @ [ApplyCall n], Inl e)"
        using Inl by (simp add: logging_executor_def)
      have "(rolled R ^^ k) (rolled R r) = (rolled R ^^ Suc k) r" for k r
        by (simp add: funpow_swap1)
      then show ?thesis
        using None Inl Cons.IH x f
        by (cases rb) (simp_all add: apply_fails_def rollback_nodes_log comp_def)
    qed
  qed
qed simp

lemma tx_spec_nth:
  "i < length ns \<Longrightarrow>
   nr_node (tx_spec rb V A R ns ! i) = ns ! i \<and>
   (nr_validated (tx_spec rb V A R ns ! i) \<longleftrightarrow> V (ns ! i) = None) \<and>
   (nr_applied (tx_spec rb V A R ns ! i) \<longleftrightarrow> apply_succeeds V A (ns ! i)) \<and>
   (nr_rolled_back (tx_spec rb V A R ns ! i) \<longleftrightarrow>
      apply_succeeds V A (ns ! i) \<and> 0 < rollbacks rb V A (drop (Suc i) ns) \<and> R (ns ! i) = None)"
proof (induction ns arbitrary: i)
  case (Cons n ns)
  show ?case
  proof (cases i)
    case 0
    then show ?thesis by (auto simp: apply_succeeds_def split: sum.split)
  next
    case (Suc j)
    then show ?thesis using Cons by simp
  qed
qed simp

lemma length_tx_spec [simp]: "length (tx_spec rb V A R ns) = length ns"
  by (induction ns) auto

lemma apply_tx_log:
  "count_list (fst (apply_nodes_tx (logging_executor V A R) p rb w prev (map (validate_result V) ns))) (RollbackCall m) =
     count_list w (RollbackCall m) +
     rollbacks rb V A ns * length (filter (\<lambda>r. nr_applied r \<and> nr_node r = m) prev) +
     (\<Sum>i<length ns. if ns ! i = m \<and> apply_succeeds V A m then rollbacks rb V A (drop (Suc i) ns) else 0)"
proof (induction ns arbitrary: w prev)
  case (Cons n ns)
  have shift: "(\<Sum>i<length (n # ns). if (n # ns) ! i = m \<and> apply_succeeds V A m then rollbacks rb V A (drop (Suc i) (n # ns)) else 0) =
      (if n = m \<and> apply_succeeds V A m then rollbacks rb V A ns else 0) +
      (\<Sum>i<length ns. if ns ! i = m \<and> apply_succeeds V A m then rollbacks rb V A (drop (Suc i) ns) else 0)"
    unfolding length_Cons sum.lessThan_Suc_shift by (simp cong: if_cong)
  show ?case
  proof (cases "V n")
    case (Some e)
    then show ?thesis using Cons.IH [of w "prev @ [validate_result V n]"] unfolding shift
      by (auto simp: apply_fails_def apply_succeeds_def)
  next
    case None
    show ?thesis
    proof (cases "A n")
      case (Inr revs)
      let ?r = "(validate_result V n)\<lparr>nr_applied := True, nr_revisions := revs\<rparr>"
      have x: "ex_apply (logging_executor V A R) w n p = (w @ [ApplyCall n], Inr revs)"
        using Inr by (simp add: logging_executor_def)
      show ?thesis using None Inr x Cons.IH [of "w @ [ApplyCall n]" "prev @ [?r]"] unfolding shift
        by (auto simp: apply_fails_def apply_succeeds_def algebra_simps)
    next
      case (Inl e)
      let ?r = "(validate_result V n)\<lparr>nr_error := e\<rparr>"
      have x: "ex_apply (logging_executor V A R) w n p = (w @ [ApplyCall n], Inl e)"
        using Inl by (simp add: logging_executor_def)
      have c: "count_list (map (\<lambda>r. RollbackCall (nr_node r)) (filter nr_applied prev)) (RollbackCall m) =
          length (filter (\<lambda>r. nr_applied r \<and> nr_node r = m) prev)"
        by (induction prev) auto
      have l: "length (filter (\<lambda>r. nr_applied r \<and> nr_node r = m) (map (rolled R) prev)) =
          length (filter (\<lambda>r. nr_applied r \<and> nr_node r = m) prev)"
        by (induction prev) auto
      show ?thesis
        using None Inl x c l Cons.IH [of "w @ [ApplyCall n]" "prev @ [?r]"]
          Cons.IH [of "w @ ApplyCall n # map (\<lambda>r. RollbackCall (nr_node r)) (filter nr_applied prev)" "map (rolled R) prev @ [?r]"]
        unfolding shift
        by (auto simp: rollback_nodes_log apply_fails_def apply_succeeds_def)
    qed
  qed
qed simp

lemma rollbacks_pos:
  "0 < rollbacks rb V A (drop (Suc i) ns) \<longleftrightarrow>
   rb \<and> (\<exists>j. i < j \<and> j < length ns \<and> apply_fails V A (ns ! j))"
proof -
  have "(\<exists>n \<in> set (drop (Suc i) ns). apply_fails V A n) \<longleftrightarrow>
      (\<exists>j. i < j \<and> j < length ns \<and> apply_fails V A (ns ! j))"
  proof
    assume "\<exists>n \<in> set (drop (Suc i) ns). apply_fails V A n"
    then obtain k where "k < length (drop (Suc i) ns)" "apply_fails V A (drop (Suc i) ns ! k)"
      by (auto simp: in_set_conv_nth)
    then show "\<exists>j. i < j \<and> j < length ns \<and> apply_fails V A (ns ! j)"
      by (intro exI [of _ "Suc i + k"]) auto
  next
    assume "\<exists>j. i < j \<and> j < length ns \<and> apply_fails V A (ns ! j)"
    then obtain j where j: "i < j" "j < length ns" "apply_fails V A (ns ! j)" by blast
    then have "drop (Suc i) ns ! (j - Suc i) = ns ! j" "j - Suc i < length (drop (Suc i) ns)" by auto
    then have "ns ! j \<in> set (drop (Suc i) ns)" by (metis nth_mem)
    with j show "\<exists>n \<in> set (drop (Suc i) ns). apply_fails V A n" by blast
  qed
  then show ?thesis by (auto simp: rollbacks_def filter_empty_conv)
qed

section \<open>Properties of transactions\<close>

text \<open>C16. The outcome of a transaction: every node is validated and applied on its own, so a failure
  stops neither later validations nor later applies. With rollback requested, a node ends rolled
  back exactly when it was applied, some later node failed to apply and its rollback succeeded;
  nodes applied after the last failure stay applied, so a failed transaction is not all or
  nothing. A node is rolled back once for every failure after it, not once.\<close>

theorem transaction_outcome:
  assumes "execute (Some (logging_executor V A R)) p nodes rb t1 t2 [] = (log, Inr t)"
    and "i < length nodes" and "distinct nodes"
  shows "length (tx_results t) = length nodes \<and> nr_node (tx_results t ! i) = nodes ! i \<and>
    (nr_applied (tx_results t ! i) \<longleftrightarrow> apply_succeeds V A (nodes ! i)) \<and>
    (nr_rolled_back (tx_results t ! i) \<longleftrightarrow>
       nr_applied (tx_results t ! i) \<and> rb \<and> (\<exists>j. i < j \<and> j < length nodes \<and> apply_fails V A (nodes ! j)) \<and>
       R (nodes ! i) = None) \<and>
    count_list log (RollbackCall (nodes ! i)) =
      (if rb \<and> nr_applied (tx_results t ! i) then length (filter (apply_fails V A) (drop (Suc i) nodes)) else 0)"
proof -
  let ?X = "logging_executor V A R"
  have r: "tx_results t = tx_spec rb V A R nodes"
    and l: "log = fst (apply_nodes_tx ?X p rb (map ValidateCall nodes) [] (map (validate_result V) nodes))"
    using assms(1) apply_tx_results [of V A R p rb "map ValidateCall nodes" "[]" nodes]
    by (auto simp: execute_def validate_nodes_log split: prod.splits)
  have "count_list (map ValidateCall nodes) (RollbackCall m) = 0" for m by (induction nodes) auto
  then have c: "count_list log (RollbackCall (nodes ! i)) =
      (\<Sum>k<length nodes. if nodes ! k = nodes ! i \<and> apply_succeeds V A (nodes ! i) then rollbacks rb V A (drop (Suc k) nodes) else 0)"
    unfolding l apply_tx_log by simp
  also have "\<dots> = (\<Sum>k<length nodes. if k = i then (if apply_succeeds V A (nodes ! i) then rollbacks rb V A (drop (Suc i) nodes) else 0) else 0)"
    using assms(2,3) by (intro sum.cong) (auto simp: nth_eq_iff_index_eq)
  also have "\<dots> = (if apply_succeeds V A (nodes ! i) then rollbacks rb V A (drop (Suc i) nodes) else 0)"
    using assms(2) by simp
  finally have "count_list log (RollbackCall (nodes ! i)) =
      (if rb \<and> apply_succeeds V A (nodes ! i) then length (filter (apply_fails V A) (drop (Suc i) nodes)) else 0)"
    by (simp add: rollbacks_def)
  then show ?thesis
    using tx_spec_nth [OF assms(2), of rb V A R] rollbacks_pos [of rb V A i nodes] by (auto simp: r)
qed

lemma execute_some: "\<exists>log t. execute (Some X) p nodes rb t1 t2 w = (log, Inr t)"
  by (simp add: execute_def split: prod.split)

definition ex_plan1 :: plan where
  "ex_plan1 = new_plan ''p'' ''n1'' ''all'' [] 0"

text \<open>Node \<open>a\<close> is rolled back twice, and node \<open>d\<close> stays applied.\<close>

lemma transaction_outcome_witness:
  "\<exists>log t. execute (Some (logging_executor (\<lambda>_. None) (\<lambda>n. if n = ''b'' \<or> n = ''c'' then Inl ''x'' else Inr []) (\<lambda>_. None)))
     ex_plan1 [''a'', ''b'', ''c'', ''d''] True 0 1 [] = (log, Inr t) \<and>
     count_list log (RollbackCall ''a'') = 2 \<and> nr_applied (tx_results t ! 3) \<and> \<not> nr_rolled_back (tx_results t ! 3)"
proof -
  let ?A = "\<lambda>n. if n = ''b'' \<or> n = ''c'' then Inl ''x'' else Inr []"
  let ?X = "logging_executor (\<lambda>_. None) ?A (\<lambda>_. None)"
  have "\<exists>log t. execute (Some ?X) ex_plan1 [''a'', ''b'', ''c'', ''d''] True 0 1 [] = (log, Inr t)"
    by (rule execute_some)
  then show ?thesis
  proof (elim exE)
    fix log t
    assume e: "execute (Some ?X) ex_plan1 [''a'', ''b'', ''c'', ''d''] True 0 1 [] = (log, Inr t)"
    have 0: "count_list log (RollbackCall ''a'') = 2"
      using transaction_outcome [OF e, of 0] by (simp add: apply_succeeds_def apply_fails_def)
    have "nr_applied (tx_results t ! 3) \<and> \<not> nr_rolled_back (tx_results t ! 3)"
      using transaction_outcome [OF e, of 3] by (simp add: apply_succeeds_def)
    with e 0 show ?thesis by (intro exI [of _ log] exI [of _ t]) (elim conjE, intro conjI)
  qed
qed

section \<open>Bundles\<close>

text \<open>
  Runs of adapter calls, each on the world the one before it left: objects applied in order, all
  successfully, and states restored in order, each with the error it may return. Nothing is
  assumed of an adapter: a failed \<open>Apply\<close> may have changed the world and a \<open>Restore\<close> may fail.
\<close>

inductive applies :: "'w local_adapter \<Rightarrow> 'w \<Rightarrow> envelope list \<Rightarrow> applied_revision list \<Rightarrow> 'w \<Rightarrow> bool" for A where
  applies_none: "applies A w [] [] w"
| applies_one: "la_apply A w e = (w1, Inr r) \<Longrightarrow> applies A w1 es rs w2 \<Longrightarrow> applies A w (e # es) (r # rs) w2"

inductive restores :: "'w local_adapter \<Rightarrow> 'w \<Rightarrow> object_state list \<Rightarrow> string option list \<Rightarrow> 'w \<Rightarrow> bool" for A where
  restores_none: "restores A w [] [] w"
| restores_one: "la_restore A w st = (w1, answer) \<Longrightarrow> restores A w1 sts answers w2 \<Longrightarrow>
    restores A w (st # sts) (answer # answers) w2"

text \<open>What is restored after a failure: the objects applied so far, the last one first, those left out
  whose snapshot is not reversible; an object the snapshot does not have becomes absent.\<close>

definition restore_target :: "(string \<rightharpoonup> object_state) \<Rightarrow> envelope \<Rightarrow> object_state" where
  "restore_target before e = (case before (env_key e) of
     Some st \<Rightarrow> st
   | None \<Rightarrow> (case the (cut (CHR ''/'') (env_key e)) of (kind, i) \<Rightarrow>
       \<lparr>os_existing = absent_existing kind i, os_payload = [], os_reversible = True\<rparr>))"

text \<open>The key is cut at its first slash, so an absent object whose kind has a slash is restored under
  another kind and identity.\<close>

lemma restore_cuts_kind:
  "en_kind e = ''a/b'' \<Longrightarrow> en_id e = ''c'' \<Longrightarrow>
   os_existing (restore_target Map.empty e) = absent_existing ''a'' ''b/c''"
  by (simp add: restore_target_def env_key_def)

definition restore_targets :: "(string \<rightharpoonup> object_state) \<Rightarrow> envelope list \<Rightarrow> (string \<times> object_state) list" where
  "restore_targets before es =
     filter (\<lambda>t. os_reversible (snd t)) (map (\<lambda>e. (env_key e, restore_target before e)) es)"

definition rollback_note :: "string \<times> object_state \<Rightarrow> string option \<Rightarrow> string" where
  "rollback_note t answer = (case answer of
     None \<Rightarrow> [] | Some e \<Rightarrow> ''; rollback '' @ fst t @ '': '' @ e)"

lemma restore_state_target: "restore_state before (env_key e) = Returned (restore_target before e)"
proof -
  obtain a b where "cut (CHR ''/'') (env_key e) = Some (a, b)"
    using cut_None [of "CHR ''/''" "env_key e"] by (cases "cut (CHR ''/'') (env_key e)") (auto simp: env_key_def)
  then show ?thesis by (simp add: restore_state_def restore_target_def split_two_def split: option.split)
qed

lemma restore_targets_simps [simp]:
  "restore_targets before [] = []"
  "restore_targets before (e # es) =
     (if os_reversible (restore_target before e)
      then (env_key e, restore_target before e) # restore_targets before es else restore_targets before es)"
  by (simp_all add: restore_targets_def)

lemma rollback_keys_run:
  "\<exists>w2 answers. restores A w (map snd (restore_targets before es)) answers w2 \<and>
     rollback_keys A before w (map env_key es) out = Returned (w2,
       out\<lparr>br_rolled_back := br_rolled_back out \<or> None \<in> set answers,
           br_count := br_count out + int (count_list answers None),
           br_error := br_error out @ concat (map2 rollback_note (restore_targets before es) answers)\<rparr>)"
proof (induction es arbitrary: w out)
  case (Cons e es)
  let ?st = "restore_target before e"
  show ?case
  proof (cases "os_reversible ?st")
    case False
    then show ?thesis using Cons.IH [of w out] by (simp add: restore_state_target)
  next
    case True
    obtain w1 answer where a: "la_restore A w ?st = (w1, answer)" by fastforce
    let ?out = "case answer of
        Some m \<Rightarrow> out\<lparr>br_error := br_error out @ ''; rollback '' @ env_key e @ '': '' @ m\<rparr>
      | None \<Rightarrow> out\<lparr>br_rolled_back := True, br_count := br_count out + 1\<rparr>"
    obtain w2 answers where rest: "restores A w1 (map snd (restore_targets before es)) answers w2"
      "rollback_keys A before w1 (map env_key es) ?out = Returned (w2,
         ?out\<lparr>br_rolled_back := br_rolled_back ?out \<or> None \<in> set answers,
           br_count := br_count ?out + int (count_list answers None),
           br_error := br_error ?out @ concat (map2 rollback_note (restore_targets before es) answers)\<rparr>)"
      using Cons.IH [of w1 ?out] by blast
    have "restores A w (?st # map snd (restore_targets before es)) (answer # answers) w2"
      using a rest(1) by (rule restores_one)
    then show ?thesis using True a rest(2)
      by (intro exI [of _ w2] exI [of _ "answer # answers"])
        (cases answer, simp_all add: restore_state_target rollback_note_def)
  qed
qed (auto intro: restores_none)

lemma applies_append: "applies A w es rs w1 \<Longrightarrow> applies A w1 fs qs w2 \<Longrightarrow> applies A w (es @ fs) (rs @ qs) w2"
  by (induction rule: applies.induct) (auto intro: applies.intros)

text \<open>A bundle from the middle: \<open>done1\<close> is what was applied so far.\<close>

definition bundle_succeeds ::
  "'w local_adapter \<Rightarrow> 'w \<Rightarrow> envelope list \<Rightarrow> bundle_result \<Rightarrow> apply_error option \<Rightarrow> 'w \<Rightarrow> bool" where
  "bundle_succeeds A w source r err w2 \<longleftrightarrow>
     (\<exists>revs. err = None \<and> applies A w source revs w2 \<and> mset (br_revisions r) = mset revs \<and>
        sorted (map (\<lambda>v. ObjectKey (av_kind v) (av_id v)) (br_revisions r)) \<and>
        \<not> br_rolled_back r \<and> br_count r = 0 \<and> br_error r = [])"

definition bundle_fails ::
  "'w local_adapter \<Rightarrow> (string \<rightharpoonup> object_state) \<Rightarrow> 'w \<Rightarrow> envelope list \<Rightarrow> bundle_result \<Rightarrow>
   apply_error option \<Rightarrow> envelope list \<Rightarrow> string option list \<Rightarrow> 'w \<Rightarrow> bool" where
  "bundle_fails A before w source r err applied answers w2 \<longleftrightarrow>
     (\<exists>e rest w1 wf m. source = applied @ e # rest \<and> applies A w applied (br_revisions r) w1 \<and>
        la_apply A w1 e = (wf, Inl m) \<and> err = Some (AdapterError m) \<and>
        restores A wf (map snd (restore_targets before (rev applied))) answers w2 \<and>
        br_rolled_back r = (None \<in> set answers) \<and> br_count r = int (count_list answers None) \<and>
        br_error r = m @ concat (map2 rollback_note (restore_targets before (rev applied)) answers))"

lemma apply_bundle_run:
  assumes "applies A w0 done1 revs w"
  shows "\<exists>w2 r err. apply_bundle A before w (map env_key (rev done1)) (empty_bundle\<lparr>br_revisions := revs\<rparr>) es =
      Returned (w2, r, err) \<and>
    (bundle_succeeds A w0 (done1 @ es) r err w2 \<or>
     (\<exists>applied answers. bundle_fails A before w0 (done1 @ es) r err applied answers w2))"
  using assms
proof (induction es arbitrary: done1 revs w)
  case Nil
  then show ?case by (auto simp: bundle_succeeds_def empty_bundle_def)
next
  case (Cons e es)
  show ?case
  proof (cases "la_apply A w e")
    case (Pair w1 res)
    show ?thesis
    proof (cases res)
      case (Inr rv)
      have "applies A w0 (done1 @ [e]) (revs @ [rv]) w1"
        using Cons.prems Pair Inr by (intro applies_append) (auto intro: applies.intros)
      from Cons.IH [OF this] show ?thesis using Pair Inr by simp
    next
      case (Inl m)
      obtain w2 answers where r: "restores A w1 (map snd (restore_targets before (rev done1))) answers w2"
        "rollback_keys A before w1 (map env_key (rev done1)) (empty_bundle\<lparr>br_revisions := revs, br_error := m\<rparr>) =
          Returned (w2, empty_bundle\<lparr>br_revisions := revs, br_rolled_back := None \<in> set answers,
            br_count := int (count_list answers None),
            br_error := m @ concat (map2 rollback_note (restore_targets before (rev done1)) answers)\<rparr>)"
        using rollback_keys_run [of A w1 before "rev done1" "empty_bundle\<lparr>br_revisions := revs, br_error := m\<rparr>"]
        by (auto simp: empty_bundle_def)
      let ?r = "empty_bundle\<lparr>br_revisions := revs, br_rolled_back := None \<in> set answers,
            br_count := int (count_list answers None),
            br_error := m @ concat (map2 rollback_note (restore_targets before (rev done1)) answers)\<rparr>"
      have "bundle_fails A before w0 (done1 @ e # es) ?r (Some (AdapterError m)) done1 answers w2"
        unfolding bundle_fails_def using Cons.prems Pair Inl r(1)
        by (intro exI [of _ e] exI [of _ es] exI [of _ w] exI [of _ w1] exI [of _ m]) simp
      then show ?thesis using Pair Inl r(2) by auto
    qed
  qed
qed

lemma restores_length: "restores A w sts answers w2 \<Longrightarrow> length answers = length sts"
  by (induction rule: restores.induct) auto

lemma applies_length: "applies A w es rs w2 \<Longrightarrow> length rs = length es"
  by (induction rule: applies.induct) auto

lemma count_list_full: "length xs \<le> n \<Longrightarrow> n \<le> count_list xs a \<longleftrightarrow> xs = replicate n a"
proof (induction xs arbitrary: n)
  case (Cons x xs)
  then show ?case using count_le_length [of xs a] by (cases n) (auto simp: not_le)
qed auto

text \<open>The history says rolled-back exactly when something had been applied and every object of it was
  restored without an error.\<close>

lemma history_of_failure:
  assumes "bundle_fails A before w source r err applied answers w2"
  shows "hr_status (history_of pid act target now r err) =
    (if applied \<noteq> [] \<and> answers = replicate (length applied) None then ''rolled-back'' else ''failed'')"
proof -
  obtain e rest w1 wf m where f: "applies A w applied (br_revisions r) w1" "err = Some (AdapterError m)"
    "restores A wf (map snd (restore_targets before (rev applied))) answers w2"
    "br_rolled_back r = (None \<in> set answers)" "br_count r = int (count_list answers None)"
    using assms by (auto simp: bundle_fails_def)
  have "length answers \<le> length applied"
    using restores_length [OF f(3)] length_filter_le [of "\<lambda>t. os_reversible (snd t)" "map (\<lambda>e. (env_key e, restore_target before e)) (rev applied)"]
    by (simp add: restore_targets_def)
  from count_list_full [OF this, of None] applies_length [OF f(1)] show ?thesis
    using f(2,4,5) by (auto simp: history_of_def Let_def)
qed

text \<open>C17. What \<open>ApplyLocal\<close> does to the local node, for any adapter: it always returns. A preview that
  fails or reports issues, or a snapshot that fails, changes nothing. Otherwise the objects are
  applied in order, each once. If all succeed, their revisions are reported sorted and nothing is
  restored. If one fails, the objects before it are restored in reverse order from the snapshot
  (or to absent), those with an irreversible snapshot left out and nothing else touched; no later
  object is applied, the count is the number of restores that succeeded, the flag says whether
  there was one, and the error is the adapter's followed by those of the failed restores. The
  recorded history then says rolled-back exactly when something had been applied and every
  applied object was restored, failed otherwise, and applied only on success. Whether the world
  is then as it was is up to the adapter.\<close>

theorem bundle_outcome:
  "\<exists>w2 r err. apply_local L (Some A) w source act = Returned (w2, r, err) \<and>
    (\<forall>p before. preview_local L (Some A) w source act False = Returned (Inr p) \<and> pv_applicable p \<and>
        la_snapshot A w (map en_kind source) = Inr before \<longrightarrow>
      bundle_succeeds A w source r err w2 \<and>
        hr_status (history_of pid act target now r err) = ''applied'' \<or>
      (\<exists>applied answers. bundle_fails A before w source r err applied answers w2 \<and>
        hr_status (history_of pid act target now r err) =
          (if applied \<noteq> [] \<and> answers = replicate (length applied) None then ''rolled-back'' else ''failed''))) \<and>
    ((\<nexists>p before. preview_local L (Some A) w source act False = Returned (Inr p) \<and> pv_applicable p \<and>
        la_snapshot A w (map en_kind source) = Inr before) \<longrightarrow>
      w2 = w \<and> r = empty_bundle \<and> err \<noteq> None \<and>
      hr_status (history_of pid act target now r err) = ''failed'')"
proof (cases "\<exists>p before. preview_local L (Some A) w source act False = Returned (Inr p) \<and> pv_applicable p \<and>
    la_snapshot A w (map en_kind source) = Inr before")
  case True
  then obtain p before where p: "preview_local L (Some A) w source act False = Returned (Inr p)"
    "pv_applicable p" "la_snapshot A w (map en_kind source) = Inr before"
    by blast
  then have a: "apply_local L (Some A) w source act = apply_bundle A before w [] empty_bundle source"
    by (simp add: apply_local_def)
  have "empty_bundle\<lparr>br_revisions := []\<rparr> = empty_bundle" by (simp add: empty_bundle_def)
  then obtain w2 r err where run: "apply_local L (Some A) w source act = Returned (w2, r, err)"
    "bundle_succeeds A w source r err w2 \<or>
     (\<exists>applied answers. bundle_fails A before w source r err applied answers w2)"
    using apply_bundle_run [OF applies_none, where A = A and before = before and es = source] unfolding a by (simp only: list.map rev.simps append.simps) blast
  have succeeded: "hr_status (history_of pid act target now r err) = ''applied''" if "bundle_succeeds A w source r err w2"
    using that by (auto simp: bundle_succeeds_def history_of_def)
  have "bundle_succeeds A w source r err w2 \<and>
        hr_status (history_of pid act target now r err) = ''applied'' \<or>
      (\<exists>applied answers. bundle_fails A before w source r err applied answers w2 \<and>
        hr_status (history_of pid act target now r err) =
          (if applied \<noteq> [] \<and> answers = replicate (length applied) None then ''rolled-back'' else ''failed''))"
    using run(2)
  proof
    assume "bundle_succeeds A w source r err w2"
    then show ?thesis using succeeded by simp
  next
    assume "\<exists>applied answers. bundle_fails A before w source r err applied answers w2"
    then obtain applied answers where f: "bundle_fails A before w source r err applied answers w2" by blast
    show ?thesis by (intro disjI2 exI conjI, rule f, rule history_of_failure [OF f])
  qed
  with run(1) True p(3) show ?thesis by (intro exI [of _ w2] exI [of _ r] exI [of _ err]) (simp only: sum.inject, blast)
next
  case False
  have "preview_local L (Some A) w source act False \<noteq> Panic"
    by (auto simp: preview_local_def dry_run_def diff_def Let_def split: sum.splits)
  with False have "\<exists>er. apply_local L (Some A) w source act = Returned (w, empty_bundle, Some er)"
    by (auto simp: apply_local_def split: outcome.splits sum.splits)
  then obtain er where er: "apply_local L (Some A) w source act = Returned (w, empty_bundle, Some er)" ..
  have "hr_status (history_of pid act target now empty_bundle (Some er)) = ''failed''"
    by (simp add: history_of_def empty_bundle_def)
  with er False show ?thesis by (intro exI [of _ w] exI [of _ empty_bundle] exI [of _ "Some er"]) blast
qed

text \<open>An adapter over a keyspace, whose objects named \<open>b\<close> cannot be applied.\<close>

type_synonym ex_world = "string \<rightharpoonup> string"

definition ex_adapter :: "ex_world local_adapter" where
  "ex_adapter = \<lparr>la_target_state = (\<lambda>w es a. Inr \<lparr>ts_existing = [], ts_schemas = [''svc'' \<mapsto> 1],
       ts_deps = Map.empty, ts_secrets = Map.empty, ts_permissions = Map.empty\<rparr>),
     la_snapshot = (\<lambda>w kinds. Inr (\<lambda>k. case (w k, cut (CHR ''/'') k) of
         (Some p, Some (a, b)) \<Rightarrow> Some \<lparr>os_existing = absent_existing a b, os_payload = CHR ''+'' # p, os_reversible = True\<rparr>
       | _ \<Rightarrow> None)),
     la_apply = (\<lambda>w e. if en_id e = ''b'' then (w, Inl ''no'') else (w(env_key e \<mapsto> en_payload e),
         Inr \<lparr>av_kind = en_kind e, av_id = en_id e, av_before = 0, av_after = en_revision e, av_reversible = True\<rparr>)),
     la_restore = (\<lambda>w st. (w(xs_kind (os_existing st) @ CHR ''/'' # xs_id (os_existing st) :=
         (if os_payload st = [] then None else Some (tl (os_payload st)))), None))\<rparr>"

definition ex_actor :: actor where
  "ex_actor = \<lparr>act_kind = ''human'', act_id = ''u1'', act_permission = ''propagation.apply''\<rparr>"

lemma bundle_outcome_witness:
  "\<exists>before w2 r applied answers. apply_local ex_prop_lib (Some ex_adapter) [''svc/a'' \<mapsto> ''old'']
       [ex_env ''a'' 2 PolicySourceWins, ex_env ''b'' 2 PolicySourceWins] ex_actor =
     Returned (w2, r, Some (AdapterError ''no'')) \<and> w2 ''svc/a'' = Some ''old'' \<and> br_count r = 1 \<and>
     bundle_fails ex_adapter before [''svc/a'' \<mapsto> ''old'']
       [ex_env ''a'' 2 PolicySourceWins, ex_env ''b'' 2 PolicySourceWins] r (Some (AdapterError ''no'')) applied answers w2"
proof -
  let ?w = "[''svc/a'' \<mapsto> ''old''] :: ex_world"
  let ?src = "[ex_env ''a'' 2 PolicySourceWins, ex_env ''b'' 2 PolicySourceWins]"
  have "\<exists>w2 r. apply_local ex_prop_lib (Some ex_adapter) ?w ?src ex_actor = Returned (w2, r, Some (AdapterError ''no'')) \<and>
      w2 ''svc/a'' = Some ''old'' \<and> br_count r = 1"
    by (simp add: apply_local_def preview_local_def ex_adapter_def dry_run_def diff_def ex_env_valid policy_error_def)
      (simp add: ex_env_def env_issues_def env_key_def empty_bundle_def restore_state_def absent_existing_def)
  then obtain w2 r where a: "apply_local ex_prop_lib (Some ex_adapter) ?w ?src ex_actor = Returned (w2, r, Some (AdapterError ''no''))"
    "w2 ''svc/a'' = Some ''old''" "br_count r = 1"
    by blast
  let ?ready = "\<lambda>p before. preview_local ex_prop_lib (Some ex_adapter) ?w ?src ex_actor False = Returned (Inr p) \<and>
      pv_applicable p \<and> la_snapshot ex_adapter ?w (map en_kind ?src) = Inr before"
  obtain w3 r3 err where o1: "apply_local ex_prop_lib (Some ex_adapter) ?w ?src ex_actor = Returned (w3, r3, err)"
    and o2: "\<And>p before. ?ready p before \<Longrightarrow> bundle_succeeds ex_adapter ?w ?src r3 err w3 \<or>
      (\<exists>applied answers. bundle_fails ex_adapter before ?w ?src r3 err applied answers w3)"
    and o3: "\<nexists>p before. ?ready p before \<Longrightarrow> r3 = empty_bundle"
    using bundle_outcome [where L = ex_prop_lib and A = ex_adapter and w = ?w and source = ?src and act = ex_actor
        and pid = "[]" and target = "[]" and now = 0] by blast
  from a(1) o1 have e: "w3 = w2" "r3 = r" "err = Some (AdapterError ''no'')" by (simp_all only: outcome.inject prod.inject)
  have "r \<noteq> empty_bundle" using a(3) by (auto simp: empty_bundle_def)
  then obtain p before where "?ready p before" using o3 e(2) by blast
  from o2 [OF this] have "\<exists>applied answers. bundle_fails ex_adapter before ?w ?src r (Some (AdapterError ''no'')) applied answers w2"
    unfolding e by (simp only: bundle_succeeds_def option.distinct) blast
  with a show ?thesis by blast
qed

section \<open>Fan-out\<close>

lemma run_turns_pure:
  assumes "\<And>w n. fn w n = (w, g n)"
  shows "run_turns fn zero cancelled w turns = (w, map (\<lambda>(n, started). if started
      then \<lparr>no_node = n, no_value = fst (g n), no_error = (case snd (g n) of None \<Rightarrow> [] | Some e \<Rightarrow> e)\<rparr>
      else \<lparr>no_node = n, no_value = zero, no_error = cancelled\<rparr>) turns)"
  by (induction turns) (auto simp: assms split: prod.split)

text \<open>For calls that do not change the world, the sorted results do not depend on the order in which the
  goroutines take their turns.\<close>

lemma fan_out_order:
  assumes "\<And>w n. fn w n = (w, g n)" and "mset turns = mset turns2" and "distinct (map fst turns)"
  shows "fan_out fn zero cancelled w turns = fan_out fn zero cancelled w turns2"
proof -
  let ?h = "\<lambda>(n, started). if started
      then \<lparr>no_node = n, no_value = fst (g n), no_error = (case snd (g n) of None \<Rightarrow> [] | Some e \<Rightarrow> e)\<rparr>
      else \<lparr>no_node = n, no_value = zero, no_error = cancelled\<rparr>"
  have m: "mset (map ?h turns) = mset (map ?h turns2)" using assms(2) by simp
  have "map no_node (map ?h turns) = map fst turns" by auto
  then have "distinct (map no_node (map ?h turns))" using assms(3) by (simp only:)
  then have "inj_on no_node (set (map ?h turns))" "distinct (map ?h turns)"
    by (simp_all only: distinct_map)
  from sort_key_unique [OF m this] show ?thesis
    by (simp add: fan_out_def run_turns_pure [of fn g, OF assms(1)])
qed

end
