(* ===== verification/Prop_Profile.thy ===== *)
theory Prop_Profile
  imports Prop_Apply
begin

text \<open>
  \<open>propagation/schedule.go\<close>, \<open>reconcile.go\<close>, \<open>runner.go\<close> and \<open>profile_execute.go\<close>: saved
  propagation profiles, when they are due, what drift they find, what they are allowed to do about
  it, and their execution over the cluster.

  A moment is nanoseconds since the epoch with the offset of its location in minutes; the clock
  time it shows follows from both. \<open>time.ParseDuration\<close> is the argument \<open>pd\<close>; \<open>time.Parse("15:04")\<close>
  is modelled.
\<close>

section \<open>Moments\<close>

record moment =
  mo_ns :: int
  mo_offset :: int

definition in_utc :: "moment \<Rightarrow> moment" where
  "in_utc t = t\<lparr>mo_offset := 0\<rparr>"

text \<open>\<open>t.Hour()*60 + t.Minute()\<close>.\<close>

definition clock_minutes :: "moment \<Rightarrow> int" where
  "clock_minutes t = (mo_ns t div 60000000000 + mo_offset t) mod 1440"

section \<open>Profiles\<close>

datatype reconcile_mode = ReconcileNotify | ReconcileApproval | ReconcileAutomatic | ReconcileOther string

record profile =
  pf_id :: string
  pf_name :: string
  pf_selector :: selector
  pf_kinds :: "string list"
  pf_mode :: reconcile_mode
  pf_schedule :: string
  pf_window :: string
  pf_enabled :: bool
  pf_last_run :: "int option"

datatype profile_error =
    ProfileIDName
  | UnsupportedMode string
  | KindRequired
  | InvalidSchedule string
  | InvalidWindow string
  | CallbacksRequired
  | SelectError prop_error
  | CallbackError string
  | AutomaticBlocked
  | ApplyCallbackRequired
  | PartialFailure int
  | StoreRequired
  | RunnerRequired
  | StoreError string

section \<open>Maintenance windows\<close>

text \<open>
  \<open>time.Parse("15:04", s)\<close>: one or two digits of hour below 24, a colon, two digits of minute
  below 60, and nothing else.
\<close>

definition digit :: "char \<Rightarrow> int option" where
  "digit c = (let n = of_char c :: nat in if 48 \<le> n \<and> n \<le> 57 then Some (int n - 48) else None)"

fun parse_minute :: "string \<Rightarrow> int option" where
  "parse_minute [a, b] = (case (digit a, digit b) of
     (Some x, Some y) \<Rightarrow> if x * 10 + y < 60 then Some (x * 10 + y) else None
   | _ \<Rightarrow> None)"
| "parse_minute _ = None"

definition parse_hour :: "string \<Rightarrow> (int \<times> string) option" where
  "parse_hour s = (case s of
     [] \<Rightarrow> None
   | a # r \<Rightarrow> (case digit a of
       None \<Rightarrow> None
     | Some x \<Rightarrow> (case r of
         [] \<Rightarrow> Some (x, r)
       | b # r' \<Rightarrow> (case digit b of
           None \<Rightarrow> Some (x, r)
         | Some y \<Rightarrow> if x * 10 + y < 24 then Some (x * 10 + y, r') else None))))"

definition parse_clock :: "string \<Rightarrow> int option" where
  "parse_clock s = (case parse_hour s of
     Some (h, c # r) \<Rightarrow> if c = CHR '':'' then map_option (\<lambda>m. h * 60 + m) (parse_minute r) else None
   | _ \<Rightarrow> None)"

definition in_maintenance_window :: "string \<Rightarrow> moment \<Rightarrow> profile_error + bool" where
  "in_maintenance_window window at =
     (let w = trim_space window
      in if w = [] then Inr True
         else (case split_all (CHR ''-'') w of
           [p, q] \<Rightarrow>
             (case parse_clock (trim_space p) of
                None \<Rightarrow> Inl (InvalidWindow w)
              | Some a \<Rightarrow> (case parse_clock (trim_space q) of
                  None \<Rightarrow> Inl (InvalidWindow w)
                | Some b \<Rightarrow>
                    (let cur = clock_minutes at
                     in if a = b then Inr True
                        else if a < b then Inr (cur \<ge> a \<and> cur < b)
                        else Inr (cur \<ge> a \<or> cur < b))))
         | _ \<Rightarrow> Inl (InvalidWindow w)))"

definition due :: "(string \<Rightarrow> int option) \<Rightarrow> profile \<Rightarrow> moment \<Rightarrow> profile_error + bool" where
  "due pd p now =
     (if \<not> pf_enabled p \<or> blank (pf_schedule p) then Inr False
      else (case pd (pf_schedule p) of
        None \<Rightarrow> Inl (InvalidSchedule (pf_schedule p))
      | Some d \<Rightarrow>
          if d \<le> 0 then Inl (InvalidSchedule (pf_schedule p))
          else (case pf_last_run p of
            None \<Rightarrow> in_maintenance_window (pf_window p) now
          | Some t0 \<Rightarrow>
              if mo_ns now < t0 + d then Inr False
              else in_maintenance_window (pf_window p) now)))"

definition profile_validate :: "(string \<Rightarrow> int option) \<Rightarrow> profile \<Rightarrow> moment \<Rightarrow> profile_error + unit" where
  "profile_validate pd p now =
     (if pf_id p = [] \<or> pf_name p = [] then Inl ProfileIDName
      else (case pf_mode p of
        ReconcileOther m \<Rightarrow> Inl (UnsupportedMode m)
      | _ \<Rightarrow>
          if pf_kinds p = [] then Inl KindRequired
          else if pf_schedule p \<noteq> [] \<and> (case pd (pf_schedule p) of None \<Rightarrow> True | Some d \<Rightarrow> d \<le> 0)
            then Inl (InvalidSchedule (pf_schedule p))
          else (case in_maintenance_window (pf_window p) now of Inl e \<Rightarrow> Inl e | Inr _ \<Rightarrow> Inr ())))"

section \<open>Drift and decisions\<close>

record drift =
  dr_kind :: string
  dr_id :: string
  dr_expected :: string
  dr_actual :: string
  dr_node :: string

definition drift_of :: "string \<Rightarrow> (string \<rightharpoonup> existing) \<Rightarrow> envelope \<Rightarrow> drift list" where
  "drift_of node actual e =
     (case actual (env_key e) of
        None \<Rightarrow> [\<lparr>dr_kind = en_kind e, dr_id = en_id e, dr_expected = en_digest e, dr_actual = [], dr_node = node\<rparr>]
      | Some a \<Rightarrow>
          if xs_digest a \<noteq> en_digest e
          then [\<lparr>dr_kind = en_kind e, dr_id = en_id e, dr_expected = en_digest e, dr_actual = xs_digest a, dr_node = node\<rparr>]
          else [])"

definition detect_drift :: "string \<Rightarrow> envelope list \<Rightarrow> (string \<rightharpoonup> existing) \<Rightarrow> drift list" where
  "detect_drift node expected actual =
     sort_key (\<lambda>d. ObjectKey (dr_kind d) (dr_id d)) (concat (map (drift_of node actual) expected))"

datatype action = ActNone | ActNotify | ActPlan | ActApply

record decision =
  dc_profile :: string
  dc_drift :: "drift list"
  dc_action :: action
  dc_approval :: bool
  dc_at :: moment

definition decide_reconcile :: "profile \<Rightarrow> drift list \<Rightarrow> moment \<Rightarrow> decision" where
  "decide_reconcile p ds at =
     (let d = \<lparr>dc_profile = pf_id p, dc_drift = ds, dc_action = ActNone, dc_approval = False, dc_at = in_utc at\<rparr>
      in if ds = [] \<or> \<not> pf_enabled p then d
         else (case pf_mode p of
           ReconcileNotify \<Rightarrow> d\<lparr>dc_action := ActNotify\<rparr>
         | ReconcileApproval \<Rightarrow> d\<lparr>dc_action := ActPlan, dc_approval := True\<rparr>
         | ReconcileAutomatic \<Rightarrow> d\<lparr>dc_action := ActApply\<rparr>
         | ReconcileOther _ \<Rightarrow> d))"

section \<open>Execution\<close>

record run_result =
  rr_profile :: string
  rr_action :: action
  rr_drift :: int
  rr_applied :: int
  rr_failed :: int
  rr_error :: string

text \<open>
  The product's callbacks on a world \<open>'w\<close>. \<open>xp_turns\<close> gives the order of the goroutines of a
  fan-out over the selected nodes.
\<close>

record 'w profile_executor =
  xp_members :: "member list"
  xp_export :: "('w \<Rightarrow> string list \<Rightarrow> actor \<Rightarrow> 'w \<times> (string + envelope list)) option"
  xp_preview :: "('w \<Rightarrow> string \<Rightarrow> envelope list \<Rightarrow> actor \<Rightarrow> 'w \<times> preview \<times> string option) option"
  xp_apply :: "('w \<Rightarrow> string \<Rightarrow> envelope list \<Rightarrow> actor \<Rightarrow> 'w \<times> bundle_result \<times> string option) option"
  xp_turns :: "string list \<Rightarrow> (string \<times> bool) list"

definition preview_failed :: "preview node_outcome \<Rightarrow> bool" where
  "preview_failed n \<longleftrightarrow> no_error n \<noteq> [] \<or> \<not> pv_applicable (no_value n)"

definition preview_drift :: "preview node_outcome \<Rightarrow> int" where
  "preview_drift n = (if no_error n \<noteq> [] then 0
     else int (length (filter (\<lambda>i. pi_change i \<noteq> Noop) (pv_items (no_value n)))))"

definition apply_result_of ::
  "run_result \<Rightarrow> bundle_result node_outcome list \<Rightarrow> run_result \<times> profile_error option" where
  "apply_result_of out rs =
     (let failed = int (length (filter (\<lambda>n. no_error n \<noteq> []) rs));
          applied = sum_list (map (\<lambda>n. int (length (br_revisions (no_value n)))) (filter (\<lambda>n. no_error n = []) rs));
          o1 = out\<lparr>rr_failed := failed, rr_applied := rr_applied out + applied\<rparr>
      in (o1, if failed > 0 then Some (PartialFailure failed) else None))"

definition execute_profile ::
  "('a) prop_lib_scheme \<Rightarrow> (string \<Rightarrow> int option) \<Rightarrow> 'w profile_executor \<Rightarrow> profile \<Rightarrow> actor \<Rightarrow> moment \<Rightarrow> 'w \<Rightarrow>
   'w \<times> run_result \<times> profile_error option" where
  "execute_profile L pd X p act now w =
     (let out = \<lparr>rr_profile = pf_id p, rr_action = ActNone, rr_drift = 0, rr_applied = 0, rr_failed = 0, rr_error = []\<rparr>
      in case profile_validate pd p now of
        Inl e \<Rightarrow> (w, out, Some e)
      | Inr _ \<Rightarrow>
      (case (xp_export X, xp_preview X) of
        (Some export, Some pv) \<Rightarrow>
        (case select L (pf_selector p) (xp_members X) of
          Inl e \<Rightarrow> (w, out, Some (SelectError e))
        | Inr nodes \<Rightarrow>
          if nodes = [] then (w, out, None)
          else (case export w (pf_kinds p) act of
            (w1, Inl e) \<Rightarrow> (w1, out, Some (CallbackError e))
          | (w1, Inr env) \<Rightarrow>
            (case preview_nodes (\<lambda>w n. pv w n env act) ''context canceled'' w1 (xp_turns X nodes) of
              (w2, previews) \<Rightarrow>
              (let failed = int (length (filter preview_failed previews));
                   blocked = (filter preview_failed previews \<noteq> []);
                   dr = sum_list (map preview_drift previews);
                   out1 = out\<lparr>rr_failed := failed, rr_drift := dr\<rparr>
               in if dr = 0 \<and> failed = 0 then (w2, out1, None)
                  else if pf_mode p = ReconcileAutomatic \<and> blocked
                    then (w2, out1\<lparr>rr_action := ActApply\<rparr>, Some AutomaticBlocked)
                  else (let dec = decide_reconcile p (replicate (nat dr)
                               \<lparr>dr_kind = [], dr_id = [], dr_expected = [], dr_actual = [], dr_node = []\<rparr>) now;
                            out2 = out1\<lparr>rr_action := dc_action dec\<rparr>
                        in if dc_action dec \<noteq> ActApply then (w2, out2, None)
                           else if blocked then (w2, out2, Some AutomaticBlocked)
                           else (case xp_apply X of
                             None \<Rightarrow> (w2, out2, Some ApplyCallbackRequired)
                           | Some ap \<Rightarrow>
                               (case apply_nodes (\<lambda>w n. ap w n env act) ''context canceled'' w2 (xp_turns X nodes) of
                                 (w3, applied) \<Rightarrow> (w3, apply_result_of out2 applied))))))))
      | _ \<Rightarrow> (w, out, Some CallbacksRequired)))"

section \<open>The runner\<close>

record 'w state_store =
  st_list :: "'w \<Rightarrow> string + profile list"
  st_save :: "'w \<Rightarrow> profile \<Rightarrow> 'w \<times> string option"

definition save_profile ::
  "(string \<Rightarrow> int option) \<Rightarrow> 'w state_store option \<Rightarrow> 'w \<Rightarrow> profile \<Rightarrow> moment \<Rightarrow> 'w \<times> profile_error option" where
  "save_profile pd store w p now =
     (case store of
        None \<Rightarrow> (w, Some StoreRequired)
      | Some S \<Rightarrow> (case profile_validate pd p now of
          Inl e \<Rightarrow> (w, Some e)
        | Inr _ \<Rightarrow> (case st_save S w p of (w1, e) \<Rightarrow> (w1, map_option StoreError e))))"

text \<open>\<open>msg\<close> renders an error; \<open>run\<close> is the product's runner. The manager's clock is in UTC.\<close>

fun run_profiles ::
  "(string \<Rightarrow> int option) \<Rightarrow> (profile_error \<Rightarrow> string) \<Rightarrow> 'w state_store option \<Rightarrow>
   ('w \<Rightarrow> profile \<Rightarrow> 'w \<times> run_result \<times> profile_error option) \<Rightarrow> moment \<Rightarrow> 'w \<Rightarrow> profile list \<Rightarrow>
   'w \<times> run_result list" where
  "run_profiles pd msg store run now w [] = (w, [])"
| "run_profiles pd msg store run now w (p # ps) =
     (case due pd p now of
        Inl e \<Rightarrow> (case run_profiles pd msg store run now w ps of (w1, rs) \<Rightarrow>
          (w1, \<lparr>rr_profile = pf_id p, rr_action = ActNone, rr_drift = 0, rr_applied = 0, rr_failed = 0, rr_error = msg e\<rparr> # rs))
      | Inr False \<Rightarrow> run_profiles pd msg store run now w ps
      | Inr True \<Rightarrow>
          (case run w p of (w1, r, err) \<Rightarrow>
            (case (case err of
                Some e \<Rightarrow> (w1, r\<lparr>rr_profile := pf_id p, rr_error := msg e\<rparr>)
              | None \<Rightarrow>
                  if rr_error r \<noteq> [] then (w1, r)
                  else (case save_profile pd store w1 (p\<lparr>pf_last_run := Some (mo_ns now)\<rparr>) now of
                    (w2, None) \<Rightarrow> (w2, r)
                  | (w2, Some e) \<Rightarrow> (w2, r\<lparr>rr_error := msg e\<rparr>))) of
              (w3, r') \<Rightarrow> (case run_profiles pd msg store run now w3 ps of (w4, rs) \<Rightarrow> (w4, r' # rs)))))"

definition run_due_profiles ::
  "(string \<Rightarrow> int option) \<Rightarrow> (profile_error \<Rightarrow> string) \<Rightarrow> 'w state_store option \<Rightarrow>
   ('w \<Rightarrow> profile \<Rightarrow> 'w \<times> run_result \<times> profile_error option) option \<Rightarrow> moment \<Rightarrow> 'w \<Rightarrow>
   'w \<times> (profile_error + run_result list)" where
  "run_due_profiles pd msg store run clock w =
     (case run of
        None \<Rightarrow> (w, Inl RunnerRequired)
      | Some f \<Rightarrow>
          (case store of
             None \<Rightarrow> (w, Inl StoreRequired)
           | Some S \<Rightarrow>
               (case st_list S w of
                  Inl e \<Rightarrow> (w, Inl (StoreError e))
                | Inr ps \<Rightarrow> map_prod id Inr (run_profiles pd msg store f (in_utc clock) w ps))))"

end
