(* ===== verification/Prop_Profile_Laws.thy ===== *)
theory Prop_Profile_Laws
  imports Prop_Profile Prop_Apply_Laws
begin

text \<open>
  Maintenance windows as intervals of the day, when profiles run and run again, and what each
  reconciliation mode may touch.
\<close>

section \<open>Windows\<close>

lemma digit_range: "digit c = Some x \<Longrightarrow> 0 \<le> x \<and> x \<le> 9"
  by (auto simp: digit_def Let_def split: if_splits)

lemma parse_minute_range: "parse_minute s = Some m \<Longrightarrow> 0 \<le> m \<and> m < 60"
  by (induction s rule: parse_minute.induct)
    (auto split: option.splits if_splits dest!: digit_range)

lemma parse_hour_range: "parse_hour s = Some (h, r) \<Longrightarrow> 0 \<le> h \<and> h < 24"
  by (auto simp: parse_hour_def split: list.splits option.splits if_splits dest!: digit_range)

lemma parse_clock_range: "parse_clock s = Some t \<Longrightarrow> 0 \<le> t \<and> t < 1440"
  by (force simp: parse_clock_def split: option.splits prod.splits list.splits if_splits
      dest!: parse_minute_range parse_hour_range)

lemma clock_minutes_range: "0 \<le> clock_minutes t \<and> clock_minutes t < 1440"
  by (simp add: clock_minutes_def)

lemma cyclic_interval:
  fixes a b c :: int
  assumes "0 \<le> a" "a < 1440" "0 \<le> b" "b < 1440" "0 \<le> c" "c < 1440" "a \<noteq> b"
  shows "(if a < b then a \<le> c \<and> c < b else a \<le> c \<or> c < b) \<longleftrightarrow> (c - a) mod 1440 < (b - a) mod 1440"
proof -
  have m: "(x - a) mod 1440 = (if a \<le> x then x - a else x - a + 1440)" if "0 \<le> x" "x < 1440" for x
  proof (cases "a \<le> x")
    case True
    then show ?thesis using that assms(1) by simp
  next
    case False
    then have "(x - a) mod 1440 = (x - a + 1440) mod 1440" by simp
    also have "\<dots> = x - a + 1440" using False that assms(2) by (intro mod_pos_pos_trivial) auto
    finally show ?thesis using False by simp
  qed
  show ?thesis using m [of b] m [of c] assms by auto
qed

text \<open>A maintenance window is a half-open interval of the clock, also across midnight: at a moment
  whose clock shows \<open>c\<close>, the window from \<open>a\<close> to \<open>b\<close> is open exactly when going round the clock from
  \<open>a\<close> reaches \<open>c\<close> before \<open>b\<close>, or when both ends are equal. A scheduled profile is due exactly
  when it is enabled, its interval has passed since its last run and its window is open.\<close>

theorem due_in_window:
  assumes "pf_enabled p" "\<not> blank (pf_schedule p)" "pd (pf_schedule p) = Some d" "0 < d"
    and "split_all (CHR ''-'') (trim_space (pf_window p)) = [u, v]" "trim_space (pf_window p) \<noteq> []"
    and "parse_clock (trim_space u) = Some a" "parse_clock (trim_space v) = Some b"
  shows "due pd p now = Inr ((\<forall>t. pf_last_run p = Some t \<longrightarrow> t + d \<le> mo_ns now) \<and>
    (a = b \<or> (clock_minutes now - a) mod 1440 < (b - a) mod 1440))"
proof -
  define Q where "Q \<longleftrightarrow> (clock_minutes now - a) mod 1440 < (b - a) mod 1440"
  have "a \<noteq> b \<Longrightarrow> (if a < b then a \<le> clock_minutes now \<and> clock_minutes now < b
      else a \<le> clock_minutes now \<or> clock_minutes now < b) \<longleftrightarrow> Q"
    unfolding Q_def
    by (rule cyclic_interval)
      (use parse_clock_range [OF assms(7)] parse_clock_range [OF assms(8)] clock_minutes_range [of now] in auto)
  then have "in_maintenance_window (pf_window p) now = Inr (a = b \<or> Q)"
    using assms(5-8) by (auto simp: in_maintenance_window_def Let_def)
  then show ?thesis using assms(1-4) unfolding Q_def [symmetric] by (auto simp: due_def split: option.split)
qed

definition ex_profile :: "reconcile_mode \<Rightarrow> profile" where
  "ex_profile m = \<lparr>pf_id = ''p'', pf_name = ''nightly'',
     pf_selector = \<lparr>sl_nodes = [], sl_labels = [], sl_caps = [], sl_exclude = [], sl_all = True\<rparr>,
     pf_kinds = [''svc''], pf_mode = m, pf_schedule = ''1h'', pf_window = ''23:00-02:30'', pf_enabled = True,
     pf_last_run = Some 0\<rparr>"

definition ex_pd :: "string \<Rightarrow> int option" where
  "ex_pd s = (if s = ''1h'' then Some 3600000000000 else None)"

lemma ex_window [simp]:
  "trim_space ''23:00-02:30'' = ''23:00-02:30''" "split_all (CHR ''-'') ''23:00-02:30'' = [''23:00'', ''02:30'']"
  "parse_clock (trim_space ''23:00'') = Some 1380" "parse_clock (trim_space ''02:30'') = Some 150"
  "\<not> blank ''1h''"
  by code_simp+

lemma due_in_window_witness:
  "due ex_pd (ex_profile ReconcileNotify) \<lparr>mo_ns = 25 * 3600000000000, mo_offset = 0\<rparr> = Inr True \<and>
   due ex_pd (ex_profile ReconcileNotify) \<lparr>mo_ns = 12 * 3600000000000, mo_offset = 0\<rparr> = Inr False"
proof -
  have "due ex_pd (ex_profile ReconcileNotify) now = Inr ((\<forall>t. pf_last_run (ex_profile ReconcileNotify) = Some t \<longrightarrow>
      t + 3600000000000 \<le> mo_ns now) \<and> (1380 = (150::int) \<or> (clock_minutes now - 1380) mod 1440 < (150 - 1380) mod 1440))" for now
    by (rule due_in_window [where u = "''23:00''" and v = "''02:30''"])
      (simp_all add: ex_profile_def ex_pd_def)
  then show ?thesis by (simp add: ex_profile_def clock_minutes_def)
qed

text \<open>The manager's runner evaluates windows on the UTC clock whatever the location of its clock, where
  the comment on windows promises local clock semantics.\<close>

lemma runner_ignores_location:
  "run_due_profiles pd msg store run (clock\<lparr>mo_offset := z\<rparr>) w = run_due_profiles pd msg store run clock w"
proof -
  have "in_utc (clock\<lparr>mo_offset := z\<rparr>) = in_utc clock" by (simp add: in_utc_def)
  then show ?thesis unfolding run_due_profiles_def by (simp only:)
qed

text \<open>A run that was recorded is not due again before its interval has passed.\<close>

lemma recorded_run_waits:
  "pd (pf_schedule p) = Some d \<Longrightarrow> due pd (p\<lparr>pf_last_run := Some (mo_ns now)\<rparr>) now2 = Inr True \<Longrightarrow>
   mo_ns now + d \<le> mo_ns now2"
  by (auto simp: due_def split: if_splits)

section \<open>Modes\<close>

text \<open>The previews an execution makes, when it gets that far.\<close>

definition profile_previews ::
  "('a) prop_lib_scheme \<Rightarrow> (string \<Rightarrow> int option) \<Rightarrow> 'w profile_executor \<Rightarrow> profile \<Rightarrow> actor \<Rightarrow> moment \<Rightarrow> 'w \<Rightarrow>
   preview node_outcome list option" where
  "profile_previews L pd X p act now w =
     (case (profile_validate pd p now, xp_export X, xp_preview X, select L (pf_selector p) (xp_members X)) of
        (Inr _, Some export, Some pv, Inr nodes) \<Rightarrow>
          if nodes = [] then None
          else (case export w (pf_kinds p) act of
            (w1, Inl _) \<Rightarrow> None
          | (w1, Inr env) \<Rightarrow>
              Some (snd (preview_nodes (\<lambda>w n. pv w n env act) ''context canceled'' w1 (xp_turns X nodes))))
      | _ \<Rightarrow> None)"

definition may_apply :: "profile \<Rightarrow> preview node_outcome list option \<Rightarrow> bool" where
  "may_apply p pvs \<longleftrightarrow> pf_mode p = ReconcileAutomatic \<and> pf_enabled p \<and>
     (\<exists>l. pvs = Some l \<and> (\<forall>n \<in> set l. \<not> preview_failed n) \<and> (\<exists>n \<in> set l. preview_drift n \<noteq> 0))"

lemma decide_apply:
  "dc_action (decide_reconcile p ds at) = ActApply \<longleftrightarrow> ds \<noteq> [] \<and> pf_enabled p \<and> pf_mode p = ReconcileAutomatic"
  by (auto simp: decide_reconcile_def Let_def split: reconcile_mode.splits)

lemma sum_list_zero: "(\<And>x. x \<in> set xs \<Longrightarrow> f x = 0) \<Longrightarrow> sum_list (map f xs) = (0::int)"
  by (induction xs) auto

text \<open>Executing a profile uses its apply callback only in automatic mode, for an enabled profile,
  when every selected target gave an applicable preview and some preview found a change. In every
  other case (notify-only and approval-required modes, a disabled profile, any failed, cancelled
  or inapplicable preview, no drift, any earlier error) the outcome is the same whatever the
  callback would do, nothing is reported as applied, and the world is only touched by export and
  preview.\<close>

theorem profile_modes_gate_apply:
  assumes "\<not> may_apply p (profile_previews L pd X p act now w)"
  shows "execute_profile L pd (X\<lparr>xp_apply := ap\<rparr>) p act now w = execute_profile L pd X p act now w \<and>
    rr_applied (fst (snd (execute_profile L pd X p act now w))) = 0"
proof -
  let ?X = "X\<lparr>xp_apply := ap\<rparr>"
  show ?thesis
  proof (cases "profile_previews L pd X p act now w")
    case None
    then show ?thesis
      by (auto simp: profile_previews_def execute_profile_def Let_def
          split: sum.splits option.splits prod.splits if_splits)
  next
    case (Some l)
    then obtain u export pv nodes w1 env where v: "profile_validate pd p now = Inr u"
      "xp_export X = Some export" "xp_preview X = Some pv" "select L (pf_selector p) (xp_members X) = Inr nodes"
      "nodes \<noteq> []" "export w (pf_kinds p) act = (w1, Inr env)"
      "l = snd (preview_nodes (\<lambda>w n. pv w n env act) ''context canceled'' w1 (xp_turns X nodes))"
      by (auto simp: profile_previews_def split: sum.splits option.splits prod.splits if_splits)
    obtain w2 where pn: "preview_nodes (\<lambda>w n. pv w n env act) ''context canceled'' w1 (xp_turns X nodes) = (w2, l)"
      using v(7) by (metis prod.collapse)
    define dr where "dr = sum_list (map preview_drift l)"
    have nonneg: "0 \<le> preview_drift n" for n by (simp add: preview_drift_def)
    have drift0: "dr = 0" if "\<forall>n \<in> set l. preview_drift n = 0" using that by (simp add: dr_def sum_list_zero)
    have f: "int (length (filter preview_failed l)) = 0 \<longleftrightarrow> filter preview_failed l = []" by simp
    consider (quiet) "dr = 0" "filter preview_failed l = []"
      | (blocked) "filter preview_failed l \<noteq> []" | (mode) "\<not> (pf_mode p = ReconcileAutomatic \<and> pf_enabled p)"
      using assms drift0 unfolding may_apply_def Some by (auto simp: filter_empty_conv)
    then show ?thesis
    proof cases
      case quiet
      then show ?thesis by (simp add: execute_profile_def v(1-6) pn dr_def [symmetric])
    next
      case blocked
      then show ?thesis
        by (cases "pf_mode p = ReconcileAutomatic")
          (simp_all add: execute_profile_def v(1-6) pn dr_def [symmetric] decide_apply Let_def)
    next
      case mode
      then have "dc_action (decide_reconcile p ds now) \<noteq> ActApply" for ds by (auto simp: decide_apply)
      then show ?thesis
        by (simp add: execute_profile_def v(1-6) pn dr_def [symmetric] Let_def)
    qed
  qed
qed

definition ex_executor :: "nat profile_executor" where
  "ex_executor = \<lparr>xp_members = [\<lparr>mb_id = ''n1'', mb_labels = [], mb_caps = [], mb_enabled = True\<rparr>],
     xp_export = Some (\<lambda>w k a. (w, Inr [])),
     xp_preview = Some (\<lambda>w n es a. (w, \<lparr>pv_items = [\<lparr>pi_kind = ''svc'', pi_id = ''a'', pi_change = Update, pi_reason = [],
         pi_from = 1, pi_to = 2\<rparr>], pv_issues = [], pv_applicable = True\<rparr>, None)),
     xp_apply = Some (\<lambda>w n es a. (Suc w, empty_bundle, None)), xp_turns = map (\<lambda>n. (n, True))\<rparr>"

lemma profile_modes_gate_apply_witness:
  "\<forall>act now. execute_profile ex_prop_lib ex_pd (ex_executor\<lparr>xp_apply := None\<rparr>)
     (ex_profile ReconcileApproval) act now (0::nat) =
   execute_profile ex_prop_lib ex_pd ex_executor (ex_profile ReconcileApproval) act now 0"
  by (intro allI, rule profile_modes_gate_apply [THEN conjunct1]) (simp add: may_apply_def ex_profile_def)

end
