(* ===== verification/Auth_Accounts.thy ===== *)
theory Auth_Accounts
  imports Go_Base
begin

text \<open>
  The account documents of \<open>auth/accounts.go\<close>: identities, accounts, roles, the validation every
  change of them passes, and the capabilities an account draws from its roles.

  The case mapping of the \<open>strings\<close> package (\<open>ToLower\<close>, \<open>EqualFold\<close>) follows the Unicode tables
  and is an argument, as is the product's predicate of known capabilities. The maps the validation
  fills are sets of strings.
\<close>

section \<open>Documents\<close>

record identity =
  id_id :: string
  id_type :: string
  id_username :: string
  id_email :: string
  id_subject :: string
  id_password :: string
  id_totp :: bool
  id_recovery :: "string list"
  id_enabled :: bool

record account =
  ac_id :: string
  ac_name :: string
  ac_enabled :: bool
  ac_roles :: "string list"
  ac_identities :: "identity list"
  ac_created :: int

record accounts_file =
  af_version :: int
  af_accounts :: "account list"

record role =
  ro_id :: string
  ro_name :: string
  ro_caps :: "string list"
  ro_builtin :: bool

record roles_file =
  rf_version :: int
  rf_roles :: "role list"

record account_policy =
  ap_version :: int
  ap_product :: string
  ap_known :: "(string \<Rightarrow> bool) option"
  ap_lower :: "string \<Rightarrow> string"

datatype accounts_error =
    SchemaUnsupported
  | DuplicateRole string
  | AdministratorNarrowed
  | UnknownCapability string string
  | AdministratorRequired
  | DuplicateAccount string
  | NoDisplayName string
  | UnknownRole string string
  | DuplicateIdentity string
  | PasswordIncomplete string
  | DuplicateUsername string
  | DuplicateEmail string
  | EmailMissing string
  | SubjectMissing string
  | DuplicateSubject string
  | IdentityTypeUnsupported string string
  | NoPasswordAdministrator string

definition administrator :: string where
  "administrator = ''administrator''"

section \<open>Validation\<close>

definition known_capability :: "account_policy \<Rightarrow> string \<Rightarrow> bool" where
  "known_capability P c \<longleftrightarrow> c = ''*'' \<or> (case ap_known P of None \<Rightarrow> True | Some k \<Rightarrow> k c)"

fun check_roles :: "account_policy \<Rightarrow> string set \<Rightarrow> role list \<Rightarrow> accounts_error + string set" where
  "check_roles P seen [] = Inr seen"
| "check_roles P seen (r # rs) =
     (if ro_id r = [] \<or> ro_id r \<in> seen then Inl (DuplicateRole (ro_id r))
      else if ro_id r = administrator \<and> ro_caps r \<noteq> [''*''] then Inl AdministratorNarrowed
      else (case find (\<lambda>c. \<not> known_capability P c) (ro_caps r) of
        Some c \<Rightarrow> Inl (UnknownCapability (ro_id r) c)
      | None \<Rightarrow> check_roles P (insert (ro_id r) seen) rs))"

text \<open>The maps that live across accounts: identities, usernames, emails and provider subjects.\<close>

record seen_maps =
  sn_identities :: "string set"
  sn_usernames :: "string set"
  sn_emails :: "string set"
  sn_subjects :: "string set"

definition folded :: "account_policy \<Rightarrow> string \<Rightarrow> string" where
  "folded P s = ap_lower P (trim_space s)"

definition subject_key :: "identity \<Rightarrow> string" where
  "subject_key i = id_type i @ CHR 0x00 # id_subject i"

definition check_password :: "account_policy \<Rightarrow> identity \<Rightarrow> seen_maps \<Rightarrow> accounts_error + seen_maps" where
  "check_password P i s =
     (let username = folded P (id_username i); email = folded P (id_email i)
      in if username = [] \<or> id_password i = [] then Inl (PasswordIncomplete (id_id i))
         else if username \<in> sn_usernames s then Inl (DuplicateUsername (id_username i))
         else if email \<noteq> [] \<and> email \<in> sn_emails s then Inl (DuplicateEmail (id_email i))
         else Inr (s\<lparr>sn_usernames := insert username (sn_usernames s),
                     sn_emails := (if email = [] then sn_emails s else insert email (sn_emails s))\<rparr>))"

definition check_identity :: "account_policy \<Rightarrow> identity \<Rightarrow> seen_maps \<Rightarrow> accounts_error + seen_maps" where
  "check_identity P i s0 =
     (if id_id i = [] \<or> id_id i \<in> sn_identities s0 then Inl (DuplicateIdentity (id_id i))
      else (let s = s0\<lparr>sn_identities := insert (id_id i) (sn_identities s0)\<rparr>
        in if id_type i = ''password'' then check_password P i s
           else if id_type i = ''email'' then
             (if blank (id_email i) then Inl (EmailMissing (id_id i)) else Inr s)
           else if id_type i = ''google'' then
             (if id_subject i = [] then Inl (SubjectMissing (id_id i))
              else if subject_key i \<in> sn_subjects s then Inl (DuplicateSubject (id_type i))
              else Inr (s\<lparr>sn_subjects := insert (subject_key i) (sn_subjects s)\<rparr>))
           else Inl (IdentityTypeUnsupported (id_id i) (id_type i))))"

fun check_identities :: "account_policy \<Rightarrow> identity list \<Rightarrow> seen_maps \<Rightarrow> accounts_error + seen_maps" where
  "check_identities P [] s = Inr s"
| "check_identities P (i # is) s =
     (case check_identity P i s of Inl e \<Rightarrow> Inl e | Inr s' \<Rightarrow> check_identities P is s')"

definition password_enabled :: "account \<Rightarrow> bool" where
  "password_enabled a \<longleftrightarrow>
     (\<exists>i \<in> set (ac_identities a). id_type i = ''password'' \<and> ac_enabled a \<and> id_enabled i)"

definition password_admin :: "account \<Rightarrow> bool" where
  "password_admin a \<longleftrightarrow> ac_enabled a \<and> administrator \<in> set (ac_roles a) \<and> password_enabled a"

fun check_accounts ::
  "account_policy \<Rightarrow> string set \<Rightarrow> string set \<Rightarrow> seen_maps \<Rightarrow> nat \<Rightarrow> account list \<Rightarrow> accounts_error + nat" where
  "check_accounts P roles seen s admins [] = Inr admins"
| "check_accounts P roles seen s admins (a # as) =
     (if ac_id a = [] \<or> ac_id a \<in> seen then Inl (DuplicateAccount (ac_id a))
      else if blank (ac_name a) then Inl (NoDisplayName (ac_id a))
      else (case find (\<lambda>r. r \<notin> roles) (ac_roles a) of
        Some r \<Rightarrow> Inl (UnknownRole (ac_id a) r)
      | None \<Rightarrow>
      (case check_identities P (ac_identities a) s of
        Inl e \<Rightarrow> Inl e
      | Inr s' \<Rightarrow>
          check_accounts P roles (insert (ac_id a) seen) s'
            (if password_admin a then Suc admins else admins) as)))"

definition product_name :: "account_policy \<Rightarrow> string" where
  "product_name P = (if blank (ap_product P) then ''application'' else trim_space (ap_product P))"

definition no_maps :: seen_maps where
  "no_maps = \<lparr>sn_identities = {}, sn_usernames = {}, sn_emails = {}, sn_subjects = {}\<rparr>"

definition validate_accounts :: "accounts_file \<Rightarrow> roles_file \<Rightarrow> account_policy \<Rightarrow> accounts_error + unit" where
  "validate_accounts users roles P =
     (if af_version users \<noteq> ap_version P \<or> rf_version roles \<noteq> ap_version P then Inl SchemaUnsupported
      else (case check_roles P {} (rf_roles roles) of
        Inl e \<Rightarrow> Inl e
      | Inr ids \<Rightarrow>
          if administrator \<notin> ids then Inl AdministratorRequired
          else (case check_accounts P ids {} no_maps 0 (af_accounts users) of
            Inl e \<Rightarrow> Inl e
          | Inr admins \<Rightarrow>
              if af_accounts users \<noteq> [] \<and> admins = 0 then Inl (NoPasswordAdministrator (product_name P))
              else Inr ())))"

section \<open>Capabilities\<close>

definition granted :: "account \<Rightarrow> role list \<Rightarrow> string list" where
  "granted a roles =
     concat (map (\<lambda>rid. concat (map ro_caps (filter (\<lambda>r. ro_id r = rid) roles))) (ac_roles a))"

definition effective_capabilities :: "account \<Rightarrow> role list \<Rightarrow> string list" where
  "effective_capabilities a roles =
     (if \<not> ac_enabled a then []
      else if ''*'' \<in> set (granted a roles) then [''*'']
      else sort (remdups (granted a roles)))"

definition has_capability :: "string list \<Rightarrow> string \<Rightarrow> bool" where
  "has_capability caps key \<longleftrightarrow> (\<exists>c \<in> set caps. c = ''*'' \<or> c = key)"

definition dedupe_strings :: "string list \<Rightarrow> string list" where
  "dedupe_strings values = sort (remdups (filter (\<lambda>v. v \<noteq> []) (map trim_space values)))"

end
