(* ===== verification/Auth_Password.thy ===== *)
theory Auth_Password
  imports Go_Bytes
begin

text \<open>
  Passwords and tokens of \<open>auth/accounts.go\<close>: PBKDF2 with its block and iteration loops, the stored
  form of a password hash with its parser, and random tokens.

  The argument \<open>mac\<close> is HMAC-SHA-256; its 256-bit result is a word, so the 32 bytes of a digest are
  a matter of its type. Random bytes are arguments: the salt is \<open>None\<close> where \<open>rand.Read\<close> reports
  an error.
\<close>

type_synonym mac = "string \<Rightarrow> string \<Rightarrow> 256 word"

definition hmac_sha256 :: "mac \<Rightarrow> string \<Rightarrow> string \<Rightarrow> string" where
  "hmac_sha256 mac key message = be_bytes 32 (unat (mac key message))"

lemma length_hmac [simp]: "length (hmac_sha256 mac k m) = 32"
  by (simp add: hmac_sha256_def)

section \<open>PBKDF2\<close>

definition xor_byte :: "char \<Rightarrow> char \<Rightarrow> char" where
  "xor_byte c d = char_of (Bit_Operations.xor (of_char c) (of_char d :: nat))"

text \<open>\<open>value[index] ^= u[index]\<close> for every index of \<open>value\<close>; both are digests.\<close>

definition xor_bytes :: "string \<Rightarrow> string \<Rightarrow> string" where
  "xor_bytes acc u = map2 xor_byte acc u"

fun pbkdf2_rounds :: "mac \<Rightarrow> string \<Rightarrow> nat \<Rightarrow> string \<Rightarrow> string \<Rightarrow> string" where
  "pbkdf2_rounds mac password 0 u acc = acc"
| "pbkdf2_rounds mac password (Suc n) u acc =
     (let u' = hmac_sha256 mac password u in pbkdf2_rounds mac password n u' (xor_bytes acc u'))"

definition block_counter :: "nat \<Rightarrow> string" where
  "block_counter block = [char_of (drop_bit 24 block), char_of (drop_bit 16 block), char_of (drop_bit 8 block), char_of block]"

definition pbkdf2_block :: "mac \<Rightarrow> string \<Rightarrow> string \<Rightarrow> nat \<Rightarrow> nat \<Rightarrow> string" where
  "pbkdf2_block mac password salt iterations block =
     (let u = hmac_sha256 mac password (salt @ block_counter block)
      in pbkdf2_rounds mac password (iterations - 1) u u)"

lemma length_rounds [simp]: "length acc = 32 \<Longrightarrow> length (pbkdf2_rounds mac p n u acc) = 32"
  by (induction n arbitrary: u acc) (simp_all add: Let_def xor_bytes_def)

lemma length_block [simp]: "length (pbkdf2_block mac p salt n b) = 32"
  by (simp add: pbkdf2_block_def Let_def)

function pbkdf2_blocks :: "mac \<Rightarrow> string \<Rightarrow> string \<Rightarrow> nat \<Rightarrow> nat \<Rightarrow> nat \<Rightarrow> string \<Rightarrow> string" where
  "pbkdf2_blocks mac password salt iterations len block out =
     (if length out < len
      then pbkdf2_blocks mac password salt iterations len (block + 1)
             (out @ pbkdf2_block mac password salt iterations block)
      else out)"
  by pat_completeness auto
termination
  by (relation "measure (\<lambda>(mac, p, salt, n, len, block, out). len - length out)") auto

declare pbkdf2_blocks.simps [simp del]

definition pbkdf2_sha256 :: "mac \<Rightarrow> string \<Rightarrow> string \<Rightarrow> nat \<Rightarrow> nat \<Rightarrow> string" where
  "pbkdf2_sha256 mac password salt iterations len =
     take len (pbkdf2_blocks mac password salt iterations len 1 [])"

section \<open>Stored passwords\<close>

definition password_iterations :: nat where
  "password_iterations = 310000"

definition hash_password :: "mac \<Rightarrow> string option \<Rightarrow> string \<Rightarrow> string option" where
  "hash_password mac salt password =
     (case salt of None \<Rightarrow> None
      | Some s \<Rightarrow> Some (''pbkdf2-sha256$310000$'' @ hex_encode s @ CHR ''$'' #
          base64_encode base64_std (pbkdf2_sha256 mac password s password_iterations 32)))"

definition verify_password :: "mac \<Rightarrow> string \<Rightarrow> string \<Rightarrow> bool" where
  "verify_password mac encoded password =
     (case split_all (CHR ''$'') encoded of
        [scheme, rounds, salt_text, key_text] \<Rightarrow>
          if scheme \<noteq> ''pbkdf2-sha256'' \<or> atoi rounds \<noteq> Some (int password_iterations) then False
          else (case (hex_decode salt_text, base64_decode base64_std key_text) of
            (Some salt, Some want) \<Rightarrow>
              length salt = 16 \<and> length want = 32 \<and>
              pbkdf2_sha256 mac password salt password_iterations 32 = want
          | _ \<Rightarrow> False)
      | _ \<Rightarrow> False)"

text \<open>\<open>Token\<close> of the given random bytes, and \<open>NewID\<close> of twelve of them.\<close>

definition token :: "string \<Rightarrow> string" where
  "token bytes = base64_encode base64_url bytes"

definition new_id :: "string \<Rightarrow> string \<Rightarrow> string" where
  "new_id p bytes = p @ CHR ''_'' # token bytes"

section \<open>The derived key\<close>

text \<open>
  RFC 8018, section 5.2: block \<open>i\<close> is the exclusive or of the iterates
  \<open>U\<^sub>1 = PRF(P, S || INT(i))\<close>, \<open>U\<^sub>j = PRF(P, U\<^sub>j\<^sub>-\<^sub>1)\<close>, and the key is the first octets
  of the concatenated blocks.
\<close>

definition rfc_iterate :: "mac \<Rightarrow> string \<Rightarrow> string \<Rightarrow> nat \<Rightarrow> nat \<Rightarrow> string" where
  "rfc_iterate mac p salt i j = (hmac_sha256 mac p ^^ j) (salt @ be_bytes 4 i)"

definition rfc_block :: "mac \<Rightarrow> string \<Rightarrow> string \<Rightarrow> nat \<Rightarrow> nat \<Rightarrow> string" where
  "rfc_block mac p salt c i =
     foldl xor_bytes (rfc_iterate mac p salt i 1) (map (rfc_iterate mac p salt i) [2..<Suc c])"

lemma block_counter_be: "block_counter n = be_bytes 4 n"
proof -
  have "(4 :: nat) = Suc (Suc (Suc (Suc 0)))" by simp
  then show ?thesis
    by (simp only: be_bytes.simps append.simps) (simp add: block_counter_def drop_bit_eq_div div_mult2_eq [symmetric])
qed

lemma rounds_iterates:
  assumes "u = rfc_iterate mac p salt i k"
  shows "pbkdf2_rounds mac p n u acc = foldl xor_bytes acc (map (rfc_iterate mac p salt i) [Suc k..<Suc k + n])"
  using assms
proof (induction n arbitrary: u acc k)
  case (Suc n)
  have "hmac_sha256 mac p u = rfc_iterate mac p salt i (Suc k)"
    using Suc.prems by (simp add: rfc_iterate_def)
  then show ?case using Suc.IH [of "hmac_sha256 mac p u" "Suc k" "xor_bytes acc (hmac_sha256 mac p u)"]
    by (simp add: Let_def upt_conv_Cons del: upt_Suc)
qed simp

lemma block_rfc: "0 < c \<Longrightarrow> pbkdf2_block mac p salt c i = rfc_block mac p salt c i"
proof -
  assume c: "0 < c"
  have u: "hmac_sha256 mac p (salt @ block_counter i) = rfc_iterate mac p salt i 1"
    by (simp add: rfc_iterate_def block_counter_be)
  have "Suc 1 + (c - 1) = Suc c" using c by simp
  then show ?thesis
    using rounds_iterates [OF u, of "c - 1"] by (simp add: pbkdf2_block_def rfc_block_def Let_def u numeral_2_eq_2)
qed

lemma blocks_concat:
  "length out = 32 * (b - 1) \<Longrightarrow> 1 \<le> b \<Longrightarrow>
   pbkdf2_blocks mac p salt c len b out =
     out @ concat (map (pbkdf2_block mac p salt c) [b..<Suc ((len + 31) div 32)])"
proof (induction mac p salt c len b out rule: pbkdf2_blocks.induct)
  case (1 mac p salt c len b out)
  show ?case
  proof (cases "length out < len")
    case True
    then have "b \<le> (len + 31) div 32" using "1.prems" by simp
    then have "[b..<Suc ((len + 31) div 32)] = b # [Suc b..<Suc ((len + 31) div 32)]"
      by (simp add: upt_conv_Cons)
    then show ?thesis using True 1 by (simp add: pbkdf2_blocks.simps [of mac p salt c len b out])
  next
    case False
    then have "(len + 31) div 32 < b" using "1.prems" by simp
    then show ?thesis using False by (simp add: pbkdf2_blocks.simps [of mac p salt c len b out])
  qed
qed

lemma length_pbkdf2 [simp]: "length (pbkdf2_sha256 mac p salt c len) = len"
proof -
  have "length (concat (map (pbkdf2_block mac p salt c) xs)) = 32 * length xs" for xs
    by (induction xs) auto
  then have "length (pbkdf2_blocks mac p salt c len 1 []) = 32 * ((len + 31) div 32)"
    by (simp add: blocks_concat)
  then show ?thesis by (simp add: pbkdf2_sha256_def)
qed

section \<open>Round trip\<close>

lemma base64_std_alphabet:
  "distinct base64_std" "length base64_std = 64" "CHR 0x0D \<notin> set base64_std" "CHR 0x0A \<notin> set base64_std"
  "CHR ''$'' \<notin> set base64_std"
  by (simp_all add: base64_std_def)

lemma iterations_text: "atoi ''310000'' = Some (int password_iterations)"
  by (simp add: decimal_value_def in_range64_def password_iterations_def)

lemma hash_parts:
  "split_all (CHR ''$'') (''pbkdf2-sha256$310000$'' @ hex_encode s @ CHR ''$'' # base64_encode base64_std k) =
     [''pbkdf2-sha256'', ''310000'', hex_encode s, base64_encode base64_std k]"
proof -
  have "CHR ''$'' \<notin> set (hex_encode s)"
    using hex_encode_alphabet [of s] by (auto simp: hex_digits_def)
  moreover have "CHR ''$'' \<notin> set (base64_encode base64_std k)"
    using base64_alphabet [OF base64_std_alphabet(2), of k] base64_std_alphabet(5) by blast
  ultimately show ?thesis by (simp add: split_all_append split_all_none)
qed

lemma derived_key: "pbkdf2_sha256 mac p s password_iterations 32 = rfc_block mac p s 310000 1"
proof -
  have "length (rfc_block mac p s 310000 1) = 32"
    by (simp only: block_rfc [symmetric, of 310000] length_block)
  then show ?thesis by (simp add: pbkdf2_sha256_def blocks_concat block_rfc password_iterations_def)
qed

lemma verify_password_form:
  "verify_password mac h q \<Longrightarrow> \<exists>r s k salt. split_all (CHR ''$'') h = [''pbkdf2-sha256'', r, s, k] \<and>
     atoi r = Some 310000 \<and> hex_decode s = Some salt \<and> length salt = 16 \<and>
     base64_decode base64_std k = Some (rfc_block mac q salt 310000 1)"
  unfolding verify_password_def derived_key
  by (auto simp: password_iterations_def split: list.splits option.splits if_splits)

lemma verify_hashed:
  assumes "hash_password mac (Some salt) p = Some h" and "length salt = 16"
  shows "verify_password mac h q \<longleftrightarrow> rfc_block mac q salt 310000 1 = rfc_block mac p salt 310000 1"
proof -
  have h: "h = ''pbkdf2-sha256$310000$'' @ hex_encode salt @ CHR ''$'' #
      base64_encode base64_std (pbkdf2_sha256 mac p salt password_iterations 32)"
    using assms(1) by (simp add: hash_password_def)
  show ?thesis
    unfolding verify_password_def h hash_parts derived_key [symmetric]
    using assms(2) base64_decode_encode [OF base64_std_alphabet(1-4)] by (simp add: iterations_text del: atoi.simps)
qed

text \<open>C21. A password hash made with sixteen bytes of salt verifies exactly the passwords with the same
  derived key, the password it was made from among them; the key is the 32-byte PBKDF2 key of
  RFC 8018 with 310000 iterations. A stored text of any other form, with another scheme, iteration
  count, salt length or key length, verifies no password.\<close>

theorem password_hash_verifies:
  assumes "hash_password mac (Some salt) p = Some h" and "length salt = 16"
  shows "(verify_password mac h q \<longleftrightarrow> rfc_block mac q salt 310000 1 = rfc_block mac p salt 310000 1) \<and>
    verify_password mac h p \<and>
    (verify_password mac h' q \<longrightarrow> (\<exists>r s k salt'. split_all (CHR ''$'') h' = [''pbkdf2-sha256'', r, s, k] \<and>
      atoi r = Some 310000 \<and> hex_decode s = Some salt' \<and> length salt' = 16 \<and>
      base64_decode base64_std k = Some (rfc_block mac q salt' 310000 1)))"
  using verify_hashed [OF assms] verify_password_form [of mac h' q] by blast

lemma password_hash_verifies_witness:
  "\<exists>h. hash_password (\<lambda>k m. of_nat (length k)) (Some (replicate 16 (CHR ''s''))) ''secret'' = Some h \<and>
     verify_password (\<lambda>k m. of_nat (length k)) h ''secret''"
proof -
  obtain h where h: "hash_password (\<lambda>k m. of_nat (length k)) (Some (replicate 16 (CHR ''s''))) ''secret'' = Some h"
    by (simp add: hash_password_def)
  from password_hash_verifies [OF this] h show ?thesis by (metis length_replicate)
qed

end
