(* ===== verification/Auth_Model.thy ===== *)
theory Auth_Model
  imports Auth_Accounts Auth_Password
begin

text \<open>
  The account manager of \<open>auth/model.go\<close>: the documents in memory, every operation on them with its
  early returns, and the persistence they go through.

  Persistence is an interface of the application: a record of functions on its world \<open>'w\<close>. The
  policy is the immutable field of the model, and the documents are values, so the clones the code
  makes before it changes or returns them need no counterpart. Random bytes, the clock, the number
  of runes of a password and case-insensitive comparison are arguments.
\<close>

section \<open>State\<close>

record 'w account_store =
  as_load_accounts :: "'w \<Rightarrow> string + accounts_file"
  as_load_roles :: "'w \<Rightarrow> string + roles_file"
  as_save_accounts :: "'w \<Rightarrow> accounts_file \<Rightarrow> 'w \<times> string option"
  as_save_roles :: "'w \<Rightarrow> roles_file \<Rightarrow> 'w \<times> string option"

record model =
  md_users :: accounts_file
  md_roles :: roles_file

record account_lib =
  al_runes :: "string \<Rightarrow> nat"
  al_equal_fold :: "string \<Rightarrow> string \<Rightarrow> bool"
  al_mac :: mac

record entropy =
  en_salt :: "string option"
  en_account_id :: string
  en_identity_id :: string
  en_now :: int

datatype model_error =
    StoreRequired
  | StoreFailed string
  | DocumentsInvalid accounts_error
  | SetupComplete
  | AccountFieldsRequired
  | PasswordTooShort
  | HashFailed
  | AccountNotFound
  | IdentityNotFound
  | PasswordIdentityNotFound
  | TOTPUnsupported
  | LastLoginIdentity
  | LastAccount
  | RoleFieldsRequired

definition load_documents ::
  "account_policy \<Rightarrow> 'w account_store \<Rightarrow> 'w \<Rightarrow> model_error + model" where
  "load_documents P A w =
     (case as_load_accounts A w of
        Inl e \<Rightarrow> Inl (StoreFailed e)
      | Inr users \<Rightarrow>
      (case as_load_roles A w of
        Inl e \<Rightarrow> Inl (StoreFailed e)
      | Inr roles \<Rightarrow>
      (case validate_accounts users roles P of
        Inl e \<Rightarrow> Inl (DocumentsInvalid e)
      | Inr _ \<Rightarrow> Inr \<lparr>md_users = users, md_roles = roles\<rparr>)))"

definition new_model :: "account_policy \<Rightarrow> 'w account_store option \<Rightarrow> 'w \<Rightarrow> model_error + model" where
  "new_model P store w = (case store of None \<Rightarrow> Inl StoreRequired | Some A \<Rightarrow> load_documents P A w)"

text \<open>\<open>Reload\<close> with no other command between its loading, which takes no lock, and its installing.\<close>

definition reload :: "account_policy \<Rightarrow> 'w account_store \<Rightarrow> 'w \<times> model \<Rightarrow> ('w \<times> model) \<times> (model_error + unit)" where
  "reload P A s =
     (case load_documents P A (fst s) of
        Inl e \<Rightarrow> (s, Inl e)
      | Inr m \<Rightarrow> ((fst s, m), Inr ()))"

text \<open>The tail every operation on accounts ends with: validate, save, install.\<close>

definition commit_users ::
  "account_policy \<Rightarrow> 'w account_store \<Rightarrow> 'w \<times> model \<Rightarrow> account list \<Rightarrow> 'r \<Rightarrow> ('w \<times> model) \<times> (model_error + 'r)" where
  "commit_users P A s as reply =
     (let next = (md_users (snd s))\<lparr>af_accounts := as\<rparr>
      in case validate_accounts next (md_roles (snd s)) P of
           Inl e \<Rightarrow> (s, Inl (DocumentsInvalid e))
         | Inr _ \<Rightarrow>
             (case as_save_accounts A (fst s) next of
                (w, Some e) \<Rightarrow> ((w, snd s), Inl (StoreFailed e))
              | (w, None) \<Rightarrow> ((w, (snd s)\<lparr>md_users := next\<rparr>), Inr reply)))"

definition accounts :: "'w \<times> model \<Rightarrow> account list" where
  "accounts s = af_accounts (md_users (snd s))"

section \<open>Creating and changing accounts\<close>

definition create_account ::
  "account_lib \<Rightarrow> account_policy \<Rightarrow> 'w account_store \<Rightarrow> entropy \<Rightarrow> string \<Rightarrow> string \<Rightarrow> string \<Rightarrow> string \<Rightarrow> string list \<Rightarrow>
   'w \<times> model \<Rightarrow> ('w \<times> model) \<times> (model_error + account)" where
  "create_account L P A rnd display user mail password roles s =
     (let name = trim_space display; username = trim_space user; email = trim_space mail
      in if name = [] \<or> username = [] \<or> al_runes L password < 7 then (s, Inl AccountFieldsRequired)
         else (case hash_password (al_mac L) (en_salt rnd) password of
           None \<Rightarrow> (s, Inl HashFailed)
         | Some hash \<Rightarrow>
             (let account = \<lparr>ac_id = new_id ''acct'' (en_account_id rnd), ac_name = name, ac_enabled = True,
                ac_roles = dedupe_strings roles,
                ac_identities = [\<lparr>id_id = new_id ''id'' (en_identity_id rnd), id_type = ''password'',
                  id_username = username, id_email = email, id_subject = [], id_password = hash,
                  id_totp = False, id_recovery = [], id_enabled = True\<rparr>],
                ac_created = en_now rnd\<rparr>
              in commit_users P A s (accounts s @ [account]) account)))"

definition create_initial_administrator ::
  "account_lib \<Rightarrow> account_policy \<Rightarrow> 'w account_store \<Rightarrow> entropy \<Rightarrow> string \<Rightarrow> string \<Rightarrow> string \<Rightarrow> string \<Rightarrow>
   'w \<times> model \<Rightarrow> ('w \<times> model) \<times> (model_error + account)" where
  "create_initial_administrator L P A rnd display user mail password s =
     (if accounts s \<noteq> [] then (s, Inl SetupComplete)
      else create_account L P A rnd display user mail password [administrator] s)"

text \<open>The loops that change the first match and break; \<open>None\<close> when nothing matches.\<close>

fun update_first :: "('a \<Rightarrow> bool) \<Rightarrow> ('a \<Rightarrow> 'a) \<Rightarrow> 'a list \<Rightarrow> 'a list option" where
  "update_first p f [] = None"
| "update_first p f (x # xs) = (if p x then Some (f x # xs) else map_option (Cons x) (update_first p f xs))"

definition update_account ::
  "account_policy \<Rightarrow> 'w account_store \<Rightarrow> string \<Rightarrow> string \<Rightarrow> bool \<Rightarrow> string list \<Rightarrow>
   'w \<times> model \<Rightarrow> ('w \<times> model) \<times> (model_error + unit)" where
  "update_account P A i display enabled roles s =
     (case update_first (\<lambda>a. ac_id a = i)
             (\<lambda>a. a\<lparr>ac_name := trim_space display, ac_enabled := enabled, ac_roles := dedupe_strings roles\<rparr>)
             (accounts s) of
        None \<Rightarrow> (s, Inl AccountNotFound)
      | Some as \<Rightarrow> commit_users P A s as ())"

section \<open>Identities\<close>

text \<open>The nested loops over the accounts with an id and the identities the inner test selects.\<close>

definition selects :: "string \<Rightarrow> (identity \<Rightarrow> bool) \<Rightarrow> account list \<Rightarrow> bool" where
  "selects aid sel as \<longleftrightarrow> (\<exists>a \<in> set as. ac_id a = aid \<and> (\<exists>i \<in> set (ac_identities a). sel i))"

definition map_identities ::
  "string \<Rightarrow> (identity \<Rightarrow> bool) \<Rightarrow> (identity \<Rightarrow> identity) \<Rightarrow> account list \<Rightarrow> account list" where
  "map_identities aid sel f as =
     map (\<lambda>a. if ac_id a = aid
            then a\<lparr>ac_identities := map (\<lambda>i. if sel i then f i else i) (ac_identities a)\<rparr> else a) as"

definition set_password ::
  "account_lib \<Rightarrow> account_policy \<Rightarrow> 'w account_store \<Rightarrow> string option \<Rightarrow> string \<Rightarrow> string \<Rightarrow> string \<Rightarrow>
   'w \<times> model \<Rightarrow> ('w \<times> model) \<times> (model_error + unit)" where
  "set_password L P A salt aid iid password s =
     (if al_runes L password < 7 then (s, Inl PasswordTooShort)
      else (case hash_password (al_mac L) salt password of
        None \<Rightarrow> (s, Inl HashFailed)
      | Some hash \<Rightarrow>
          (let sel = (\<lambda>i. id_id i = iid \<and> id_type i = ''password'')
           in if \<not> selects aid sel (accounts s) then (s, Inl PasswordIdentityNotFound)
              else commit_users P A s (map_identities aid sel (\<lambda>i. i\<lparr>id_password := hash\<rparr>) (accounts s)) ())))"

definition add_identity ::
  "account_policy \<Rightarrow> 'w account_store \<Rightarrow> string \<Rightarrow> string \<Rightarrow> identity \<Rightarrow>
   'w \<times> model \<Rightarrow> ('w \<times> model) \<times> (model_error + identity)" where
  "add_identity P A bytes aid i0 s =
     (let i = i0\<lparr>id_id := (if id_id i0 = [] then new_id ''id'' bytes else id_id i0),
                id_username := trim_space (id_username i0), id_email := trim_space (id_email i0)\<rparr>
      in case update_first (\<lambda>a. ac_id a = aid) (\<lambda>a. a\<lparr>ac_identities := ac_identities a @ [i]\<rparr>) (accounts s) of
           None \<Rightarrow> (s, Inl AccountNotFound)
         | Some as \<Rightarrow> commit_users P A s as i)"

definition add_password_identity ::
  "account_lib \<Rightarrow> account_policy \<Rightarrow> 'w account_store \<Rightarrow> entropy \<Rightarrow> string \<Rightarrow> string \<Rightarrow> string \<Rightarrow> string \<Rightarrow>
   'w \<times> model \<Rightarrow> ('w \<times> model) \<times> (model_error + identity)" where
  "add_password_identity L P A rnd aid user mail password s =
     (if al_runes L password < 7 then (s, Inl PasswordTooShort)
      else (case hash_password (al_mac L) (en_salt rnd) password of
        None \<Rightarrow> (s, Inl HashFailed)
      | Some hash \<Rightarrow>
          add_identity P A (en_identity_id rnd) aid
            \<lparr>id_id = [], id_type = ''password'', id_username = user, id_email = mail, id_subject = [],
             id_password = hash, id_totp = False, id_recovery = [], id_enabled = True\<rparr> s))"

definition set_identity_totp ::
  "account_policy \<Rightarrow> 'w account_store \<Rightarrow> string \<Rightarrow> string \<Rightarrow> bool \<Rightarrow> string list \<Rightarrow>
   'w \<times> model \<Rightarrow> ('w \<times> model) \<times> (model_error + unit)" where
  "set_identity_totp P A aid iid enabled hashes s =
     (let sel = (\<lambda>i. id_id i = iid)
      in if selects aid (\<lambda>i. sel i \<and> id_type i \<noteq> ''password'') (accounts s) then (s, Inl TOTPUnsupported)
         else if \<not> selects aid sel (accounts s) then (s, Inl IdentityNotFound)
         else commit_users P A s
           (map_identities aid sel (\<lambda>i. i\<lparr>id_totp := enabled, id_recovery := hashes\<rparr>) (accounts s)) ())"

definition set_identity_enabled ::
  "account_policy \<Rightarrow> 'w account_store \<Rightarrow> string \<Rightarrow> string \<Rightarrow> bool \<Rightarrow>
   'w \<times> model \<Rightarrow> ('w \<times> model) \<times> (model_error + unit)" where
  "set_identity_enabled P A aid iid enabled s =
     (let sel = (\<lambda>i. id_id i = iid)
      in if \<not> selects aid sel (accounts s) then (s, Inl IdentityNotFound)
         else commit_users P A s (map_identities aid sel (\<lambda>i. i\<lparr>id_enabled := enabled\<rparr>) (accounts s)) ())"

text \<open>
  \<open>ConsumeRecoveryCode\<close> takes the first stored hash that equals the given one out of the first
  matching identity that has it, and saves without validating again.
\<close>

fun drop_hash :: "string \<Rightarrow> string list \<Rightarrow> string list option" where
  "drop_hash h [] = None"
| "drop_hash h (x # xs) = (if x = h then Some xs else map_option (Cons x) (drop_hash h xs))"

fun take_from_identities :: "string \<Rightarrow> string \<Rightarrow> identity list \<Rightarrow> identity list option" where
  "take_from_identities iid h [] = None"
| "take_from_identities iid h (i # is) =
     (case (if id_id i = iid then drop_hash h (id_recovery i) else None) of
        Some r \<Rightarrow> Some (i\<lparr>id_recovery := r\<rparr> # is)
      | None \<Rightarrow> map_option (Cons i) (take_from_identities iid h is))"

fun take_from_accounts :: "string \<Rightarrow> string \<Rightarrow> string \<Rightarrow> account list \<Rightarrow> account list option" where
  "take_from_accounts aid iid h [] = None"
| "take_from_accounts aid iid h (a # as) =
     (case (if ac_id a = aid then take_from_identities iid h (ac_identities a) else None) of
        Some is \<Rightarrow> Some (a\<lparr>ac_identities := is\<rparr> # as)
      | None \<Rightarrow> map_option (Cons a) (take_from_accounts aid iid h as))"

definition consume_recovery_code ::
  "'w account_store \<Rightarrow> string \<Rightarrow> string \<Rightarrow> string \<Rightarrow> 'w \<times> model \<Rightarrow> ('w \<times> model) \<times> bool" where
  "consume_recovery_code A aid iid h s =
     (case take_from_accounts aid iid h (accounts s) of
        None \<Rightarrow> (s, False)
      | Some as \<Rightarrow>
          (let next = (md_users (snd s))\<lparr>af_accounts := as\<rparr>
           in case as_save_accounts A (fst s) next of
                (w, Some e) \<Rightarrow> ((w, snd s), False)
              | (w, None) \<Rightarrow> ((w, (snd s)\<lparr>md_users := next\<rparr>), True)))"

definition login_capable :: "identity \<Rightarrow> bool" where
  "login_capable i \<longleftrightarrow> id_type i = ''password'' \<or> id_type i = ''google''"

fun last_match :: "('a \<Rightarrow> bool) \<Rightarrow> 'a list \<Rightarrow> nat option" where
  "last_match p [] = None"
| "last_match p (x # xs) =
     (case last_match p xs of Some n \<Rightarrow> Some (Suc n) | None \<Rightarrow> if p x then Some 0 else None)"

definition remove_nth :: "nat \<Rightarrow> 'a list \<Rightarrow> 'a list" where
  "remove_nth n xs = take n xs @ drop (Suc n) xs"

text \<open>The index of the first account with an id.\<close>

fun first_index :: "('a \<Rightarrow> bool) \<Rightarrow> 'a list \<Rightarrow> nat option" where
  "first_index p [] = None"
| "first_index p (x # xs) = (if p x then Some 0 else map_option Suc (first_index p xs))"

definition remove_identity ::
  "account_policy \<Rightarrow> 'w account_store \<Rightarrow> string \<Rightarrow> string \<Rightarrow>
   'w \<times> model \<Rightarrow> ('w \<times> model) \<times> (model_error + identity)" where
  "remove_identity P A aid iid s =
     (case first_index (\<lambda>a. ac_id a = aid) (accounts s) of
        None \<Rightarrow> (s, Inl AccountNotFound)
      | Some k \<Rightarrow>
          (let a = accounts s ! k; is = ac_identities a
           in case last_match (\<lambda>i. id_id i = iid) is of
                None \<Rightarrow> (s, Inl IdentityNotFound)
              | Some n \<Rightarrow>
                  if login_capable (is ! n) \<and> length (filter login_capable is) \<le> 1
                  then (s, Inl LastLoginIdentity)
                  else commit_users P A s
                    ((accounts s)[k := a\<lparr>ac_identities := remove_nth n is\<rparr>]) (is ! n)))"

definition delete_account ::
  "account_policy \<Rightarrow> 'w account_store \<Rightarrow> string \<Rightarrow>
   'w \<times> model \<Rightarrow> ('w \<times> model) \<times> (model_error + identity list)" where
  "delete_account P A aid s =
     (case first_index (\<lambda>a. ac_id a = aid) (accounts s) of
        None \<Rightarrow> (s, Inl AccountNotFound)
      | Some k \<Rightarrow>
          (let as = remove_nth k (accounts s)
           in if as = [] then (s, Inl LastAccount)
              else commit_users P A s as (ac_identities (accounts s ! k))))"

definition set_role ::
  "account_policy \<Rightarrow> 'w account_store \<Rightarrow> string \<Rightarrow> string \<Rightarrow> string list \<Rightarrow> bool \<Rightarrow>
   'w \<times> model \<Rightarrow> ('w \<times> model) \<times> (model_error + unit)" where
  "set_role P A i0 n0 caps builtin s =
     (let i = trim_space i0; name = trim_space n0
      in if i = [] \<or> name = [] then (s, Inl RoleFieldsRequired)
         else (let old = rf_roles (md_roles (snd s));
                   changed = (case update_first (\<lambda>r. ro_id r = i)
                       (\<lambda>r. r\<lparr>ro_name := name, ro_caps := dedupe_strings caps\<rparr>) old of
                     Some rs \<Rightarrow> rs
                   | None \<Rightarrow> old @ [\<lparr>ro_id = i, ro_name = name, ro_caps = dedupe_strings caps, ro_builtin = builtin\<rparr>]);
                   next = (md_roles (snd s))\<lparr>rf_roles := sort_key ro_id changed\<rparr>
               in case validate_accounts (md_users (snd s)) next P of
                    Inl e \<Rightarrow> (s, Inl (DocumentsInvalid e))
                  | Inr _ \<Rightarrow>
                      (case as_save_roles A (fst s) next of
                         (w, Some e) \<Rightarrow> ((w, snd s), Inl (StoreFailed e))
                       | (w, None) \<Rightarrow> ((w, (snd s)\<lparr>md_roles := next\<rparr>), Inr ()))))"

section \<open>Reading\<close>

definition identity_pairs :: "account list \<Rightarrow> (account \<times> identity) list" where
  "identity_pairs as = concat (map (\<lambda>a. map (Pair a) (ac_identities a)) as)"

definition find_identity :: "model \<Rightarrow> string \<Rightarrow> (account \<times> identity) option" where
  "find_identity m iid = find (\<lambda>(a, i). id_id i = iid) (identity_pairs (af_accounts (md_users m)))"

definition provider_identity :: "model \<Rightarrow> string \<Rightarrow> string \<Rightarrow> (account \<times> identity) option" where
  "provider_identity m t subject =
     find (\<lambda>(a, i). ac_enabled a \<and> id_enabled i \<and> id_type i = t \<and> id_subject i = subject)
       (identity_pairs (af_accounts (md_users m)))"

definition authenticate_password :: "account_lib \<Rightarrow> model \<Rightarrow> string \<Rightarrow> string \<Rightarrow> (account \<times> identity) option" where
  "authenticate_password L m identifier password =
     (let wanted = trim_space identifier
      in if wanted = [] then None
         else find (\<lambda>(a, i). ac_enabled a \<and> id_enabled i \<and> id_type i = ''password'' \<and>
                (al_equal_fold L (id_username i) wanted \<or> al_equal_fold L (id_email i) wanted) \<and>
                verify_password (al_mac L) (id_password i) password)
           (identity_pairs (af_accounts (md_users m))))"

fun principal_active :: "string \<Rightarrow> string \<Rightarrow> account list \<Rightarrow> bool" where
  "principal_active aid iid [] = False"
| "principal_active aid iid (a # as) =
     (if ac_id a \<noteq> aid \<or> \<not> ac_enabled a then principal_active aid iid as
      else (case find (\<lambda>i. id_id i = iid) (ac_identities a) of
        Some i \<Rightarrow> id_enabled i
      | None \<Rightarrow> principal_active aid iid as))"

definition session_principal_active :: "model \<Rightarrow> string \<Rightarrow> string \<Rightarrow> bool" where
  "session_principal_active m aid iid = principal_active aid iid (af_accounts (md_users m))"

definition find_account :: "model \<Rightarrow> string \<Rightarrow> account option" where
  "find_account m i = find (\<lambda>a. ac_id a = i) (af_accounts (md_users m))"

definition capabilities_of :: "model \<Rightarrow> string \<Rightarrow> string list" where
  "capabilities_of m i =
     (case find_account m i of None \<Rightarrow> [] | Some a \<Rightarrow> effective_capabilities a (rf_roles (md_roles m)))"

section \<open>The manager as a machine\<close>

datatype account_command =
    Reload
  | CreateInitial entropy string string string string
  | CreateAccount entropy string string string string "string list"
  | UpdateAccount string string bool "string list"
  | SetPassword "string option" string string string
  | AddIdentity string string identity
  | AddPasswordIdentity entropy string string string string
  | SetTOTP string string bool "string list"
  | SetEnabled string string bool
  | ConsumeCode string string string
  | RemoveIdentity string string
  | DeleteAccount string
  | SetRole string string "string list" bool

datatype account_reply =
    Done
  | OneAccount account
  | OneIdentity identity
  | Identities "identity list"
  | Consumed bool

definition replying :: "('a \<Rightarrow> account_reply) \<Rightarrow> 's \<times> (model_error + 'a) \<Rightarrow> 's \<times> (model_error + account_reply)" where
  "replying f r = map_prod id (map_sum id f) r"

fun exec_account ::
  "account_lib \<Rightarrow> account_policy \<Rightarrow> 'w account_store \<Rightarrow> 'w \<times> model \<Rightarrow> account_command \<Rightarrow>
   ('w \<times> model) \<times> (model_error + account_reply)" where
  "exec_account L P A s Reload = replying (\<lambda>_. Done) (reload P A s)"
| "exec_account L P A s (CreateInitial rnd n u e p) =
     replying OneAccount (create_initial_administrator L P A rnd n u e p s)"
| "exec_account L P A s (CreateAccount rnd n u e p rs) = replying OneAccount (create_account L P A rnd n u e p rs s)"
| "exec_account L P A s (UpdateAccount i n b rs) = replying (\<lambda>_. Done) (update_account P A i n b rs s)"
| "exec_account L P A s (SetPassword salt a i p) = replying (\<lambda>_. Done) (set_password L P A salt a i p s)"
| "exec_account L P A s (AddIdentity b a i) = replying OneIdentity (add_identity P A b a i s)"
| "exec_account L P A s (AddPasswordIdentity rnd a u e p) =
     replying OneIdentity (add_password_identity L P A rnd a u e p s)"
| "exec_account L P A s (SetTOTP a i b hs) = replying (\<lambda>_. Done) (set_identity_totp P A a i b hs s)"
| "exec_account L P A s (SetEnabled a i b) = replying (\<lambda>_. Done) (set_identity_enabled P A a i b s)"
| "exec_account L P A s (ConsumeCode a i h) = map_prod id (Inr \<circ> Consumed) (consume_recovery_code A a i h s)"
| "exec_account L P A s (RemoveIdentity a i) = replying OneIdentity (remove_identity P A a i s)"
| "exec_account L P A s (DeleteAccount a) = replying Identities (delete_account P A a s)"
| "exec_account L P A s (SetRole i n cs b) = replying (\<lambda>_. Done) (set_role P A i n cs b s)"

end
