(* ===== verification/Auth_Sessions.thy ===== *)
theory Auth_Sessions
  imports Auth_Model
begin

text \<open>
  Browser sessions of \<open>auth/sessions.go\<close>: the store of sessions, login failures and second-factor
  challenges, its operations under the lock, and the persistence of the sessions.

  Times are nanoseconds. A request is what the code reads of it: method, client address, scheme,
  user agent, the session cookie and the CSRF header. Response cookies are returned. The code ranges
  over maps in an unspecified order; where the order can show, it is an argument (\<open>order\<close>), and the
  loops that only delete are written as restrictions of the map. Persistence is a function on a world
  \<open>'w\<close>; \<open>None\<close> is a store without persistence. \<open>sha\<close> is SHA-256.
\<close>

section \<open>State\<close>

record session =
  ss_account :: string
  ss_identity :: string
  ss_csrf :: string
  ss_created :: int
  ss_expires :: int
  ss_ip :: string
  ss_agent :: string

record session_view =
  sv_id :: string
  sv_created :: int
  sv_expires :: int
  sv_ip :: string
  sv_agent :: string

record challenge =
  ch_account :: string
  ch_identity :: string
  ch_ip :: string
  ch_expires :: int

record request =
  rq_method :: string
  rq_ip :: string
  rq_scheme :: string
  rq_agent :: string
  rq_cookie :: "string option"
  rq_csrf :: string

record session_options =
  so_cookie :: string
  so_header :: string
  so_secure :: bool
  so_ttl :: int
  so_challenge_ttl :: int
  so_window :: int
  so_max_failures :: int
  so_max_sessions :: int

type_synonym session_map = "string \<rightharpoonup> session"

record session_store =
  st_sessions :: session_map
  st_failures :: "string \<Rightarrow> int list"
  st_challenges :: "string \<rightharpoonup> challenge"
  st_options :: session_options

type_synonym 'w persistence = "('w \<Rightarrow> session_map \<Rightarrow> 'w \<times> string option) option"

datatype session_error = RateLimited | InvalidCredential | PersistenceError string

record cookie =
  ck_name :: string
  ck_value :: string
  ck_secure :: bool
  ck_max_age :: int

definition second :: int where "second = 1000000000"

definition or_positive :: "int \<Rightarrow> int \<Rightarrow> int" where
  "or_positive x d = (if x \<le> 0 then d else x)"

definition with_defaults :: "session_options \<Rightarrow> session_options" where
  "with_defaults o1 = o1\<lparr>
     so_cookie := (if so_cookie o1 = [] then ''gantry_session'' else so_cookie o1),
     so_header := (if so_header o1 = [] then ''X-Gantry-CSRF'' else so_header o1),
     so_ttl := or_positive (so_ttl o1) (12 * 3600 * second),
     so_challenge_ttl := or_positive (so_challenge_ttl o1) (5 * 60 * second),
     so_window := or_positive (so_window o1) (10 * 60 * second),
     so_max_failures := or_positive (so_max_failures o1) 8,
     so_max_sessions := or_positive (so_max_sessions o1) 32\<rparr>"

text \<open>Deleting the entries a test selects.\<close>

definition without :: "('k \<rightharpoonup> 'v) \<Rightarrow> ('k \<Rightarrow> 'v \<Rightarrow> bool) \<Rightarrow> 'k \<rightharpoonup> 'v" where
  "without m p = (\<lambda>k. case m k of None \<Rightarrow> None | Some v \<Rightarrow> if p k v then None else Some v)"

text \<open>\<open>loaded\<close> is what \<open>LoadSessions\<close> answers; \<open>None\<close> is a store without persistence.\<close>

definition new_session_store ::
  "session_options \<Rightarrow> (string + session_map) option \<Rightarrow> int \<Rightarrow> session_error + session_store" where
  "new_session_store o1 loaded now =
     (let empty = \<lparr>st_sessions = Map.empty, st_failures = (\<lambda>_. []), st_challenges = Map.empty,
                   st_options = with_defaults o1\<rparr>
      in case loaded of
           None \<Rightarrow> Inr empty
         | Some (Inl e) \<Rightarrow> Inl (PersistenceError e)
         | Some (Inr m) \<Rightarrow> Inr (empty\<lparr>st_sessions := without m (\<lambda>_ x. \<not> ss_expires x > now)\<rparr>))"

definition save_locked :: "'w persistence \<Rightarrow> 'w \<Rightarrow> session_store \<Rightarrow> 'w \<times> string option" where
  "save_locked P w t = (case P of None \<Rightarrow> (w, None) | Some save \<Rightarrow> save w (st_sessions t))"

section \<open>Failures\<close>

definition limited :: "session_store \<Rightarrow> string \<Rightarrow> int \<Rightarrow> session_store \<times> bool" where
  "limited t ip now =
     (let remaining = filter (\<lambda>f. f > now - so_window (st_options t)) (st_failures t ip)
      in (t\<lparr>st_failures := (st_failures t)(ip := remaining)\<rparr>,
          int (length remaining) \<ge> so_max_failures (st_options t)))"

definition fail :: "session_store \<Rightarrow> string \<Rightarrow> int \<Rightarrow> session_store" where
  "fail t ip now = t\<lparr>st_failures := (st_failures t)(ip := st_failures t ip @ [now])\<rparr>"

text \<open>
  \<open>login\<close> is the provider's \<open>AuthenticatePassword\<close>. The two critical sections of a failed attempt
  read the clock once each. This is a call during which no other call touches the store;
  \<open>login_step\<close> below has the calls interleaved.
\<close>

definition session_authenticate ::
  "(string \<Rightarrow> string \<Rightarrow> (account \<times> identity) option) \<Rightarrow> session_store \<Rightarrow> request \<Rightarrow> int \<Rightarrow> int \<Rightarrow> string \<Rightarrow> string \<Rightarrow>
   session_store \<times> (session_error + account \<times> identity)" where
  "session_authenticate login t rq now later username password =
     (case limited t (rq_ip rq) now of
        (t1, True) \<Rightarrow> (t1, Inl RateLimited)
      | (t1, False) \<Rightarrow>
          (case login username password of
             None \<Rightarrow> (fail t1 (rq_ip rq) later, Inl InvalidCredential)
           | Some r \<Rightarrow> (t1, Inr r)))"

section \<open>Sessions\<close>

definition request_cookie :: "session_store \<Rightarrow> request \<Rightarrow> string \<Rightarrow> int \<Rightarrow> cookie" where
  "request_cookie t rq v age = \<lparr>ck_name = so_cookie (st_options t), ck_value = v,
     ck_secure = (so_secure (st_options t) \<or> rq_scheme rq = ''https''), ck_max_age = age\<rparr>"

text \<open>
  The sessions of an account in the order of their creation, found in the map's iteration order,
  and the loop that evicts the oldest while the account is at its limit.
\<close>

definition owned :: "session_map \<Rightarrow> string list \<Rightarrow> string \<Rightarrow> string list" where
  "owned m order aid =
     sort_key (\<lambda>k. case m k of Some x \<Rightarrow> ss_created x | None \<Rightarrow> 0)
       (filter (\<lambda>k. case m k of Some x \<Rightarrow> ss_account x = aid | None \<Rightarrow> False) order)"

fun evict :: "int \<Rightarrow> session_map \<Rightarrow> string list \<Rightarrow> session_map outcome" where
  "evict n m [] = (if 0 \<ge> n then Panic else Returned m)"
| "evict n m (k # ks) = (if int (length (k # ks)) \<ge> n then evict n (m(k := None)) ks else Returned m)"

text \<open>
  \<open>create_session\<close> with the random bytes of the credential and of the CSRF token. A failed save
  returns the error but keeps the new session in memory; no cookie is set then. Evicting from an
  empty list would index out of range, which the defaults exclude.
\<close>

definition create_session ::
  "'w persistence \<Rightarrow> string list \<Rightarrow> string \<Rightarrow> string \<Rightarrow> int \<Rightarrow> request \<Rightarrow> string \<Rightarrow> string \<Rightarrow> 'w \<times> session_store \<Rightarrow>
   (('w \<times> session_store) \<times> (session_error + session \<times> cookie)) outcome" where
  "create_session P order sid_bytes csrf_bytes now rq aid iid s =
     (let t = snd s; sid = token sid_bytes;
          session = \<lparr>ss_account = aid, ss_identity = iid, ss_csrf = token csrf_bytes, ss_created = now,
            ss_expires = now + so_ttl (st_options t), ss_ip = rq_ip rq, ss_agent = trim_space (rq_agent rq)\<rparr>;
          live = without (st_sessions t) (\<lambda>_ x. now > ss_expires x)
      in case evict (so_max_sessions (st_options t)) live (owned live order aid) of
           Panic \<Rightarrow> Panic
         | Returned kept \<Rightarrow>
             (let t' = t\<lparr>st_sessions := kept(sid \<mapsto> session), st_failures := (st_failures t)(rq_ip rq := [])\<rparr>
              in case save_locked P (fst s) t' of
                   (w, Some e) \<Rightarrow> Returned ((w, t'), Inl (PersistenceError e))
                 | (w, None) \<Rightarrow> Returned ((w, t'), Inr (session,
                     request_cookie t rq sid (so_ttl (st_options t) div second)))))"

definition session_login ::
  "'w persistence \<Rightarrow> (string \<Rightarrow> string \<Rightarrow> (account \<times> identity) option) \<Rightarrow> string list \<Rightarrow> string \<Rightarrow> string \<Rightarrow>
   int \<Rightarrow> int \<Rightarrow> request \<Rightarrow> string \<Rightarrow> string \<Rightarrow> 'w \<times> session_store \<Rightarrow>
   (('w \<times> session_store) \<times> (session_error + session \<times> cookie)) outcome" where
  "session_login P login order sid_bytes csrf_bytes now later rq username password s =
     (case session_authenticate login (snd s) rq now later username password of
        (t, Inl e) \<Rightarrow> Returned ((fst s, t), Inl e)
      | (t, Inr (a, i)) \<Rightarrow> create_session P order sid_bytes csrf_bytes later rq (ac_id a) (id_id i) (fst s, t))"

section \<open>Concurrent logins\<close>

text \<open>
  Handlers run concurrently and the lock is taken by \<open>Limited\<close>, by \<open>Fail\<close> and by \<open>CreateSession\<close> each
  on its own, while the provider verifies the password outside it. A call is where it stands
  between two of these: it passed \<open>Limited\<close>, the provider refused it and its failure is not
  recorded yet, or the provider accepted it. One step is one critical section or one answer of the
  provider. An accepted call may return to its caller, or as \<open>Login\<close> go on to \<open>CreateSession\<close>, which
  products also call on their own (\<open>Opens\<close>). \<open>Others\<close> are the operations that touch neither
  failures nor options.
\<close>

datatype login_phase = MayAsk | MustRecord | MayEnter account identity

datatype login_event =
    Checks request int
  | Asks request "(account \<times> identity) option"
  | Records request int
  | Enters request
  | Opens request
  | Leaves request
  | Others

type_synonym 'w login_state = "('w \<times> session_store) \<times> (request \<times> login_phase) list"

inductive login_step :: "'w persistence \<Rightarrow> 'w login_state \<Rightarrow> login_event \<Rightarrow> 'w login_state \<Rightarrow> bool" for P where
  StepLimited: "limited t (rq_ip rq) now = (t', True) \<Longrightarrow>
    login_step P ((w, t), fl) (Checks rq now) ((w, t'), fl)"
| StepPasses: "limited t (rq_ip rq) now = (t', False) \<Longrightarrow>
    login_step P ((w, t), fl) (Checks rq now) ((w, t'), (rq, MayAsk) # fl)"
| StepRefused: "login_step P (s, xs @ (rq, MayAsk) # ys) (Asks rq None) (s, xs @ (rq, MustRecord) # ys)"
| StepAccepted: "login_step P (s, xs @ (rq, MayAsk) # ys) (Asks rq (Some (a, i))) (s, xs @ (rq, MayEnter a i) # ys)"
| StepRecords: "login_step P ((w, t), xs @ (rq, MustRecord) # ys) (Records rq now) ((w, fail t (rq_ip rq) now), xs @ ys)"
| StepEnters: "create_session P order sb cb now rq (ac_id a) (id_id i) s = Returned (s', r) \<Longrightarrow>
    login_step P (s, xs @ (rq, MayEnter a i) # ys) (Enters rq) (s', xs @ ys)"
| StepOpens: "create_session P order sb cb now rq aid iid s = Returned (s', r) \<Longrightarrow>
    login_step P (s, fl) (Opens rq) (s', fl)"
| StepLeaves: "login_step P (s, xs @ (rq, MayEnter a i) # ys) (Leaves rq) (s, xs @ ys)"
| StepOthers: "st_failures t' = st_failures t \<Longrightarrow> st_options t' = st_options t \<Longrightarrow>
    login_step P ((w, t), fl) Others ((w', t'), fl)"

text \<open>The calls of an address that still hold a guess: asked or about to ask, and not yet recorded.\<close>

definition open_guess :: "string \<Rightarrow> request \<times> login_phase \<Rightarrow> bool" where
  "open_guess ip a \<longleftrightarrow> rq_ip (fst a) = ip \<and> (case snd a of MayEnter _ _ \<Rightarrow> False | _ \<Rightarrow> True)"

definition open_guesses :: "string \<Rightarrow> (request \<times> login_phase) list \<Rightarrow> nat" where
  "open_guesses ip fl = length (filter (open_guess ip) fl)"

text \<open>Runs in which the address never has more than \<open>c\<close> such calls at once.\<close>

inductive login_run ::
  "'w persistence \<Rightarrow> string \<Rightarrow> nat \<Rightarrow> 'w login_state \<Rightarrow> login_event list \<Rightarrow> 'w login_state \<Rightarrow> bool" for P ip c where
  RunNil: "login_run P ip c s [] s"
| RunStep: "login_run P ip c s es s1 \<Longrightarrow> login_step P s1 e s2 \<Longrightarrow> open_guesses ip (snd s2) \<le> c \<Longrightarrow>
    login_run P ip c s (es @ [e]) s2"

section \<open>Ending and listing sessions\<close>

text \<open>Operations that delete and save, ignoring the outcome of the save.\<close>

definition drop_and_save ::
  "'w persistence \<Rightarrow> (string \<Rightarrow> session \<Rightarrow> bool) \<Rightarrow> 'w \<times> session_store \<Rightarrow> 'w \<times> session_store" where
  "drop_and_save P p s =
     (let t = (snd s)\<lparr>st_sessions := without (st_sessions (snd s)) p\<rparr> in (fst (save_locked P (fst s) t), t))"

definition logout :: "'w persistence \<Rightarrow> request \<Rightarrow> 'w \<times> session_store \<Rightarrow> ('w \<times> session_store) \<times> cookie" where
  "logout P rq s =
     ((case rq_cookie rq of None \<Rightarrow> s | Some k \<Rightarrow> drop_and_save P (\<lambda>k' _. k' = k) s),
      request_cookie (snd s) rq [] (- 1))"

text \<open>\<open>active\<close> is the provider's \<open>SessionPrincipalActive\<close>.\<close>

definition get_session ::
  "'w persistence \<Rightarrow> (string \<Rightarrow> string \<Rightarrow> bool) \<Rightarrow> int \<Rightarrow> request \<Rightarrow> 'w \<times> session_store \<Rightarrow>
   ('w \<times> session_store) \<times> session option" where
  "get_session P active now rq s =
     (case rq_cookie rq of
        None \<Rightarrow> (s, None)
      | Some k \<Rightarrow>
          (case st_sessions (snd s) k of
             Some x \<Rightarrow>
               if now > ss_expires x \<or> \<not> active (ss_account x) (ss_identity x)
               then (drop_and_save P (\<lambda>k' _. k' = k) s, None) else (s, Some x)
           | None \<Rightarrow> (drop_and_save P (\<lambda>k' _. k' = k) s, None)))"

definition revoke_all :: "'w persistence \<Rightarrow> 'w \<times> session_store \<Rightarrow> 'w \<times> session_store" where
  "revoke_all P s = drop_and_save P (\<lambda>_ _. True) s"

definition revoke_account :: "'w persistence \<Rightarrow> string \<Rightarrow> 'w \<times> session_store \<Rightarrow> 'w \<times> session_store" where
  "revoke_account P aid s = drop_and_save P (\<lambda>_ x. ss_account x = aid) s"

definition revoke_identity_except ::
  "'w persistence \<Rightarrow> string \<Rightarrow> string \<Rightarrow> 'w \<times> session_store \<Rightarrow> 'w \<times> session_store" where
  "revoke_identity_except P iid keep s = drop_and_save P (\<lambda>k x. ss_identity x = iid \<and> k \<noteq> keep) s"

definition revoke_identity :: "'w persistence \<Rightarrow> string \<Rightarrow> 'w \<times> session_store \<Rightarrow> 'w \<times> session_store" where
  "revoke_identity P iid s = revoke_identity_except P iid [] s"

definition display_session_id :: "(string \<Rightarrow> string) \<Rightarrow> string \<Rightarrow> string" where
  "display_session_id sha real = hex_encode (take 8 (sha real))"

text \<open>Listing removes expired sessions from memory without saving.\<close>

definition list_sessions ::
  "(string \<Rightarrow> string) \<Rightarrow> string list \<Rightarrow> int \<Rightarrow> string \<Rightarrow> session_store \<Rightarrow> session_store \<times> session_view list" where
  "list_sessions sha order now aid t =
     (let live = without (st_sessions t) (\<lambda>_ x. ss_expires x < now)
      in (t\<lparr>st_sessions := live\<rparr>,
          sort_key (\<lambda>v. - sv_created v)
            (concat (map (\<lambda>k. case live k of
                None \<Rightarrow> []
              | Some x \<Rightarrow> if ss_account x = aid
                  then [\<lparr>sv_id = display_session_id sha k, sv_created = ss_created x, sv_expires = ss_expires x,
                         sv_ip = ss_ip x, sv_agent = ss_agent x\<rparr>] else []) order))))"

definition count_sessions ::
  "(string \<Rightarrow> string) \<Rightarrow> string list \<Rightarrow> int \<Rightarrow> string \<Rightarrow> session_store \<Rightarrow> session_store \<times> nat" where
  "count_sessions sha order now aid t = map_prod id length (list_sessions sha order now aid t)"

text \<open>\<open>RevokeSession\<close> stops at the first match of the iteration.\<close>

definition revoke_session ::
  "'w persistence \<Rightarrow> (string \<Rightarrow> string) \<Rightarrow> string list \<Rightarrow> string \<Rightarrow> string \<Rightarrow> 'w \<times> session_store \<Rightarrow>
   ('w \<times> session_store) \<times> bool" where
  "revoke_session P sha order aid shown s =
     (case find (\<lambda>k. case st_sessions (snd s) k of None \<Rightarrow> False
              | Some x \<Rightarrow> ss_account x = aid \<and> display_session_id sha k = shown) order of
        None \<Rightarrow> (s, False)
      | Some k \<Rightarrow> (drop_and_save P (\<lambda>k' _. k' = k) s, True))"

definition current_session_id :: "request \<Rightarrow> string" where
  "current_session_id rq = (case rq_cookie rq of None \<Rightarrow> [] | Some k \<Rightarrow> k)"

text \<open>\<open>SnapshotSessions\<close> saves only when its iteration deleted something.\<close>

definition snapshot_sessions ::
  "'w persistence \<Rightarrow> string list \<Rightarrow> int \<Rightarrow> 'w \<times> session_store \<Rightarrow> ('w \<times> session_store) \<times> session_map" where
  "snapshot_sessions P order now s =
     (let dead = (\<lambda>_ x. \<not> ss_expires x > now); m = st_sessions (snd s);
          changed = list_ex (\<lambda>k. case m k of None \<Rightarrow> False | Some x \<Rightarrow> dead k x) order
      in ((if changed then drop_and_save P dead s else s), without m dead))"

section \<open>Challenges\<close>

definition begin_challenge ::
  "string \<Rightarrow> int \<Rightarrow> request \<Rightarrow> string \<Rightarrow> string \<Rightarrow> session_store \<Rightarrow> session_store \<times> string" where
  "begin_challenge bytes now rq aid iid t =
     (let i = token bytes
      in (t\<lparr>st_challenges := (without (st_challenges t) (\<lambda>_ c. ch_expires c < now))
              (i \<mapsto> \<lparr>ch_account = aid, ch_identity = iid, ch_ip = rq_ip rq,
                     ch_expires = now + so_challenge_ttl (st_options t)\<rparr>)\<rparr>, i))"

definition take_challenge :: "int \<Rightarrow> request \<Rightarrow> string \<Rightarrow> session_store \<Rightarrow> session_store \<times> challenge option" where
  "take_challenge now rq i t =
     (t\<lparr>st_challenges := (st_challenges t)(i := None)\<rparr>,
      (case st_challenges t i of
         None \<Rightarrow> None
       | Some c \<Rightarrow> if now > ch_expires c \<or> ch_ip c \<noteq> rq_ip rq then None else Some c))"

section \<open>Cross-site requests\<close>

definition equal_token :: "string \<Rightarrow> string \<Rightarrow> bool" where
  "equal_token got want \<longleftrightarrow> got \<noteq> [] \<and> want \<noteq> [] \<and> got = want"

definition valid_csrf :: "request \<Rightarrow> session \<Rightarrow> bool" where
  "valid_csrf rq x \<longleftrightarrow> rq_method rq = ''GET'' \<or> rq_method rq = ''HEAD'' \<or> equal_token (rq_csrf rq) (ss_csrf x)"

end
