(* ===== verification/Auth_Accounts_Laws.thy ===== *)
theory Auth_Accounts_Laws
  imports Auth_Accounts
begin

text \<open>
  What the validation of account documents means, as one predicate over the two documents, and
  the proof that the loops of \<open>ValidateAccounts\<close> decide it.
\<close>

section \<open>Well-formed documents\<close>

definition identity_ok :: "account_policy \<Rightarrow> identity \<Rightarrow> bool" where
  "identity_ok P i \<longleftrightarrow> id_id i \<noteq> [] \<and>
     (id_type i = ''password'' \<and> folded P (id_username i) \<noteq> [] \<and> id_password i \<noteq> [] \<or>
      id_type i = ''email'' \<and> \<not> blank (id_email i) \<or>
      id_type i = ''google'' \<and> id_subject i \<noteq> [])"

definition of_type :: "string \<Rightarrow> identity list \<Rightarrow> identity list" where
  "of_type t is = filter (\<lambda>i. id_type i = t) is"

definition usernames :: "account_policy \<Rightarrow> identity list \<Rightarrow> string list" where
  "usernames P is = map (\<lambda>i. folded P (id_username i)) (of_type ''password'' is)"

definition emails :: "account_policy \<Rightarrow> identity list \<Rightarrow> string list" where
  "emails P is = filter (\<lambda>e. e \<noteq> []) (map (\<lambda>i. folded P (id_email i)) (of_type ''password'' is))"

definition subjects :: "identity list \<Rightarrow> string list" where
  "subjects is = map id_subject (of_type ''google'' is)"

definition identities_ok :: "account_policy \<Rightarrow> identity list \<Rightarrow> bool" where
  "identities_ok P is \<longleftrightarrow> (\<forall>i \<in> set is. identity_ok P i) \<and> distinct (map id_id is) \<and>
     distinct (usernames P is) \<and> distinct (emails P is) \<and> distinct (subjects is)"

definition role_ok :: "account_policy \<Rightarrow> role \<Rightarrow> bool" where
  "role_ok P r \<longleftrightarrow> ro_id r \<noteq> [] \<and> (\<forall>c \<in> set (ro_caps r). known_capability P c) \<and>
     (ro_id r = administrator \<longrightarrow> ro_caps r = [''*''])"

definition roles_valid :: "account_policy \<Rightarrow> roles_file \<Rightarrow> bool" where
  "roles_valid P roles \<longleftrightarrow> rf_version roles = ap_version P \<and> (\<forall>r \<in> set (rf_roles roles). role_ok P r) \<and>
     distinct (map ro_id (rf_roles roles)) \<and> administrator \<in> ro_id ` set (rf_roles roles)"

definition account_ok :: "string set \<Rightarrow> account \<Rightarrow> bool" where
  "account_ok roles a \<longleftrightarrow> ac_id a \<noteq> [] \<and> \<not> blank (ac_name a) \<and> set (ac_roles a) \<subseteq> roles"

definition all_identities :: "account list \<Rightarrow> identity list" where
  "all_identities as = concat (map ac_identities as)"

definition accounts_valid :: "account_policy \<Rightarrow> accounts_file \<Rightarrow> roles_file \<Rightarrow> bool" where
  "accounts_valid P users roles \<longleftrightarrow>
     af_version users = ap_version P \<and> roles_valid P roles \<and>
     (\<forall>a \<in> set (af_accounts users). account_ok (ro_id ` set (rf_roles roles)) a) \<and>
     distinct (map ac_id (af_accounts users)) \<and>
     identities_ok P (all_identities (af_accounts users)) \<and>
     (af_accounts users \<noteq> [] \<longrightarrow> (\<exists>a \<in> set (af_accounts users). password_admin a))"

lemma of_type_simps [simp]:
  "of_type t [] = []"
  "of_type t (i # is) = (if id_type i = t then i # of_type t is else of_type t is)"
  "of_type t (xs @ ys) = of_type t xs @ of_type t ys"
  by (simp_all add: of_type_def)

lemma set_of_type [simp]: "set (of_type t is) = {i \<in> set is. id_type i = t}"
  by (simp add: of_type_def)

lemma usernames_simps [simp]:
  "usernames P [] = []"
  "usernames P (i # is) = (if id_type i = ''password'' then [folded P (id_username i)] else []) @ usernames P is"
  "usernames P (xs @ ys) = usernames P xs @ usernames P ys"
  by (simp_all add: usernames_def)

lemma emails_simps [simp]:
  "emails P [] = []"
  "emails P (i # is) =
     (if id_type i = ''password'' \<and> folded P (id_email i) \<noteq> [] then [folded P (id_email i)] else []) @ emails P is"
  "emails P (xs @ ys) = emails P xs @ emails P ys"
  by (simp_all add: emails_def)

lemma subjects_simps [simp]:
  "subjects [] = []"
  "subjects (i # is) = (if id_type i = ''google'' then [id_subject i] else []) @ subjects is"
  "subjects (xs @ ys) = subjects xs @ subjects ys"
  by (simp_all add: subjects_def)

lemma all_identities_simps [simp]:
  "all_identities [] = []" "all_identities (a # as) = ac_identities a @ all_identities as"
  by (simp_all add: all_identities_def)

section \<open>The loops decide it\<close>

lemma find_not_None: "find (\<lambda>x. \<not> p x) xs = None \<longleftrightarrow> (\<forall>x \<in> set xs. p x)"
  by (auto simp: find_None_iff)

lemma find_outside: "find (\<lambda>x. x \<notin> R) xs = Some x \<Longrightarrow> \<not> set xs \<subseteq> R"
  unfolding find_Some_iff by (metis nth_mem subsetD)

lemma check_roles_iff:
  "check_roles P seen rs = Inr ids \<longleftrightarrow>
     (\<forall>r \<in> set rs. role_ok P r) \<and> distinct (map ro_id rs) \<and> seen \<inter> ro_id ` set rs = {} \<and>
     ids = seen \<union> ro_id ` set rs"
proof (induction rs arbitrary: seen)
  case Nil
  show ?case by auto
next
  case (Cons r rs)
  show ?case
  proof (cases "find (\<lambda>c. \<not> known_capability P c) (ro_caps r)")
    case None
    then have "\<forall>c \<in> set (ro_caps r). known_capability P c" by (simp add: find_not_None)
    then show ?thesis using None by (auto simp: Cons.IH role_ok_def)
  next
    case (Some c)
    then have "\<not> (\<forall>c \<in> set (ro_caps r). known_capability P c)" by (metis find_not_None option.distinct(1))
    then have "\<not> role_ok P r" by (auto simp: role_ok_def)
    then show ?thesis using Some by auto
  qed
qed

text \<open>The keys of \<open>google\<close> subjects, and what a list of identities adds to the maps.\<close>

definition google_key :: "string \<Rightarrow> string" where
  "google_key s = ''google'' @ CHR 0x00 # s"

definition grown :: "account_policy \<Rightarrow> seen_maps \<Rightarrow> identity list \<Rightarrow> seen_maps" where
  "grown P s is = \<lparr>sn_identities = sn_identities s \<union> id_id ` set is,
     sn_usernames = sn_usernames s \<union> set (usernames P is),
     sn_emails = sn_emails s \<union> set (emails P is),
     sn_subjects = sn_subjects s \<union> google_key ` set (subjects is)\<rparr>"

definition fresh :: "account_policy \<Rightarrow> seen_maps \<Rightarrow> identity list \<Rightarrow> bool" where
  "fresh P s is \<longleftrightarrow> sn_identities s \<inter> id_id ` set is = {} \<and> sn_usernames s \<inter> set (usernames P is) = {} \<and>
     sn_emails s \<inter> set (emails P is) = {} \<and> sn_subjects s \<inter> google_key ` set (subjects is) = {}"

lemma subject_key_google: "id_type i = ''google'' \<Longrightarrow> subject_key i = google_key (id_subject i)"
  by (simp add: subject_key_def google_key_def)

lemma google_key_inj [simp]: "google_key s = google_key t \<longleftrightarrow> s = t"
  by (simp add: google_key_def)

lemma check_identity_iff:
  "check_identity P i s = Inr s' \<longleftrightarrow> identity_ok P i \<and> fresh P s [i] \<and> s' = grown P s [i]"
  by (auto simp: check_identity_def check_password_def identity_ok_def fresh_def grown_def Let_def
      subject_key_google split: if_splits)

lemma identities_ok_Cons:
  "identities_ok P (i # is) \<longleftrightarrow> identity_ok P i \<and> identities_ok P is \<and> fresh P (grown P no_maps [i]) is"
  by (auto simp: identities_ok_def fresh_def grown_def no_maps_def inj_image_mem_iff inj_on_def)

lemma fresh_Cons: "fresh P s (i # is) \<longleftrightarrow> fresh P s [i] \<and> fresh P s is"
  by (auto simp: fresh_def)

lemma fresh_grown: "fresh P (grown P s [i]) is \<longleftrightarrow> fresh P s is \<and> fresh P (grown P no_maps [i]) is"
  by (auto simp: fresh_def grown_def no_maps_def)

lemma grown_grown: "grown P (grown P s xs) ys = grown P s (xs @ ys)"
  by (auto simp: grown_def)

lemma grown_Nil [simp]: "grown P s [] = s"
  by (simp add: grown_def)

lemma fresh_Nil [simp]: "fresh P s []"
  by (simp add: fresh_def)

lemma identities_ok_Nil [simp]: "identities_ok P []"
  by (simp add: identities_ok_def)

lemma check_identities_iff:
  "check_identities P is s = Inr s' \<longleftrightarrow> identities_ok P is \<and> fresh P s is \<and> s' = grown P s is"
proof (induction "is" arbitrary: s)
  case Nil
  show ?case by auto
next
  case (Cons i "is")
  show ?case
  proof (cases "identity_ok P i \<and> fresh P s [i]")
    case True
    then have "check_identity P i s = Inr (grown P s [i])" by (simp add: check_identity_iff)
    then show ?thesis using True
      by (simp add: Cons.IH identities_ok_Cons fresh_Cons [of P s i "is"] fresh_grown [of P s i "is"] grown_grown)
        blast
  next
    case False
    then obtain e where "check_identity P i s = Inl e"
      by (cases "check_identity P i s") (auto simp: check_identity_iff)
    then show ?thesis using False
      by (auto simp: identities_ok_Cons fresh_Cons [of P s i "is"])
  qed
qed

lemma identities_ok_append:
  "identities_ok P (xs @ ys) \<longleftrightarrow> identities_ok P xs \<and> identities_ok P ys \<and> fresh P (grown P no_maps xs) ys"
  by (auto simp: identities_ok_def fresh_def grown_def no_maps_def)

lemma fresh_append:
  "fresh P s (xs @ ys) \<and> fresh P (grown P no_maps xs) ys \<longleftrightarrow> fresh P s xs \<and> fresh P (grown P s xs) ys"
  by (auto simp: fresh_def grown_def no_maps_def)

lemma check_accounts_iff:
  "check_accounts P roles seen s n as = Inr m \<longleftrightarrow>
     (\<forall>a \<in> set as. account_ok roles a) \<and> distinct (map ac_id as) \<and> seen \<inter> ac_id ` set as = {} \<and>
     identities_ok P (all_identities as) \<and> fresh P s (all_identities as) \<and>
     m = n + length (filter password_admin as)"
proof (induction as arbitrary: seen s n)
  case Nil
  show ?case by auto
next
  case (Cons a as)
  let ?is = "ac_identities a"
  show ?case
  proof (cases "check_identities P ?is s")
    case (Inl e)
    then have "\<not> (identities_ok P ?is \<and> fresh P s ?is)"
      using check_identities_iff [of P ?is s "grown P s ?is"] by auto
    then show ?thesis using Inl
      by (auto simp: identities_ok_append fresh_def split: option.splits)
  next
    case (Inr s')
    then have "identities_ok P ?is" "fresh P s ?is" and s': "s' = grown P s ?is"
      by (simp_all add: check_identities_iff)
    then show ?thesis using Inr fresh_append [of P s ?is "all_identities as"]
      by (auto simp: Cons.IH account_ok_def identities_ok_append find_None_iff dest!: find_outside split: option.splits)
  qed
qed

lemma fresh_no_maps [simp]: "fresh P no_maps is"
  by (simp add: fresh_def no_maps_def)

section \<open>The claim\<close>

text \<open>\<open>ValidateAccounts\<close> accepts a pair of documents exactly when they are well formed: both have the
  policy's version; role ids are unique and not empty, their capabilities known, and an
  \<open>administrator\<close> role with exactly the capability \<open>*\<close> exists; account ids are unique and not empty,
  every account has a display name and only known roles; over all accounts the identities are
  complete for their type and unique by id, by folded username, by folded non-empty e-mail and by
  provider subject; and unless there is no account at all, some enabled administrator can log in
  with an enabled password identity.\<close>

theorem validate_accounts_iff:
  "validate_accounts users roles P = Inr () \<longleftrightarrow> accounts_valid P users roles"
proof -
  have none: "check_accounts P ids {} no_maps 0 (af_accounts users) = Inl e \<Longrightarrow>
      \<not> ((\<forall>a \<in> set (af_accounts users). account_ok ids a) \<and> distinct (map ac_id (af_accounts users)) \<and>
        identities_ok P (all_identities (af_accounts users)))" for ids e
    using check_accounts_iff [of P ids "{}" no_maps 0 "af_accounts users"] by auto
  show ?thesis
  proof (cases "roles_valid P roles")
    case True
    then have "check_roles P {} (rf_roles roles) = Inr (ro_id ` set (rf_roles roles))"
      by (simp add: check_roles_iff roles_valid_def)
    then show ?thesis using True
      by (auto simp: validate_accounts_def accounts_valid_def roles_valid_def check_accounts_iff filter_empty_conv
          dest: none split: sum.splits)
  next
    case False
    then have "validate_accounts users roles P \<noteq> Inr ()"
      using check_roles_iff [of P "{}" "rf_roles roles"]
      by (auto simp: validate_accounts_def roles_valid_def split: sum.splits)
    then show ?thesis using False by (simp add: accounts_valid_def)
  qed
qed

end
