(* ===== verification/Auth_Model_Laws.thy ===== *)
theory Auth_Model_Laws
  imports Auth_Model Auth_Accounts_Laws
begin

text \<open>
  The account manager as a machine: every command is one of a few kinds of step on memory and
  store; the documents stay valid, memory and a durable store agree, a recovery code is spent
  once, and a password login names a principal whose sessions are active.
\<close>

section \<open>Recovery codes do not matter to validity\<close>

definition strip :: "identity \<Rightarrow> identity" where
  "strip i = i\<lparr>id_recovery := []\<rparr>"

definition strip_account :: "account \<Rightarrow> account" where
  "strip_account a = a\<lparr>ac_identities := map strip (ac_identities a)\<rparr>"

lemma strip_simps [simp]:
  "id_id (strip i) = id_id i" "id_type (strip i) = id_type i" "id_enabled (strip i) = id_enabled i"
  "id_username (strip i) = id_username i" "id_email (strip i) = id_email i"
  "id_subject (strip i) = id_subject i" "id_password (strip i) = id_password i"
  "strip (i\<lparr>id_recovery := r\<rparr>) = strip i"
  by (simp_all add: strip_def)

lemma identities_ok_strip: "identities_ok P (map strip is) = identities_ok P is"
proof -
  have "of_type t (map strip is) = map strip (of_type t is)" for t
    by (induction "is") auto
  then have "usernames P (map strip is) = usernames P is" "emails P (map strip is) = emails P is"
    "subjects (map strip is) = subjects is"
    by (simp_all add: usernames_def emails_def subjects_def comp_def)
  then show ?thesis by (simp add: identities_ok_def comp_def identity_ok_def)
qed

lemma strip_account_simps [simp]:
  "ac_id (strip_account a) = ac_id a" "account_ok R (strip_account a) = account_ok R a"
  "password_admin (strip_account a) = password_admin a"
  "all_identities (map strip_account as) = map strip (all_identities as)"
  by (simp_all add: strip_account_def account_ok_def password_admin_def password_enabled_def
      all_identities_def map_concat comp_def)

lemma accounts_valid_strip:
  "accounts_valid P (u\<lparr>af_accounts := map strip_account as\<rparr>) roles = accounts_valid P (u\<lparr>af_accounts := as\<rparr>) roles"
  by (simp add: accounts_valid_def identities_ok_strip comp_def)

lemma take_from_identities_strip:
  "take_from_identities iid h is = Some is' \<Longrightarrow> map strip is' = map strip is"
  by (induction "is" arbitrary: is') (auto split: option.splits if_splits)

lemma take_from_accounts_strip:
  "take_from_accounts aid iid h as = Some as' \<Longrightarrow> map strip_account as' = map strip_account as"
  by (induction as arbitrary: as')
    (auto simp: strip_account_def dest: take_from_identities_strip split: option.splits if_splits)

lemma consumed_valid:
  assumes "take_from_accounts aid iid h (af_accounts u) = Some as" and "accounts_valid P u roles"
  shows "accounts_valid P (u\<lparr>af_accounts := as\<rparr>) roles"
proof -
  have "map strip_account as = map strip_account (af_accounts u)"
    by (rule take_from_accounts_strip [OF assms(1)])
  then show ?thesis using assms(2) accounts_valid_strip [of P as u roles]
      accounts_valid_strip [of P "af_accounts u" u roles] by simp
qed

section \<open>The kinds of step\<close>

inductive account_step :: "account_policy \<Rightarrow> 'w account_store \<Rightarrow> 'w \<times> model \<Rightarrow> 'w \<times> model \<Rightarrow> bool"
  for P :: account_policy and A :: "'w account_store" where
  same: "account_step P A s s"
| saved: "as_save_accounts A w u = (w', None) \<Longrightarrow>
    (accounts_valid P (md_users m) (md_roles m) \<longrightarrow> accounts_valid P u (md_roles m)) \<Longrightarrow>
    (af_accounts (md_users m) \<noteq> [] \<longrightarrow> af_accounts u \<noteq> []) \<Longrightarrow>
    account_step P A (w, m) (w', m\<lparr>md_users := u\<rparr>)"
| save_failed: "as_save_accounts A w u = (w', Some e) \<Longrightarrow> account_step P A (w, m) (w', m)"
| roles_saved: "as_save_roles A w r = (w', None) \<Longrightarrow> accounts_valid P (md_users m) r \<Longrightarrow>
    account_step P A (w, m) (w', m\<lparr>md_roles := r\<rparr>)"
| roles_failed: "as_save_roles A w r = (w', Some e) \<Longrightarrow> account_step P A (w, m) (w', m)"
| reloaded: "as_load_accounts A w = Inr (md_users m') \<Longrightarrow> as_load_roles A w = Inr (md_roles m') \<Longrightarrow>
    accounts_valid P (md_users m') (md_roles m') \<Longrightarrow> account_step P A (w, m) (w, m')"

inductive_cases account_stepE: "account_step P A s s'"

lemma load_documents_ok:
  "load_documents P A w = Inr m \<longleftrightarrow>
     as_load_accounts A w = Inr (md_users m) \<and> as_load_roles A w = Inr (md_roles m) \<and>
     accounts_valid P (md_users m) (md_roles m)"
  by (cases m) (auto simp: load_documents_def validate_accounts_iff [symmetric] split: sum.splits)

lemma reload_step: "account_step P A s (fst (reload P A s))"
  by (cases s) (auto simp: reload_def load_documents_ok split: sum.splits intro: account_step.intros)

lemma commit_step:
  assumes "as \<noteq> []"
  shows "account_step P A s (fst (commit_users P A s as reply))"
proof (cases "validate_accounts ((md_users (snd s))\<lparr>af_accounts := as\<rparr>) (md_roles (snd s)) P")
  case (Inl e)
  then show ?thesis by (simp add: commit_users_def same)
next
  case (Inr u)
  then have "accounts_valid P ((md_users (snd s))\<lparr>af_accounts := as\<rparr>) (md_roles (snd s))"
    by (simp add: validate_accounts_iff)
  then show ?thesis using Inr assms
    by (cases s) (auto simp: commit_users_def Let_def split: prod.splits option.splits intro: saved save_failed)
qed

lemma replying_simps [simp]:
  "fst (replying f r) = fst r"
  "snd (replying f r) = Inl e \<longleftrightarrow> snd r = Inl e"
  by (simp_all add: replying_def) (cases "snd r"; simp)

lemma update_first_ne: "update_first p f xs = Some ys \<Longrightarrow> ys \<noteq> []"
  by (cases xs) (auto split: if_splits)

lemma selects_ne: "selects aid sel as \<Longrightarrow> map_identities aid sel' f as \<noteq> []"
  by (auto simp: selects_def map_identities_def)

lemma first_index_Some: "first_index p xs = Some k \<Longrightarrow> k < length xs \<and> p (xs ! k)"
  by (induction xs arbitrary: k) (auto split: if_splits)

lemma create_account_step: "account_step P A s (fst (create_account L P A rnd n u e p rs s))"
  by (auto simp: create_account_def Let_def split: option.splits intro: same commit_step)

lemma set_role_step: "account_step P A s (fst (set_role P A i n cs b s))"
  by (cases s) (auto simp: set_role_def Let_def validate_accounts_iff [symmetric] split: sum.splits prod.splits option.splits
      intro: account_step.intros)

lemma take_from_accounts_ne: "take_from_accounts aid iid h as = Some as' \<Longrightarrow> as' \<noteq> []"
  by (cases as) (auto split: option.splits)

lemma consume_step: "account_step P A s (fst (consume_recovery_code A aid iid h s))"
proof (cases "take_from_accounts aid iid h (accounts s)")
  case None
  then show ?thesis by (simp add: consume_recovery_code_def same)
next
  case (Some as)
  then have "accounts_valid P (md_users (snd s)) (md_roles (snd s)) \<longrightarrow>
      accounts_valid P ((md_users (snd s))\<lparr>af_accounts := as\<rparr>) (md_roles (snd s))" and "as \<noteq> []"
    by (auto simp: accounts_def dest: consumed_valid take_from_accounts_ne)
  then show ?thesis using Some
    by (cases s) (auto simp: consume_recovery_code_def Let_def split: prod.splits option.splits intro: saved save_failed)
qed

lemma exec_account_step: "account_step P A s (fst (exec_account L P A s c))"
proof (cases c)
  case (CreateInitial rnd n u e p)
  then show ?thesis by (simp add: create_initial_administrator_def same create_account_step)
next
  case (AddIdentity b a i)
  then show ?thesis by (auto simp: add_identity_def Let_def split: option.splits intro: same commit_step dest: update_first_ne)
next
  case (AddPasswordIdentity rnd a u e p)
  then show ?thesis
    by (auto simp: add_password_identity_def add_identity_def Let_def split: option.splits
        intro: same commit_step dest: update_first_ne)
next
  case (UpdateAccount i n b rs)
  then show ?thesis by (auto simp: update_account_def split: option.splits intro: same commit_step dest: update_first_ne)
next
  case (SetPassword salt a i p)
  then show ?thesis
    by (auto simp: set_password_def Let_def split: option.splits intro: same commit_step dest: selects_ne)
next
  case (SetTOTP a i b hs)
  then show ?thesis by (auto simp: set_identity_totp_def Let_def intro: same commit_step dest: selects_ne)
next
  case (SetEnabled a i b)
  then show ?thesis by (auto simp: set_identity_enabled_def Let_def intro: same commit_step dest: selects_ne)
next
  case (RemoveIdentity a i)
  then show ?thesis
    by (auto simp: remove_identity_def Let_def split: option.splits intro!: same commit_step dest: first_index_Some)
next
  case (DeleteAccount a)
  then show ?thesis by (auto simp: delete_account_def Let_def split: option.splits intro: same commit_step)
qed (simp_all add: reload_step create_account_step consume_step set_role_step)

section \<open>Errors change no document in memory\<close>

lemma commit_fail: "commit_users P A s as reply = (s', Inl e) \<Longrightarrow> snd s' = snd s"
  by (auto simp: commit_users_def Let_def split: sum.splits prod.splits option.splits)

lemmas account_op_defs = reload_def create_account_def create_initial_administrator_def update_account_def
  set_password_def add_identity_def add_password_identity_def set_identity_totp_def set_identity_enabled_def
  remove_identity_def delete_account_def set_role_def Let_def

lemma replying_Inl: "replying f r = (s', Inl e) \<longleftrightarrow> r = (s', Inl e)"
  by (cases r; cases "snd r") (auto simp: replying_def)

lemma exec_account_fail: "exec_account L P A s c = (s', Inl e) \<Longrightarrow> snd s' = snd s"
  by (cases c)
    (auto simp: account_op_defs replying_Inl map_prod_def split: sum.splits prod.splits option.splits if_splits
      dest: commit_fail)

section \<open>Invariants\<close>

definition model_valid :: "account_policy \<Rightarrow> model \<Rightarrow> bool" where
  "model_valid P m \<longleftrightarrow> accounts_valid P (md_users m) (md_roles m)"

lemma account_step_valid: "account_step P A s s' \<Longrightarrow> model_valid P (snd s) \<Longrightarrow> model_valid P (snd s')"
  by (induction rule: account_step.induct) (auto simp: model_valid_def)

interpretation accounts: guarded_view "exec_account L P A" snd "model_valid P"
  for L P and A :: "'w account_store"
proof
  fix s c s' e
  assume "exec_account L P A s c = (s', Inl e)"
  then show "snd s' = snd s" by (rule exec_account_fail)
next
  fix s c s' r
  assume "model_valid P (snd s)" "exec_account L P A s c = (s', Inr r)"
  then show "model_valid P (snd s')" using account_step_valid [OF exec_account_step [of P A s L c]] by simp
qed

text \<open>A store that keeps what it was given and nothing else.\<close>

definition durable_store :: "'w account_store \<Rightarrow> bool" where
  "durable_store A \<longleftrightarrow>
     (\<forall>w u w'. as_save_accounts A w u = (w', None) \<longrightarrow>
        as_load_accounts A w' = Inr u \<and> as_load_roles A w' = as_load_roles A w) \<and>
     (\<forall>w r w'. as_save_roles A w r = (w', None) \<longrightarrow>
        as_load_roles A w' = Inr r \<and> as_load_accounts A w' = as_load_accounts A w) \<and>
     (\<forall>w u w' e. as_save_accounts A w u = (w', Some e) \<longrightarrow>
        as_load_accounts A w' = as_load_accounts A w \<and> as_load_roles A w' = as_load_roles A w) \<and>
     (\<forall>w r w' e. as_save_roles A w r = (w', Some e) \<longrightarrow>
        as_load_accounts A w' = as_load_accounts A w \<and> as_load_roles A w' = as_load_roles A w)"

definition in_sync :: "'w account_store \<Rightarrow> 'w \<times> model \<Rightarrow> bool" where
  "in_sync A s \<longleftrightarrow> as_load_accounts A (fst s) = Inr (md_users (snd s)) \<and> as_load_roles A (fst s) = Inr (md_roles (snd s))"

definition set_up :: "'w \<times> model \<Rightarrow> bool" where
  "set_up s \<longleftrightarrow> accounts s \<noteq> []"

lemma account_step_sync:
  "account_step P A s s' \<Longrightarrow> durable_store A \<Longrightarrow> in_sync A s \<Longrightarrow> in_sync A s' \<and> (set_up s \<longrightarrow> set_up s')"
  unfolding in_sync_def durable_store_def set_up_def accounts_def
  by (induction rule: account_step.induct) (simp_all, metis+)

lemma run_sync:
  assumes "durable_store A" and "in_sync A s"
  shows "in_sync A (run_all (exec_account L P A) s cs) \<and> (set_up s \<longrightarrow> set_up (run_all (exec_account L P A) s cs))"
  using assms
proof (induction cs arbitrary: s)
  case (Cons c cs)
  then show ?case using account_step_sync [OF exec_account_step [of P A s L c]] by auto
qed simp

text \<open>\<open>Reload\<close> loads and validates before it takes the lock. When another command saves in between,
  \<open>Reload\<close> installs the older documents: they are valid, and no longer those of the store.\<close>

lemma overlapping_reload_stale:
  assumes "load_documents P A w = Inr old" and "durable_store A"
    and "exec_account L P A (w, old) c = (s', Inr r)" and "snd s' \<noteq> old"
  shows "accounts_valid P (md_users old) (md_roles old) \<and> in_sync A s' \<and> \<not> in_sync A (fst s', old)"
proof -
  have l: "in_sync A (w, old)" "accounts_valid P (md_users old) (md_roles old)"
    using assms(1) by (simp_all add: in_sync_def load_documents_ok)
  have "in_sync A s'"
    using account_step_sync [OF exec_account_step [of P A "(w, old)" L c] assms(2) l(1)] assms(3) by simp
  moreover have "md_users (snd s') \<noteq> md_users old \<or> md_roles (snd s') \<noteq> md_roles old"
    using assms(4) by (cases "snd s'"; cases old) auto
  ultimately show ?thesis using l(2) by (auto simp: in_sync_def)
qed

text \<open>C18. Whatever commands the account manager runs and whatever its store answers, its documents in
  memory stay well formed, so that once an account exists an enabled administrator with an enabled
  password identity exists; a command that fails leaves the documents in memory as they were. With a
  durable store memory and store agree after every command, an application that was set up stays set
  up, and its first-administrator command is refused for good. Commands run one after another; a
  \<open>Reload\<close> that overlaps another command keeps the documents valid but may put older ones in
  memory (\<open>overlapping_reload_stale\<close>).\<close>

theorem accounts_stay_valid:
  fixes A :: "'w account_store"
  assumes "new_model P (Some A) w = Inr m" and "s = run_all (exec_account L P A) (w, m) cs"
  shows "accounts_valid P (md_users (snd s)) (md_roles (snd s)) \<and>
    (exec_account L P A s c = (s', Inl e) \<longrightarrow> snd s' = snd s) \<and>
    (durable_store A \<longrightarrow> in_sync A s \<and> (af_accounts (md_users m) \<noteq> [] \<longrightarrow>
      create_initial_administrator L P A rnd n u mail pw s = (s, Inl SetupComplete)))"
proof -
  have l: "load_documents P A w = Inr m" using assms(1) by (simp add: new_model_def)
  then have "model_valid P (snd (w, m))" by (simp add: model_valid_def load_documents_ok)
  then have "model_valid P (snd s)" unfolding assms(2) by (rule accounts.run_keeps)
  moreover have "in_sync A (w, m)" using l by (simp add: in_sync_def load_documents_ok)
  ultimately show ?thesis
    using run_sync [of A "(w, m)" L P cs] accounts.fail_view [of L P A s c s' e] assms(2)
    by (auto simp: model_valid_def create_initial_administrator_def set_up_def accounts_def)
qed

section \<open>Recovery codes\<close>

text \<open>How often a hash is stored for an identity.\<close>

definition identity_codes :: "string \<Rightarrow> string \<Rightarrow> identity list \<Rightarrow> nat" where
  "identity_codes iid h is = sum_list (map (\<lambda>i. if id_id i = iid then count_list (id_recovery i) h else 0) is)"

fun codes :: "string \<times> string \<times> string \<Rightarrow> account list \<Rightarrow> nat" where
  "codes k [] = 0"
| "codes (aid, iid, h) (a # as) =
     (if ac_id a = aid then identity_codes iid h (ac_identities a) else 0) + codes (aid, iid, h) as"

lemma identity_codes_simps [simp]:
  "identity_codes iid h [] = 0"
  "identity_codes iid h (i # is) =
     (if id_id i = iid then count_list (id_recovery i) h else 0) + identity_codes iid h is"
  by (simp_all add: identity_codes_def)

lemma drop_hash_count:
  "drop_hash h hs = Some r \<Longrightarrow> count_list hs x = count_list r x + (if x = h then 1 else 0)"
  by (induction hs arbitrary: r) (auto split: if_splits)

lemma drop_hash_None: "drop_hash h hs = None \<Longrightarrow> count_list hs h = 0"
  by (induction hs) (auto split: if_splits)

lemma take_from_identities_count:
  "take_from_identities iid h is = Some is' \<Longrightarrow>
   identity_codes jid x is = identity_codes jid x is' + (if jid = iid \<and> x = h then 1 else 0)"
proof (induction "is" arbitrary: is')
  case (Cons i "is")
  show ?case
  proof (cases "if id_id i = iid then drop_hash h (id_recovery i) else None")
    case None
    then show ?thesis using Cons by auto
  next
    case (Some r)
    then have "id_id i = iid" "drop_hash h (id_recovery i) = Some r" "is' = i\<lparr>id_recovery := r\<rparr> # is"
      using Cons.prems by (auto split: if_splits)
    then show ?thesis using drop_hash_count [of h "id_recovery i" r x] by simp
  qed
qed simp

lemma take_from_identities_None: "take_from_identities iid h is = None \<Longrightarrow> identity_codes iid h is = 0"
  by (induction "is") (auto split: option.splits if_splits dest: drop_hash_None)

lemma take_from_accounts_count:
  "take_from_accounts aid iid h as = Some as' \<Longrightarrow>
   codes (bid, jid, x) as = codes (bid, jid, x) as' + (if (bid, jid, x) = (aid, iid, h) then 1 else 0)"
proof (induction as arbitrary: as')
  case (Cons a as)
  show ?case
  proof (cases "if ac_id a = aid then take_from_identities iid h (ac_identities a) else None")
    case None
    then show ?thesis using Cons by auto
  next
    case (Some js)
    then have i: "ac_id a = aid" "take_from_identities iid h (ac_identities a) = Some js"
      "as' = a\<lparr>ac_identities := js\<rparr> # as" using Cons.prems by (auto split: if_splits)
    then show ?thesis using take_from_identities_count [OF i(2), of jid x] by simp
  qed
qed simp

lemma take_from_accounts_None: "take_from_accounts aid iid h as = None \<Longrightarrow> codes (aid, iid, h) as = 0"
  by (induction as) (auto split: option.splits if_splits dest: take_from_identities_None)

text \<open>A sequence of attempts, and what each returned.\<close>

fun attempts :: "'w account_store \<Rightarrow> 'w \<times> model \<Rightarrow> (string \<times> string \<times> string) list \<Rightarrow> ('w \<times> model) \<times> bool list" where
  "attempts A s [] = (s, [])"
| "attempts A s ((aid, iid, h) # ks) =
     (case consume_recovery_code A aid iid h s of
        (s1, b) \<Rightarrow> (case attempts A s1 ks of (s2, bs) \<Rightarrow> (s2, b # bs)))"

definition accepted :: "'k \<Rightarrow> 'k list \<Rightarrow> bool list \<Rightarrow> nat" where
  "accepted k ks bs = length (filter (\<lambda>(x, b). x = k \<and> b) (zip ks bs))"

lemma consume_codes:
  assumes "consume_recovery_code A aid iid h s = (s', b)"
  shows "codes k (accounts s) = codes k (accounts s') + (if b \<and> k = (aid, iid, h) then 1 else 0) \<and>
    (\<not> b \<longrightarrow> snd s' = snd s) \<and> (b \<longrightarrow> 0 < codes (aid, iid, h) (accounts s))"
proof (cases "take_from_accounts aid iid h (accounts s)")
  case None
  then show ?thesis using assms by (auto simp: consume_recovery_code_def)
next
  case (Some as)
  then have "codes k (accounts s) = codes k as + (if k = (aid, iid, h) then 1 else 0)"
    "codes (aid, iid, h) (accounts s) = codes (aid, iid, h) as + 1"
    by (cases k; simp add: take_from_accounts_count [OF Some])+
  then show ?thesis using assms Some
    by (auto simp: consume_recovery_code_def accounts_def Let_def split: prod.splits option.splits)
qed

text \<open>C19. A recovery code is good for one login. In every sequence of attempts, against any store, the
  accepted attempts for an account, identity and hash and the copies of the hash that are left add
  up to the copies stored before; a rejected attempt leaves the documents as they were, whether the
  hash was unknown or the store failed; and an attempt is accepted when a copy is stored and the
  store saves.\<close>

theorem recovery_code_single_use:
  assumes "attempts A s ks = (s', bs)"
  shows "accepted k ks bs + codes k (accounts s') = codes k (accounts s) \<and>
    (True \<notin> set bs \<longrightarrow> snd s' = snd s) \<and>
    ((\<forall>w u. snd (as_save_accounts A w u) = None) \<longrightarrow>
      snd (consume_recovery_code A aid iid h s) = (0 < codes (aid, iid, h) (accounts s)))"
proof (intro conjI impI)
  have "accepted k ks bs + codes k (accounts s') = codes k (accounts s) \<and> (True \<notin> set bs \<longrightarrow> snd s' = snd s)"
    using assms
  proof (induction ks arbitrary: s bs)
    case (Cons x ks)
    obtain aid iid h where x: "x = (aid, iid, h)" by (cases x)
    obtain s1 b where c: "consume_recovery_code A aid iid h s = (s1, b)" by fastforce
    obtain s2 bs' where r: "attempts A s1 ks = (s2, bs')" by fastforce
    with Cons.prems c x have "s2 = s'" "bs = b # bs'" by auto
    then show ?case using Cons.IH [of s1 bs'] r consume_codes [OF c, of k] x
      by (auto simp: accepted_def)
  qed (simp add: accepted_def)
  then show "accepted k ks bs + codes k (accounts s') = codes k (accounts s)"
    and "True \<notin> set bs \<Longrightarrow> snd s' = snd s" by simp_all
  assume "\<forall>w u. snd (as_save_accounts A w u) = None"
  then show "snd (consume_recovery_code A aid iid h s) = (0 < codes (aid, iid, h) (accounts s))"
    using consume_codes [of A aid iid h s "fst (consume_recovery_code A aid iid h s)"
        "snd (consume_recovery_code A aid iid h s)"] take_from_accounts_None [of aid iid h "accounts s"]
    by (cases "take_from_accounts aid iid h (accounts s)")
      (auto simp: consume_recovery_code_def Let_def split: prod.split option.split, metis snd_conv option.distinct(1))
qed

section \<open>Logins and active principals\<close>

text \<open>What the session store expects of its account provider.\<close>

locale account_provider =
  fixes ok :: "'m \<Rightarrow> bool"
    and login :: "'m \<Rightarrow> string \<Rightarrow> string \<Rightarrow> (account \<times> identity) option"
    and active :: "'m \<Rightarrow> string \<Rightarrow> string \<Rightarrow> bool"
  assumes login_active: "ok m \<Longrightarrow> login m u p = Some (a, i) \<Longrightarrow> active m (ac_id a) (id_id i)"

lemma identity_pairs_mem:
  "(a, i) \<in> set (identity_pairs as) \<longleftrightarrow> a \<in> set as \<and> i \<in> set (ac_identities a)"
  by (auto simp: identity_pairs_def)

lemma find_mem: "find q xs = Some x \<Longrightarrow> x \<in> set xs \<and> q x"
  by (induction xs) (auto split: if_splits)

lemma find_unique:
  "distinct (map f xs) \<Longrightarrow> x \<in> set xs \<Longrightarrow> find (\<lambda>y. f y = f x) xs = Some x"
  by (induction xs) (auto simp: rev_image_eqI)

lemma distinct_identities:
  "distinct (map id_id (all_identities as)) \<Longrightarrow> a \<in> set as \<Longrightarrow> distinct (map id_id (ac_identities a))"
  by (induction as) auto

lemma principal_active_unique:
  assumes "distinct (map ac_id as)" and "a \<in> set as" and "distinct (map id_id (ac_identities a))"
    and "i \<in> set (ac_identities a)"
  shows "principal_active (ac_id a) (id_id i) as \<longleftrightarrow> ac_enabled a \<and> id_enabled i"
  using assms(1,2)
proof (induction as)
  case (Cons b as)
  have none: "principal_active (ac_id b) iid as = False" if "ac_id b \<notin> ac_id ` set as" for iid
    using that by (induction as) auto
  show ?case
  proof (cases "b = a")
    case True
    then show ?thesis using Cons.prems none find_unique [OF assms(3,4)] by auto
  next
    case False
    then have "a \<in> set as" "ac_id b \<noteq> ac_id a" using Cons.prems by auto
    then show ?thesis using Cons by auto
  qed
qed simp

lemma login_some:
  "authenticate_password L m u p = Some (a, i) \<Longrightarrow>
     a \<in> set (af_accounts (md_users m)) \<and> i \<in> set (ac_identities a) \<and> ac_enabled a \<and> id_enabled i \<and>
     id_type i = ''password'' \<and> verify_password (al_mac L) (id_password i) p \<and>
     (al_equal_fold L (id_username i) (trim_space u) \<or> al_equal_fold L (id_email i) (trim_space u))"
  by (auto simp: authenticate_password_def Let_def identity_pairs_mem split: if_splits dest!: find_mem)

lemma valid_unique:
  "model_valid P m \<Longrightarrow> distinct (map ac_id (af_accounts (md_users m))) \<and>
     (a \<in> set (af_accounts (md_users m)) \<longrightarrow> distinct (map id_id (ac_identities a)))"
  by (auto simp: model_valid_def accounts_valid_def identities_ok_def distinct_identities)

interpretation manager: account_provider "model_valid P" "authenticate_password L" session_principal_active for P L
proof
  fix m u p a i
  assume v: "model_valid P m" and l: "authenticate_password L m u p = Some (a, i)"
  from login_some [OF l] show "session_principal_active m (ac_id a) (id_id i)"
    using valid_unique [OF v, of a] by (simp add: session_principal_active_def principal_active_unique)
qed

lemma principal_active_mem:
  "principal_active aid iid as \<Longrightarrow> \<exists>a \<in> set as. ac_id a = aid \<and> ac_enabled a \<and>
     (\<exists>i \<in> set (ac_identities a). id_id i = iid \<and> id_enabled i)"
  by (induction as) (auto split: if_splits option.splits dest!: find_mem)

lemma principal_active_iff:
  assumes "model_valid P m"
  shows "session_principal_active m aid iid \<longleftrightarrow>
    (\<exists>a \<in> set (af_accounts (md_users m)). ac_id a = aid \<and> ac_enabled a \<and>
      (\<exists>i \<in> set (ac_identities a). id_id i = iid \<and> id_enabled i))"
  using principal_active_mem [of aid iid "af_accounts (md_users m)"] valid_unique [OF assms]
  by (auto simp: session_principal_active_def principal_active_unique)

lemma commit_ok:
  "commit_users P A s as reply = (s', Inr r) \<Longrightarrow>
     af_accounts (md_users (snd s')) = as \<and> md_roles (snd s') = md_roles (snd s) \<and> r = reply \<and> model_valid P (snd s')"
  by (auto simp: commit_users_def Let_def model_valid_def validate_accounts_iff [symmetric]
      split: sum.splits prod.splits option.splits)

lemma update_first_other:
  "update_first (\<lambda>x. g x = i) f xs = Some ys \<Longrightarrow> distinct (map g xs) \<Longrightarrow> y \<in> set ys \<Longrightarrow>
   g y = i \<Longrightarrow> \<exists>x. y = f x"
proof (induction xs arbitrary: ys)
  case (Cons x xs)
  show ?case
  proof (cases "g x = i")
    case True
    then have "ys = f x # xs" "i \<notin> g ` set xs" using Cons.prems by auto
    then show ?thesis using Cons.prems(3,4) by auto
  next
    case False
    then show ?thesis using Cons by auto
  qed
qed simp

lemma map_identities_mem:
  assumes "b \<in> set (map_identities aid sel f as)" and "ac_id b = aid" and "j \<in> set (ac_identities b)"
  shows "\<exists>i. j = (if sel i then f i else i)"
proof -
  from assms(1) obtain a where b: "b = (if ac_id a = aid
      then a\<lparr>ac_identities := map (\<lambda>i. if sel i then f i else i) (ac_identities a)\<rparr> else a)"
    unfolding map_identities_def set_map by blast
  show ?thesis
  proof (cases "ac_id a = aid")
    case True
    then have "j \<in> (\<lambda>i. if sel i then f i else i) ` set (ac_identities a)" using b assms(3) by simp
    then show ?thesis by blast
  next
    case False
    then show ?thesis using b assms(2) by simp
  qed
qed

lemma remove_nth_simps [simp]:
  "remove_nth 0 (x # xs) = xs" "remove_nth (Suc k) (x # xs) = x # remove_nth k xs" "remove_nth k [] = []"
  by (simp_all add: remove_nth_def)

lemma remove_nth_subset: "set (remove_nth k xs) \<subseteq> set xs"
  by (auto simp: remove_nth_def dest: in_set_takeD in_set_dropD)

lemma remove_nth_gone:
  "distinct (map g xs) \<Longrightarrow> k < length xs \<Longrightarrow> g (xs ! k) \<notin> g ` set (remove_nth k xs)"
proof (induction xs arbitrary: k)
  case (Cons x xs)
  show ?case
  proof (cases k)
    case 0
    then show ?thesis using Cons.prems by simp
  next
    case (Suc j)
    then have "g (xs ! j) \<in> g ` set xs" using Cons.prems by simp
    then have "g (xs ! j) \<noteq> g x" using Cons.prems by (metis distinct.simps(2) list.simps(9) list.set_map)
    then show ?thesis using Suc Cons by auto
  qed
qed simp

text \<open>With valid documents a password login returns an enabled password identity of an enabled
  account whose username or e-mail matches and whose hash verifies the password, and the session
  check accepts exactly the pairs of an enabled account and an enabled identity of it, so every
  login starts active. Disabling the identity, disabling the account or deleting the account ends
  that at once for all their sessions.\<close>

theorem login_active_until_disabled:
  assumes "model_valid P (snd s)"
  shows "(authenticate_password L (snd s) u p = Some (a, i) \<longrightarrow>
      session_principal_active (snd s) (ac_id a) (id_id i) \<and> ac_enabled a \<and> id_enabled i \<and>
      id_type i = ''password'' \<and> verify_password (al_mac L) (id_password i) p \<and>
      (al_equal_fold L (id_username i) (trim_space u) \<or> al_equal_fold L (id_email i) (trim_space u))) \<and>
    (session_principal_active (snd s) aid iid \<longleftrightarrow>
      (\<exists>a \<in> set (accounts s). ac_id a = aid \<and> ac_enabled a \<and>
        (\<exists>i \<in> set (ac_identities a). id_id i = iid \<and> id_enabled i))) \<and>
    (set_identity_enabled P A aid iid False s = (s', Inr r) \<longrightarrow> \<not> session_principal_active (snd s') aid iid) \<and>
    (update_account P A aid n False rs s = (s', Inr r) \<longrightarrow> \<not> session_principal_active (snd s') aid iid) \<and>
    (delete_account P A aid s = (s', Inr is) \<longrightarrow> \<not> session_principal_active (snd s') aid iid)"
proof (intro conjI impI)
  assume l: "authenticate_password L (snd s) u p = Some (a, i)"
  show "session_principal_active (snd s) (ac_id a) (id_id i)" by (rule manager.login_active [OF assms l])
  show "ac_enabled a" "id_enabled i" "id_type i = ''password''" "verify_password (al_mac L) (id_password i) p"
    "al_equal_fold L (id_username i) (trim_space u) \<or> al_equal_fold L (id_email i) (trim_space u)"
    using login_some [OF l] by simp_all
next
  show "session_principal_active (snd s) aid iid \<longleftrightarrow>
      (\<exists>a \<in> set (accounts s). ac_id a = aid \<and> ac_enabled a \<and>
        (\<exists>i \<in> set (ac_identities a). id_id i = iid \<and> id_enabled i))"
    using principal_active_iff [OF assms] by (simp add: accounts_def)
next
  assume "set_identity_enabled P A aid iid False s = (s', Inr r)"
  then have "commit_users P A s (map_identities aid (\<lambda>i. id_id i = iid) (\<lambda>i. i\<lparr>id_enabled := False\<rparr>)
      (accounts s)) () = (s', Inr r)"
    by (simp add: set_identity_enabled_def Let_def split: if_splits)
  note m = commit_ok [OF this, THEN conjunct1]
  have "\<not> id_enabled j" if "b \<in> set (af_accounts (md_users (snd s')))" "ac_id b = aid"
    "j \<in> set (ac_identities b)" "id_id j = iid" for b j
  proof -
    note prems = that
    obtain i where "j = (if id_id i = iid then i\<lparr>id_enabled := False\<rparr> else i)"
      using map_identities_mem [OF prems(1) [unfolded m] prems(2,3)] by blast
    with prems(4) show ?thesis by (cases "id_id i = iid") auto
  qed
  then show "\<not> session_principal_active (snd s') aid iid"
    using principal_active_mem unfolding session_principal_active_def by blast
next
  assume d: "update_account P A aid n False rs s = (s', Inr r)"
  define f :: "account \<Rightarrow> account" where "f = (\<lambda>a. a\<lparr>ac_name := trim_space n, ac_enabled := False, ac_roles := dedupe_strings rs\<rparr>)"
  from d have "(case update_first (\<lambda>a. ac_id a = aid) f (accounts s) of None \<Rightarrow> (s, Inl AccountNotFound)
      | Some as \<Rightarrow> commit_users P A s as ()) = (s', Inr r)"
    unfolding update_account_def f_def .
  then have "update_first (\<lambda>a. ac_id a = aid) f (accounts s) = Some (af_accounts (md_users (snd s')))"
    by (cases "update_first (\<lambda>a. ac_id a = aid) f (accounts s)") (simp, use commit_ok in fastforce)
  moreover have "distinct (map ac_id (accounts s))" using valid_unique [OF assms] by (simp add: accounts_def)
  ultimately have "\<exists>x. b = f x" if "b \<in> set (af_accounts (md_users (snd s')))" "ac_id b = aid" for b
    using that by (rule update_first_other)
  then show "\<not> session_principal_active (snd s') aid iid"
    using principal_active_mem [of aid iid] unfolding session_principal_active_def f_def by fastforce
next
  assume d: "delete_account P A aid s = (s', Inr is)"
  then obtain k where k: "first_index (\<lambda>a. ac_id a = aid) (accounts s) = Some k"
    and s': "af_accounts (md_users (snd s')) = remove_nth k (accounts s)"
    by (auto simp: delete_account_def Let_def split: option.splits if_splits dest: commit_ok)
  have "k < length (accounts s)" "ac_id (accounts s ! k) = aid" using first_index_Some [OF k] by simp_all
  moreover have "distinct (map ac_id (accounts s))" using valid_unique [OF assms] by (simp add: accounts_def)
  ultimately have "aid \<notin> ac_id ` set (remove_nth k (accounts s))" using remove_nth_gone by metis
  then show "\<not> session_principal_active (snd s') aid iid"
    using s' by (auto simp: session_principal_active_def dest: principal_active_mem)
qed

section \<open>An application with one administrator\<close>

definition ex_policy :: account_policy where
  "ex_policy = \<lparr>ap_version = 1, ap_product = [], ap_known = None, ap_lower = (\<lambda>s. s)\<rparr>"

definition ex_ann :: account where
  "ex_ann = \<lparr>ac_id = ''a'', ac_name = ''Ann'', ac_enabled = True, ac_roles = [administrator],
     ac_identities = [\<lparr>id_id = ''i'', id_type = ''password'', id_username = ''ann'', id_email = [], id_subject = [],
       id_password = ''h'', id_totp = True, id_recovery = [''c1'', ''c2''], id_enabled = True\<rparr>],
     ac_created = 0\<rparr>"

definition ex_documents :: model where
  "ex_documents = \<lparr>md_users = \<lparr>af_version = 1, af_accounts = [ex_ann]\<rparr>,
     md_roles = \<lparr>rf_version = 1, rf_roles =
       [\<lparr>ro_id = administrator, ro_name = ''Administrator'', ro_caps = [''*''], ro_builtin = True\<rparr>]\<rparr>\<rparr>"

definition ex_disk :: "model account_store" where
  "ex_disk = \<lparr>as_load_accounts = (\<lambda>w. Inr (md_users w)), as_load_roles = (\<lambda>w. Inr (md_roles w)),
     as_save_accounts = (\<lambda>w u. (w\<lparr>md_users := u\<rparr>, None)), as_save_roles = (\<lambda>w r. (w\<lparr>md_roles := r\<rparr>, None))\<rparr>"

definition ex_account_lib :: account_lib where
  "ex_account_lib = \<lparr>al_runes = length, al_equal_fold = (=), al_mac = (\<lambda>k m. of_nat (length k))\<rparr>"

lemma ex_trim [simp]: "trim_space ''ann'' = ''ann''" "\<not> blank ''Ann''" "trim_space ''Ann'' = ''Ann''"
  by code_simp+

lemma ex_valid: "validate_accounts (md_users ex_documents) (md_roles ex_documents) ex_policy = Inr ()"
  by (simp add: ex_documents_def ex_ann_def ex_policy_def validate_accounts_def administrator_def known_capability_def
      check_identity_def check_password_def folded_def no_maps_def password_admin_def password_enabled_def)

lemma ex_model: "new_model ex_policy (Some ex_disk) ex_documents = Inr ex_documents"
  using ex_valid by (simp add: new_model_def load_documents_def ex_disk_def)

lemma ex_durable: "durable_store ex_disk"
  by (simp add: durable_store_def ex_disk_def)

lemma accounts_stay_valid_witness:
  "snd (create_initial_administrator ex_account_lib ex_policy ex_disk \<lparr>en_salt = None, en_account_id = [],
      en_identity_id = [], en_now = 0\<rparr> ''Eve'' ''eve'' [] ''password''
    (run_all (exec_account ex_account_lib ex_policy ex_disk) (ex_documents, ex_documents)
      [DeleteAccount ''a'', UpdateAccount ''a'' ''Ann'' False [], SetEnabled ''a'' ''i'' False])) = Inl SetupComplete"
proof -
  have "af_accounts (md_users ex_documents) \<noteq> []" by (simp add: ex_documents_def)
  then show ?thesis
    using accounts_stay_valid [OF ex_model refl] ex_durable by (metis snd_conv)
qed

lemma recovery_code_single_use_witness:
  "snd (attempts ex_disk (ex_documents, ex_documents)
     [(''a'', ''i'', ''c2''), (''a'', ''i'', ''c2''), (''a'', ''i'', ''c1'')]) = [True, False, True] \<and>
   accepted (''a'', ''i'', ''c2'') [(''a'', ''i'', ''c2''), (''a'', ''i'', ''c2''), (''a'', ''i'', ''c1'')] [True, False, True] = 1"
proof -
  let ?ks = "[(''a'', ''i'', ''c2''), (''a'', ''i'', ''c2''), (''a'', ''i'', ''c1'')]"
  define r where "r = attempts ex_disk (ex_documents, ex_documents) ?ks"
  have b: "snd r = [True, False, True]" and n: "codes (''a'', ''i'', ''c2'') (accounts (fst r)) = 0"
    by (simp_all add: r_def ex_documents_def ex_ann_def ex_disk_def consume_recovery_code_def accounts_def Let_def)
  have a: "attempts ex_disk (ex_documents, ex_documents) ?ks = (fst r, [True, False, True])"
    using b unfolding r_def by (metis prod.collapse)
  have "codes (''a'', ''i'', ''c2'') (accounts (ex_documents, ex_documents)) = 1"
    by (simp add: ex_documents_def ex_ann_def accounts_def)
  with recovery_code_single_use [OF a, of "(''a'', ''i'', ''c2'')"] a n show ?thesis by simp
qed

lemma login_active_until_disabled_witness:
  "session_principal_active ex_documents ''a'' ''i'' \<and> \<not> session_principal_active ex_documents ''a'' ''x''"
proof -
  have "model_valid ex_policy (snd (ex_documents, ex_documents))"
    using ex_valid by (simp add: model_valid_def validate_accounts_iff)
  from login_active_until_disabled [OF this, THEN conjunct2, THEN conjunct1]
  have "session_principal_active ex_documents aid iid \<longleftrightarrow> aid = ''a'' \<and> iid = ''i''" for aid iid
    by (auto simp: ex_documents_def ex_ann_def accounts_def)
  then show ?thesis by simp
qed

end
