(* ===== verification/Auth_Sessions_Laws.thy ===== *)
theory Auth_Sessions_Laws
  imports Auth_Sessions Auth_Model_Laws
begin

text \<open>
  Browser sessions: who a credential speaks for and when it stops, the limit of sessions per
  account and which of them are evicted, challenges that work once, and how far guesses are bounded.
  The session store is a client of the account manager through the interface \<open>account_provider\<close>.
\<close>

section \<open>Maps of sessions\<close>

lemma without_Some [simp]: "without m p k = Some x \<longleftrightarrow> m k = Some x \<and> \<not> p k x"
  by (auto simp: without_def split: option.splits)

lemma without_None: "without m p k = None \<longleftrightarrow> (\<forall>x. m k = Some x \<longrightarrow> p k x)"
  by (auto simp: without_def split: option.splits)

lemma drop_and_save_sessions [simp]: "st_sessions (snd (drop_and_save P p s)) = without (st_sessions (snd s)) p"
  by (simp add: drop_and_save_def Let_def)

lemma drop_and_save_options [simp]: "st_options (snd (drop_and_save P p s)) = st_options (snd s)"
  by (simp add: drop_and_save_def Let_def)

definition owns :: "session_map \<Rightarrow> string \<Rightarrow> string \<Rightarrow> bool" where
  "owns m aid k \<longleftrightarrow> (\<exists>x. m k = Some x \<and> ss_account x = aid)"

definition owned_set :: "session_map \<Rightarrow> string \<Rightarrow> string set" where
  "owned_set m aid = {k. owns m aid k}"

definition enumerates :: "'k list \<Rightarrow> ('k \<rightharpoonup> 'v) \<Rightarrow> bool" where
  "enumerates order m \<longleftrightarrow> distinct order \<and> dom m \<subseteq> set order"

definition created_at :: "session_map \<Rightarrow> string \<Rightarrow> int" where
  "created_at m k = (case m k of Some x \<Rightarrow> ss_created x | None \<Rightarrow> 0)"

lemma owned_list:
  assumes "enumerates order m"
  shows "set (owned m order aid) = owned_set m aid" "distinct (owned m order aid)"
    "sorted (map (created_at m) (owned m order aid))"
proof -
  have "{k \<in> set order. case m k of Some x \<Rightarrow> ss_account x = aid | None \<Rightarrow> False} = owned_set m aid"
    using assms by (auto simp: enumerates_def owned_set_def owns_def split: option.splits)
  then show "set (owned m order aid) = owned_set m aid" by (simp add: owned_def)
  show "distinct (owned m order aid)" using assms by (simp add: owned_def enumerates_def)
  show "sorted (map (created_at m) (owned m order aid))"
    unfolding owned_def created_at_def [abs_def] by (rule sorted_sort_key)
qed

text \<open>The eviction loop removes the first \<open>length ks + 1 - n\<close> keys.\<close>

lemma evict_drop:
  assumes "0 < n"
  shows "\<exists>j. evict n m ks = Returned (m |` (- set (take j ks))) \<and> int (length (drop j ks)) < n \<and>
    (j \<noteq> 0 \<longrightarrow> int (length (drop j ks)) = n - 1)"
proof (induction ks arbitrary: m)
  case Nil
  show ?case using assms by (intro exI [of _ 0]) simp
next
  case (Cons k ks)
  show ?case
  proof (cases "int (length (k # ks)) \<ge> n")
    case True
    obtain j where j: "evict n (m(k := None)) ks = Returned (m(k := None) |` (- set (take j ks)))"
      "int (length (drop j ks)) < n" "j \<noteq> 0 \<longrightarrow> int (length (drop j ks)) = n - 1" using Cons by blast
    have "m(k := None) |` (- set (take j ks)) = m |` (- set (take (Suc j) (k # ks)))"
      by (auto simp: restrict_map_def)
    moreover have "int (length (drop (Suc j) (k # ks))) = n - 1"
      using True j(2,3) by (cases "j = 0") auto
    ultimately show ?thesis using True j(1,2) by (intro exI [of _ "Suc j"]) simp
  next
    case False
    then show ?thesis by (intro exI [of _ 0]) simp
  qed
qed

section \<open>Creating a session\<close>

definition live_at :: "int \<Rightarrow> session_map \<Rightarrow> session_map" where
  "live_at now m = without m (\<lambda>_ x. now > ss_expires x)"

definition new_session :: "int \<Rightarrow> request \<Rightarrow> string \<Rightarrow> string \<Rightarrow> string \<Rightarrow> session_store \<Rightarrow> session" where
  "new_session now rq csrf_bytes aid iid t =
     \<lparr>ss_account = aid, ss_identity = iid, ss_csrf = token csrf_bytes, ss_created = now,
      ss_expires = now + so_ttl (st_options t), ss_ip = rq_ip rq, ss_agent = trim_space (rq_agent rq)\<rparr>"

text \<open>What creating a session leaves: the live sessions but the oldest ones of the account, and the new one.\<close>

definition evicts :: "int \<Rightarrow> session_map \<Rightarrow> string \<Rightarrow> string set \<Rightarrow> bool" where
  "evicts n m aid gone \<longleftrightarrow> finite (owned_set m aid) \<and> gone \<subseteq> owned_set m aid \<and>
     int (card (owned_set m aid - gone)) < n \<and> (gone \<noteq> {} \<longrightarrow> int (card (owned_set m aid - gone)) = n - 1) \<and>
     (\<forall>k \<in> gone. \<forall>k' \<in> owned_set m aid - gone. created_at m k \<le> created_at m k')"

lemma evict_oldest:
  assumes "0 < n" and "enumerates order m"
  shows "\<exists>gone. evict n m (owned m order aid) = Returned (m |` (- gone)) \<and> evicts n m aid gone"
proof -
  let ?ks = "owned m order aid"
  note o = owned_list [OF assms(2), of aid]
  obtain j where j: "evict n m ?ks = Returned (m |` (- set (take j ?ks)))" "int (length (drop j ?ks)) < n"
    "j \<noteq> 0 \<longrightarrow> int (length (drop j ?ks)) = n - 1" using evict_drop [OF assms(1)] by blast
  have split: "?ks = take j ?ks @ drop j ?ks" by simp
  have d: "distinct (take j ?ks @ drop j ?ks)" using o(2) by simp
  have u: "owned_set m aid = set (take j ?ks) \<union> set (drop j ?ks)"
    using o(1) by (metis split set_append)
  have "set (take j ?ks) \<inter> set (drop j ?ks) = {}" using d by (simp only: distinct_append)
  then have rest: "owned_set m aid - set (take j ?ks) = set (drop j ?ks)" unfolding u by blast
  have "distinct (drop j ?ks)" using o(2) by simp
  then have c: "card (owned_set m aid - set (take j ?ks)) = length (drop j ?ks)"
    unfolding rest by (rule distinct_card)
  have "sorted (map (created_at m) (take j ?ks) @ map (created_at m) (drop j ?ks))"
    using o(3) by (metis append_take_drop_id map_append)
  then have "\<forall>k \<in> set (take j ?ks). \<forall>k' \<in> set (drop j ?ks). created_at m k \<le> created_at m k'"
    by (simp add: sorted_append)
  moreover have "set (take j ?ks) \<subseteq> owned_set m aid" using o(1) set_take_subset by metis
  moreover have "finite (owned_set m aid)" using o(1) by (metis List.finite_set)
  ultimately have "evicts n m aid (set (take j ?ks))"
    using j(2,3) c rest by (auto simp: evicts_def)
  then show ?thesis using j(1) by blast
qed

lemma create_session_effect:
  assumes "0 < so_max_sessions (st_options (snd s))"
    and "enumerates order (live_at now (st_sessions (snd s)))"
  shows "\<exists>s' r gone. create_session P order sb cb now rq aid iid s = Returned (s', r) \<and>
    evicts (so_max_sessions (st_options (snd s))) (live_at now (st_sessions (snd s))) aid gone \<and>
    st_sessions (snd s') = (live_at now (st_sessions (snd s)) |` (- gone))
      (token sb \<mapsto> new_session now rq cb aid iid (snd s)) \<and>
    st_options (snd s') = st_options (snd s) \<and>
    (\<forall>x ck. r = Inr (x, ck) \<longrightarrow> x = new_session now rq cb aid iid (snd s) \<and> ck_value ck = token sb)"
proof -
  let ?m = "live_at now (st_sessions (snd s))"
  obtain gone where g: "evict (so_max_sessions (st_options (snd s))) ?m (owned ?m order aid) = Returned (?m |` (- gone))"
    "evicts (so_max_sessions (st_options (snd s))) ?m aid gone" using evict_oldest [OF assms] by blast
  define t' where "t' = (snd s)\<lparr>st_sessions := (?m |` (- gone))(token sb \<mapsto> new_session now rq cb aid iid (snd s)),
    st_failures := (st_failures (snd s))(rq_ip rq := [])\<rparr>"
  have "create_session P order sb cb now rq aid iid s =
      (case save_locked P (fst s) t' of
         (w, Some e) \<Rightarrow> Returned ((w, t'), Inl (PersistenceError e))
       | (w, None) \<Rightarrow> Returned ((w, t'), Inr (new_session now rq cb aid iid (snd s),
           request_cookie (snd s) rq (token sb) (so_ttl (st_options (snd s)) div second))))"
    using g(1) unfolding t'_def create_session_def Let_def live_at_def new_session_def by simp
  then show ?thesis using g(2)
    by (cases "save_locked P (fst s) t'"; cases "snd (save_locked P (fst s) t')")
      (auto simp: t'_def request_cookie_def)
qed

text \<open>C23. Creating a session never panics and returns either the new session or the error of the save;
  in both cases the new session is stored under the new credential. Expired sessions are dropped,
  the account ends with at most the configured number of sessions, only as many of its oldest
  sessions as necessary are evicted, and the live sessions of every other account stay.\<close>

theorem create_session_bounded:
  assumes "0 < so_max_sessions (st_options (snd s))"
    and "enumerates order (live_at now (st_sessions (snd s)))"
  shows "\<exists>s' r gone. create_session P order sb cb now rq aid iid s = Returned (s', r) \<and>
    evicts (so_max_sessions (st_options (snd s))) (live_at now (st_sessions (snd s))) aid gone \<and>
    int (card (owned_set (st_sessions (snd s')) aid)) \<le> so_max_sessions (st_options (snd s)) \<and>
    st_sessions (snd s') (token sb) = Some (new_session now rq cb aid iid (snd s)) \<and>
    (\<forall>k. k \<noteq> token sb \<longrightarrow> k \<notin> gone \<longrightarrow>
      st_sessions (snd s') k = live_at now (st_sessions (snd s)) k)"
proof -
  obtain s' r gone where e: "create_session P order sb cb now rq aid iid s = Returned (s', r)"
    "evicts (so_max_sessions (st_options (snd s))) (live_at now (st_sessions (snd s))) aid gone"
    and m: "st_sessions (snd s') = (live_at now (st_sessions (snd s)) |` (- gone))
      (token sb \<mapsto> new_session now rq cb aid iid (snd s))"
    using create_session_effect [OF assms, of P sb cb rq aid iid] by blast
  let ?rest = "owned_set (live_at now (st_sessions (snd s))) aid - gone"
  have sub: "owned_set (st_sessions (snd s')) aid \<subseteq> insert (token sb) ?rest"
    unfolding m by (auto simp: owned_set_def owns_def restrict_map_def split: if_splits)
  have f: "finite ?rest" using e(2) by (simp add: evicts_def)
  have "card (owned_set (st_sessions (snd s')) aid) \<le> card (insert (token sb) ?rest)"
    using sub f by (intro card_mono) auto
  also have "\<dots> \<le> Suc (card ?rest)" by (rule card_insert_le_m1) auto
  finally have "int (card (owned_set (st_sessions (snd s')) aid)) \<le> so_max_sessions (st_options (snd s))"
    using e(2) by (simp add: evicts_def)
  then show ?thesis using e m by (intro exI [of _ s'] exI [of _ r] exI [of _ gone]) (auto simp: restrict_map_def)
qed

lemma defaults_positive:
  "new_session_store o1 loaded now = Inr t \<Longrightarrow>
     0 < so_max_sessions (st_options t) \<and> 0 < so_max_failures (st_options t) \<and> 0 < so_ttl (st_options t) \<and>
     0 < so_window (st_options t) \<and> 0 < so_challenge_ttl (st_options t)"
  by (auto simp: new_session_store_def Let_def with_defaults_def or_positive_def second_def
      split: option.splits sum.splits)

section \<open>Using a credential\<close>

lemma get_session_some:
  "get_session P active now rq s = (s', Some x) \<longleftrightarrow> s' = s \<and>
     (\<exists>k. rq_cookie rq = Some k \<and> st_sessions (snd s) k = Some x \<and> now \<le> ss_expires x \<and>
       active (ss_account x) (ss_identity x))"
  by (auto simp: get_session_def split: option.splits)

lemma get_session_none:
  "get_session P active now rq s = (s', None) \<Longrightarrow> rq_cookie rq = Some k \<Longrightarrow>
     st_sessions (snd s') = (st_sessions (snd s))(k := None)"
  by (auto simp: get_session_def without_def split: option.splits if_splits)

text \<open>The operations that end sessions, as the sessions they delete.\<close>

definition ended :: "'w persistence \<Rightarrow> (string \<Rightarrow> session \<Rightarrow> bool) \<Rightarrow> 'w \<times> session_store \<Rightarrow> 'w \<times> session_store \<Rightarrow> bool" where
  "ended P p s s' \<longleftrightarrow> (\<forall>active now rq x s''. get_session P active now rq s' = (s'', Some x) \<longrightarrow>
     (\<exists>k. rq_cookie rq = Some k \<and> \<not> p k x \<and> st_sessions (snd s) k = Some x)) \<and>
   (\<forall>k x. st_sessions (snd s) k = Some x \<longrightarrow> \<not> p k x \<longrightarrow> st_sessions (snd s') k = Some x)"

lemma drop_and_save_ended: "ended P p s (drop_and_save P p s)"
  by (auto simp: ended_def get_session_some)

lemma revoke_session_cases:
  assumes "enumerates order (st_sessions (snd s))" and "revoke_session P sha order aid shown s = (s', b)"
  shows "if b then \<exists>k x. st_sessions (snd s) k = Some x \<and> ss_account x = aid \<and> display_session_id sha k = shown \<and>
      ended P (\<lambda>k' _. k' = k) s s'
    else s' = s \<and> (\<forall>k x. st_sessions (snd s) k = Some x \<longrightarrow> ss_account x = aid \<longrightarrow> display_session_id sha k \<noteq> shown)"
proof -
  define q where "q = (\<lambda>k. case st_sessions (snd s) k of None \<Rightarrow> False
    | Some x \<Rightarrow> ss_account x = aid \<and> display_session_id sha k = shown)"
  show ?thesis
  proof (cases "find q order")
    case None
    then have n: "k \<in> set order \<Longrightarrow> \<not> q k" for k by (simp add: find_None_iff)
    have "s' = s" "\<not> b" using assms(2) None by (simp_all add: revoke_session_def q_def)
    moreover have "display_session_id sha k \<noteq> shown" if "st_sessions (snd s) k = Some x" "ss_account x = aid" for k x
      using n [of k] that assms(1) by (auto simp: enumerates_def q_def)
    ultimately show ?thesis by simp
  next
    case (Some k)
    then have "q k" using find_mem by fast
    moreover have "s' = drop_and_save P (\<lambda>k' _. k' = k) s" "b"
      using assms(2) Some by (simp_all add: revoke_session_def q_def)
    ultimately show ?thesis
      using drop_and_save_ended [of P "\<lambda>k' _. k' = k" s] by (auto simp: q_def split: option.splits)
  qed
qed

text \<open>C22. A request is answered with a session exactly when its cookie names a stored session that has not
  expired and whose account and identity the provider calls active; a refused credential is deleted
  and no other. Logging out, revoking an account, an identity, all but one credential of an
  identity or everything ends exactly the sessions it names, for every later request, clock and
  provider, whether or not the change could be saved. \<open>RevokeSession\<close> answers true exactly when the
  account has a session with the given display ID; it then ends one such session and no other, and
  otherwise changes nothing.\<close>

theorem session_access:
  shows "(get_session P active now rq s = (s', Some x) \<longleftrightarrow> s' = s \<and>
      (\<exists>k. rq_cookie rq = Some k \<and> st_sessions (snd s) k = Some x \<and> now \<le> ss_expires x \<and>
        active (ss_account x) (ss_identity x))) \<and>
    (get_session P active now rq s = (s', None) \<and> rq_cookie rq = Some k \<longrightarrow>
      st_sessions (snd s') = (st_sessions (snd s))(k := None)) \<and>
    (rq_cookie rq = Some k \<longrightarrow> ended P (\<lambda>k' _. k' = k) s (fst (logout P rq s))) \<and>
    ended P (\<lambda>_ y. ss_account y = aid) s (revoke_account P aid s) \<and>
    ended P (\<lambda>k' y. ss_identity y = iid \<and> k' \<noteq> keep) s (revoke_identity_except P iid keep s) \<and>
    ended P (\<lambda>_ _. True) s (revoke_all P s) \<and>
    (enumerates order (st_sessions (snd s)) \<longrightarrow> snd (revoke_session P sha order aid shown s) =
      (\<exists>k x. st_sessions (snd s) k = Some x \<and> ss_account x = aid \<and> display_session_id sha k = shown) \<and>
      (case revoke_session P sha order aid shown s of
         (s1, True) \<Rightarrow> \<exists>k1 y. st_sessions (snd s) k1 = Some y \<and> ss_account y = aid \<and>
           display_session_id sha k1 = shown \<and> ended P (\<lambda>k' _. k' = k1) s s1
       | (s1, False) \<Rightarrow> s1 = s))"
proof (intro conjI impI)
  assume e: "enumerates order (st_sessions (snd s))"
  obtain s1 b where r: "revoke_session P sha order aid shown s = (s1, b)" by fastforce
  from revoke_session_cases [OF e r] r show "case revoke_session P sha order aid shown s of
         (s1, True) \<Rightarrow> \<exists>k1 y. st_sessions (snd s) k1 = Some y \<and> ss_account y = aid \<and>
           display_session_id sha k1 = shown \<and> ended P (\<lambda>k' _. k' = k1) s s1
       | (s1, False) \<Rightarrow> s1 = s"
    by (cases b) auto
next
  assume "enumerates order (st_sessions (snd s))"
  then show "snd (revoke_session P sha order aid shown s) =
      (\<exists>k x. st_sessions (snd s) k = Some x \<and> ss_account x = aid \<and> display_session_id sha k = shown)"
    using revoke_session_cases [of order s P sha aid shown "fst (revoke_session P sha order aid shown s)"
        "snd (revoke_session P sha order aid shown s)"] by (auto split: if_splits)
qed (auto simp: get_session_some get_session_none logout_def revoke_account_def revoke_identity_except_def
    revoke_all_def drop_and_save_ended)

text \<open>A revocation whose save fails is undone by a restart: the code ignores the outcome of the save.\<close>

lemma revocation_lost_on_restart:
  assumes "\<And>w m. save w m = (w, Some e)" and "disk w = st_sessions t"
    and "st_sessions t k = Some x" and "now < ss_expires x"
  shows "revoke_all (Some save) (w, t) = (w, t\<lparr>st_sessions := Map.empty\<rparr>) \<and>
    (\<exists>t'. new_session_store o1 (Some (Inr (disk w))) now = Inr t' \<and> st_sessions t' k = Some x)"
proof -
  have "without (st_sessions t) (\<lambda>_ _. True) = Map.empty" by (auto simp: without_def split: option.splits)
  then show ?thesis using assms
    by (simp add: revoke_all_def drop_and_save_def save_locked_def Let_def new_session_store_def)
qed

section \<open>Logging in\<close>

lemma session_authenticate_ok:
  "session_authenticate login t rq now later u p = (t', Inr (a, i)) \<Longrightarrow>
     login u p = Some (a, i) \<and> st_sessions t' = st_sessions t \<and> st_options t' = st_options t"
  by (auto simp: session_authenticate_def limited_def Let_def split: prod.splits bool.splits option.splits)

context account_provider
begin

lemma login_opens_session:
  assumes "ok m" and "session_login P (login m) order sb cb now later rq u p s = Returned (s', Inr (x, ck))"
    and "0 < so_max_sessions (st_options (snd s))" and "enumerates order (live_at later (st_sessions (snd s)))"
    and "rq_cookie rq' = Some (ck_value ck)" and "t \<le> later + so_ttl (st_options (snd s))"
  shows "get_session P (active m) t rq' s' = (s', Some x) \<and>
    (\<exists>a i. login m u p = Some (a, i) \<and> ss_account x = ac_id a \<and> ss_identity x = id_id i)"
proof -
  obtain t1 a i where a: "session_authenticate (login m) (snd s) rq now later u p = (t1, Inr (a, i))"
    and c: "create_session P order sb cb later rq (ac_id a) (id_id i) (fst s, t1) = Returned (s', Inr (x, ck))"
    using assms(2) by (auto simp: session_login_def split: prod.splits sum.splits)
  note l = session_authenticate_ok [OF a]
  obtain s2 r gone where e: "create_session P order sb cb later rq (ac_id a) (id_id i) (fst s, t1) = Returned (s2, r)"
    and m: "st_sessions (snd s2) = (live_at later (st_sessions t1) |` (- gone))
      (token sb \<mapsto> new_session later rq cb (ac_id a) (id_id i) t1)"
    and r: "\<forall>x ck. r = Inr (x, ck) \<longrightarrow> x = new_session later rq cb (ac_id a) (id_id i) t1 \<and> ck_value ck = token sb"
    using create_session_effect [of "(fst s, t1)" order later P sb cb rq "ac_id a" "id_id i"] assms(3,4) l by auto
  have s2: "s2 = s'" "r = Inr (x, ck)" using c e by simp_all
  then have x: "x = new_session later rq cb (ac_id a) (id_id i) t1" and k: "ck_value ck = token sb" using r by blast+
  have "active m (ac_id a) (id_id i)" using login_active [OF assms(1)] l by blast
  then show ?thesis
    using assms(5,6) l m s2(1) by (auto simp: get_session_some x k new_session_def)
qed

end

text \<open>Logging in through the session store against a valid account model opens a session that works: the
  cookie of the response answers every request until the session's lifetime has passed with that
  session, which belongs to the account and the identity the password was verified for. The account
  model is the provider of both ends, the login and the session check.\<close>

theorem login_opens_working_session:
  assumes "model_valid Q m"
    and "session_login P (authenticate_password L m) order sb cb now later rq u p s = Returned (s', Inr (x, ck))"
    and "0 < so_max_sessions (st_options (snd s))" and "enumerates order (live_at later (st_sessions (snd s)))"
    and "rq_cookie rq' = Some (ck_value ck)" and "t \<le> later + so_ttl (st_options (snd s))"
  shows "get_session P (session_principal_active m) t rq' s' = (s', Some x) \<and>
    (\<exists>a i. authenticate_password L m u p = Some (a, i) \<and> ss_account x = ac_id a \<and> ss_identity x = id_id i)"
  by (rule manager.login_opens_session [OF assms])

section \<open>Challenges\<close>

text \<open>A second-factor challenge is answered at most once: taking it removes it whatever the outcome, it
  is given only to the client address it was begun for and not after it expired, and a challenge
  just begun is taken by that client at any time within its lifetime.\<close>

theorem challenge_single_use:
  assumes "take_challenge now rq i t = (t', r)"
  shows "snd (take_challenge now' rq' i t') = None \<and>
    (\<forall>j. j \<noteq> i \<longrightarrow> st_challenges t' j = st_challenges t j) \<and>
    (r = Some c \<longleftrightarrow> st_challenges t i = Some c \<and> now \<le> ch_expires c \<and> ch_ip c = rq_ip rq) \<and>
    (rq_ip rq2 = rq_ip rq1 \<and> t2 \<le> t1 + so_challenge_ttl (st_options t) \<longrightarrow>
      (case begin_challenge bytes t1 rq1 aid iid t of (t'', j) \<Rightarrow> \<exists>c. snd (take_challenge t2 rq2 j t'') = Some c \<and>
        ch_account c = aid \<and> ch_identity c = iid))"
  using assms by (auto simp: take_challenge_def begin_challenge_def Let_def split: option.splits if_splits)

section \<open>Guessing\<close>

definition recent :: "int \<Rightarrow> string \<Rightarrow> session_store \<Rightarrow> nat" where
  "recent since ip t = length (filter (\<lambda>f. since \<le> f) (st_failures t ip))"

lemma limited_recent:
  assumes "limited t ip now = (t', b)" and "now < since + so_window (st_options t)"
  shows "recent since ip t' = recent since ip t \<and> st_options t' = st_options t \<and>
    (\<not> b \<longrightarrow> int (recent since ip t) < so_max_failures (st_options t))"
proof -
  let ?r = "filter (\<lambda>f. f > now - so_window (st_options t)) (st_failures t ip)"
  have f: "filter (\<lambda>f. since \<le> f) ?r = filter (\<lambda>f. since \<le> f) (st_failures t ip)"
    unfolding filter_filter using assms(2) by (intro filter_cong) auto
  have "length (filter (\<lambda>f. since \<le> f) ?r) \<le> length ?r" by (rule length_filter_le)
  then show ?thesis using assms(1) f by (auto simp: limited_def Let_def recent_def)
qed

text \<open>A call on its own is a run of these steps.\<close>

lemma session_authenticate_run:
  assumes "session_authenticate login t rq now later u p = (t', r)" and "1 \<le> c"
  shows "\<exists>es fl. login_run P (rq_ip rq) c ((w, t), []) es ((w, t'), fl) \<and>
    (r = Inl InvalidCredential \<longrightarrow> es = [Checks rq now, Asks rq None, Records rq later] \<and> fl = []) \<and>
    (\<forall>a i. r = Inr (a, i) \<longrightarrow> es = [Checks rq now, Asks rq (Some (a, i))] \<and> fl = [(rq, MayEnter a i)])"
proof -
  obtain t1 b where l: "limited t (rq_ip rq) now = (t1, b)" by fastforce
  note step = RunStep [OF RunNil] RunStep [OF RunStep [OF RunNil]] RunStep [OF RunStep [OF RunStep [OF RunNil]]]
  have open1: "open_guesses (rq_ip rq) [(rq, ph)] \<le> c" for ph
    using assms(2) by (simp add: open_guesses_def)
  show ?thesis
  proof (cases b)
    case True
    then have "login_run P (rq_ip rq) c ((w, t), []) ([] @ [Checks rq now]) ((w, t1), [])"
      using l by (intro step(1) StepLimited) (simp_all add: open_guesses_def)
    then show ?thesis using assms(1) l True by (auto simp: session_authenticate_def)
  next
    case False
    then have pass: "login_step P ((w, t), []) (Checks rq now) ((w, t1), [(rq, MayAsk)])"
      using l by (intro StepPasses) simp
    show ?thesis
    proof (cases "login u p")
      case None
      have "login_run P (rq_ip rq) c ((w, t), []) (([] @ [Checks rq now]) @ [Asks rq None] @ [])
          ((w, t1), [(rq, MustRecord)])"
        using step(2) [OF pass _ StepRefused [where xs = "[]" and ys = "[]", simplified]] open1 by simp
      then have "login_run P (rq_ip rq) c ((w, t), []) (([] @ [Checks rq now] @ [Asks rq None]) @ [Records rq later])
          ((w, fail t1 (rq_ip rq) later), [])"
        using RunStep [OF _ StepRecords [where xs = "[]" and ys = "[]", simplified]] by (fastforce simp: open_guesses_def)
      then show ?thesis using assms(1) l False None by (auto simp: session_authenticate_def)
    next
      case (Some ai)
      obtain a i where ai: "ai = (a, i)" by (cases ai)
      have "login_run P (rq_ip rq) c ((w, t), []) (([] @ [Checks rq now]) @ [Asks rq (Some (a, i))])
          ((w, t1), [(rq, MayEnter a i)])"
        using step(2) [OF pass _ StepAccepted [where xs = "[]" and ys = "[]", simplified]] open1 by simp
      then show ?thesis using assms(1) l False Some ai by (auto simp: session_authenticate_def)
    qed
  qed
qed

text \<open>What one step does to the failures of an address, its open guesses and its refused ones.\<close>

definition refused_guesses :: "string \<Rightarrow> (request \<times> login_phase) list \<Rightarrow> nat" where
  "refused_guesses ip fl = length (filter (\<lambda>a. rq_ip (fst a) = ip \<and> snd a = MustRecord) fl)"

definition wrong :: "string \<Rightarrow> login_event \<Rightarrow> bool" where
  "wrong ip e \<longleftrightarrow> (\<exists>rq. e = Asks rq None \<and> rq_ip rq = ip)"

definition clears :: "string \<Rightarrow> login_event \<Rightarrow> bool" where
  "clears ip e \<longleftrightarrow> (\<exists>rq. (e = Enters rq \<or> e = Opens rq) \<and> rq_ip rq = ip)"

definition within :: "int \<Rightarrow> int \<Rightarrow> login_event \<Rightarrow> bool" where
  "within since until e \<longleftrightarrow> (case e of
     Checks _ now \<Rightarrow> since \<le> now \<and> now < until | Records _ now \<Rightarrow> since \<le> now \<and> now < until | _ \<Rightarrow> True)"

lemma refused_open: "refused_guesses ip fl \<le> open_guesses ip fl"
  unfolding refused_guesses_def open_guesses_def
  by (induction fl) (auto simp: open_guess_def)

lemma open_guesses_simps [simp]:
  "open_guesses ip [] = 0"
  "open_guesses ip (a # fl) = (if open_guess ip a then Suc (open_guesses ip fl) else open_guesses ip fl)"
  "open_guesses ip (fl @ fl') = open_guesses ip fl + open_guesses ip fl'"
  "refused_guesses ip [] = 0"
  "refused_guesses ip (a # fl) =
     (if rq_ip (fst a) = ip \<and> snd a = MustRecord then Suc (refused_guesses ip fl) else refused_guesses ip fl)"
  "refused_guesses ip (fl @ fl') = refused_guesses ip fl + refused_guesses ip fl'"
  by (simp_all add: open_guesses_def refused_guesses_def)

lemma limited_other:
  "limited t ip' now = (t', b) \<Longrightarrow> ip \<noteq> ip' \<Longrightarrow> recent since ip t' = recent since ip t \<and> st_options t' = st_options t"
  by (auto simp: limited_def Let_def recent_def)

lemma create_session_failures:
  "create_session P order sb cb now rq aid iid s = Returned (s', r) \<Longrightarrow>
   st_options (snd s') = st_options (snd s) \<and>
   st_failures (snd s') = (st_failures (snd s))(rq_ip rq := [])"
  by (auto simp: create_session_def Let_def split: outcome.splits prod.splits option.splits)

definition guess_load :: "int \<Rightarrow> string \<Rightarrow> 'w login_state \<Rightarrow> nat" where
  "guess_load since ip s = recent since ip (snd (fst s)) + open_guesses ip (snd s)"

definition guess_debt :: "int \<Rightarrow> string \<Rightarrow> 'w login_state \<Rightarrow> nat" where
  "guess_debt since ip s = recent since ip (snd (fst s)) + refused_guesses ip (snd s)"

lemma login_step_bounds:
  assumes "login_step P s e s'" and "within since (since + so_window (st_options (snd (fst s)))) e"
    and "open_guesses ip (snd s') \<le> c"
  shows "st_options (snd (fst s')) = st_options (snd (fst s)) \<and>
    (guess_load since ip s' \<le> guess_load since ip s \<or>
     int (guess_load since ip s') < so_max_failures (st_options (snd (fst s))) + int c) \<and>
    guess_debt since ip s + (if wrong ip e then 1 else 0) \<le>
      guess_debt since ip s' + (if clears ip e then guess_load since ip s else 0)"
  using assms
proof (induction rule: login_step.induct)
  case (StepLimited t rq now t' w fl)
  have "recent since ip t' = recent since ip t" "st_options t' = st_options t"
    using limited_recent [OF StepLimited(1), of since] limited_other [OF StepLimited(1), of ip since] StepLimited(2)
    by (cases "rq_ip rq = ip"; auto simp: within_def)+
  then show ?case by (simp add: guess_load_def guess_debt_def wrong_def clears_def)
next
  case (StepPasses t rq now t' w fl)
  show ?case
  proof (cases "rq_ip rq = ip")
    case True
    then have "recent since ip t' = recent since ip t" "st_options t' = st_options t"
      "int (recent since ip t) < so_max_failures (st_options t)"
      using limited_recent [OF StepPasses(1), of since] StepPasses(2) by (auto simp: within_def)
    then show ?thesis using StepPasses(3)
      by (auto simp: guess_load_def guess_debt_def wrong_def clears_def)
  next
    case False
    then show ?thesis using limited_other [OF StepPasses(1), of ip since]
      by (auto simp: guess_load_def guess_debt_def wrong_def clears_def open_guess_def)
  qed
next
  case (StepEnters order sb cb now rq a i s s' r xs ys)
  have "refused_guesses ip fl \<le> open_guesses ip fl" for fl by (rule refused_open)
  then show ?case using create_session_failures [OF StepEnters(1)]
    by (auto simp: guess_load_def guess_debt_def wrong_def clears_def recent_def open_guess_def)
next
  case (StepOpens order sb cb now rq aid iid s s' r fl)
  then show ?case using create_session_failures [OF StepOpens(1)]
    by (auto simp: guess_load_def guess_debt_def wrong_def clears_def recent_def)
qed (auto simp: guess_load_def guess_debt_def wrong_def clears_def within_def recent_def fail_def open_guess_def)

definition count_events :: "(login_event \<Rightarrow> bool) \<Rightarrow> login_event list \<Rightarrow> nat" where
  "count_events p es = length (filter p es)"

lemma count_events_snoc [simp]:
  "count_events p [] = 0" "count_events p (es @ [e]) = count_events p es + (if p e then 1 else 0)"
  by (simp_all add: count_events_def)

lemma login_run_bounds:
  assumes "login_run P ip c s es s'"
    and "int (guess_load since ip s) \<le> so_max_failures (st_options (snd (fst s))) + int c - 1"
    and "\<forall>e \<in> set es. within since (since + so_window (st_options (snd (fst s)))) e"
  shows "st_options (snd (fst s')) = st_options (snd (fst s)) \<and>
    int (guess_load since ip s') \<le> so_max_failures (st_options (snd (fst s))) + int c - 1 \<and>
    int (count_events (wrong ip) es + guess_debt since ip s) \<le>
      int (count_events (clears ip) es) * (so_max_failures (st_options (snd (fst s))) + int c - 1) +
      int (guess_debt since ip s')"
  using assms
proof (induction rule: login_run.induct)
  case (RunStep s es s1 e s2)
  let ?B = "so_max_failures (st_options (snd (fst s))) + int c - 1"
  have IH: "st_options (snd (fst s1)) = st_options (snd (fst s))" "int (guess_load since ip s1) \<le> ?B"
    "int (count_events (wrong ip) es + guess_debt since ip s) \<le>
       int (count_events (clears ip) es) * ?B + int (guess_debt since ip s1)"
    using RunStep.IH RunStep.prems by auto
  have "within since (since + so_window (st_options (snd (fst s1)))) e" using RunStep.prems(2) IH(1) by simp
  from login_step_bounds [OF RunStep.hyps(2) this RunStep.hyps(3)]
  have st: "st_options (snd (fst s2)) = st_options (snd (fst s))" "int (guess_load since ip s2) \<le> ?B"
    "guess_debt since ip s1 + (if wrong ip e then 1 else 0) \<le>
       guess_debt since ip s2 + (if clears ip e then guess_load since ip s1 else 0)"
    using IH(1,2) by auto
  have "int (guess_debt since ip s1) + (if wrong ip e then 1 else 0) \<le>
      int (guess_debt since ip s2) + (if clears ip e then ?B else 0)"
    using st(3) IH(2) by (auto split: if_splits)
  then show ?case using IH(3) st(1,2) by (auto simp: algebra_simps split: if_splits)
qed simp

text \<open>C24. How many wrong passwords an address can try in one failure window, in every interleaving of the
  critical sections of concurrent calls, whatever the provider answers: never more than the
  configured number, plus one less than the most calls of the address in flight at once (\<open>c\<close>), for
  each time the failures of the address are cleared and once more. They are cleared by every
  \<open>CreateSession\<close> for a client of that address, a successful \<open>Login\<close> included, so this is the whole
  of the protection: exactly the configured number for calls one after another without a login
  in between, and no bound independent of the logins. Once the window holds the configured
  number of failures, \<open>Limited\<close> refuses every further call.\<close>

theorem password_guesses_bounded:
  assumes "login_run P ip c ((w, t), []) es s'"
    and "1 \<le> so_max_failures (st_options t)" and "1 \<le> c"
    and "int (recent since ip t) \<le> so_max_failures (st_options t)"
    and "\<forall>e \<in> set es. within since (since + so_window (st_options t)) e"
  shows "int (count_events (wrong ip) es + recent since ip t) \<le>
      (int (count_events (clears ip) es) + 1) * (so_max_failures (st_options t) + int c - 1) \<and>
    (\<forall>now. int (recent since ip (snd (fst s'))) \<ge> so_max_failures (st_options t) \<and> now < since + so_window (st_options t) \<longrightarrow>
      snd (limited (snd (fst s')) ip now))"
proof -
  let ?M = "so_max_failures (st_options t)"
  have start: "guess_load since ip ((w, t), []) = recent since ip t" "guess_debt since ip ((w, t), []) = recent since ip t"
    by (simp_all add: guess_load_def guess_debt_def)
  have b: "st_options (snd (fst s')) = st_options t" "int (guess_load since ip s') \<le> ?M + int c - 1"
    "int (count_events (wrong ip) es + recent since ip t) \<le>
       int (count_events (clears ip) es) * (?M + int c - 1) + int (guess_debt since ip s')"
    using login_run_bounds [OF assms(1), of since] assms(3-5) start by auto
  have "guess_debt since ip s' \<le> guess_load since ip s'"
    using refused_open [of ip "snd s'"] by (simp add: guess_debt_def guess_load_def)
  then have "int (count_events (wrong ip) es + recent since ip t) \<le>
      (int (count_events (clears ip) es) + 1) * (?M + int c - 1)"
    using b(2,3) by (simp add: algebra_simps)
  moreover have "snd (limited (snd (fst s')) ip now)"
    if "int (recent since ip (snd (fst s'))) \<ge> ?M" "now < since + so_window (st_options t)" for now
    using limited_recent [OF prod.collapse [symmetric, of "limited (snd (fst s')) ip now"], of since] that b(1) by fastforce
  ultimately show ?thesis by blast
qed

text \<open>The number of concurrent calls matters: while the failures are below the limit, any number of calls
  that pass \<open>Limited\<close> before one of them records its failure all reach the provider.\<close>

lemma concurrent_guesses_pass:
  fixes rq :: request
  assumes "limited t (rq_ip rq) now = (t, False)"
  shows "\<exists>es s'. login_run P (rq_ip rq) k ((w, t), []) es s' \<and> count_events (wrong (rq_ip rq)) es = k"
proof -
  have check: "j \<le> k \<Longrightarrow> login_run P (rq_ip rq) k ((w, t), []) (replicate j (Checks rq now)) ((w, t), replicate j (rq, MayAsk))" for j
  proof (induction j)
    case (Suc j)
    have "login_step P ((w, t), replicate j (rq, MayAsk)) (Checks rq now) ((w, t), (rq, MayAsk) # replicate j (rq, MayAsk))"
      by (rule StepPasses [OF assms])
    from RunStep [OF Suc.IH [OF Suc_leD [OF Suc.prems]] this] Suc.prems show ?case
      by (simp add: open_guesses_def replicate_append_same le_trans [OF length_filter_le])
  qed (simp add: RunNil)
  have ask: "j \<le> k \<Longrightarrow> \<exists>fl. fl = replicate j (rq, MustRecord) @ replicate (k - j) (rq, MayAsk) \<and>
      login_run P (rq_ip rq) k ((w, t), []) (replicate k (Checks rq now) @ replicate j (Asks rq None)) ((w, t), fl)" for j
  proof (induction j)
    case 0
    then show ?case using check [of k] by simp
  next
    case (Suc j)
    then have r: "replicate (k - j) (rq, MayAsk) = (rq, MayAsk) # replicate (k - Suc j) (rq, MayAsk)"
      by (metis Suc_diff_le diff_Suc_Suc replicate_Suc)
    have "login_step P ((w, t), replicate j (rq, MustRecord) @ (rq, MayAsk) # replicate (k - Suc j) (rq, MayAsk))
        (Asks rq None) ((w, t), replicate j (rq, MustRecord) @ (rq, MustRecord) # replicate (k - Suc j) (rq, MayAsk))"
      by (rule StepRefused)
    moreover have "open_guesses (rq_ip rq) (replicate j (rq, MustRecord) @ (rq, MustRecord) # replicate (k - Suc j) (rq, MayAsk)) \<le> k"
      using Suc.prems unfolding open_guesses_def by (intro le_trans [OF length_filter_le]) simp
    ultimately have "login_run P (rq_ip rq) k ((w, t), []) ((replicate k (Checks rq now) @ replicate j (Asks rq None)) @ [Asks rq None])
        ((w, t), replicate j (rq, MustRecord) @ (rq, MustRecord) # replicate (k - Suc j) (rq, MayAsk))"
      using Suc r by (intro RunStep) auto
    then show ?case by (simp add: replicate_append_same [symmetric])
  qed
  have "count_events (wrong (rq_ip rq)) (replicate k (Checks rq now) @ replicate k (Asks rq None)) = k"
    by (simp add: count_events_def wrong_def)
  then show ?thesis using ask [of k] by blast
qed

section \<open>A small store\<close>

definition ex_options :: session_options where
  "ex_options = with_defaults \<lparr>so_cookie = [], so_header = [], so_secure = False, so_ttl = 100, so_challenge_ttl = 10,
     so_window = 50, so_max_failures = 2, so_max_sessions = 2\<rparr>"

definition ex_session :: "int \<Rightarrow> session" where
  "ex_session n = \<lparr>ss_account = ''a'', ss_identity = ''i'', ss_csrf = ''x'', ss_created = n, ss_expires = n + 100,
     ss_ip = ''ip'', ss_agent = []\<rparr>"

definition ex_sessions :: session_store where
  "ex_sessions = \<lparr>st_sessions = [''k1'' \<mapsto> ex_session 1, ''k2'' \<mapsto> ex_session 2], st_failures = (\<lambda>_. []),
     st_challenges = Map.empty, st_options = ex_options\<rparr>"

definition ex_request :: "string option \<Rightarrow> request" where
  "ex_request c = \<lparr>rq_method = ''GET'', rq_ip = ''ip'', rq_scheme = ''https'', rq_agent = [], rq_cookie = c, rq_csrf = []\<rparr>"

lemma ex_options_limits [simp]:
  "so_max_sessions ex_options = 2" "so_max_failures ex_options = 2" "so_window ex_options = 50" "so_ttl ex_options = 100"
  "so_challenge_ttl ex_options = 10"
  by (simp_all add: ex_options_def with_defaults_def or_positive_def)

lemma ex_enumerated: "enumerates [''k2'', ''k1''] (live_at 3 (st_sessions ex_sessions))"
  by (auto simp: enumerates_def ex_sessions_def live_at_def split: if_splits)

text \<open>The oldest session is evicted, though the iteration meets it last.\<close>

lemma create_session_bounded_witness:
  "\<exists>s' r gone. create_session (None :: nat persistence) [''k2'', ''k1''] ''123'' ''456'' 3 (ex_request None) ''a'' ''i''
      (0, ex_sessions) = Returned (s', r) \<and>
    evicts 2 (live_at 3 (st_sessions ex_sessions)) ''a'' gone \<and>
    int (card (owned_set (st_sessions (snd s')) ''a'')) \<le> 2 \<and> st_sessions (snd s') (token ''123'') \<noteq> None"
proof -
  have "0 < so_max_sessions (st_options (snd (0 :: nat, ex_sessions)))" by (simp add: ex_sessions_def)
  from create_session_bounded [of "(0 :: nat, ex_sessions)", OF this, of "[''k2'', ''k1'']" 3 None "''123''" "''456''"
      "ex_request None" "''a''" "''i''"]
  show ?thesis using ex_enumerated by (fastforce simp: ex_sessions_def)
qed

lemma session_access_witness:
  "get_session (None :: nat persistence) (\<lambda>_ _. True) 50 (ex_request (Some ''k1'')) (0, ex_sessions) =
     ((0, ex_sessions), Some (ex_session 1)) \<and>
   snd (revoke_session (None :: nat persistence) (\<lambda>s. s) [''k2'', ''k1''] ''a'' (hex_encode ''k2'') (0, ex_sessions))"
proof -
  have e: "enumerates [''k2'', ''k1''] (st_sessions (snd (0 :: nat, ex_sessions)))"
    by (auto simp: enumerates_def ex_sessions_def split: if_splits)
  have d: "display_session_id (\<lambda>s. s) ''k2'' = hex_encode ''k2''" by (simp add: display_session_id_def)
  note s = session_access [of "None :: nat persistence" "\<lambda>_ _. True" 50 "ex_request (Some ''k1'')" "(0, ex_sessions)"
    "(0, ex_sessions)" "ex_session 1" "''k1''" "''a''" "''i''" "[]" "[''k2'', ''k1'']" "\<lambda>s. s" "hex_encode ''k2''"]
  have "snd (revoke_session (None :: nat persistence) (\<lambda>s. s) [''k2'', ''k1''] ''a'' (hex_encode ''k2'') (0, ex_sessions)) =
      (\<exists>k x. st_sessions (snd (0 :: nat, ex_sessions)) k = Some x \<and> ss_account x = ''a'' \<and>
        display_session_id (\<lambda>s. s) k = hex_encode ''k2'')"
    using s e by blast
  also have "\<dots>"
    by (intro exI [of _ "''k2''"] exI [of _ "ex_session 2"] conjI d) (simp_all add: ex_sessions_def ex_session_def)
  finally show ?thesis using s [THEN conjunct1] by (simp add: ex_request_def ex_sessions_def ex_session_def)
qed

lemma challenge_single_use_witness:
  "snd (take_challenge 5 (ex_request None) (token ''7'') (fst (begin_challenge ''7'' 1 (ex_request None) ''a'' ''i'' ex_sessions))) \<noteq> None \<and>
   snd (take_challenge 5 (ex_request None) (token ''7'') (fst (take_challenge 5 (ex_request None) (token ''7'')
     (fst (begin_challenge ''7'' 1 (ex_request None) ''a'' ''i'' ex_sessions))))) = None"
proof
  define t where "t = fst (begin_challenge ''7'' 1 (ex_request None) ''a'' ''i'' ex_sessions)"
  show "snd (take_challenge 5 (ex_request None) (token ''7'') t) \<noteq> None"
    by (simp add: t_def take_challenge_def begin_challenge_def Let_def ex_sessions_def ex_request_def)
  show "snd (take_challenge 5 (ex_request None) (token ''7'') (fst (take_challenge 5 (ex_request None) (token ''7'') t))) = None"
    using challenge_single_use [OF prod.collapse [symmetric, of "take_challenge 5 (ex_request None) (token ''7'') t"],
        THEN conjunct1] .
qed

text \<open>Two wrong guesses one after another, at a limit of two.\<close>

lemma password_guesses_bounded_witness:
  "\<exists>s'. login_run (None :: nat persistence) ''ip'' 1 ((0, ex_sessions), [])
      [Checks (ex_request None) 1, Asks (ex_request None) None, Records (ex_request None) 2] s' \<and>
    int (count_events (wrong ''ip'')
      [Checks (ex_request None) 1, Asks (ex_request None) None, Records (ex_request None) 2]) \<le> 2"
proof -
  let ?rq = "ex_request None" and ?es = "[Checks (ex_request None) 1, Asks (ex_request None) None, Records (ex_request None) 2]"
  have ip: "rq_ip ?rq = ''ip''" by (simp add: ex_request_def)
  obtain t' where "session_authenticate (\<lambda>_ _. None) ex_sessions ?rq 1 2 [] [] = (t', Inl InvalidCredential)"
    by (simp add: session_authenticate_def limited_def Let_def ex_sessions_def)
  then obtain s' where run: "login_run (None :: nat persistence) ''ip'' 1 ((0, ex_sessions), []) ?es s'"
    using session_authenticate_run [of "\<lambda>_ _. None" ex_sessions ?rq 1 2 "[]" "[]" t' _ 1 None 0] ip by auto
  have n: "count_events (clears ''ip'') ?es = 0" by (simp add: count_events_def clears_def)
  have "int (count_events (wrong ''ip'') ?es + recent 1 ''ip'' ex_sessions) \<le>
      (int (count_events (clears ''ip'') ?es) + 1) * (so_max_failures (st_options ex_sessions) + int 1 - 1)"
    by (rule password_guesses_bounded [OF run, THEN conjunct1])
      (simp_all add: ex_sessions_def recent_def within_def)
  then have "int (count_events (wrong ''ip'') ?es) \<le> 2" unfolding n by (simp add: ex_sessions_def)
  with run show ?thesis by blast
qed

text \<open>Ann's account with the hash of a password, and her login.\<close>

definition ex_mac :: mac where
  "ex_mac = (\<lambda>k m. of_nat (length k))"

definition ex_hash :: string where
  "ex_hash = the (hash_password ex_mac (Some (replicate 16 (CHR ''s''))) ''secret'')"

definition ex_login_model :: model where
  "ex_login_model = ex_documents\<lparr>md_users := \<lparr>af_version = 1, af_accounts =
     [ex_ann\<lparr>ac_identities := map (\<lambda>i. i\<lparr>id_password := ex_hash\<rparr>) (ac_identities ex_ann)\<rparr>]\<rparr>\<rparr>"

lemma ex_hash_verifies: "verify_password ex_mac ex_hash ''secret''" "ex_hash \<noteq> []"
proof -
  have "hash_password ex_mac (Some (replicate 16 (CHR ''s''))) ''secret'' = Some ex_hash"
    by (simp add: ex_hash_def hash_password_def)
  from verify_hashed [OF this] show "verify_password ex_mac ex_hash ''secret''" by simp
  show "ex_hash \<noteq> []" by (simp add: ex_hash_def hash_password_def)
qed

lemma ex_login_valid: "model_valid ex_policy ex_login_model"
  unfolding model_valid_def validate_accounts_iff [symmetric]
  by (simp add: ex_login_model_def ex_documents_def ex_ann_def ex_policy_def validate_accounts_def administrator_def
      known_capability_def check_identity_def check_password_def folded_def no_maps_def password_admin_def
      password_enabled_def ex_hash_verifies)

lemma login_opens_working_session_witness:
  "\<exists>s' x ck. session_login (None :: nat persistence) (authenticate_password (ex_account_lib\<lparr>al_mac := ex_mac\<rparr>) ex_login_model) []
       ''1'' ''2'' 3 4 (ex_request None) ''ann'' ''secret'' (0, ex_sessions\<lparr>st_sessions := Map.empty\<rparr>) = Returned (s', Inr (x, ck)) \<and>
     get_session (None :: nat persistence) (session_principal_active ex_login_model) 100 (ex_request (Some (ck_value ck))) s' = (s', Some x)"
proof -
  let ?s = "(0 :: nat, ex_sessions\<lparr>st_sessions := Map.empty\<rparr>)"
  let ?login = "authenticate_password (ex_account_lib\<lparr>al_mac := ex_mac\<rparr>) ex_login_model"
  have "\<exists>a i. ?login ''ann'' ''secret'' = Some (a, i)"
    by (simp add: authenticate_password_def ex_login_model_def ex_documents_def ex_ann_def ex_account_lib_def
        identity_pairs_def ex_hash_verifies Let_def)
  moreover have e: "without Map.empty p = (Map.empty :: session_map)" for p by (auto simp: without_def)
  ultimately obtain s' x ck where l: "session_login None ?login [] ''1'' ''2'' 3 4 (ex_request None) ''ann'' ''secret'' ?s =
      Returned (s', Inr (x, ck))"
    by (auto simp: session_login_def session_authenticate_def limited_def create_session_def Let_def save_locked_def
        ex_sessions_def owned_def)
  have "get_session None (session_principal_active ex_login_model) 100 (ex_request (Some (ck_value ck))) s' = (s', Some x)"
    by (rule login_opens_working_session [OF ex_login_valid l, THEN conjunct1])
      (simp_all add: ex_sessions_def enumerates_def live_at_def e ex_request_def)
  then show ?thesis using l by blast
qed

end
