(* ===== verification/Op_Contract.thy ===== *)
theory Op_Contract
  imports Go_Base
begin

text \<open>
  The operation contracts of \<open>operation/operation.go\<close>: the data a product declares for every
  operation, its validation with the three patterns, and the registry of contracts with its indexes
  of routes and commands.

  The enumerations of the code are string types, so their values are strings here too. The anchored
  patterns are written as tests on the parts between their separators.
\<close>

section \<open>Contracts\<close>

record op_route =
  ro_method :: string
  ro_path :: string

record op_cli =
  cl_resource :: string
  cl_verb :: string
  cl_implemented :: bool

record op_authorization =
  au_boundary :: string
  au_capability :: string
  au_scopes :: "string list"

record op_audit =
  ad_event :: string
  ad_required :: bool

record op_idempotency =
  ip_supported :: bool
  ip_required :: bool
  ip_retry_safe :: bool

record contract =
  ct_version :: int
  ct_id :: string
  ct_kind :: string
  ct_route :: op_route
  ct_cli :: "op_cli option"
  ct_auth :: op_authorization
  ct_input :: string
  ct_output :: string
  ct_audit :: op_audit
  ct_idempotency :: op_idempotency
  ct_automation :: string
  ct_secret_inputs :: "string list"
  ct_secret_outputs :: "string list"

datatype contract_error =
    ContractVersion string int
  | ContractID string
  | ContractKind string string
  | RouteMethod string
  | RoutePath string
  | NoCLIMapping string
  | InvalidCLI string
  | CapabilityMisplaced
  | CapabilityRequired
  | InvalidBoundary string
  | InvalidScope string
  | AuditNotRequired string
  | AuditEventInvalid string
  | IdempotencyUnsupported string
  | RetryUnsafe string
  | InvalidAutomation string string
  | SecretPointers string
  | DuplicateOperation string
  | RouteTaken string string string
  | CommandTaken string string string

definition kinds :: "string list" where "kinds = [''read'', ''mutation'', ''destructive'']"

definition automations :: "string list" where
  "automations = [''automatable'', ''browser-protocol'', ''streaming-protocol'', ''service-protocol'']"

definition methods :: "string list" where
  "methods = [''GET'', ''POST'', ''PUT'', ''PATCH'', ''DELETE'', ''HEAD'', ''OPTIONS'']"

section \<open>Patterns\<close>

text \<open>A lower-case letter and then letters, digits and the given other characters.\<close>

fun word_with :: "char list \<Rightarrow> string \<Rightarrow> bool" where
  "word_with extra [] = False"
| "word_with extra (c # s) \<longleftrightarrow> lower_letter c \<and> (\<forall>d \<in> set s. lower_letter d \<or> digit_char d \<or> d \<in> set extra)"

definition word_pattern :: "string \<Rightarrow> bool" where
  "word_pattern s \<longleftrightarrow> word_with [CHR ''-''] s"

definition id_pattern :: "string \<Rightarrow> bool" where
  "id_pattern s \<longleftrightarrow> (let ws = split_all (CHR ''.'') s in 2 \<le> length ws \<and> list_all word_pattern ws)"

definition scope_pattern :: "string \<Rightarrow> bool" where
  "scope_pattern s \<longleftrightarrow> list_all (word_with [CHR ''.'', CHR ''-'']) (split_all (CHR '':'') s)"

section \<open>Validation\<close>

definition validate_route :: "op_route \<Rightarrow> contract_error + unit" where
  "validate_route r =
     (if ro_method r \<notin> set methods then Inl (RouteMethod (ro_method r))
      else if \<not> prefix ''/'' (ro_path r) \<or> (\<exists>c \<in> set (ro_path r). c \<in> set ''?# '') then Inl (RoutePath (ro_path r))
      else Inr ())"

definition validate_authorization :: "op_authorization \<Rightarrow> contract_error + unit" where
  "validate_authorization a =
     (let scopes = (case find (\<lambda>s. \<not> scope_pattern s) (au_scopes a) of Some s \<Rightarrow> Inl (InvalidScope s) | None \<Rightarrow> Inr ())
      in if au_boundary a \<in> set [''public'', ''session'', ''service'', ''cluster-node''] then
           (if au_capability a \<noteq> [] then Inl CapabilityMisplaced else scopes)
         else if au_boundary a = ''capability'' then
           (if \<not> id_pattern (au_capability a) then Inl CapabilityRequired else scopes)
         else Inl (InvalidBoundary (au_boundary a)))"

fun validate_pointers :: "string set \<Rightarrow> string list \<Rightarrow> contract_error + unit" where
  "validate_pointers seen [] = Inr ()"
| "validate_pointers seen (v # vs) =
     (if v = [] \<or> hd v \<noteq> CHR ''/'' \<or> v \<in> seen then Inl (SecretPointers v)
      else validate_pointers (insert v seen) vs)"

definition contract_validate :: "contract \<Rightarrow> contract_error + unit" where
  "contract_validate c =
     (if ct_version c \<noteq> 1 then Inl (ContractVersion (ct_id c) (ct_version c))
      else if \<not> id_pattern (ct_id c) then Inl (ContractID (ct_id c))
      else if ct_kind c \<notin> set kinds then Inl (ContractKind (ct_id c) (ct_kind c))
      else (case validate_route (ct_route c) of Inl e \<Rightarrow> Inl e | Inr _ \<Rightarrow>
      if ct_cli c = None \<and> ct_automation c = ''automatable'' then Inl (NoCLIMapping (ct_id c))
      else if (case ct_cli c of None \<Rightarrow> False | Some l \<Rightarrow> \<not> word_pattern (cl_resource l) \<or> \<not> word_pattern (cl_verb l))
        then Inl (InvalidCLI (ct_id c))
      else (case validate_authorization (ct_auth c) of Inl e \<Rightarrow> Inl e | Inr _ \<Rightarrow>
      if ct_kind c \<noteq> ''read'' \<and> \<not> ad_required (ct_audit c) then Inl (AuditNotRequired (ct_id c))
      else if ad_required (ct_audit c) \<and> \<not> id_pattern (ad_event (ct_audit c)) then Inl (AuditEventInvalid (ct_id c))
      else if ip_required (ct_idempotency c) \<and> \<not> ip_supported (ct_idempotency c) then Inl (IdempotencyUnsupported (ct_id c))
      else if ip_retry_safe (ct_idempotency c) \<and> \<not> ip_supported (ct_idempotency c) \<and> ct_kind c \<noteq> ''read''
        then Inl (RetryUnsafe (ct_id c))
      else if ct_automation c \<notin> set automations then Inl (InvalidAutomation (ct_id c) (ct_automation c))
      else validate_pointers {} (ct_secret_inputs c @ ct_secret_outputs c))))"

section \<open>The registry\<close>

record registry =
  rg_contracts :: "string \<rightharpoonup> contract"
  rg_routes :: "string \<rightharpoonup> string"
  rg_commands :: "string \<rightharpoonup> string"

definition route_key :: "op_route \<Rightarrow> string" where
  "route_key r = ro_method r @ '' '' @ ro_path r"

definition command_key :: "op_cli \<Rightarrow> string" where
  "command_key l = cl_resource l @ '' '' @ cl_verb l"

definition register :: "registry \<Rightarrow> contract \<Rightarrow> registry \<times> (contract_error + unit)" where
  "register r c =
     (case contract_validate c of
        Inl e \<Rightarrow> (r, Inl e)
      | Inr _ \<Rightarrow>
          if rg_contracts r (ct_id c) \<noteq> None then (r, Inl (DuplicateOperation (ct_id c)))
          else (case rg_routes r (route_key (ct_route c)) of
            Some own \<Rightarrow> (r, Inl (RouteTaken (route_key (ct_route c)) own (ct_id c)))
          | None \<Rightarrow>
              (let stored = (\<lambda>r. r\<lparr>rg_contracts := (rg_contracts r)(ct_id c \<mapsto> c),
                                  rg_routes := (rg_routes r)(route_key (ct_route c) \<mapsto> ct_id c)\<rparr>)
               in case ct_cli c of
                    None \<Rightarrow> (stored r, Inr ())
                  | Some l \<Rightarrow>
                      (case rg_commands r (command_key l) of
                         Some own \<Rightarrow> (r, Inl (CommandTaken (command_key l) own (ct_id c)))
                       | None \<Rightarrow> (stored (r\<lparr>rg_commands := (rg_commands r)(command_key l \<mapsto> ct_id c)\<rparr>), Inr ())))))"

definition empty_registry :: registry where
  "empty_registry = \<lparr>rg_contracts = Map.empty, rg_routes = Map.empty, rg_commands = Map.empty\<rparr>"

fun register_all :: "registry \<Rightarrow> contract list \<Rightarrow> contract_error + registry" where
  "register_all r [] = Inr r"
| "register_all r (c # cs) =
     (case register r c of (_, Inl e) \<Rightarrow> Inl e | (r', Inr _) \<Rightarrow> register_all r' cs)"

definition new_registry :: "contract list \<Rightarrow> contract_error + registry" where
  "new_registry cs = register_all empty_registry cs"

definition registry_get :: "registry \<Rightarrow> string \<Rightarrow> contract option" where
  "registry_get r i = rg_contracts r i"

text \<open>\<open>Contracts\<close> sorts what the iteration of the map yields.\<close>

definition registry_contracts :: "registry \<Rightarrow> string list \<Rightarrow> contract list" where
  "registry_contracts r order = sort_key ct_id (List.map_filter (rg_contracts r) order)"

end
