(* ===== verification/Auth_Execution.thy ===== *)
theory Auth_Execution
  imports Op_Contract Auth_Accounts
begin

text \<open>
  The execution context of \<open>auth/execution.go\<close>: actors and executions with their validation, the
  authorization of an actor against the boundary of a contract, and the provider grants of
  \<open>auth/policy.go\<close>. The kinds and modes are string types in the code.
\<close>

section \<open>Actors and executions\<close>

record principal =
  pr_kind :: string
  pr_project :: string
  pr_installation :: string
  pr_subject :: string
  pr_account :: string
  pr_capabilities :: "string list"
  pr_scopes :: "string list"

record execution =
  ex_mode :: string
  ex_project :: string
  ex_installation :: string
  ex_target :: string
  ex_principal :: principal
  ex_request_id :: string
  ex_idempotency :: string

datatype execution_error =
    PrincipalFields
  | HumanWithoutAccount
  | HumanWithScopes
  | TokenAuthority
  | ServiceAuthority
  | InvalidPrincipal string
  | ExecutionFields
  | ForeignPrincipal
  | TargetMisplaced
  | ClusterExecutionFields
  | InvalidMode string
  | AuthenticationRequired
  | HumanRequired
  | CapabilityDenied
  | ScopeDenied
  | HumanOrTokenRequired
  | ServiceRequired
  | ClusterNodeRequired
  | BoundaryUnsupported

definition principal_validate :: "principal \<Rightarrow> execution_error + unit" where
  "principal_validate a =
     (if pr_project a = [] \<or> pr_installation a = [] \<or> pr_subject a = [] then Inl PrincipalFields
      else if pr_kind a = ''human'' then
        (if pr_account a = [] then Inl HumanWithoutAccount
         else if pr_scopes a \<noteq> [] then Inl HumanWithScopes else Inr ())
      else if pr_kind a = ''api-token'' then
        (if pr_account a \<noteq> [] \<or> pr_capabilities a \<noteq> [] \<or> pr_scopes a = [] then Inl TokenAuthority else Inr ())
      else if pr_kind a = ''service'' \<or> pr_kind a = ''cluster-node'' then
        (if pr_account a \<noteq> [] \<or> pr_capabilities a \<noteq> [] \<or> pr_scopes a \<noteq> [] then Inl ServiceAuthority else Inr ())
      else Inl (InvalidPrincipal (pr_kind a)))"

definition execution_validate :: "execution \<Rightarrow> execution_error + unit" where
  "execution_validate e =
     (case principal_validate (ex_principal e) of
        Inl err \<Rightarrow> Inl err
      | Inr _ \<Rightarrow>
          if ex_project e = [] \<or> ex_installation e = [] then Inl ExecutionFields
          else if ex_project e \<noteq> pr_project (ex_principal e) \<or> ex_installation e \<noteq> pr_installation (ex_principal e)
            then Inl ForeignPrincipal
          else if ex_mode e = ''local'' \<or> ex_mode e = ''remote'' then
            (if ex_target e \<noteq> [] then Inl TargetMisplaced else Inr ())
          else if ex_mode e = ''cluster'' then
            (if ex_target e = [] \<or> pr_kind (ex_principal e) \<noteq> ''cluster-node'' then Inl ClusterExecutionFields else Inr ())
          else Inl (InvalidMode (ex_mode e)))"

section \<open>Authorization\<close>

text \<open>\<open>contains\<close> sorts a copy and looks at the first element that is not below the wanted one.\<close>

definition contains :: "string list \<Rightarrow> string \<Rightarrow> bool" where
  "contains values want =
     (case find (\<lambda>v. want \<le> v) (sort values) of None \<Rightarrow> False | Some v \<Rightarrow> v = want)"

definition contains_any :: "string list \<Rightarrow> string list \<Rightarrow> bool" where
  "contains_any have_them required \<longleftrightarrow> list_ex (contains have_them) required"

definition authorize :: "contract \<Rightarrow> principal option \<Rightarrow> execution_error + unit" where
  "authorize c actor =
     (let b = au_boundary (ct_auth c)
      in if b = ''public'' then Inr ()
         else (case actor of
           None \<Rightarrow> Inl AuthenticationRequired
         | Some a \<Rightarrow>
             (case principal_validate a of
                Inl e \<Rightarrow> Inl e
              | Inr _ \<Rightarrow>
                  if b = ''session'' then (if pr_kind a \<noteq> ''human'' then Inl HumanRequired else Inr ())
                  else if b = ''capability'' then
                    (if pr_kind a = ''human'' then
                       (if \<not> contains (pr_capabilities a) (au_capability (ct_auth c)) then Inl CapabilityDenied else Inr ())
                     else if pr_kind a = ''api-token'' then
                       (if \<not> contains_any (pr_scopes a) (au_scopes (ct_auth c)) then Inl ScopeDenied else Inr ())
                     else Inl HumanOrTokenRequired)
                  else if b = ''service'' then (if pr_kind a \<noteq> ''service'' then Inl ServiceRequired else Inr ())
                  else if b = ''cluster-node'' then
                    (if pr_kind a \<noteq> ''cluster-node'' then Inl ClusterNodeRequired else Inr ())
                  else Inl BoundaryUnsupported)))"

section \<open>Provider grants\<close>

record provider_grant =
  pg_provider :: string
  pg_policy :: string

datatype grant_error = GrantProviders | GrantPolicy

definition policy_valid :: "string \<Rightarrow> bool" where
  "policy_valid p \<longleftrightarrow> p = ''managed-only'' \<or> p = ''personal-allowed'' \<or> p = ''disabled''"

fun validate_grants :: "string set \<Rightarrow> provider_grant list \<Rightarrow> grant_error + unit" where
  "validate_grants seen [] = Inr ()"
| "validate_grants seen (g # gs) =
     (let p = trim_space (pg_provider g)
      in if p = [] \<or> p \<in> seen then Inl GrantProviders
         else if \<not> policy_valid (pg_policy g) then Inl GrantPolicy
         else validate_grants (insert p seen) gs)"

section \<open>Audit outcomes\<close>

definition audit_outcome :: "string \<Rightarrow> string" where
  "audit_outcome action =
     (if str_contains action ''failed'' \<or> str_contains action ''error'' \<or> str_contains action ''denied''
      then ''denied'' else ''success'')"

end
