(* ===== verification/Auth_Execution_Laws.thy ===== *)
theory Auth_Execution_Laws
  imports Auth_Execution
begin

text \<open>
  The registry holds one contract per operation id, route and command, and authorization is decided
  by the boundary of the contract alone.
\<close>

section \<open>Keys of the indexes\<close>

lemma word_no_space: "word_pattern s \<Longrightarrow> CHR '' '' \<notin> set s"
  by (cases s) (auto simp: word_pattern_def letter_defs)

lemma methods_no_space: "m \<in> set methods \<Longrightarrow> CHR '' '' \<notin> set m"
  by (auto simp: methods_def)

lemma spaced_inj: "CHR '' '' \<notin> set a \<Longrightarrow> CHR '' '' \<notin> set b \<Longrightarrow> a @ '' '' @ x = b @ '' '' @ y \<Longrightarrow> a = b \<and> x = y"
  by (metis append_Cons append_Nil cut_append option.inject prod.inject)

text \<open>What the parts of a valid contract look like.\<close>

definition contract_ok :: "contract \<Rightarrow> bool" where
  "contract_ok c \<longleftrightarrow> contract_validate c = Inr ()"

lemma contract_ok_parts:
  assumes "contract_ok c"
  shows "ro_method (ct_route c) \<in> set methods" "id_pattern (ct_id c)"
    "ct_cli c = Some l \<Longrightarrow> word_pattern (cl_resource l) \<and> word_pattern (cl_verb l)"
    "ct_kind c \<noteq> ''read'' \<Longrightarrow> ad_required (ct_audit c) \<and> id_pattern (ad_event (ct_audit c))"
    "validate_authorization (ct_auth c) = Inr ()"
  using assms
  by (auto simp: contract_ok_def contract_validate_def validate_route_def split: if_splits sum.splits)

lemma route_key_inj:
  assumes "contract_ok c" and "contract_ok d" and "route_key (ct_route c) = route_key (ct_route d)"
  shows "ct_route c = ct_route d"
proof -
  have "ro_method (ct_route c) = ro_method (ct_route d) \<and> ro_path (ct_route c) = ro_path (ct_route d)"
    using assms(3) unfolding route_key_def
    by (intro spaced_inj) (simp_all add: methods_no_space contract_ok_parts(1) assms(1,2))
  then show ?thesis by (intro op_route.equality) simp_all
qed

definition command_of :: "contract \<Rightarrow> (string \<times> string) option" where
  "command_of c = map_option (\<lambda>l. (cl_resource l, cl_verb l)) (ct_cli c)"

lemma command_key_inj:
  assumes "contract_ok c" and "contract_ok d" and "ct_cli c = Some l" and "ct_cli d = Some k"
    and "command_key l = command_key k"
  shows "command_of c = command_of d"
proof -
  have "cl_resource l = cl_resource k \<and> cl_verb l = cl_verb k"
    using assms(5) contract_ok_parts(3) [OF assms(1,3)] contract_ok_parts(3) [OF assms(2,4)] unfolding command_key_def
    by (intro spaced_inj) (simp_all add: word_no_space)
  then show ?thesis by (simp add: command_of_def assms(3,4))
qed

section \<open>The registry as a function of its contracts\<close>

definition commands :: "contract list \<Rightarrow> (string \<times> string) list" where
  "commands cs = List.map_filter command_of cs"

definition registry_of :: "contract list \<Rightarrow> registry" where
  "registry_of cs = \<lparr>rg_contracts = map_of (map (\<lambda>c. (ct_id c, c)) cs),
     rg_routes = map_of (map (\<lambda>c. (route_key (ct_route c), ct_id c)) cs),
     rg_commands = map_of (List.map_filter (\<lambda>c. map_option (\<lambda>l. (command_key l, ct_id c)) (ct_cli c)) cs)\<rparr>"

definition all_distinct :: "contract list \<Rightarrow> bool" where
  "all_distinct cs \<longleftrightarrow> (\<forall>c \<in> set cs. contract_ok c) \<and> distinct (map ct_id cs) \<and> distinct (map ct_route cs) \<and>
     distinct (commands cs)"

lemma set_commands: "x \<in> set (commands cs) \<longleftrightarrow> (\<exists>c \<in> set cs. command_of c = Some x)"
  by (induction cs) (auto simp: commands_def map_filter_simps split: option.splits)

lemma commands_simps [simp]:
  "commands [] = []"
  "commands (c # cs) = (case command_of c of None \<Rightarrow> commands cs | Some x \<Rightarrow> x # commands cs)"
  by (simp_all add: commands_def map_filter_simps split: option.split)

lemma registry_route_None:
  assumes "\<forall>d \<in> set ds. contract_ok d" and "contract_ok c"
  shows "rg_routes (registry_of ds) (route_key (ct_route c)) = None \<longleftrightarrow> ct_route c \<notin> ct_route ` set ds"
  using assms(1)
proof (induction ds)
  case (Cons d ds)
  then show ?case using route_key_inj [OF assms(2), of d] by (auto simp: registry_of_def)
qed (simp add: registry_of_def)

lemma registry_command_None:
  assumes "\<forall>d \<in> set ds. contract_ok d" and "contract_ok c" and "ct_cli c = Some l"
  shows "rg_commands (registry_of ds) (command_key l) = None \<longleftrightarrow> (cl_resource l, cl_verb l) \<notin> set (commands ds)"
  using assms(1)
proof (induction ds)
  case (Cons d ds)
  show ?case
  proof (cases "ct_cli d")
    case None
    then show ?thesis using Cons by (simp add: registry_of_def map_filter_simps command_of_def)
  next
    case (Some k)
    have "command_key l = command_key k \<longleftrightarrow> cl_resource l = cl_resource k \<and> cl_verb l = cl_verb k"
      using command_key_inj [OF assms(2) _ assms(3) Some] Cons.prems by (auto simp: command_of_def assms(3) Some command_key_def)
    then show ?thesis using Cons Some by (simp add: registry_of_def map_filter_simps command_of_def)
  qed
qed (simp add: registry_of_def map_filter_simps)

lemma registry_contract_None: "rg_contracts (registry_of ds) i = None \<longleftrightarrow> i \<notin> ct_id ` set ds"
  by (induction ds) (auto simp: registry_of_def)

text \<open>Registering one more contract succeeds exactly when the list stays distinct.\<close>

lemma register_step:
  assumes "all_distinct ds"
  shows "register (registry_of ds) c = (if all_distinct (c # ds) then (registry_of (c # ds), Inr ())
    else (registry_of ds, Inl (projl (snd (register (registry_of ds) c)))))"
proof (cases "contract_ok c")
  case False
  then show ?thesis by (auto simp: all_distinct_def register_def contract_ok_def split: sum.splits)
next
  case True
  have ok: "\<forall>d \<in> set ds. contract_ok d" using assms by (simp add: all_distinct_def)
  have v: "contract_validate c = Inr ()" using True by (simp add: contract_ok_def)
  note r = registry_route_None [OF ok True]
  show ?thesis
  proof (cases "ct_cli c")
    case None
    have "rg_commands (registry_of (c # ds)) = rg_commands (registry_of ds)"
      by (simp add: registry_of_def map_filter_simps None)
    then have "registry_of (c # ds) = (registry_of ds)\<lparr>rg_contracts := (rg_contracts (registry_of ds))(ct_id c \<mapsto> c),
        rg_routes := (rg_routes (registry_of ds))(route_key (ct_route c) \<mapsto> ct_id c)\<rparr>"
      by (simp add: registry_of_def)
    then show ?thesis using assms True None v r registry_contract_None [of ds "ct_id c"]
      by (auto simp: register_def Let_def all_distinct_def command_of_def split: option.splits)
  next
    case (Some l)
    have "registry_of (c # ds) = (registry_of ds)\<lparr>rg_commands := (rg_commands (registry_of ds))(command_key l \<mapsto> ct_id c),
        rg_contracts := (rg_contracts (registry_of ds))(ct_id c \<mapsto> c),
        rg_routes := (rg_routes (registry_of ds))(route_key (ct_route c) \<mapsto> ct_id c)\<rparr>"
      by (simp add: registry_of_def map_filter_simps Some)
    then show ?thesis using assms True Some v r registry_contract_None [of ds "ct_id c"] registry_command_None [OF ok True Some]
      by (auto simp: register_def Let_def all_distinct_def command_of_def split: option.splits)
  qed
qed

lemma register_all_iff:
  "all_distinct ds \<Longrightarrow> register_all (registry_of ds) cs = Inr r \<longleftrightarrow>
     all_distinct (rev cs @ ds) \<and> r = registry_of (rev cs @ ds)"
proof (induction cs arbitrary: ds)
  case (Cons c cs)
  show ?case
  proof (cases "all_distinct (c # ds)")
    case True
    then show ?thesis using Cons.IH [OF True] register_step [OF Cons.prems, of c] by simp
  next
    case False
    then obtain e where "register (registry_of ds) c = (registry_of ds, Inl e)"
      using register_step [OF Cons.prems, of c] by auto
    moreover have "\<not> all_distinct (rev cs @ c # ds)"
      using False Cons.prems
      by (auto simp: all_distinct_def commands_def map_filter_def)
    ultimately show ?thesis by simp
  qed
qed auto

lemma commands_append [simp]: "commands (xs @ ys) = commands xs @ commands ys"
  by (induction xs) (auto split: option.splits)

lemma commands_rev: "commands (rev cs) = rev (commands cs)"
  by (induction cs) (auto split: option.splits)

lemma all_distinct_rev: "all_distinct (rev cs) = all_distinct cs"
  by (simp add: all_distinct_def commands_rev rev_map [symmetric])

interpretation registry: guarded_machine register "\<lambda>r. \<exists>cs. all_distinct cs \<and> r = registry_of cs"
proof
  fix r c r' e
  assume "register r c = (r', Inl e)"
  then show "r' = r" by (auto simp: register_def Let_def split: sum.splits if_splits option.splits)
next
  fix r c r' u
  assume "\<exists>cs. all_distinct cs \<and> r = registry_of cs" and s: "register r c = (r', Inr u)"
  then obtain cs where cs: "all_distinct cs" "r = registry_of cs" by blast
  then show "\<exists>cs. all_distinct cs \<and> r' = registry_of cs"
    using register_step [OF cs(1), of c] s by (metis Inl_Inr_False Pair_inject)
qed

lemma contracts_listed:
  assumes "all_distinct cs" and "distinct order" and "set order = ct_id ` set cs"
  shows "registry_contracts (registry_of cs) order = sort_key ct_id cs"
  unfolding registry_contracts_def
proof (rule sort_key_unique)
  have m: "rg_contracts (registry_of cs) (ct_id c) = Some c" if "c \<in> set cs" for c
    using assms(1) that by (auto simp: registry_of_def all_distinct_def comp_def intro!: map_of_is_SomeI)
  have d: "distinct cs" using assms(1) by (simp add: all_distinct_def distinct_map)
  define xs where "xs = List.map_filter (rg_contracts (registry_of cs)) order"
  have "\<exists>c \<in> set cs. rg_contracts (registry_of cs) k = Some c \<and> ct_id c = k" if "k \<in> set order" for k
    using that assms(3) m by auto
  then have "map ct_id xs = order \<and> set xs = {c \<in> set cs. ct_id c \<in> set order}"
    unfolding xs_def using m
  proof (induction order)
    case (Cons k ks)
    then obtain c where "c \<in> set cs" "rg_contracts (registry_of cs) k = Some c" "ct_id c = k" by auto
    moreover have "inj_on ct_id (set cs)" using assms(1) by (simp add: all_distinct_def distinct_map)
    ultimately show ?case using Cons by (auto simp: map_filter_simps inj_on_def)
  qed (simp add: map_filter_simps)
  then have x: "map ct_id xs = order" "set xs = set cs" using assms(3) by auto
  then have dx: "distinct xs" using assms(2) by (metis distinct_map)
  then show "mset xs = mset cs" using d x(2) by (simp add: set_eq_iff_mset_eq_distinct)
  show "inj_on ct_id (set xs)" using x assms(2) by (metis distinct_map)
  show "distinct xs" by (rule dx)
qed

lemma new_registry_iff: "new_registry cs = Inr r \<longleftrightarrow> all_distinct cs \<and> r = registry_of (rev cs)"
proof -
  have "all_distinct []" "registry_of [] = empty_registry"
    by (simp_all add: all_distinct_def registry_of_def empty_registry_def map_filter_simps)
  then show ?thesis using register_all_iff [of "[]" cs r] by (simp add: new_registry_def all_distinct_rev)
qed

lemma registry_lists:
  assumes "all_distinct cs" and "distinct order" and "set order = ct_id ` set cs"
  shows "registry_contracts (registry_of (rev cs)) order = sort_key ct_id cs"
proof -
  have "sort_key ct_id (rev cs) = sort_key ct_id cs"
    using assms(1) by (intro sort_key_unique) (auto simp: all_distinct_def distinct_map)
  then show ?thesis using contracts_listed [of "rev cs" order] assms by (simp add: all_distinct_rev)
qed

text \<open>C27. A registry is built exactly when every contract is valid and no two contracts share an operation
  id, a route (method and path) or a command (resource and verb), and then it holds exactly these
  contracts under their ids and indexes; registering into it leaves it as it was on an error, and
  \<open>Contracts\<close> lists them by id whatever the order of the map.\<close>

theorem registry_built_iff:
  "(new_registry cs = Inr r \<longleftrightarrow>
     (\<forall>c \<in> set cs. contract_validate c = Inr ()) \<and> distinct (map ct_id cs) \<and> distinct (map ct_route cs) \<and>
     distinct (commands cs) \<and> r = registry_of (rev cs)) \<and>
   (new_registry cs = Inr r \<longrightarrow>
     (registry_get r i = Some c \<longleftrightarrow> c \<in> set cs \<and> ct_id c = i) \<and>
     (register r d = (r', Inl e) \<longrightarrow> r' = r) \<and>
     (distinct order \<and> set order = ct_id ` set cs \<longrightarrow> registry_contracts r order = sort_key ct_id cs))"
proof -
  have g: "registry_get (registry_of (rev cs)) i = Some c \<longleftrightarrow> c \<in> set cs \<and> ct_id c = i" if "all_distinct cs"
  proof -
    have "distinct (map fst (map (\<lambda>c. (ct_id c, c)) (rev cs)))"
      using that by (simp add: all_distinct_def comp_def rev_map [symmetric])
    then show ?thesis by (auto simp: registry_get_def registry_of_def map_of_eq_Some_iff)
  qed
  then show ?thesis using new_registry_iff [of cs r] registry_lists [of cs order] registry.fail_frame [of r d r' e]
    by (auto simp: all_distinct_def contract_ok_def)
qed

section \<open>Authorization\<close>

lemma contains_iff: "contains vs w \<longleftrightarrow> w \<in> set vs"
proof -
  have "(case find (\<lambda>v. w \<le> v) xs of None \<Rightarrow> False | Some v \<Rightarrow> v = w) \<longleftrightarrow> w \<in> set xs" if "sorted xs" for xs
    using that by (induction xs) (auto simp: order.antisym)
  then show ?thesis by (simp add: contains_def)
qed

lemma contains_any_iff: "contains_any hs rs \<longleftrightarrow> set hs \<inter> set rs \<noteq> {}"
  by (auto simp: contains_any_def list_ex_iff contains_iff)

text \<open>The kind of actor each boundary admits, and what it must carry.\<close>

definition admitted :: "op_authorization \<Rightarrow> principal \<Rightarrow> bool" where
  "admitted z a \<longleftrightarrow>
     au_boundary z = ''session'' \<and> pr_kind a = ''human'' \<or>
     au_boundary z = ''capability'' \<and> pr_kind a = ''human'' \<and> au_capability z \<in> set (pr_capabilities a) \<or>
     au_boundary z = ''capability'' \<and> pr_kind a = ''api-token'' \<and> set (pr_scopes a) \<inter> set (au_scopes z) \<noteq> {} \<or>
     au_boundary z = ''service'' \<and> pr_kind a = ''service'' \<or>
     au_boundary z = ''cluster-node'' \<and> pr_kind a = ''cluster-node''"

definition principal_ok :: "principal \<Rightarrow> bool" where
  "principal_ok a \<longleftrightarrow> pr_project a \<noteq> [] \<and> pr_installation a \<noteq> [] \<and> pr_subject a \<noteq> [] \<and>
     (pr_kind a = ''human'' \<and> pr_account a \<noteq> [] \<and> pr_scopes a = [] \<or>
      pr_kind a = ''api-token'' \<and> pr_account a = [] \<and> pr_capabilities a = [] \<and> pr_scopes a \<noteq> [] \<or>
      pr_kind a \<in> {''service'', ''cluster-node''} \<and> pr_account a = [] \<and> pr_capabilities a = [] \<and> pr_scopes a = [])"

lemma principal_validate_iff: "principal_validate a = Inr () \<longleftrightarrow> principal_ok a"
  by (auto simp: principal_validate_def principal_ok_def)

text \<open>C26. An operation is authorized exactly when its boundary is public or the actor is well formed and of
  the kind the boundary admits: a human for a session, a human who carries the very capability or a
  token with one of the scopes for a capability, and the matching machine identity otherwise. A
  machine identity never passes a session or capability boundary, and an execution that validates
  runs under an actor of its own project and installation.\<close>

theorem authorize_iff:
  "(authorize c actor = Inr () \<longleftrightarrow> au_boundary (ct_auth c) = ''public'' \<or>
     (\<exists>a. actor = Some a \<and> principal_ok a \<and> admitted (ct_auth c) a)) \<and>
   (execution_validate x = Inr () \<longleftrightarrow> principal_ok (ex_principal x) \<and>
     ex_project x = pr_project (ex_principal x) \<and> ex_installation x = pr_installation (ex_principal x) \<and>
     (ex_mode x \<in> {''local'', ''remote''} \<and> ex_target x = [] \<or>
      ex_mode x = ''cluster'' \<and> ex_target x \<noteq> [] \<and> pr_kind (ex_principal x) = ''cluster-node''))"
proof
  show "authorize c actor = Inr () \<longleftrightarrow> au_boundary (ct_auth c) = ''public'' \<or>
     (\<exists>a. actor = Some a \<and> principal_ok a \<and> admitted (ct_auth c) a)"
  proof (cases actor)
    case None
    then show ?thesis by (simp add: authorize_def Let_def)
  next
    case (Some a)
    show ?thesis
    proof (cases "principal_ok a")
      case True
      then have "principal_validate a = Inr ()" by (simp add: principal_validate_iff)
      then show ?thesis using True Some
        by (auto simp: authorize_def Let_def admitted_def contains_iff contains_any_iff)
    next
      case False
      then obtain e where "principal_validate a = Inl e"
        by (cases "principal_validate a") (auto simp: principal_validate_iff [symmetric])
      then show ?thesis using False Some by (simp add: authorize_def Let_def)
    qed
  qed
  show "execution_validate x = Inr () \<longleftrightarrow> principal_ok (ex_principal x) \<and>
     ex_project x = pr_project (ex_principal x) \<and> ex_installation x = pr_installation (ex_principal x) \<and>
     (ex_mode x \<in> {''local'', ''remote''} \<and> ex_target x = [] \<or>
      ex_mode x = ''cluster'' \<and> ex_target x \<noteq> [] \<and> pr_kind (ex_principal x) = ''cluster-node'')"
  proof (cases "principal_ok (ex_principal x)")
    case True
    then have "principal_validate (ex_principal x) = Inr ()" by (simp add: principal_validate_iff)
    then show ?thesis using True by (auto simp: execution_validate_def principal_ok_def)
  next
    case False
    then obtain e where "principal_validate (ex_principal x) = Inl e"
      by (cases "principal_validate (ex_principal x)") (auto simp: principal_validate_iff [symmetric])
    then show ?thesis using False by (simp add: execution_validate_def)
  qed
qed

text \<open>
  The capability \<open>*\<close> that \<open>EffectiveCapabilities\<close> gives an administrator satisfies \<open>HasCapability\<close> for
  every key, but not \<open>Authorize\<close>, which looks for the very capability of the contract.
\<close>

lemma wildcard_not_authorized:
  assumes "au_boundary (ct_auth c) = ''capability''" and "id_pattern (au_capability (ct_auth c))"
    and "principal_ok a" and "pr_kind a = ''human''" and "pr_capabilities a = [''*'']"
  shows "has_capability (pr_capabilities a) (au_capability (ct_auth c)) \<and> authorize c (Some a) = Inl CapabilityDenied"
proof -
  have "au_capability (ct_auth c) \<noteq> ''*''" using assms(2) by (auto simp: id_pattern_def)
  moreover have "principal_validate a = Inr ()" using assms(3) by (simp add: principal_validate_iff)
  ultimately show ?thesis using assms by (simp add: authorize_def Let_def contains_iff has_capability_def)
qed

section \<open>Examples\<close>

definition ex_contract :: "string \<Rightarrow> string \<Rightarrow> contract" where
  "ex_contract i verb = \<lparr>ct_version = 1, ct_id = i, ct_kind = ''mutation'',
     ct_route = \<lparr>ro_method = ''POST'', ro_path = ''/api/'' @ verb\<rparr>,
     ct_cli = Some \<lparr>cl_resource = ''note'', cl_verb = verb, cl_implemented = True\<rparr>,
     ct_auth = \<lparr>au_boundary = ''capability'', au_capability = ''notes.edit'', au_scopes = [''notes:write'']\<rparr>,
     ct_input = [], ct_output = [], ct_audit = \<lparr>ad_event = ''notes.changed'', ad_required = True\<rparr>,
     ct_idempotency = \<lparr>ip_supported = True, ip_required = False, ip_retry_safe = True\<rparr>,
     ct_automation = ''automatable'', ct_secret_inputs = [''/token''], ct_secret_outputs = []\<rparr>"

lemma ex_contracts_valid:
  "contract_validate (ex_contract ''notes.add'' ''add'') = Inr ()" "contract_validate (ex_contract ''notes.del'' ''del'') = Inr ()"
  by code_simp+

lemma registry_built_iff_witness:
  "\<exists>r. new_registry [ex_contract ''notes.del'' ''del'', ex_contract ''notes.add'' ''add''] = Inr r \<and>
     registry_get r ''notes.add'' = Some (ex_contract ''notes.add'' ''add'') \<and>
     map ct_id (registry_contracts r [''notes.del'', ''notes.add'']) = [''notes.add'', ''notes.del'']"
proof -
  let ?a = "ex_contract ''notes.add'' ''add''" and ?d = "ex_contract ''notes.del'' ''del''"
  define r where "r = registry_of (rev [?d, ?a])"
  note s = registry_built_iff [of "[?d, ?a]" r "''notes.add''" ?a ?a "empty_registry" "NoCLIMapping []"
    "[''notes.del'', ''notes.add'']"]
  have n: "new_registry [?d, ?a] = Inr r"
    using s [THEN conjunct1] ex_contracts_valid
    by (simp add: r_def ex_contract_def command_of_def)
  have l: "sort_key ct_id [?d, ?a] = [?a, ?d]"
    by (simp add: ex_contract_def)
  have "registry_contracts r [''notes.del'', ''notes.add''] = [?a, ?d]"
    using s [THEN conjunct2] n l by (auto simp: ex_contract_def)
  moreover have "registry_get r ''notes.add'' = Some ?a" using s [THEN conjunct2] n by (auto simp: ex_contract_def)
  ultimately show ?thesis using n by (intro exI [of _ r]) (simp add: ex_contract_def)
qed

definition ex_human :: principal where
  "ex_human = \<lparr>pr_kind = ''human'', pr_project = ''p'', pr_installation = ''i'', pr_subject = ''s'', pr_account = ''a'',
     pr_capabilities = [''notes.edit'', ''notes.read''], pr_scopes = []\<rparr>"

lemma authorize_iff_witness:
  "authorize (ex_contract ''notes.add'' ''add'') (Some ex_human) = Inr () \<and>
   execution_validate \<lparr>ex_mode = ''local'', ex_project = ''p'', ex_installation = ''i'', ex_target = [],
     ex_principal = ex_human, ex_request_id = [], ex_idempotency = []\<rparr> = Inr ()"
  using authorize_iff [of "ex_contract ''notes.add'' ''add''" "Some ex_human" "\<lparr>ex_mode = ''local'', ex_project = ''p'',
     ex_installation = ''i'', ex_target = [], ex_principal = ex_human, ex_request_id = [], ex_idempotency = []\<rparr>"]
  by (simp add: ex_contract_def ex_human_def principal_ok_def admitted_def)

end
