(* ===== verification/Agent_Run.thy ===== *)
theory Agent_Run
  imports Go_Base
begin

text \<open>
  Agent runs of \<open>agent/agent.go\<close>: the state that records errors, stops and the cause of an
  interruption, the classification of a finished run, and the reconciliation of streamed output
  with the output recovered later.

  The lock makes every method one step. Sequence numbers are 64-bit words. \<open>strings.ToLower\<close> and
  \<open>url.Parse\<close> are arguments.
\<close>

section \<open>Recording\<close>

datatype cause =
    NoCause
  | UserStop
  | RequestCanceled
  | OutputLimit
  | ServiceShutdown
  | ProviderInsufficientBalance
  | OtherCause string

datatype run_outcome =
    Completed
  | CompletedWithProcessError
  | RunFailed
  | Cancelled
  | Truncated
  | Interrupted
  | Incomplete

record run_snapshot =
  sp_cause :: cause
  sp_error :: u64
  sp_cause_seq :: u64
  sp_stop :: u64
  sp_provider :: u64
  sp_sealed :: bool

record exit_status =
  xs_exited :: bool
  xs_code :: int
  xs_signaled :: bool
  xs_signal :: string

record run_state =
  rs_snapshot :: run_snapshot
  rs_sequence :: u64

definition new_run_state :: run_state where
  "new_run_state = \<lparr>rs_snapshot = \<lparr>sp_cause = NoCause, sp_error = 0, sp_cause_seq = 0, sp_stop = 0,
     sp_provider = 0, sp_sealed = False\<rparr>, rs_sequence = 0\<rparr>"

definition next_sequence :: "run_state \<Rightarrow> run_state \<times> u64" where
  "next_sequence s = (let n = rs_sequence s + 1 in (s\<lparr>rs_sequence := n\<rparr>, n))"

definition on_snapshot :: "(run_snapshot \<Rightarrow> run_snapshot) \<Rightarrow> run_state \<Rightarrow> run_state" where
  "on_snapshot f s = s\<lparr>rs_snapshot := f (rs_snapshot s)\<rparr>"

definition record_error :: "run_state \<Rightarrow> run_state" where
  "record_error s0 = (let s = fst (next_sequence s0)
     in on_snapshot (\<lambda>p. if sp_error p = 0 then p\<lparr>sp_error := rs_sequence s\<rparr> else p) s)"

definition record_provider_failure :: "run_state \<Rightarrow> run_state" where
  "record_provider_failure s0 = (let s = fst (next_sequence s0)
     in on_snapshot (\<lambda>p. if sp_provider p = 0 then p\<lparr>sp_provider := rs_sequence s\<rparr> else p) s)"

definition record_error_at :: "u64 \<Rightarrow> run_state \<Rightarrow> run_state" where
  "record_error_at n = on_snapshot (\<lambda>p. if n > 0 \<and> sp_error p = 0 then p\<lparr>sp_error := n\<rparr> else p)"

definition record_stop_at :: "u64 \<Rightarrow> run_state \<Rightarrow> run_state" where
  "record_stop_at n = on_snapshot (\<lambda>p. if n > 0 \<and> sp_stop p = 0 then p\<lparr>sp_stop := n\<rparr> else p)"

definition record_provider_failure_at :: "u64 \<Rightarrow> run_state \<Rightarrow> run_state" where
  "record_provider_failure_at n = on_snapshot (\<lambda>p. if n > 0 \<and> sp_provider p = 0 then p\<lparr>sp_provider := n\<rparr> else p)"

text \<open>The switch of \<open>RecordCause\<close>: which recorded cause a new one replaces.\<close>

fun replaces :: "cause \<Rightarrow> cause \<Rightarrow> bool" where
  "replaces RequestCanceled old \<longleftrightarrow> old = NoCause"
| "replaces UserStop old \<longleftrightarrow> old = NoCause \<or> old = RequestCanceled"
| "replaces OutputLimit old \<longleftrightarrow> old = NoCause \<or> old = RequestCanceled \<or> old = UserStop"
| "replaces ServiceShutdown old \<longleftrightarrow> old = NoCause \<or> old = RequestCanceled"
| "replaces _ old \<longleftrightarrow> False"

definition record_cause :: "cause \<Rightarrow> run_state \<Rightarrow> run_state \<times> bool" where
  "record_cause c s =
     (if sp_sealed (rs_snapshot s) \<or> \<not> replaces c (sp_cause (rs_snapshot s)) then (s, False)
      else (let s1 = fst (next_sequence s)
            in (on_snapshot (\<lambda>p. p\<lparr>sp_cause := c, sp_cause_seq := rs_sequence s1\<rparr>) s1, True)))"

definition seal :: "run_state \<Rightarrow> run_state" where
  "seal = on_snapshot (\<lambda>p. p\<lparr>sp_sealed := True\<rparr>)"

section \<open>Classification\<close>

definition classify :: "run_snapshot \<Rightarrow> bool \<Rightarrow> bool \<Rightarrow> exit_status \<Rightarrow> cause \<Rightarrow> run_outcome" where
  "classify p stdout_error valid_stop x provider =
     (if provider \<noteq> NoCause \<and> (sp_stop p = 0 \<or> sp_provider p < sp_stop p) \<and>
         (sp_cause p = NoCause \<or> sp_cause_seq p > 0 \<and> sp_provider p < sp_cause_seq p) then RunFailed
      else if stdout_error \<and> (sp_stop p = 0 \<or> sp_error p > 0 \<and> sp_error p < sp_stop p) \<and>
         (sp_cause p = NoCause \<or> sp_error p > 0 \<and> sp_cause_seq p > 0 \<and> sp_error p < sp_cause_seq p) then RunFailed
      else if sp_cause p = OutputLimit then Truncated
      else if sp_cause p = UserStop \<or> sp_cause p = RequestCanceled then Cancelled
      else if sp_cause p = ServiceShutdown then Interrupted
      else if xs_signaled x then RunFailed
      else if xs_exited x \<and> xs_code x \<noteq> 0 \<and> valid_stop then CompletedWithProcessError
      else if xs_exited x \<and> xs_code x \<noteq> 0 then RunFailed
      else if xs_exited x \<and> xs_code x = 0 \<and> valid_stop then Completed
      else RunFailed)"

definition classify_provider_error :: "(string \<Rightarrow> string) \<Rightarrow> string \<Rightarrow> string \<Rightarrow> int \<Rightarrow> bool" where
  "classify_provider_error lower message code status =
     (let v = lower (trim_space message); c = lower (trim_space code)
      in status = 402 \<or> c = ''insufficient_balance'' \<or> c = ''insufficient balance'' \<or>
         c = ''account_balance_insufficient'' \<or> c = ''billing_insufficient_balance'' \<or>
         str_contains v ''insufficient balance'')"

definition sanitize_billing_url :: "(string \<Rightarrow> go_url option) \<Rightarrow> string \<Rightarrow> string" where
  "sanitize_billing_url parse raw0 =
     (let raw = trim_space raw0
      in if raw = [] \<or> length raw > 512 then []
         else if \<exists>c \<in> set raw. (of_char c :: nat) < 32 \<or> of_char c = (127 :: nat) then []
         else (case parse raw of
           None \<Rightarrow> []
         | Some u \<Rightarrow>
             if url_scheme u \<noteq> ''https'' \<or> url_host u = [] \<or> url_has_user u \<or> url_port u \<noteq> [] \<or> url_query u \<noteq> [] \<or>
                url_fragment u \<noteq> [] \<or> url_hostname u \<noteq> ''opencode.ai'' \<or> \<not> prefix ''/workspace/'' (url_path u)
             then [] else url_string u))"

section \<open>Recovered output\<close>

text \<open>The loop over the suffixes of the streamed text, longest first; \<open>None\<close> when none matches.\<close>

fun overlap :: "string \<Rightarrow> nat \<Rightarrow> string \<Rightarrow> nat option" where
  "overlap streamed 0 recovered = None"
| "overlap streamed (Suc i) recovered =
     (if prefix (drop (length streamed - Suc i) streamed) recovered then Some (Suc i)
      else overlap streamed i recovered)"

text \<open>The text to add, whether it is a duplicate, and whether it replaces what was streamed.\<close>

definition reconcile_recovered :: "string \<Rightarrow> string \<Rightarrow> string \<times> bool \<times> bool" where
  "reconcile_recovered streamed0 recovered0 =
     (let s = trim_space streamed0; r = trim_space recovered0
      in if r = [] then ([], True, False)
         else if s = [] then (r, False, False)
         else if s = r \<or> str_contains s r then ([], True, False)
         else if prefix s r then (trim_space (drop (length s) r), False, False)
         else if suffix s r then (r, False, True)
         else (case overlap s (length s) r of
           Some i \<Rightarrow> (trim_space (drop i r), False, False)
         | None \<Rightarrow> (r, False, False)))"

definition run_args :: "string \<Rightarrow> string \<Rightarrow> string \<Rightarrow> string list \<Rightarrow> string \<Rightarrow> string list" where
  "run_args workspace model_ref session0 files prompt =
     (let session = trim_space session0
      in [''--print-logs'', ''--log-level'', ''WARN'', ''run'', ''--format'', ''json'', ''--auto'', ''--dir'', workspace,
          ''--model'', model_ref] @
         (if session \<noteq> [] then [''--session'', session] else []) @
         concat (map (\<lambda>f. [''--file'', f]) files) @ [''--'', prompt])"

section \<open>Commands on a run\<close>

datatype run_command =
    NextSequence
  | RecordError
  | RecordProviderFailure
  | RecordErrorAt u64
  | RecordStopAt u64
  | RecordProviderFailureAt u64
  | RecordCause cause
  | Seal

fun exec_run :: "run_state \<Rightarrow> run_command \<Rightarrow> run_state" where
  "exec_run s NextSequence = fst (next_sequence s)"
| "exec_run s RecordError = record_error s"
| "exec_run s RecordProviderFailure = record_provider_failure s"
| "exec_run s (RecordErrorAt n) = record_error_at n s"
| "exec_run s (RecordStopAt n) = record_stop_at n s"
| "exec_run s (RecordProviderFailureAt n) = record_provider_failure_at n s"
| "exec_run s (RecordCause c) = fst (record_cause c s)"
| "exec_run s Seal = seal s"

end
