(* ===== verification/Agent_Run_Laws.thy ===== *)
theory Agent_Run_Laws
  imports Agent_Run
begin

text \<open>
  The record of a run only moves forward, an interruption recorded before any error decides the
  outcome, and reconciliation adds exactly what the stream did not show.
\<close>

section \<open>The record moves forward\<close>

fun cause_rank :: "cause \<Rightarrow> nat" where
  "cause_rank NoCause = 0"
| "cause_rank RequestCanceled = 1"
| "cause_rank UserStop = 2"
| "cause_rank _ = 3"

definition kept :: "u64 \<Rightarrow> u64 \<Rightarrow> bool" where
  "kept old new \<longleftrightarrow> old \<noteq> 0 \<longrightarrow> new = old"

definition forward :: "run_snapshot \<Rightarrow> run_snapshot \<Rightarrow> bool" where
  "forward p q \<longleftrightarrow> kept (sp_error p) (sp_error q) \<and> kept (sp_stop p) (sp_stop q) \<and> kept (sp_provider p) (sp_provider q) \<and>
     (sp_cause q = sp_cause p \<and> sp_cause_seq q = sp_cause_seq p \<or>
      \<not> sp_sealed p \<and> cause_rank (sp_cause p) < cause_rank (sp_cause q)) \<and>
     (sp_sealed p \<longrightarrow> sp_sealed q)"

definition run :: "run_state \<Rightarrow> run_command list \<Rightarrow> run_state" where
  "run s cs = foldl exec_run s cs"

lemma run_simps [simp]: "run s [] = s" "run s (c # cs) = run (exec_run s c) cs"
  by (simp_all add: run_def)

lemmas run_op_defs = next_sequence_def record_error_def record_provider_failure_def record_error_at_def
  record_stop_at_def record_provider_failure_at_def record_cause_def seal_def on_snapshot_def Let_def

lemma replaces_rank: "replaces c old \<Longrightarrow> cause_rank old < cause_rank c"
  by (cases c) auto

lemma forward_refl: "forward p p"
  by (simp add: forward_def kept_def)

lemma forward_trans: "forward p q \<Longrightarrow> forward q r \<Longrightarrow> forward p r"
proof -
  assume f: "forward p q" and g: "forward q r"
  have k: "kept a b \<Longrightarrow> kept b c \<Longrightarrow> kept a c" for a b c by (simp add: kept_def)
  have "kept (sp_error p) (sp_error r)" "kept (sp_stop p) (sp_stop r)" "kept (sp_provider p) (sp_provider r)"
    using f g unfolding forward_def by (blast intro: k)+
  moreover have "sp_sealed p \<longrightarrow> sp_sealed r" using f g by (simp add: forward_def)
  moreover have "sp_cause r = sp_cause p \<and> sp_cause_seq r = sp_cause_seq p \<or>
      \<not> sp_sealed p \<and> cause_rank (sp_cause p) < cause_rank (sp_cause r)"
  proof (cases "sp_cause r = sp_cause q \<and> sp_cause_seq r = sp_cause_seq q")
    case True
    then show ?thesis using f by (simp add: forward_def)
  next
    case False
    then have "\<not> sp_sealed q" "cause_rank (sp_cause q) < cause_rank (sp_cause r)" using g unfolding forward_def by blast+
    then show ?thesis using f by (auto simp: forward_def)
  qed
  ultimately show ?thesis by (simp add: forward_def)
qed

lemma exec_run_forward: "forward (rs_snapshot s) (rs_snapshot (exec_run s c))"
proof (cases c)
  case (RecordCause d)
  then show ?thesis
    using replaces_rank [of d "sp_cause (rs_snapshot s)"] by (simp add: run_op_defs forward_def kept_def)
qed (simp_all add: run_op_defs forward_def kept_def)

lemma run_forward: "forward (rs_snapshot s) (rs_snapshot (run s cs))"
  by (induction cs arbitrary: s) (auto intro: forward_refl forward_trans exec_run_forward)

text \<open>A recorded cause carries a position, unless the 64-bit counter wrapped to zero at it.\<close>

definition numbered :: "run_state \<Rightarrow> bool" where
  "numbered s \<longleftrightarrow> sp_cause_seq (rs_snapshot s) \<le> rs_sequence s \<and>
     (sp_cause (rs_snapshot s) \<noteq> NoCause \<longrightarrow> 0 < sp_cause_seq (rs_snapshot s)) \<and>
     sp_cause (rs_snapshot s) \<in> {NoCause, RequestCanceled, UserStop, OutputLimit, ServiceShutdown}"

lemma inc_word: "unat (n :: u64) + k < 2 ^ 64 \<Longrightarrow> 0 < k \<Longrightarrow> unat (n + 1) = unat n + 1"
  by (simp add: unat_word_ariths)

lemma replaces_recordable: "replaces c old \<Longrightarrow> c \<in> {RequestCanceled, UserStop, OutputLimit, ServiceShutdown}"
  by (cases c) auto

lemma exec_run_numbered:
  assumes "numbered s" and "unat (rs_sequence s) + 1 < 2 ^ 64"
  shows "numbered (exec_run s c) \<and> unat (rs_sequence (exec_run s c)) \<le> unat (rs_sequence s) + 1"
proof -
  have i: "unat (rs_sequence s + 1) = unat (rs_sequence s) + 1" using inc_word [of "rs_sequence s" 1] assms(2) by simp
  then have l: "rs_sequence s \<le> rs_sequence s + 1" "0 < rs_sequence s + 1"
    by (simp_all add: word_le_nat_alt word_less_nat_alt)
  show ?thesis using assms(1) i l replaces_recordable
    by (cases c) (auto simp: run_op_defs numbered_def dest: order.trans)
qed

lemma run_numbered:
  "numbered s \<Longrightarrow> unat (rs_sequence s) + length cs < 2 ^ 64 \<Longrightarrow>
   numbered (run s cs) \<and> unat (rs_sequence (run s cs)) \<le> unat (rs_sequence s) + length cs"
proof (induction cs arbitrary: s)
  case (Cons c cs)
  have "numbered (exec_run s c) \<and> unat (rs_sequence (exec_run s c)) \<le> unat (rs_sequence s) + 1"
    using Cons.prems by (intro exec_run_numbered) simp_all
  then show ?case using Cons.IH [of "exec_run s c"] Cons.prems(2) by simp
qed simp

text \<open>C28. In every run the first recorded position of an error, of a stop and of a provider failure stays;
  the cause only gives way to one of higher rank (a cancelled request to a user's stop, both to the
  output limit or the shutdown, which are final) and never after the record is sealed; and, while
  the sequence counter does not wrap, every recorded cause has a positive position and a provider
  cause is never recorded as an interruption.\<close>

theorem run_record_forward:
  assumes "s = run new_run_state cs"
  shows "forward (rs_snapshot s) (rs_snapshot (run s ds)) \<and>
    (sp_sealed (rs_snapshot s) \<longrightarrow> record_cause c s = (s, False)) \<and>
    (length cs < 2 ^ 64 \<longrightarrow> numbered s \<and> (sp_cause (rs_snapshot s) = NoCause \<longrightarrow>
      classify (rs_snapshot s) False True \<lparr>xs_exited = True, xs_code = 0, xs_signaled = False, xs_signal = []\<rparr> NoCause = Completed))"
proof -
  have "numbered new_run_state" by (simp add: numbered_def new_run_state_def)
  moreover have "unat (rs_sequence new_run_state) = 0" by (simp add: new_run_state_def)
  ultimately show ?thesis
    using run_forward [of s ds] run_numbered [of new_run_state cs] assms
    by (simp add: record_cause_def classify_def)
qed

section \<open>Recovered output\<close>

lemma overlap_Some:
  "overlap s n r = Some i \<Longrightarrow> n \<le> length s \<Longrightarrow>
     0 < i \<and> i \<le> n \<and> prefix (drop (length s - i) s) r \<and> (\<forall>j. i < j \<longrightarrow> j \<le> n \<longrightarrow> \<not> prefix (drop (length s - j) s) r)"
proof (induction n)
  case (Suc n)
  show ?case
  proof (cases "prefix (drop (length s - Suc n) s) r")
    case True
    then show ?thesis using Suc.prems by auto
  next
    case False
    then show ?thesis using Suc by (auto simp: le_Suc_eq)
  qed
qed simp

lemma overlap_None: "overlap s n r = None \<Longrightarrow> 0 < j \<Longrightarrow> j \<le> n \<Longrightarrow> \<not> prefix (drop (length s - j) s) r"
  by (induction n) (auto simp: le_Suc_eq split: if_splits)

text \<open>The longest suffix of one text that starts the other.\<close>

definition longest_overlap :: "string \<Rightarrow> string \<Rightarrow> string \<Rightarrow> bool" where
  "longest_overlap s r x \<longleftrightarrow> suffix x s \<and> prefix x r \<and> (\<forall>y. suffix y s \<longrightarrow> prefix y r \<longrightarrow> length y \<le> length x)"

lemma suffix_is_drop: "suffix y s \<longleftrightarrow> (\<exists>j \<le> length s. y = drop (length s - j) s \<and> j = length y)"
proof
  assume "suffix y s"
  then obtain u where "s = u @ y" by (auto simp: suffix_def)
  then show "\<exists>j \<le> length s. y = drop (length s - j) s \<and> j = length y" by simp
next
  assume "\<exists>j \<le> length s. y = drop (length s - j) s \<and> j = length y"
  then show "suffix y s" by (metis suffix_drop)
qed

lemma overlap_longest:
  "longest_overlap s r (case overlap s (length s) r of Some i \<Rightarrow> drop (length s - i) s | None \<Rightarrow> [])"
proof (cases "overlap s (length s) r")
  case None
  then have "length y = 0" if "suffix y s" "prefix y r" for y
    using that overlap_None [of s "length s" r "length y"] by (auto simp: suffix_is_drop)
  then show ?thesis using None by (simp add: longest_overlap_def)
next
  case (Some i)
  note o = overlap_Some [OF Some]
  have "length y \<le> i" if "suffix y s" "prefix y r" for y
    using that o by (auto simp: suffix_is_drop) (metis not_le)
  then show ?thesis using o Some by (simp add: longest_overlap_def suffix_drop)
qed

text \<open>Reconciling a stream with the recovered text yields, of the trimmed texts, nothing but a duplicate
  mark when the stream already contains the recovered text, the whole recovered text as a
  replacement when it only precedes what was streamed, and otherwise what follows the longest
  overlap of the stream's end with the beginning of the recovered text, trimmed: nothing shown is
  repeated and nothing recovered after it is lost.\<close>

theorem reconcile_adds_the_rest:
  assumes "trim_space streamed = s" and "trim_space recovered = r"
    and "reconcile_recovered streamed recovered = (text, duplicate, replace)"
  shows "(duplicate \<longleftrightarrow> str_contains s r) \<and> (duplicate \<longrightarrow> text = []) \<and>
    (replace \<longrightarrow> text = r \<and> \<not> duplicate \<and> suffix s r \<and> s \<noteq> [] \<and> \<not> prefix s r) \<and>
    (\<not> duplicate \<longrightarrow> \<not> replace \<longrightarrow>
      (\<exists>x rest. r = x @ rest \<and> longest_overlap s r x \<and> (x = [] \<longrightarrow> text = r) \<and> (x \<noteq> [] \<longrightarrow> text = trim_space rest)))"
proof -
  have self: "str_contains s s" "str_contains s []"
    unfolding str_contains_iff by (metis append_Nil append_Nil2, metis append_Nil)
  have nil: "str_contains [] r \<longleftrightarrow> r = []" by (simp add: str_contains_iff)
  let ?x = "case overlap s (length s) r of Some i \<Rightarrow> drop (length s - i) s | None \<Rightarrow> []"
  have x: "longest_overlap s r ?x" by (rule overlap_longest)
  have len: "overlap s (length s) r = Some i \<Longrightarrow> length (drop (length s - i) s) = i \<and> 0 < i" for i
    using overlap_Some [of s "length s" r i] by simp
  obtain rest where r: "r = ?x @ rest" using x by (auto simp: longest_overlap_def prefix_def)
  consider (dup) "r = [] \<or> s \<noteq> [] \<and> str_contains s r" | (empty) "r \<noteq> []" "s = []"
    | (pre) "r \<noteq> []" "s \<noteq> []" "\<not> str_contains s r" "prefix s r"
    | (suf) "r \<noteq> []" "s \<noteq> []" "\<not> str_contains s r" "\<not> prefix s r" "suffix s r"
    | (rest) "r \<noteq> []" "s \<noteq> []" "\<not> str_contains s r" "\<not> prefix s r" "\<not> suffix s r" by blast
  then show ?thesis
  proof cases
    case dup
    then show ?thesis using assms self by (auto simp: reconcile_recovered_def Let_def split: if_splits)
  next
    case empty
    then have "longest_overlap s r []" by (simp add: longest_overlap_def)
    then show ?thesis using assms empty nil by (auto simp: reconcile_recovered_def Let_def split: if_splits)
  next
    case pre
    then have "longest_overlap s r s" by (auto simp: longest_overlap_def suffix_length_le)
    moreover have "r = s @ drop (length s) r" using pre(4) by (auto simp: prefix_def)
    moreover have "text = trim_space (drop (length s) r)" "\<not> duplicate" "\<not> replace"
      using assms pre self by (auto simp: reconcile_recovered_def Let_def split: if_splits)
    ultimately show ?thesis using pre by blast
  next
    case suf
    then show ?thesis using assms self by (auto simp: reconcile_recovered_def Let_def split: if_splits)
  next
    case rest
    then have t: "text = (case overlap s (length s) r of Some i \<Rightarrow> trim_space (drop i r) | None \<Rightarrow> r)" "\<not> duplicate" "\<not> replace"
      using assms self by (auto simp: reconcile_recovered_def Let_def split: option.splits if_splits)
    have "?x = [] \<longrightarrow> text = r" "?x \<noteq> [] \<longrightarrow> text = trim_space rest"
      using t(1) len r by (auto split: option.splits)
    then show ?thesis using t rest x r by blast
  qed
qed

lemma run_record_forward_witness:
  "numbered (run new_run_state [RecordCause RequestCanceled, RecordError, RecordCause OutputLimit, Seal]) \<and>
   record_cause UserStop (run new_run_state [RecordCause RequestCanceled, RecordError, RecordCause OutputLimit, Seal]) =
     (run new_run_state [RecordCause RequestCanceled, RecordError, RecordCause OutputLimit, Seal], False)"
  using run_record_forward [OF refl, of "[RecordCause RequestCanceled, RecordError, RecordCause OutputLimit, Seal]" "[]" UserStop]
  by (simp add: run_op_defs)

lemma reconcile_adds_the_rest_witness:
  "reconcile_recovered ''one two'' ''two three'' = (''three'', False, False) \<and>
   (\<exists>x rest. ''two three'' = x @ rest \<and> longest_overlap ''one two'' ''two three'' x)"
proof -
  have t: "trim_space ''one two'' = ''one two''" "trim_space ''two three'' = ''two three''" by code_simp+
  have r: "reconcile_recovered ''one two'' ''two three'' = (''three'', False, False)" by code_simp
  show ?thesis using reconcile_adds_the_rest [OF t r] r by auto
qed

end
