(* ===== verification/Conv_Events.thy ===== *)
theory Conv_Events
  imports Go_Base "HOL-Library.Product_Lexorder"
begin

text \<open>
  Conversations of \<open>conversations/conversations.go\<close>: the record and its limits, and the merge of
  the events a client sends with the events the server stored.
\<close>

section \<open>Records\<close>

record event =
  ev_kind :: string
  ev_text :: string
  ev_name :: string
  ev_created :: int
  ev_run :: string

record conversation =
  cv_id :: string
  cv_title :: string
  cv_workspace :: string
  cv_provider :: string
  cv_model :: string
  cv_session :: string
  cv_state :: string
  cv_current_run :: string
  cv_created :: int
  cv_updated :: int
  cv_archived :: int
  cv_events :: "event list"

datatype conversation_error = InvalidConversationID | StorageLimits | ControlCharacters | InvalidEvent

definition id_char :: "char \<Rightarrow> bool" where
  "id_char c \<longleftrightarrow> c = CHR ''-'' \<or> c = CHR ''_'' \<or> digit_char c \<or> lower_letter c \<or> upper_letter c"

definition valid_id :: "string \<Rightarrow> bool" where
  "valid_id i \<longleftrightarrow> i \<noteq> [] \<and> length i \<le> 128 \<and> list_all id_char i"

definition control_char :: "char \<Rightarrow> bool" where
  "control_char c \<longleftrightarrow> (of_char c :: nat) < 32 \<or> (of_char c :: nat) = 127"

definition has_control :: "string \<Rightarrow> bool" where
  "has_control s \<longleftrightarrow> list_ex control_char s"

definition event_ok :: "event \<Rightarrow> bool" where
  "event_ok e \<longleftrightarrow> \<not> (ev_kind e = [] \<or> length (ev_text e) > 1048576 \<or> length (ev_name e) > 500 \<or>
     ev_run e \<noteq> [] \<and> \<not> valid_id (ev_run e))"

definition conversation_validate :: "conversation \<Rightarrow> conversation_error + unit" where
  "conversation_validate r =
     (if \<not> valid_id (cv_id r) then Inl InvalidConversationID
      else if length (cv_title r) > 500 \<or> length (cv_workspace r) > 4096 \<or> length (cv_session r) > 256 \<or>
        length (cv_events r) > 2000 then Inl StorageLimits
      else if has_control (cv_title r) \<or> has_control (cv_workspace r) then Inl ControlCharacters
      else if \<not> list_all event_ok (cv_events r) then Inl InvalidEvent
      else Inr ())"

section \<open>Merging\<close>

definition signature :: "event \<Rightarrow> string" where
  "signature e = ev_kind e @ CHR 0x00 # ev_text e @ CHR 0x00 # ev_name e"

text \<open>The map of counts, and the loop over the client's events that uses them up.\<close>

fun unmatched :: "(string \<Rightarrow> nat) \<Rightarrow> event list \<Rightarrow> event list" where
  "unmatched available [] = []"
| "unmatched available (e # es) =
     (if available (signature e) > 0
      then unmatched (available(signature e := available (signature e) - 1)) es
      else e # unmatched available es)"

definition counts :: "event list \<Rightarrow> string \<Rightarrow> nat" where
  "counts es sig = count_list (map signature es) sig"

definition replacement_run :: "string \<Rightarrow> string" where
  "replacement_run name = (if prefix ''repl:'' name \<and> length name > 5 then drop 5 name else [])"

text \<open>\<open>strings.SplitN(name, ":", 3)\<close> has three parts when the name has two colons.\<close>

definition terminal_run :: "string \<Rightarrow> string" where
  "terminal_run name =
     (case cut (CHR '':'') name of
        None \<Rightarrow> []
      | Some (a, b) \<Rightarrow>
          (case cut (CHR '':'') b of
             None \<Rightarrow> []
           | Some (i, _) \<Rightarrow> if a = ''run'' then i else []))"

definition without_indices :: "event list \<Rightarrow> (nat \<Rightarrow> bool) \<Rightarrow> event list" where
  "without_indices es drop_it = map snd (filter (\<lambda>(i, e). \<not> drop_it i) (enumerate 0 es))"

definition replacements :: "event list \<Rightarrow> (string \<times> string) list" where
  "replacements es =
     map (\<lambda>e. (trim_space (ev_text e), replacement_run (ev_name e)))
       (filter (\<lambda>e. ev_kind e = ''assistant'' \<and> replacement_run (ev_name e) \<noteq> []) es)"

definition replaced :: "(string \<times> string) list \<Rightarrow> event \<Rightarrow> bool" where
  "replaced rs e \<longleftrightarrow> ev_kind e = ''assistant'' \<and> replacement_run (ev_name e) = [] \<and> ev_run e \<noteq> [] \<and>
     list_ex (\<lambda>(text, run). run = ev_run e \<and> text \<noteq> trim_space (ev_text e) \<and>
       str_contains text (trim_space (ev_text e))) rs"

definition supersede_replacements :: "event list \<Rightarrow> event list" where
  "supersede_replacements es = without_indices es (\<lambda>i. replaced (replacements es) (es ! i))"

text \<open>\<open>last\<close> maps every run to the index of its last terminal event.\<close>

fun last_terminal :: "nat \<Rightarrow> event list \<Rightarrow> string \<rightharpoonup> nat" where
  "last_terminal n [] = Map.empty"
| "last_terminal n (e # es) =
     (if terminal_run (ev_name e) = [] then last_terminal (Suc n) es
      else [terminal_run (ev_name e) \<mapsto> n] ++ last_terminal (Suc n) es)"

definition supersede_terminals :: "event list \<Rightarrow> event list" where
  "supersede_terminals es =
     without_indices es (\<lambda>i. let r = terminal_run (ev_name (es ! i)) in r \<noteq> [] \<and> last_terminal 0 es r \<noteq> Some i)"

definition merge_order :: "event list \<Rightarrow> event \<Rightarrow> int \<times> bool" where
  "merge_order server e = (ev_created e, signature e \<notin> signature ` set server)"

definition merge_events :: "event list \<Rightarrow> event list \<Rightarrow> event list" where
  "merge_events server client =
     supersede_terminals (supersede_replacements
       (sort_key (merge_order server) (server @ unmatched (counts server) client)))"

end
