(* ===== verification/Conv_Events_Laws.thy ===== *)
theory Conv_Events_Laws
  imports Conv_Events
begin

text \<open>
  What merging keeps: per signature the larger of the two counts, in order; what is left out is
  superseded by an event that stays, and every run keeps one terminal event.
\<close>

section \<open>Counting\<close>




section \<open>Dropping by index\<close>




section \<open>What superseding keeps\<close>










section \<open>The merge\<close>









text \<open>Two valid events that differ and share a signature: the client's is lost.\<close>

lemma nul_event_lost:
  fixes stored sent
  defines "stored \<equiv> \<lparr>ev_kind = ''user'', ev_text = ''a'' @ CHR 0x00 # ''b'', ev_name = [], ev_created = 1, ev_run = []\<rparr>"
    and "sent \<equiv> \<lparr>ev_kind = ''user'', ev_text = ''a'', ev_name = ''b'' @ [CHR 0x00], ev_created = 2, ev_run = []\<rparr>"
  shows "event_ok stored \<and> event_ok sent \<and> stored \<noteq> sent \<and> merge_events [stored] [sent] = [stored]"
proof -
  have "signature sent = signature stored" by (simp add: signature_def stored_def sent_def)
  then have "unmatched (counts [stored]) [sent] = []" by (simp add: counts_def)
  then have m: "merge_events [stored] [sent] = supersede_terminals (supersede_replacements [stored])"
    by (simp add: merge_events_def)
  have "ev_name stored = []" "ev_kind stored = ''user''" by (simp_all add: stored_def)
  then have "supersede_terminals (supersede_replacements [stored]) = [stored]"
    by (simp add: supersede_terminals_def supersede_replacements_def without_indices_def replaced_def terminal_run_def)
  with m show ?thesis by (simp add: event_ok_def stored_def sent_def)
qed



end
