(* ===== verification/Cluster_Model.thy ===== *)
theory Cluster_Model
  imports Go_Bytes
begin

text \<open>
  Nodes and pairing of the cluster package: identities, members and their health, capabilities
  (\<open>cluster/model.go\<close>), and invitations, join submissions and secrets (\<open>cluster/pairing.go\<close>).

  Times are integers of nanoseconds, \<open>None\<close> is a nil pointer. \<open>sha\<close> is SHA-256 and \<open>parse\<close> is
  \<open>url.Parse\<close>. Random bytes and the generated key pair are arguments, \<open>None\<close> where \<open>crypto/rand\<close>
  reports an error.
\<close>

section \<open>Identities and members\<close>

definition protocol_version :: int where
  "protocol_version = 1"

record node_identity =
  id_node :: string
  id_installation :: string
  id_display_name :: string
  id_endpoint :: string
  id_public_key :: string
  id_capabilities :: "string list"
  id_protocol :: int
  id_product_version :: string
  id_created :: int
  id_paired :: "int option"
  id_last_seen :: "int option"
  id_revoked :: "int option"

datatype cluster_error =
    IdsRequired
  | ProtocolRequired
  | PublicKeyRequired
  | InvalidEndpoint
  | EndpointNeedsPlaintextOptIn
  | EndpointMustBeHttps
  | IncompatibleProtocol
  | CapabilityUnavailable
  | EntropyRequired
  | RandomFailed
  | InvitationTokenRequired
  | EndpointRequired
  | CredentialTooShort
  | InvitationUnavailable
  | InvitationExpired
  | InvalidTransition
  | InvalidTimestamp
  | AuthenticationRequired
  | OutsideClockSkew
  | MemberUnavailable
  | CapabilityMismatch
  | RequestTooLarge
  | CredentialRejected
  | InvalidSignature
  | InvalidTarget

definition fingerprint :: "(string \<Rightarrow> 256 word) \<Rightarrow> node_identity \<Rightarrow> string" where
  "fingerprint sha i =
     (let key = base64_decode_part base64_url (id_public_key i)
      in if key = [] then [] else hex_encode (take 8 (digest_bytes (sha key))))"

definition validate_public_endpoint :: "(string \<Rightarrow> go_url option) \<Rightarrow> string \<Rightarrow> bool \<Rightarrow> cluster_error + unit" where
  "validate_public_endpoint parse endpoint insecure =
     (if blank endpoint then Inr ()
      else (case parse endpoint of
          None \<Rightarrow> Inl InvalidEndpoint
        | Some u \<Rightarrow>
            if url_host u = [] then Inl InvalidEndpoint
            else if url_scheme u = ''https'' then Inr ()
            else if url_scheme u = ''http'' then (if insecure then Inr () else Inl EndpointNeedsPlaintextOptIn)
            else Inl EndpointMustBeHttps))"

definition validate_endpoint :: "(string \<Rightarrow> go_url option) \<Rightarrow> bool \<Rightarrow> node_identity \<Rightarrow> cluster_error + unit" where
  "validate_endpoint parse insecure i =
     (if blank (id_node i) \<or> blank (id_installation i) then Inl IdsRequired
      else if id_protocol i \<le> 0 then Inl ProtocolRequired
      else (case validate_public_endpoint parse (id_endpoint i) insecure of
          Inl e \<Rightarrow> Inl e
        | Inr _ \<Rightarrow> if id_public_key i = [] then Inl PublicKeyRequired else Inr ()))"

definition identity_validate :: "(string \<Rightarrow> go_url option) \<Rightarrow> node_identity \<Rightarrow> cluster_error + unit" where
  "identity_validate parse i = validate_endpoint parse False i"

record cluster_member = node_identity +
  mb_state :: string
  mb_latency :: int
  mb_disabled :: "int option"
  mb_credential_version :: int

text \<open>\<open>time.Time.Sub\<close> saturates at the bounds of a 64-bit duration.\<close>

definition time_sub :: "int \<Rightarrow> int \<Rightarrow> int" where
  "time_sub a b = max (- (2 ^ 63)) (min (2 ^ 63 - 1) (a - b))"

definition health :: "int \<Rightarrow> int \<Rightarrow> cluster_member \<Rightarrow> string" where
  "health now offline_after m =
     (if mb_state m = ''disabled'' then ''disabled''
      else if mb_state m = ''revoked'' then ''revoked''
      else if mb_state m \<noteq> ''active'' then ''degraded''
      else (case id_last_seen m of
          None \<Rightarrow> ''offline''
        | Some t \<Rightarrow> if offline_after > 0 \<and> time_sub now t > offline_after then ''offline'' else ''online''))"

section \<open>Capabilities\<close>

text \<open>The loop of \<open>NormalizeCapabilities\<close>, with the keys of \<open>seen\<close>.\<close>

fun distinct_trimmed :: "string list \<Rightarrow> string list \<Rightarrow> string list" where
  "distinct_trimmed seen [] = []"
| "distinct_trimmed seen (v # vs) =
     (let t = trim_space v
      in if t = [] \<or> t \<in> set seen then distinct_trimmed seen vs
         else t # distinct_trimmed (t # seen) vs)"

definition normalize_capabilities :: "string list \<Rightarrow> string list" where
  "normalize_capabilities vs = sort (distinct_trimmed [] vs)"

definition peer_has_capability :: "string list \<Rightarrow> string \<Rightarrow> bool" where
  "peer_has_capability vs required \<longleftrightarrow> required = [] \<or> required \<in> set vs"

definition compatible :: "int \<Rightarrow> int \<Rightarrow> string list \<Rightarrow> string list \<Rightarrow> string \<Rightarrow> cluster_error + unit" where
  "compatible local_protocol remote_protocol local_caps remote_caps required =
     (if local_protocol \<le> 0 \<or> remote_protocol \<le> 0 \<or> local_protocol \<noteq> remote_protocol then Inl IncompatibleProtocol
      else if required \<noteq> [] \<and> (\<not> peer_has_capability local_caps required \<or> \<not> peer_has_capability remote_caps required)
      then Inl CapabilityUnavailable
      else Inr ())"

section \<open>Generated identities and secrets\<close>

text \<open>\<open>rand.Read\<close> of \<open>n\<close> bytes.\<close>

type_synonym random = "nat \<Rightarrow> string option"

definition new_node_id :: "random \<Rightarrow> string \<Rightarrow> int \<Rightarrow> cluster_error + string" where
  "new_node_id rand px n =
     (if n \<le> 0 then Inl EntropyRequired
      else (case rand (nat n) of
          None \<Rightarrow> Inl RandomFailed
        | Some b \<Rightarrow> Inr (px @ base64_encode base64_url b)))"

record generated_identity =
  gi_identity :: node_identity
  gi_private_key :: string

definition generate_identity ::
    "(string \<times> string) option \<Rightarrow> random \<Rightarrow> random \<Rightarrow> string \<Rightarrow> string \<Rightarrow> string list \<Rightarrow> int \<Rightarrow> string \<Rightarrow> int \<Rightarrow>
     cluster_error + generated_identity" where
  "generate_identity key_pair rand1 rand2 node_prefix installation_prefix caps protocol product now =
     (if protocol \<le> 0 then Inl ProtocolRequired
      else (case key_pair of
          None \<Rightarrow> Inl RandomFailed
        | Some (public, private) \<Rightarrow>
            (case new_node_id rand1 node_prefix 16 of
                Inl e \<Rightarrow> Inl e
              | Inr node \<Rightarrow>
                  (case new_node_id rand2 installation_prefix 16 of
                      Inl e \<Rightarrow> Inl e
                    | Inr installation \<Rightarrow>
                        Inr \<lparr>gi_identity = \<lparr>id_node = node, id_installation = installation, id_display_name = [],
                               id_endpoint = [], id_public_key = base64_encode base64_url public,
                               id_capabilities = normalize_capabilities caps, id_protocol = protocol,
                               id_product_version = product, id_created = now, id_paired = None,
                               id_last_seen = None, id_revoked = None\<rparr>,
                             gi_private_key = private\<rparr>))))"

definition new_secret :: "random \<Rightarrow> int \<Rightarrow> cluster_error + string" where
  "new_secret rand n =
     (case rand (nat (if n < 32 then 32 else n)) of
        None \<Rightarrow> Inl RandomFailed
      | Some b \<Rightarrow> Inr (base64_encode base64_url b))"

definition secret_digest :: "(string \<Rightarrow> 256 word) \<Rightarrow> string \<Rightarrow> string" where
  "secret_digest sha secret = digest_bytes (sha secret)"

definition verify_secret_digest :: "(string \<Rightarrow> 256 word) \<Rightarrow> string \<Rightarrow> string \<Rightarrow> bool" where
  "verify_secret_digest sha secret digest \<longleftrightarrow> digest_bytes (sha secret) = digest"

section \<open>Pairing\<close>

record invitation =
  iv_id :: string
  iv_token :: string
  iv_state :: string
  iv_expires :: int
  iv_created :: int

record join_submission =
  js_token :: string
  js_identity :: node_identity
  js_credential :: string

record join_request =
  jr_id :: string
  jr_node :: string
  jr_installation :: string
  jr_display_name :: string
  jr_endpoint :: string
  jr_public_key :: string
  jr_capabilities :: "string list"
  jr_protocol :: int
  jr_product_version :: string
  jr_fingerprint :: string
  jr_state :: string
  jr_expires :: int
  jr_created :: int

record join_receipt =
  jc_request :: string
  jc_secret :: string
  jc_state :: string

record pairing_result =
  pr_state :: string
  pr_remote :: "node_identity option"
  pr_credential :: string

definition pairing_lifetime :: int where
  "pairing_lifetime = 10 * 60 * 1000000000"

definition new_invitation :: "random \<Rightarrow> random \<Rightarrow> int \<Rightarrow> cluster_error + (invitation \<times> string)" where
  "new_invitation rand1 rand2 now =
     (case new_node_id rand1 ''inv_'' 12 of
        Inl e \<Rightarrow> Inl e
      | Inr i \<Rightarrow>
          (case new_secret rand2 32 of
              Inl e \<Rightarrow> Inl e
            | Inr token \<Rightarrow>
                Inr (\<lparr>iv_id = i, iv_token = [], iv_state = ''pending'', iv_expires = now + pairing_lifetime,
                      iv_created = now\<rparr>, token)))"

definition validate_join_submission_with_policy ::
    "(string \<Rightarrow> go_url option) \<Rightarrow> join_submission \<Rightarrow> int \<Rightarrow> bool \<Rightarrow> cluster_error + unit" where
  "validate_join_submission_with_policy parse j now insecure =
     (if blank (js_token j) then Inl InvitationTokenRequired
      else (case validate_endpoint parse insecure (js_identity j) of
          Inl e \<Rightarrow> Inl e
        | Inr _ \<Rightarrow>
            (case validate_public_endpoint parse (id_endpoint (js_identity j)) insecure of
                Inl e \<Rightarrow> Inl e
              | Inr _ \<Rightarrow>
                  if blank (id_endpoint (js_identity j)) then Inl EndpointRequired
                  else if length (js_credential j) < 32 then Inl CredentialTooShort
                  else Inr ())))"

definition validate_join_submission :: "(string \<Rightarrow> go_url option) \<Rightarrow> join_submission \<Rightarrow> int \<Rightarrow> cluster_error + unit" where
  "validate_join_submission parse j now = validate_join_submission_with_policy parse j now False"

definition validate_invitation :: "invitation \<Rightarrow> int \<Rightarrow> cluster_error + unit" where
  "validate_invitation offer now =
     (if iv_state offer \<noteq> ''pending'' then Inl InvitationUnavailable
      else if \<not> iv_expires offer > now then Inl InvitationExpired
      else Inr ())"

text \<open>The two-level map \<open>allowed\<close>.\<close>

definition allowed_transitions :: "(string \<times> string list) list" where
  "allowed_transitions =
     [(''pending'', [''approved'', ''rejected'', ''expired'', ''used'']), (''approved'', [''used''])]"

definition validate_transition :: "string \<Rightarrow> string \<Rightarrow> cluster_error + unit" where
  "validate_transition from_state to_state =
     (case map_of allowed_transitions from_state of
        Some targets \<Rightarrow> if to_state \<in> set targets then Inr () else Inl InvalidTransition
      | None \<Rightarrow> Inl InvalidTransition)"

end
