(* ===== verification/Cluster_Model_Laws.thy ===== *)
theory Cluster_Model_Laws
  imports Cluster_Model
begin

text \<open>
  Capabilities are normalised to the sorted list of a set; what the package generates for a pairing
  passes its own validation; the states of a pairing only move forward.
\<close>

section \<open>Capabilities\<close>

definition named_capabilities :: "string list \<Rightarrow> string set" where
  "named_capabilities vs = trim_space ` set vs - {[]}"

lemma set_distinct_trimmed: "set (distinct_trimmed seen vs) = named_capabilities vs - set seen"
  by (induction vs arbitrary: seen) (auto simp: Let_def named_capabilities_def)

lemma distinct_distinct_trimmed: "distinct (distinct_trimmed seen vs)"
  by (induction vs arbitrary: seen) (simp_all add: Let_def set_distinct_trimmed)

lemma normalize_capabilities_set: "set (normalize_capabilities vs) = named_capabilities vs"
  by (simp add: normalize_capabilities_def set_distinct_trimmed)

lemma normalize_capabilities_sorted: "normalize_capabilities vs = sorted_list_of_set (named_capabilities vs)"
proof -
  have "distinct (normalize_capabilities vs)" "sorted (normalize_capabilities vs)"
    by (simp_all add: normalize_capabilities_def distinct_distinct_trimmed)
  then show ?thesis
    using normalize_capabilities_set by (metis sorted_list_of_set.idem_if_sorted_distinct)
qed

lemma named_capabilities_idem: "named_capabilities (sorted_list_of_set (named_capabilities vs)) = named_capabilities vs"
proof -
  have "finite (named_capabilities vs)" by (simp add: named_capabilities_def)
  moreover have "named_capabilities vs \<subseteq> trim_space ` named_capabilities vs"
  proof
    fix x assume x: "x \<in> named_capabilities vs"
    then have "x = trim_space x" by (auto simp: named_capabilities_def)
    then show "x \<in> trim_space ` named_capabilities vs" using x by (rule image_eqI)
  qed
  moreover have "trim_space ` named_capabilities vs - {[]} \<subseteq> named_capabilities vs"
    by (auto simp: named_capabilities_def)
  moreover have "[] \<notin> named_capabilities vs" by (simp add: named_capabilities_def)
  ultimately show ?thesis unfolding named_capabilities_def [of "sorted_list_of_set (named_capabilities vs)"] by auto
qed

lemma compatible_iff:
  "compatible p q vs ws required = Inr () \<longleftrightarrow> 0 < p \<and> p = q \<and> (required = [] \<or> required \<in> set vs \<inter> set ws)"
  by (auto simp: compatible_def peer_has_capability_def)

text \<open>Normalised capabilities are the sorted list of the set of non-blank trimmed names, so they depend
  neither on order nor on repetition, normalising again changes nothing, and two peers with the same
  protocol are compatible for a required capability exactly when it is empty or in both lists.\<close>

theorem capabilities_normal_form:
  "normalize_capabilities vs = sorted_list_of_set (named_capabilities vs) \<and>
   normalize_capabilities (normalize_capabilities vs) = normalize_capabilities vs \<and>
   (normalize_capabilities vs = normalize_capabilities ws \<longleftrightarrow> named_capabilities vs = named_capabilities ws) \<and>
   (compatible p q (normalize_capabilities vs) (normalize_capabilities ws) required = Inr () \<longleftrightarrow>
      0 < p \<and> p = q \<and> (required = [] \<or> required \<in> named_capabilities vs \<inter> named_capabilities ws))"
proof -
  let ?n = normalize_capabilities
  have "?n (?n vs) = sorted_list_of_set (named_capabilities (sorted_list_of_set (named_capabilities vs)))"
    by (simp only: normalize_capabilities_sorted)
  then have "?n (?n vs) = ?n vs" by (simp only: named_capabilities_idem normalize_capabilities_sorted [of vs])
  moreover have "?n vs = ?n ws \<longleftrightarrow> named_capabilities vs = named_capabilities ws"
    using normalize_capabilities_set normalize_capabilities_sorted by metis
  ultimately show ?thesis
    by (simp only: normalize_capabilities_sorted [of vs, symmetric] compatible_iff normalize_capabilities_set)
qed

section \<open>Generated identities\<close>

lemma trim_with_letters: "set s \<subseteq> set (trim_with rs s) \<union> \<Union> (set ` set rs)"
proof (induction rs s rule: trim_with.induct)
  case (1 rs s)
  show ?case
  proof (cases "find (\<lambda>r. r \<noteq> [] \<and> prefix r s) rs")
    case None
    then show ?thesis by (simp add: trim_with.simps [of rs s])
  next
    case (Some r)
    then have "r \<in> set rs" "prefix r s" by (auto simp: find_Some_iff)
    then have "set s = set r \<union> set (drop (length r) s)" "set r \<subseteq> \<Union> (set ` set rs)" by (auto simp: prefix_def)
    then show ?thesis using "1.IH" [OF Some] Some by (auto simp: trim_with.simps [of rs s])
  qed
qed

lemma blank_letters: "blank s \<Longrightarrow> set s \<subseteq> \<Union> (set ` set space_runes)"
  using trim_with_letters [of s space_runes]
    trim_with_letters [of "rev (trim_left s)" "map rev space_runes"]
  by (auto simp: blank_def trim_space_def trim_left_def trim_right_def)

lemma base64_url_no_space: "c \<in> set base64_url \<Longrightarrow> c \<notin> \<Union> (set ` set space_runes)"
  by (auto simp: base64_url_def space_runes_def)

lemma id_not_blank: "b \<noteq> [] \<Longrightarrow> \<not> blank (px @ base64_encode base64_url b)"
proof
  assume b: "b \<noteq> []" and "blank (px @ base64_encode base64_url b)"
  then have "set (base64_encode base64_url b) \<subseteq> \<Union> (set ` set space_runes)" using blank_letters by fastforce
  moreover obtain c where "c \<in> set (base64_encode base64_url b)" using base64_encode_ne [OF b] by (cases "base64_encode base64_url b") auto
  ultimately show False using base64_alphabet [OF base64_url_ok(2)] base64_url_no_space by blast
qed

text \<open>\<open>rand.Read\<close> fills the buffer it is given.\<close>

definition fills :: "random \<Rightarrow> bool" where
  "fills rand \<longleftrightarrow> (\<forall>n b. rand n = Some b \<longrightarrow> length b = n)"

lemma new_node_id_ok: "fills rand \<Longrightarrow> new_node_id rand px n = Inr i \<Longrightarrow> \<not> blank i"
proof -
  assume f: "fills rand" and "new_node_id rand px n = Inr i"
  then obtain b where b: "0 < n" "rand (nat n) = Some b" "i = px @ base64_encode base64_url b"
    by (auto simp: new_node_id_def split: if_splits option.splits)
  then have "length b = nat n" using f by (simp add: fills_def)
  then show ?thesis using b by (auto intro!: id_not_blank)
qed

lemma new_secret_long:
  assumes "fills rand" and "new_secret rand n = Inr secret"
  shows "32 \<le> length secret \<and> \<not> blank secret"
proof -
  obtain b where b: "rand (nat (if n < 32 then 32 else n)) = Some b" "secret = base64_encode base64_url b"
    using assms(2) by (auto simp: new_secret_def split: option.splits)
  then have "length b = nat (if n < 32 then 32 else n)" using assms(1) by (simp add: fills_def)
  then have l: "32 \<le> length b" by (auto split: if_splits)
  then have "b \<noteq> []" by auto
  then show ?thesis using l b(2) length_sextets [of "map of_char b"] id_not_blank [of b "[]"]
    by (auto simp: base64_encode_def)
qed

text \<open>What the package generates for a pairing passes its own checks: an identity from
  \<open>GenerateIdentity\<close>, given an https endpoint, submitted with the token of a new invitation and a new
  secret, is accepted under either transport policy; the invitation is valid exactly for its lifetime; and the digest of a secret
  verifies that secret and, unless SHA-256 collides, no other.\<close>

theorem generated_pairing_accepted:
  assumes "fills rand1" "fills rand2" "fills rand3" "fills rand4" "fills rand5"
    and "generate_identity (Some (public, private)) rand1 rand2 np ip caps protocol product now = Inr gen" and "public \<noteq> []"
    and "new_invitation rand3 rand4 now = Inr (offer, token)"
    and "new_secret rand5 n = Inr credential"
    and "parse endpoint = Some u" "url_host u \<noteq> []" "url_scheme u = ''https''" "\<not> blank endpoint"
  shows "validate_join_submission_with_policy parse
      \<lparr>js_token = token, js_identity = (gi_identity gen)\<lparr>id_endpoint := endpoint\<rparr>, js_credential = credential\<rparr> later insecure = Inr () \<and>
    (validate_invitation offer later = Inr () \<longleftrightarrow> later < now + pairing_lifetime) \<and>
    verify_secret_digest sha credential (secret_digest sha credential) \<and>
    (verify_secret_digest sha guess (secret_digest sha credential) \<longleftrightarrow> sha guess = sha credential)"
proof -
  obtain node inst where g: "new_node_id rand1 np 16 = Inr node" "new_node_id rand2 ip 16 = Inr inst" "0 < protocol"
      "id_node (gi_identity gen) = node" "id_installation (gi_identity gen) = inst"
      "id_protocol (gi_identity gen) = protocol" "id_public_key (gi_identity gen) = base64_encode base64_url public"
    using assms(6) by (auto simp: generate_identity_def split: if_splits sum.splits)
  have ids: "\<not> blank node" "\<not> blank inst" "base64_encode base64_url public \<noteq> []"
    using new_node_id_ok [OF assms(1) g(1)] new_node_id_ok [OF assms(2) g(2)] base64_encode_ne [OF assms(7)] by blast+
  obtain i where "new_secret rand4 32 = Inr token"
    and o: "offer = \<lparr>iv_id = i, iv_token = [], iv_state = ''pending'', iv_expires = now + pairing_lifetime, iv_created = now\<rparr>"
    using assms(8) by (auto simp: new_invitation_def split: sum.splits)
  then have t: "\<not> blank token" using new_secret_long [OF assms(4)] by blast
  have c: "32 \<le> length credential" using new_secret_long [OF assms(5,9)] by blast
  have "validate_public_endpoint parse endpoint insecure = Inr ()"
    using assms(10-13) by (simp add: validate_public_endpoint_def)
  then show ?thesis using g ids t c o assms(13)
    by (simp add: validate_join_submission_with_policy_def validate_endpoint_def validate_invitation_def
        verify_secret_digest_def secret_digest_def)
qed

definition sample_random :: random where
  "sample_random n = Some (replicate n CHR ''r'')"

definition sample_url :: "string \<Rightarrow> go_url option" where
  "sample_url s = Some \<lparr>url_scheme = ''https'', url_host = ''node.test'', url_hostname = ''node.test'', url_port = [],
     url_has_user = False, url_query = [], url_fragment = [], url_path = [], url_string = s\<rparr>"

lemma sample_random_fills: "fills sample_random"
  by (simp add: fills_def sample_random_def)

lemma generated_pairing_accepted_witness:
  "\<exists>gen offer token credential.
     generate_identity (Some (''public'', ''private'')) sample_random sample_random ''n_'' ''i_'' [''b''] 1 ''dev'' 5 = Inr gen \<and>
     new_invitation sample_random sample_random 5 = Inr (offer, token) \<and> new_secret sample_random 1 = Inr credential \<and>
     validate_join_submission_with_policy sample_url
       \<lparr>js_token = token, js_identity = (gi_identity gen)\<lparr>id_endpoint := ''https://node.test''\<rparr>, js_credential = credential\<rparr>
       6 False = Inr ()"
proof -
  obtain gen where g: "generate_identity (Some (''public'', ''private'')) sample_random sample_random ''n_'' ''i_'' [''b''] 1 ''dev'' 5 = Inr gen"
    by (simp add: generate_identity_def new_node_id_def sample_random_def)
  obtain offer token where o: "new_invitation sample_random sample_random 5 = Inr (offer, token)"
    by (simp add: new_invitation_def new_node_id_def new_secret_def sample_random_def)
  obtain credential where c: "new_secret sample_random 1 = Inr credential" by (simp add: new_secret_def sample_random_def)
  obtain u where u: "sample_url ''https://node.test'' = Some u" "url_host u \<noteq> []" "url_scheme u = ''https''"
    by (simp add: sample_url_def)
  have e: "\<not> blank ''https://node.test''" by code_simp
  have "''public'' \<noteq> []" by simp
  note ok = generated_pairing_accepted [where parse = sample_url and endpoint = "''https://node.test''", OF sample_random_fills sample_random_fills sample_random_fills sample_random_fills
      sample_random_fills g this o c u e, of 6 False]
  show ?thesis using g o c conjunct1 [OF ok] by blast
qed

section \<open>The states of a pairing\<close>

fun moves :: "string \<Rightarrow> string list \<Rightarrow> bool" where
  "moves from_state [] \<longleftrightarrow> True"
| "moves from_state (s # ss) \<longleftrightarrow> validate_transition from_state s = Inr () \<and> moves s ss"

lemma validate_transition_iff:
  "validate_transition a b = Inr () \<longleftrightarrow>
     a = ''pending'' \<and> b \<in> {''approved'', ''rejected'', ''expired'', ''used''} \<or> a = ''approved'' \<and> b = ''used''"
  by (auto simp: validate_transition_def allowed_transitions_def)

lemma pairing_final:
  assumes "a = ''rejected'' \<or> a = ''expired'' \<or> a = ''used''"
  shows "moves a ss \<longleftrightarrow> ss = []"
proof (cases ss)
  case (Cons s rest)
  have "\<not> validate_transition a s = Inr ()" using assms by (elim disjE) (simp_all add: validate_transition_iff)
  then show ?thesis using Cons by simp
qed simp

lemma pairing_from_approved: "moves ''approved'' (s # rest) \<longleftrightarrow> s = ''used'' \<and> rest = []"
  by (cases "s = ''used''") (simp_all add: validate_transition_iff pairing_final)

text \<open>A pairing moves at most twice, and never out of a rejected, expired or used state.\<close>

lemma pairing_moves:
  "moves ''pending'' (s # rest) \<longleftrightarrow>
     s = ''approved'' \<and> (rest = [] \<or> rest = [''used'']) \<or> rest = [] \<and> (s = ''rejected'' \<or> s = ''expired'' \<or> s = ''used'')"
proof (cases "s = ''approved''")
  case True
  then show ?thesis by (cases rest) (simp_all only: moves.simps(2) [of "''pending''"] validate_transition_iff pairing_from_approved, simp_all)
next
  case False
  then show ?thesis by (cases "s = ''rejected'' \<or> s = ''expired'' \<or> s = ''used''") (auto simp: validate_transition_iff pairing_final)
qed

end
