(* ===== verification/Cluster_Security.thy ===== *)
theory Cluster_Security
  imports Cluster_Model
begin

text \<open>
  Signed peer requests of \<open>cluster/security.go\<close>: the text that is signed, the headers that carry
  the envelope, and the checks of an incoming request.

  \<open>mac\<close> is HMAC-SHA-256 and \<open>sha\<close> is SHA-256; \<open>format\<close> and \<open>parse\<close> are \<open>Format\<close> (of the time in UTC)
  and \<open>time.Parse\<close> with the layout \<open>RFC3339Nano\<close>. \<open>hmac.Equal\<close> is equality.
\<close>

type_synonym mac = "string \<Rightarrow> string \<Rightarrow> 256 word"
type_synonym sha = "string \<Rightarrow> 256 word"

text \<open>Names for the strings of a request.\<close>

type_synonym secret = string
type_synonym uri = string
type_synonym nonce = string
type_synonym body = string

section \<open>Headers\<close>

text \<open>
  \<open>http.Header\<close> with one value per key. \<open>Get\<close> and \<open>Set\<close> use the canonical form of a key: a capital
  at the start and after every hyphen, small letters elsewhere.
\<close>

type_synonym http_header = "string \<rightharpoonup> string"

definition ascii_upper :: "char \<Rightarrow> char" where
  "ascii_upper c = (let n = of_char c :: nat in if 97 \<le> n \<and> n \<le> 122 then char_of (n - 32) else c)"

definition ascii_lower :: "char \<Rightarrow> char" where
  "ascii_lower c = (let n = of_char c :: nat in if 65 \<le> n \<and> n \<le> 90 then char_of (n + 32) else c)"

fun canonical_key :: "bool \<Rightarrow> string \<Rightarrow> string" where
  "canonical_key up [] = []"
| "canonical_key up (c # cs) = (if up then ascii_upper c else ascii_lower c) # canonical_key (c = CHR ''-'') cs"

definition header_get :: "http_header \<Rightarrow> string \<Rightarrow> string" where
  "header_get h k = (case h (canonical_key True k) of Some v \<Rightarrow> v | None \<Rightarrow> [])"

definition header_set :: "http_header \<Rightarrow> string \<Rightarrow> string \<Rightarrow> http_header" where
  "header_set h k v = h(canonical_key True k \<mapsto> v)"

definition header_node :: string where "header_node = ''X-Gantry-Node''"
definition header_timestamp :: string where "header_timestamp = ''X-Gantry-Timestamp''"
definition header_nonce :: string where "header_nonce = ''X-Gantry-Nonce''"
definition header_request :: string where "header_request = ''X-Gantry-Request-ID''"
definition header_signature :: string where "header_signature = ''X-Gantry-Signature''"
definition header_protocol :: string where "header_protocol = ''X-Gantry-Protocol''"
definition header_capability :: string where "header_capability = ''X-Gantry-Capability''"

section \<open>Signatures\<close>

definition max_request_bytes :: nat where
  "max_request_bytes = 256 * 1024"

definition clock_skew :: int where
  "clock_skew = 5 * 60 * 1000000000"

definition signed_text ::
    "sha \<Rightarrow> string \<Rightarrow> uri \<Rightarrow> string \<Rightarrow> nonce \<Rightarrow> string \<Rightarrow> string \<Rightarrow> body \<Rightarrow> string" where
  "signed_text sha method uri timestamp nonce request capability body =
     method @ CHR 0x0A # uri @ CHR 0x0A # timestamp @ CHR 0x0A # nonce @ CHR 0x0A # request @ CHR 0x0A #
     capability @ CHR 0x0A # hex_encode (digest_bytes (sha body))"

definition sign ::
    "mac \<Rightarrow> sha \<Rightarrow> secret \<Rightarrow> string \<Rightarrow> uri \<Rightarrow> string \<Rightarrow> nonce \<Rightarrow> string \<Rightarrow> string \<Rightarrow> body \<Rightarrow> string" where
  "sign mac sha secret method uri timestamp nonce request capability body =
     digest_bytes (mac secret (signed_text sha method uri timestamp nonce request capability body))"

definition request_signature ::
    "mac \<Rightarrow> sha \<Rightarrow> secret \<Rightarrow> string \<Rightarrow> uri \<Rightarrow> string \<Rightarrow> nonce \<Rightarrow> string \<Rightarrow> string \<Rightarrow> body \<Rightarrow> string" where
  "request_signature mac sha secret method uri timestamp nonce request capability body =
     base64_encode base64_url (sign mac sha secret method uri timestamp nonce request capability body)"

definition verify_peer_signature ::
    "mac \<Rightarrow> sha \<Rightarrow> secret \<Rightarrow> string \<Rightarrow> string \<Rightarrow> uri \<Rightarrow> string \<Rightarrow> nonce \<Rightarrow> string \<Rightarrow> string \<Rightarrow> body \<Rightarrow> bool" where
  "verify_peer_signature mac sha secret signature method uri timestamp nonce request capability body =
     (case base64_decode base64_url signature of
        None \<Rightarrow> False
      | Some got \<Rightarrow> got = sign mac sha secret method uri timestamp nonce request capability body)"

section \<open>Envelopes\<close>

record request_envelope =
  en_node :: string
  en_timestamp :: int
  en_nonce :: string
  en_request :: string
  en_protocol :: int
  en_capability :: string
  en_signature :: string

definition outside_skew :: "int \<Rightarrow> int \<Rightarrow> bool" where
  "outside_skew at now \<longleftrightarrow> at < now - clock_skew \<or> at > now + clock_skew"

definition read_envelope :: "(string \<Rightarrow> int option) \<Rightarrow> http_header \<Rightarrow> int \<Rightarrow> cluster_error + request_envelope" where
  "read_envelope parse h now =
     (case atoi (header_get h header_protocol) of
        None \<Rightarrow> Inl IncompatibleProtocol
      | Some protocol \<Rightarrow>
          (case parse (header_get h header_timestamp) of
              None \<Rightarrow> Inl InvalidTimestamp
            | Some at \<Rightarrow>
                (let e = \<lparr>en_node = header_get h header_node, en_timestamp = at, en_nonce = header_get h header_nonce,
                       en_request = header_get h header_request, en_protocol = protocol,
                       en_capability = header_get h header_capability, en_signature = header_get h header_signature\<rparr>
                 in if en_node e = [] \<or> en_nonce e = [] \<or> en_request e = [] \<or> en_signature e = [] then Inl AuthenticationRequired
                    else if outside_skew at now then Inl OutsideClockSkew
                    else Inr e)))"

definition write_envelope ::
    "mac \<Rightarrow> sha \<Rightarrow> (int \<Rightarrow> string) \<Rightarrow> http_header \<Rightarrow> string \<Rightarrow> string \<Rightarrow> string \<Rightarrow> string \<Rightarrow> string \<Rightarrow> int \<Rightarrow> string \<Rightarrow> int \<Rightarrow>
     string \<Rightarrow> string \<Rightarrow> http_header" where
  "write_envelope mac sha format h node secret method uri capability protocol body now nonce request =
     (let timestamp = format now;
          h = header_set h header_node node;
          h = header_set h header_timestamp timestamp;
          h = header_set h header_nonce nonce;
          h = header_set h header_request request;
          h = header_set h header_protocol (itoa protocol);
          h = header_set h header_capability capability
      in header_set h header_signature (request_signature mac sha secret method uri timestamp nonce request capability body))"

section \<open>Incoming requests\<close>

record auth_material =
  am_state :: string
  am_protocol :: int
  am_capabilities :: "string list"
  am_current :: string
  am_pending :: string
  am_pending_expires :: "int option"

record incoming =
  in_material :: auth_material
  in_required :: string
  in_secret :: string
  in_method :: string
  in_uri :: string
  in_envelope :: request_envelope
  in_body :: string
  in_now :: int

definition pending_accepted :: "sha \<Rightarrow> incoming \<Rightarrow> bool" where
  "pending_accepted sha i \<longleftrightarrow>
     am_pending (in_material i) \<noteq> [] \<and>
     (case am_pending_expires (in_material i) of None \<Rightarrow> False | Some t \<Rightarrow> t > in_now i) \<and>
     verify_secret_digest sha (in_secret i) (am_pending (in_material i))"

text \<open>The result says whether the pending credential was used and is to be promoted.\<close>

definition verify_incoming :: "mac \<Rightarrow> sha \<Rightarrow> (int \<Rightarrow> string) \<Rightarrow> incoming \<Rightarrow> cluster_error + bool" where
  "verify_incoming mac sha format i =
     (let m = in_material i; e = in_envelope i
      in if am_state m \<noteq> ''active'' then Inl MemberUnavailable
         else if en_protocol e \<noteq> am_protocol m \<or> en_protocol e \<noteq> protocol_version then Inl IncompatibleProtocol
         else if \<not> peer_has_capability (am_capabilities m) (in_required i) then Inl CapabilityUnavailable
         else if en_capability e \<noteq> [] \<and> en_capability e \<noteq> in_required i then Inl CapabilityMismatch
         else if length (in_body i) > max_request_bytes then Inl RequestTooLarge
         else if outside_skew (en_timestamp e) (in_now i) then Inl OutsideClockSkew
         else (let current = verify_secret_digest sha (in_secret i) (am_current m);
                   pending = \<not> current \<and> pending_accepted sha i
               in if \<not> current \<and> \<not> pending then Inl CredentialRejected
                  else if \<not> verify_peer_signature mac sha (in_secret i) (en_signature e) (in_method i) (in_uri i)
                       (format (en_timestamp e)) (en_nonce e) (en_request e) (in_required i) (in_body i)
                  then Inl InvalidSignature
                  else Inr pending))"

end
