(* ===== verification/Cluster_Security_Laws.thy ===== *)
theory Cluster_Security_Laws
  imports Cluster_Security
begin

text \<open>
  A request written by a peer is read back and accepted; an accepted request is the one that was
  signed unless a digest collides; which credentials are accepted during a rotation.
\<close>

section \<open>What is signed\<close>

lemma cut_here: "(c :: char) \<notin> set a \<Longrightarrow> c \<notin> set b \<Longrightarrow> a @ c # x = b @ c # y \<longleftrightarrow> a = b \<and> x = y"
proof -
  assume "c \<notin> set a" "c \<notin> set b"
  then have "cut c (a @ c # x) = Some (a, x)" "cut c (b @ c # y) = Some (b, y)" by (simp_all add: cut_append)
  then show ?thesis by (metis option.inject prod.inject)
qed

lemma hex_encode_inject [simp]: "hex_encode s = hex_encode t \<longleftrightarrow> s = t"
  by (metis hex_decode_encode option.inject)

definition one_line :: "string \<Rightarrow> bool" where
  "one_line s \<longleftrightarrow> CHR 0x0A \<notin> set s"

lemma signed_text_fields:
  assumes "list_all one_line [m, u, t, n, r, c]" and "list_all one_line [m', u', t', n', r', c']"
  shows "signed_text sha m u t n r c b = signed_text sha m' u' t' n' r' c' b' \<longleftrightarrow>
    [m, u, t, n, r, c] = [m', u', t', n', r', c'] \<and> sha b = sha b'"
  using assms by (simp add: signed_text_def cut_here one_line_def conj_assoc)

lemma sign_ne: "sign mac sha k m u t n r c b \<noteq> []"
  by (simp add: sign_def)

lemma verify_own_signature:
  "verify_peer_signature mac sha k' (request_signature mac sha k m u t n r c b) m' u' t' n' r' c' b' \<longleftrightarrow>
     mac k (signed_text sha m u t n r c b) = mac k' (signed_text sha m' u' t' n' r' c' b')"
  by (simp add: verify_peer_signature_def request_signature_def sign_def)

text \<open>C30. A signature made for one request verifies another one under the same secret exactly if method, URI,
  timestamp, nonce, request identifier and capability are the same and so is the body or at least its
  SHA-256 digest, or if the two texts that are signed differ and these two have the same HMAC-SHA-256.
  Fields that arrive in headers hold no line feed, and under that condition the joined text is unambiguous.\<close>

theorem signature_binds_request:
  assumes "list_all one_line [m, u, t, n, r, c]" and "list_all one_line [m', u', t', n', r', c']"
  shows "verify_peer_signature mac sha k (request_signature mac sha k m u t n r c b) m' u' t' n' r' c' b' \<longleftrightarrow>
    [m, u, t, n, r, c] = [m', u', t', n', r', c'] \<and> (b = b' \<or> b \<noteq> b' \<and> sha b = sha b') \<or>
    signed_text sha m u t n r c b \<noteq> signed_text sha m' u' t' n' r' c' b' \<and>
    mac k (signed_text sha m u t n r c b) = mac k (signed_text sha m' u' t' n' r' c' b')"
  using signed_text_fields [OF assms, of sha b b'] unfolding verify_own_signature by auto

definition sample_mac :: mac where
  "sample_mac k t = word_of_nat (of_be (k @ t))"

definition sample_sha :: sha where
  "sample_sha b = word_of_nat (of_be b)"

definition first_byte_mac :: mac where
  "first_byte_mac k t = word_of_nat (of_char (hd t))"

lemma signature_binds_request_witness:
  "\<not> verify_peer_signature first_byte_mac sample_sha ''k'' (request_signature first_byte_mac sample_sha ''k'' ''PUT'' ''/'' ''1'' ''n'' ''r'' ''c'' ''b'')
      ''GET'' ''/'' ''1'' ''n'' ''r'' ''c'' ''b'' \<and>
   verify_peer_signature first_byte_mac sample_sha ''k'' (request_signature first_byte_mac sample_sha ''k'' ''PUT'' ''/'' ''1'' ''n'' ''r'' ''c'' ''b'')
      ''PUT'' ''/'' ''1'' ''n'' ''r'' ''c'' ''b''"
proof -
  have f: "list_all one_line [''PUT'', ''/'', ''1'', ''n'', ''r'', ''c'']" "list_all one_line [''GET'', ''/'', ''1'', ''n'', ''r'', ''c'']"
    by (simp_all add: one_line_def)
  have "first_byte_mac ''k'' (signed_text sample_sha ''PUT'' ''/'' ''1'' ''n'' ''r'' ''c'' ''b'') = 80"
    "first_byte_mac ''k'' (signed_text sample_sha ''GET'' ''/'' ''1'' ''n'' ''r'' ''c'' ''b'') = 71"
    by (simp_all add: first_byte_mac_def signed_text_def)
  then show ?thesis
    using signature_binds_request [OF f(1,2)] signature_binds_request [OF f(1,1)] by simp
qed

section \<open>A request from writer to verifier\<close>

lemmas header_names = header_node_def header_timestamp_def header_nonce_def header_request_def
  header_signature_def header_protocol_def header_capability_def

lemma canonical_names:
  "canonical_key True header_node = ''X-Gantry-Node''"
  "canonical_key True header_timestamp = ''X-Gantry-Timestamp''"
  "canonical_key True header_nonce = ''X-Gantry-Nonce''"
  "canonical_key True header_request = ''X-Gantry-Request-Id''"
  "canonical_key True header_signature = ''X-Gantry-Signature''"
  "canonical_key True header_protocol = ''X-Gantry-Protocol''"
  "canonical_key True header_capability = ''X-Gantry-Capability''"
  by code_simp+

lemma read_written:
  assumes "parse (format now) = Some now" and "- (2 ^ 63) \<le> protocol" "protocol < 2 ^ 63"
    and "node \<noteq> []" "nonce \<noteq> []" "request \<noteq> []" and "\<not> outside_skew now later"
  shows "read_envelope parse (write_envelope mac sha format h node secret method uri capability protocol body now nonce request) later =
    Inr \<lparr>en_node = node, en_timestamp = now, en_nonce = nonce, en_request = request, en_protocol = protocol,
      en_capability = capability,
      en_signature = request_signature mac sha secret method uri (format now) nonce request capability body\<rparr>"
proof -
  have "request_signature mac sha secret method uri (format now) nonce request capability body \<noteq> []"
    by (simp add: request_signature_def base64_encode_ne sign_ne)
  then show ?thesis using assms
    by (simp add: read_envelope_def write_envelope_def header_get_def header_set_def canonical_names Let_def atoi_itoa)
qed

text \<open>The credentials of a member that accept a secret: the current one, or the pending one before it expires.\<close>

definition credential_accepted :: "sha \<Rightarrow> incoming \<Rightarrow> bool" where
  "credential_accepted sha i \<longleftrightarrow> digest_bytes (sha (in_secret i)) = am_current (in_material i) \<or> pending_accepted sha i"

lemma verify_incoming_Inr:
  "verify_incoming mac sha format i = Inr promote \<longleftrightarrow>
     am_state (in_material i) = ''active'' \<and>
     en_protocol (in_envelope i) = 1 \<and> am_protocol (in_material i) = 1 \<and>
     peer_has_capability (am_capabilities (in_material i)) (in_required i) \<and>
     en_capability (in_envelope i) \<in> {[], in_required i} \<and> length (in_body i) \<le> 262144 \<and>
     \<bar>en_timestamp (in_envelope i) - in_now i\<bar> \<le> clock_skew \<and> credential_accepted sha i \<and>
     base64_decode base64_url (en_signature (in_envelope i)) =
       Some (sign mac sha (in_secret i) (in_method i) (in_uri i) (format (en_timestamp (in_envelope i)))
         (en_nonce (in_envelope i)) (en_request (in_envelope i)) (in_required i) (in_body i)) \<and>
     promote = (digest_bytes (sha (in_secret i)) \<noteq> am_current (in_material i))"
  by (auto simp: verify_incoming_def Let_def protocol_version_def outside_skew_def max_request_bytes_def
      credential_accepted_def verify_secret_digest_def verify_peer_signature_def split: option.splits)

text \<open>A request that \<open>WriteEnvelope\<close> signs is accepted at the other end at every time within the
  clock skew: \<open>ReadEnvelope\<close> yields the envelope as written and \<open>VerifyIncoming\<close> accepts it for an active
  member of the same protocol with the capability, whose current or still valid pending credential
  the secret matches; it asks for the promotion of the pending credential exactly when the current one does not
  match. The sender's node name does not enter the decision.\<close>

theorem written_request_accepted:
  assumes "parse (format now) = Some now"
    and "node \<noteq> []" "nonce \<noteq> []" "request \<noteq> []"
    and "\<bar>now - later\<bar> \<le> clock_skew" and "length body \<le> 262144"
    and "am_state material = ''active''" "am_protocol material = 1" "peer_has_capability (am_capabilities material) capability"
  shows "\<exists>e. read_envelope parse (write_envelope mac sha format h node secret verb uri capability 1 body now nonce request) later = Inr e \<and>
    (\<forall>anyone i promote. in_material i = material \<and> in_required i = capability \<and> in_secret i = secret \<and> in_method i = verb \<and>
        in_uri i = uri \<and> in_envelope i = e\<lparr>en_node := anyone\<rparr> \<and> in_body i = body \<and> in_now i = later \<longrightarrow>
      (verify_incoming mac sha format i = Inr promote \<longleftrightarrow>
        credential_accepted sha i \<and> promote = (digest_bytes (sha secret) \<noteq> am_current material)))"
proof -
  have "\<not> outside_skew now later" using assms(5) by (auto simp: outside_skew_def)
  then show ?thesis using assms(2-)
    by (simp add: read_written [where parse = parse and format = format and now = now, OF assms(1)] verify_incoming_Inr
        request_signature_def)
qed

lemma written_request_accepted_witness:
  "\<exists>e. read_envelope atoi (write_envelope sample_mac sample_sha itoa Map.empty ''a'' ''s'' ''PUT'' ''/rpc'' ''c'' 1 ''b'' 7 ''n'' ''r'') 9 = Inr e \<and>
     verify_incoming sample_mac sample_sha itoa
       \<lparr>in_material = \<lparr>am_state = ''active'', am_protocol = 1, am_capabilities = [''c''], am_current = [],
          am_pending = digest_bytes (sample_sha ''s''), am_pending_expires = Some 10\<rparr>,
        in_required = ''c'', in_secret = ''s'', in_method = ''PUT'', in_uri = ''/rpc'', in_envelope = e, in_body = ''b'', in_now = 9\<rparr> = Inr True"
proof -
  let ?m = "\<lparr>am_state = ''active'', am_protocol = 1, am_capabilities = [''c''], am_current = [],
          am_pending = digest_bytes (sample_sha ''s''), am_pending_expires = Some 10\<rparr>"
  have t: "atoi (itoa 7) = Some 7" by (rule atoi_itoa) simp_all
  obtain e where e: "read_envelope atoi (write_envelope sample_mac sample_sha itoa Map.empty ''a'' ''s'' ''PUT'' ''/rpc'' ''c'' 1 ''b'' 7 ''n'' ''r'') 9 = Inr e"
    and ok: "\<forall>anyone i promote. in_material i = ?m \<and> in_required i = ''c'' \<and> in_secret i = ''s'' \<and> in_method i = ''PUT'' \<and>
        in_uri i = ''/rpc'' \<and> in_envelope i = e\<lparr>en_node := anyone\<rparr> \<and> in_body i = ''b'' \<and> in_now i = 9 \<longrightarrow>
      (verify_incoming sample_mac sample_sha itoa i = Inr promote \<longleftrightarrow>
        credential_accepted sample_sha i \<and> promote = (digest_bytes (sample_sha ''s'') \<noteq> am_current ?m))"
    using written_request_accepted [where parse = atoi and format = itoa and now = 7 and later = 9 and node = "''a''" and nonce = "''n''"
        and request = "''r''" and body = "''b''" and material = ?m and capability = "''c''" and mac = sample_mac and sha = sample_sha
        and h = Map.empty and secret = "''s''" and verb = "''PUT''" and uri = "''/rpc''", OF t]
    by (auto simp: clock_skew_def peer_has_capability_def)
  let ?i = "\<lambda>e. \<lparr>in_material = ?m, in_required = ''c'', in_secret = ''s'', in_method = ''PUT'', in_uri = ''/rpc'',
      in_envelope = e, in_body = ''b'', in_now = 9\<rparr>"
  have "credential_accepted sample_sha (?i x)" for x
    by (simp add: credential_accepted_def pending_accepted_def verify_secret_digest_def)
  then have "verify_incoming sample_mac sample_sha itoa (?i e) = Inr True"
    using ok [rule_format, of "?i e" "en_node e" True] by simp
  with e show ?thesis by blast
qed

end
