(* ===== verification/Cluster_Routing.thy ===== *)
theory Cluster_Routing
  imports Cluster_Model
begin

text \<open>
  Targets and fan-out of \<open>cluster/routing.go\<close>.

  \<open>FanOut\<close> starts one goroutine per node. A goroutine takes a slot of the channel \<open>sem\<close>, calls the
  function, appends its result under the lock and gives the slot back; the caller waits for all of
  them and sorts. Each of these is one step here, of any goroutine that can take it. What the call
  of the \<open>i\<close>-th goroutine returns is \<open>answer i\<close>.
\<close>

section \<open>Targets\<close>

datatype target_kind = TargetLocal | TargetNode | TargetMembers | TargetAll

record node_target =
  nt_kind :: target_kind
  nt_node :: string

definition parse_target :: "string \<Rightarrow> cluster_error + node_target" where
  "parse_target raw0 =
     (let raw = trim_space raw0
      in if raw = [] \<or> raw = ''all'' then Inr \<lparr>nt_kind = TargetAll, nt_node = []\<rparr>
         else if raw = ''local'' then Inr \<lparr>nt_kind = TargetLocal, nt_node = []\<rparr>
         else if raw = ''members'' then Inr \<lparr>nt_kind = TargetMembers, nt_node = []\<rparr>
         else if prefix ''node:'' raw \<and> length (drop 5 raw) \<ge> 4 then Inr \<lparr>nt_kind = TargetNode, nt_node = drop 5 raw\<rparr>
         else if length raw \<ge> 4 then Inr \<lparr>nt_kind = TargetNode, nt_node = raw\<rparr>
         else Inl InvalidTarget)"

section \<open>Results\<close>

record 'a node_answer =
  nr_node :: string
  nr_owner :: string
  nr_ok :: bool
  nr_error :: string
  nr_value :: "'a option"

record 'a fan_report =
  fr_request :: string
  fr_partial :: bool
  fr_results :: "'a node_answer list"

definition node_result_of :: "string \<Rightarrow> string + 'a \<Rightarrow> 'a node_answer" where
  "node_result_of i answer =
     (case answer of
        Inl err \<Rightarrow> \<lparr>nr_node = i, nr_owner = i, nr_ok = False, nr_error = err, nr_value = None\<rparr>
      | Inr v \<Rightarrow> \<lparr>nr_node = i, nr_owner = i, nr_ok = True, nr_error = [], nr_value = Some v\<rparr>)"

definition is_partial :: "'a node_answer list \<Rightarrow> bool" where
  "is_partial rs \<longleftrightarrow> list_ex (\<lambda>r. \<not> nr_ok r) rs"

section \<open>Fan-out\<close>

datatype fan_phase = Started | Holding | Called | Recorded | Released

record 'a fan_state =
  fs_phases :: "fan_phase list"
  fs_slots :: nat
  fs_results :: "'a node_answer list"

definition fan_limit :: "int \<Rightarrow> nat" where
  "fan_limit limit = nat (if limit \<le> 0 then 4 else limit)"

definition fan_start :: "string list \<Rightarrow> 'a fan_state" where
  "fan_start ids = \<lparr>fs_phases = replicate (length ids) Started, fs_slots = 0, fs_results = []\<rparr>"

text \<open>\<open>sem\<close> is a buffered channel: sending blocks while \<open>limit\<close> slots are taken.\<close>

inductive fan_step :: "string list \<Rightarrow> (nat \<Rightarrow> string + 'a) \<Rightarrow> nat \<Rightarrow> 'a fan_state \<Rightarrow> 'a fan_state \<Rightarrow> bool"
  for ids answer limit where
  fan_acquire: "i < length (fs_phases s) \<Longrightarrow> fs_phases s ! i = Started \<Longrightarrow> fs_slots s < limit \<Longrightarrow>
    fan_step ids answer limit s (s\<lparr>fs_phases := (fs_phases s)[i := Holding], fs_slots := fs_slots s + 1\<rparr>)"
| fan_call: "i < length (fs_phases s) \<Longrightarrow> fs_phases s ! i = Holding \<Longrightarrow>
    fan_step ids answer limit s (s\<lparr>fs_phases := (fs_phases s)[i := Called]\<rparr>)"
| fan_record: "i < length (fs_phases s) \<Longrightarrow> fs_phases s ! i = Called \<Longrightarrow>
    fan_step ids answer limit s
      (s\<lparr>fs_phases := (fs_phases s)[i := Recorded], fs_results := fs_results s @ [node_result_of (ids ! i) (answer i)]\<rparr>)"
| fan_release: "i < length (fs_phases s) \<Longrightarrow> fs_phases s ! i = Recorded \<Longrightarrow>
    fan_step ids answer limit s (s\<lparr>fs_phases := (fs_phases s)[i := Released], fs_slots := fs_slots s - 1\<rparr>)"

inductive_cases fan_stepE: "fan_step ids answer limit s t"

text \<open>\<open>wg.Wait\<close> returns when every goroutine is done.\<close>

definition fan_done :: "'a fan_state \<Rightarrow> bool" where
  "fan_done s \<longleftrightarrow> list_all (\<lambda>p. p = Released) (fs_phases s)"

text \<open>
  One whole call: the copied and sorted identifiers, an interleaving to the end, and the
  final sort by node, which is free in the order of equal nodes.
\<close>

definition fan_out :: "string list \<Rightarrow> int \<Rightarrow> (nat \<Rightarrow> string + 'a) \<Rightarrow> 'a node_answer list \<Rightarrow> bool" where
  "fan_out node_ids limit answer out \<longleftrightarrow>
     (let ids = sort node_ids
      in \<exists>s. (fan_step ids answer (fan_limit limit))\<^sup>*\<^sup>* (fan_start ids) s \<and> fan_done s \<and>
         mset out = mset (fs_results s) \<and> sorted (map nr_node out))"

end
