(* ===== verification/Cluster_Routing_Laws.thy ===== *)
theory Cluster_Routing_Laws
  imports Cluster_Routing
begin

text \<open>
  Fan-out in every interleaving: the slots bound the calls in flight, no goroutine is stuck, every
  run ends after four steps per node, and the report holds one result per node in order.
\<close>

section \<open>Invariants of a fan-out\<close>

definition holds_slot :: "fan_phase \<Rightarrow> bool" where
  "holds_slot p \<longleftrightarrow> p = Holding \<or> p = Called \<or> p = Recorded"

definition has_result :: "fan_phase \<Rightarrow> bool" where
  "has_result p \<longleftrightarrow> p = Recorded \<or> p = Released"

definition result_at :: "string list \<Rightarrow> (nat \<Rightarrow> string + 'a) \<Rightarrow> nat \<Rightarrow> 'a node_answer" where
  "result_at ids answer i = node_result_of (ids ! i) (answer i)"

definition indices :: "(fan_phase \<Rightarrow> bool) \<Rightarrow> 'a fan_state \<Rightarrow> nat set" where
  "indices P s = {i. i < length (fs_phases s) \<and> P (fs_phases s ! i)}"

definition fan_inv :: "string list \<Rightarrow> (nat \<Rightarrow> string + 'a) \<Rightarrow> nat \<Rightarrow> 'a fan_state \<Rightarrow> bool" where
  "fan_inv ids answer limit s \<longleftrightarrow>
     length (fs_phases s) = length ids \<and> fs_slots s = card (indices holds_slot s) \<and> fs_slots s \<le> limit \<and>
     mset (fs_results s) = image_mset (result_at ids answer) (mset_set (indices has_result s))"

fun phase_rank :: "fan_phase \<Rightarrow> nat" where
  "phase_rank Started = 4"
| "phase_rank Holding = 3"
| "phase_rank Called = 2"
| "phase_rank Recorded = 1"
| "phase_rank Released = 0"

definition remaining :: "'a fan_state \<Rightarrow> nat" where
  "remaining s = sum_list (map phase_rank (fs_phases s))"

lemma finite_indices [simp]: "finite (indices P s)"
  by (simp add: indices_def)

lemma indices_update:
  assumes "i < length (fs_phases s)" and "fs_phases t = (fs_phases s)[i := p]"
  shows "indices P t = (if P p then insert i (indices P s) else indices P s - {i})"
  using assms by (auto simp: indices_def nth_list_update)

lemma mem_indices: "i < length (fs_phases s) \<Longrightarrow> i \<in> indices P s \<longleftrightarrow> P (fs_phases s ! i)"
  by (simp add: indices_def)

lemma fan_inv_start: "fan_inv ids answer limit (fan_start ids :: 'a fan_state)"
proof -
  let ?s = "fan_start ids :: 'a fan_state"
  have "indices holds_slot ?s = {}" "indices has_result ?s = {}"
    by (auto simp: fan_start_def indices_def holds_slot_def has_result_def)
  moreover have "length (fs_phases ?s) = length ids" "fs_slots ?s = 0" "fs_results ?s = []" by (simp_all add: fan_start_def)
  ultimately show ?thesis by (simp add: fan_inv_def)
qed

lemma fan_inv_step:
  assumes "fan_step ids answer limit s t" and "fan_inv ids answer limit s"
  shows "fan_inv ids answer limit t"
  using assms
proof (cases rule: fan_step.cases)
  case (fan_acquire i)
  have "indices holds_slot t = insert i (indices holds_slot s)" "indices has_result t = indices has_result s"
    "i \<notin> indices holds_slot s"
    using fan_acquire indices_update [of i s t Holding] mem_indices [of i s]
    by (auto simp: holds_slot_def has_result_def)
  then show ?thesis using fan_acquire assms(2) by (simp add: fan_inv_def)
next
  case (fan_call i)
  have "indices holds_slot t = indices holds_slot s" "indices has_result t = indices has_result s"
    using fan_call indices_update [of i s t Called] mem_indices [of i s]
    by (auto simp: holds_slot_def has_result_def)
  then show ?thesis using fan_call assms(2) by (simp add: fan_inv_def)
next
  case (fan_record i)
  have "indices holds_slot t = indices holds_slot s" "indices has_result t = insert i (indices has_result s)"
    "i \<notin> indices has_result s"
    using fan_record indices_update [of i s t Recorded] mem_indices [of i s]
    by (auto simp: holds_slot_def has_result_def)
  then show ?thesis using fan_record assms(2) by (simp add: fan_inv_def result_at_def)
next
  case (fan_release i)
  have i: "i \<in> indices holds_slot s" "indices holds_slot t = indices holds_slot s - {i}" "indices has_result t = indices has_result s"
    using fan_release indices_update [of i s t Released] mem_indices [of i s]
    by (auto simp: holds_slot_def has_result_def)
  have "card (indices holds_slot s) - 1 \<le> limit" using assms(2) unfolding fan_inv_def by linarith
  then show ?thesis using i fan_release assms(2) by (simp add: fan_inv_def)
qed

lemma rank_update:
  "i < length ps \<Longrightarrow> phase_rank (ps ! i) = Suc (phase_rank p) \<Longrightarrow>
   Suc (sum_list (map phase_rank (ps[i := p]))) = sum_list (map phase_rank ps)"
  by (induction ps arbitrary: i) (auto simp: nth_Cons split: nat.splits)

lemma step_remaining: "fan_step ids answer limit s t \<Longrightarrow> remaining t + 1 = remaining s"
  by (cases rule: fan_stepE, assumption) (simp_all add: remaining_def rank_update)

lemma fan_progress:
  assumes "fan_inv ids answer limit s" and "0 < limit" and "\<not> fan_done s"
  shows "\<exists>t. fan_step ids answer limit s t"
proof (cases "indices holds_slot s = {}")
  case True
  obtain i where i: "i < length (fs_phases s)" "fs_phases s ! i \<noteq> Released"
    using assms(3) by (auto simp: fan_done_def list_all_length)
  then have "\<not> holds_slot (fs_phases s ! i)" using True mem_indices [of i s holds_slot] by blast
  then have "fs_phases s ! i = Started" using i(2) by (cases "fs_phases s ! i") (auto simp: holds_slot_def)
  moreover have "fs_slots s < limit" using assms(1,2) True by (simp add: fan_inv_def)
  ultimately show ?thesis using i(1) fan_acquire by blast
next
  case False
  then obtain i where "i < length (fs_phases s)" "holds_slot (fs_phases s ! i)" by (auto simp: indices_def)
  then show ?thesis using fan_call fan_record fan_release unfolding holds_slot_def by blast
qed

lemma fan_runs_to_done:
  "fan_inv ids answer limit s \<Longrightarrow> 0 < limit \<Longrightarrow> \<exists>t. (fan_step ids answer limit)\<^sup>*\<^sup>* s t \<and> fan_done t"
proof (induction "remaining s" arbitrary: s rule: less_induct)
  case less
  show ?case
  proof (cases "fan_done s")
    case False
    then obtain t where t: "fan_step ids answer limit s t" using fan_progress less.prems by blast
    then have "remaining t < remaining s" using step_remaining [OF t] by simp
    then obtain u where "(fan_step ids answer limit)\<^sup>*\<^sup>* t u \<and> fan_done u"
      using less.hyps fan_inv_step [OF t less.prems(1)] less.prems(2) by blast
    then show ?thesis using t by (meson converse_rtranclp_into_rtranclp)
  qed auto
qed

lemma fan_reach_inv: "(fan_step ids answer limit)\<^sup>*\<^sup>* (fan_start ids) s \<Longrightarrow> fan_inv ids answer limit s"
  by (induction rule: rtranclp_induct) (auto intro: fan_inv_start fan_inv_step)

lemma fan_reach_remaining:
  "(fan_step ids answer limit ^^ n) (fan_start ids) s \<Longrightarrow> remaining s + n = 4 * length ids"
proof (induction n arbitrary: s)
  case 0
  then have "s = fan_start ids" by simp
  then show ?case by (simp add: remaining_def fan_start_def sum_list_replicate)
next
  case (Suc n)
  then obtain t where "(fan_step ids answer limit ^^ n) (fan_start ids) t" "fan_step ids answer limit t s" by auto
  then show ?case using Suc.IH step_remaining by fastforce
qed

lemma fan_limit_pos: "0 < fan_limit limit"
  by (simp add: fan_limit_def)

text \<open>C31. In every interleaving of a fan-out at most \<open>limit\<close> calls (four when the limit is not positive)
  are in flight; whatever has happened, a run that is not finished can go on and can be finished, so no goroutine blocks
  for ever; and every run takes four steps per node and no more.\<close>

theorem fan_out_live:
  assumes "(fan_step ids answer (fan_limit limit) ^^ n) (fan_start ids) s"
  shows "card {i. i < length (fs_phases s) \<and> fs_phases s ! i \<in> {Holding, Called}} \<le> fan_limit limit \<and>
    (\<not> fan_done s \<longrightarrow> (\<exists>t. fan_step ids answer (fan_limit limit) s t)) \<and>
    (\<exists>t. (fan_step ids answer (fan_limit limit))\<^sup>*\<^sup>* s t \<and> fan_done t) \<and>
    n \<le> 4 * length ids \<and> (fan_done s \<longleftrightarrow> n = 4 * length ids)"
proof -
  have r: "(fan_step ids answer (fan_limit limit))\<^sup>*\<^sup>* (fan_start ids) s" using assms by (rule relpowp_imp_rtranclp)
  note inv = fan_reach_inv [OF r]
  have "{i. i < length (fs_phases s) \<and> fs_phases s ! i \<in> {Holding, Called}} \<subseteq> indices holds_slot s"
    by (auto simp: indices_def holds_slot_def)
  then have "card {i. i < length (fs_phases s) \<and> fs_phases s ! i \<in> {Holding, Called}} \<le> card (indices holds_slot s)"
    by (rule card_mono [rotated]) simp
  then have "card {i. i < length (fs_phases s) \<and> fs_phases s ! i \<in> {Holding, Called}} \<le> fan_limit limit"
    using inv by (simp add: fan_inv_def)
  moreover have "fan_done s \<longleftrightarrow> remaining s = 0"
  proof -
    have "phase_rank p = 0 \<longleftrightarrow> p = Released" for p by (cases p) auto
    then show ?thesis by (auto simp: fan_done_def remaining_def list_all_iff)
  qed
  ultimately show ?thesis
    using fan_reach_remaining [OF assms] fan_progress [OF inv fan_limit_pos] fan_runs_to_done [OF inv fan_limit_pos]
    by auto
qed

section \<open>The report\<close>

lemma result_node [simp]: "nr_node (node_result_of i a) = i"
  by (simp add: node_result_of_def split: sum.splits)

lemma result_ok [simp]: "nr_ok (node_result_of i a) \<longleftrightarrow> (\<exists>v. a = Inr v)"
  by (simp add: node_result_of_def split: sum.splits)

lemma fan_done_results:
  assumes "fan_inv ids answer limit s" and "fan_done s"
  shows "mset (fs_results s) = mset (map (result_at ids answer) [0..<length ids])"
proof -
  have "indices has_result s = {0..<length ids}"
    using assms by (auto simp: indices_def fan_done_def list_all_length fan_inv_def has_result_def)
  then show ?thesis using assms(1) by (simp add: fan_inv_def)
qed

text \<open>A fan-out always has an outcome, and every outcome holds exactly one result per requested node, in
  the order of the node names, each the answer of its own call, with a failure kept as a failure:
  the report is partial exactly when some call failed. For distinct nodes the outcome is the same in
  every interleaving.\<close>

theorem fan_out_report:
  "(\<exists>out. fan_out node_ids limit answer out) \<and>
   (\<forall>out. fan_out node_ids limit answer out \<longrightarrow>
     map nr_node out = sort node_ids \<and>
     mset out = mset (map (\<lambda>i. node_result_of (sort node_ids ! i) (answer i)) [0..<length node_ids]) \<and>
     (is_partial out \<longleftrightarrow> (\<exists>i < length node_ids. \<exists>e. answer i = Inl e)) \<and>
     (distinct node_ids \<longrightarrow> out = map (\<lambda>i. node_result_of (sort node_ids ! i) (answer i)) [0..<length node_ids]))"
proof -
  let ?ids = "sort node_ids" and ?L = "fan_limit limit"
  let ?all = "map (\<lambda>i. node_result_of (?ids ! i) (answer i)) [0..<length node_ids]"
  have results: "mset (fs_results s) = mset ?all"
    if "(fan_step ?ids answer ?L)\<^sup>*\<^sup>* (fan_start ?ids) s" "fan_done s" for s
    using fan_done_results [OF fan_reach_inv [OF that(1)] that(2)] by (simp add: result_at_def [abs_def])
  have nodes: "map nr_node ?all = ?ids" by (simp add: comp_def map_nth [of ?ids, simplified])
  obtain s where s: "(fan_step ?ids answer ?L)\<^sup>*\<^sup>* (fan_start ?ids) s" "fan_done s"
    using fan_runs_to_done [OF fan_inv_start fan_limit_pos] by blast
  then have "fan_out node_ids limit answer ?all" unfolding fan_out_def Let_def using results [OF s] nodes by auto
  moreover have "map nr_node out = ?ids \<and> mset out = mset ?all \<and>
      (is_partial out \<longleftrightarrow> (\<exists>i < length node_ids. \<exists>e. answer i = Inl e)) \<and> (distinct node_ids \<longrightarrow> out = ?all)"
    if "fan_out node_ids limit answer out" for out
  proof -
    have m: "mset out = mset ?all" and o: "sorted (map nr_node out)"
      using that results by (auto simp: fan_out_def Let_def)
    have "mset (map nr_node out) = mset ?ids" using m nodes by (metis mset_map)
    then have n: "map nr_node out = ?ids" using o by (metis properties_for_sort mset_sort)
    have "set out = set ?all" using m by (rule mset_eq_setD)
    then have "is_partial out \<longleftrightarrow> (\<exists>i < length node_ids. \<not> (\<exists>v. answer i = Inr v))"
      by (auto simp: is_partial_def list_ex_iff)
    then have p: "is_partial out \<longleftrightarrow> (\<exists>i < length node_ids. \<exists>e. answer i = Inl e)"
      by (metis Inl_Inr_False sumE)
    have "out = ?all" if "distinct node_ids"
    proof -
      have "distinct (map nr_node out)" using n that by simp
      then have "inj_on nr_node (set out)" by (simp add: distinct_map)
      moreover have "sort_key nr_node out = out" "sort_key nr_node ?all = ?all"
        using o nodes by (simp_all add: sort_key_id_if_sorted)
      ultimately show ?thesis using sort_key_unique [OF m, of nr_node] \<open>distinct (map nr_node out)\<close> by (simp add: distinct_map)
    qed
    then show ?thesis using n m p by blast
  qed
  ultimately show ?thesis by blast
qed

lemma fan_out_live_witness:
  "\<exists>t. (fan_step [''a'', ''b''] (\<lambda>i. Inr i) (fan_limit 1))\<^sup>*\<^sup>* (fan_start [''a'', ''b'']) t \<and> fan_done (t :: nat fan_state)"
  using fan_out_live [where ids = "[''a'', ''b'']" and answer = "\<lambda>i. Inr i" and limit = 1 and n = 0 and s = "fan_start [''a'', ''b''] :: nat fan_state"] by simp

lemma fan_out_report_witness:
  "\<exists>out. fan_out [''b'', ''a''] 0 (\<lambda>i. if i = 0 then Inr True else Inl ''down'') out \<and>
     map nr_node out = [''a'', ''b''] \<and> is_partial out"
proof -
  let ?answer = "\<lambda>i :: nat. if i = 0 then Inr True else Inl ''down''"
  obtain out where "fan_out [''b'', ''a''] 0 ?answer out" "map nr_node out = sort [''b'', ''a'']"
    "is_partial out \<longleftrightarrow> (\<exists>i < length [''b'', ''a'']. \<exists>e. ?answer i = Inl e)"
    using fan_out_report [of "[''b'', ''a'']" 0 ?answer] by blast
  moreover have "sort [''b'', ''a''] = [''a'', ''b'']" by code_simp
  moreover have "\<exists>i < length [''b'', ''a'']. \<exists>e. ?answer i = Inl e" by (intro exI [of _ 1]) simp
  ultimately show ?thesis by auto
qed

end
