(* ===== verification/Cli_Parse.thy ===== *)
theory Cli_Parse
  imports Go_Bytes
begin

text \<open>
  The command grammar of \<open>cli/cli.go\<close>: the loop of \<open>Parse\<close> over the arguments, the options with
  their values, and the checks of the result. Durations are nanoseconds; \<open>parse_dur\<close> is
  \<open>time.ParseDuration\<close>.
\<close>

section \<open>Invocations\<close>

datatype cli_output = OutTable | OutJSON | OutPlain

record invocation =
  iv_resource :: string
  iv_verb :: string
  iv_arguments :: "string list"
  iv_input :: string
  iv_output :: cli_output
  iv_quiet :: bool
  iv_confirm :: bool
  iv_timeout :: int
  iv_request :: string
  iv_url :: string
  iv_token_file :: string
  iv_session_file :: string
  iv_query :: "string list"

datatype cli_error =
    HelpRequested
  | JsonConflictsOutput
  | UnknownOption string
  | NoResourceVerb
  | NotWords
  | RequiresValue string
  | InvalidOutput string
  | OutputConflictsJson
  | InvalidTimeout string
  | BadRequestID
  | BadURL
  | TokenFileStdin
  | TokenConflictsSession
  | BadQuery
  | SessionFileStdin
  | SessionConflictsToken
  | UnsupportedOption string
  | BadExitCode

definition start_invocation :: invocation where
  "start_invocation = \<lparr>iv_resource = [], iv_verb = [], iv_arguments = [], iv_input = [], iv_output = OutTable,
     iv_quiet = False, iv_confirm = False, iv_timeout = 30 * 1000000000, iv_request = [], iv_url = [],
     iv_token_file = [], iv_session_file = [], iv_query = []\<rparr>"

section \<open>Options\<close>

definition value_options :: "string list" where
  "value_options = [''--input'', ''--timeout'', ''--request-id'', ''--url'', ''--token-file'', ''--session-file'', ''--query'']"

definition takes_value :: "string \<Rightarrow> bool" where
  "takes_value arg \<longleftrightarrow> (case cut (CHR ''='') arg of Some (name, _) \<Rightarrow> name | None \<Rightarrow> arg) \<in> set value_options"

definition output_of :: "string \<Rightarrow> cli_output option" where
  "output_of v =
     (if v = ''table'' then Some OutTable else if v = ''json'' then Some OutJSON
      else if v = ''plain'' then Some OutPlain else None)"

definition set_output :: "invocation \<Rightarrow> string \<Rightarrow> cli_error + invocation" where
  "set_output i v =
     (case output_of v of
        None \<Rightarrow> Inl (InvalidOutput v)
      | Some out \<Rightarrow>
          if iv_output i = OutJSON \<and> out \<noteq> OutJSON then Inl OutputConflictsJson
          else Inr (i\<lparr>iv_output := out\<rparr>))"

definition trim_slashes :: "string \<Rightarrow> string" where
  "trim_slashes s = rev (dropWhile (\<lambda>c. c = CHR ''/'') (rev s))"

definition apply_value :: "(string \<Rightarrow> int option) \<Rightarrow> invocation \<Rightarrow> string \<Rightarrow> string \<Rightarrow> cli_error + invocation" where
  "apply_value parse_dur i name v =
     (if name = ''--input'' then Inr (i\<lparr>iv_input := v\<rparr>)
      else if name = ''--timeout'' then
        (case parse_dur v of
           None \<Rightarrow> Inl (InvalidTimeout v)
         | Some d \<Rightarrow> if d \<le> 0 then Inl (InvalidTimeout v) else Inr (i\<lparr>iv_timeout := d\<rparr>))
      else if name = ''--request-id'' then
        (if length v > 128 \<or> v = [] then Inl BadRequestID else Inr (i\<lparr>iv_request := v\<rparr>))
      else if name = ''--url'' then
        (let u = trim_slashes v
         in if \<not> prefix ''http://'' u \<and> \<not> prefix ''https://'' u then Inl BadURL else Inr (i\<lparr>iv_url := u\<rparr>))
      else if name = ''--token-file'' then
        (if v = ''-'' then Inl TokenFileStdin
         else if iv_session_file i \<noteq> [] then Inl TokenConflictsSession
         else Inr (i\<lparr>iv_token_file := v\<rparr>))
      else if name = ''--query'' then
        (if \<not> str_contains v ''='' \<or> prefix ''='' v then Inl BadQuery else Inr (i\<lparr>iv_query := iv_query i @ [v]\<rparr>))
      else if name = ''--session-file'' then
        (if v = ''-'' then Inl SessionFileStdin
         else if iv_token_file i \<noteq> [] then Inl SessionConflictsToken
         else Inr (i\<lparr>iv_session_file := v\<rparr>))
      else Inl (UnsupportedOption name))"

text \<open>The value of an option is the next argument, unless that looks like an option itself.\<close>

definition flag_value :: "string list \<Rightarrow> string \<Rightarrow> cli_error + string" where
  "flag_value rest name =
     (case rest of
        [] \<Rightarrow> Inl (RequiresValue name)
      | v # _ \<Rightarrow> if prefix ''-'' v \<and> v \<noteq> ''-'' then Inl (RequiresValue name) else Inr v)"

definition cli_word :: "string \<Rightarrow> bool" where
  "cli_word v \<longleftrightarrow> v \<noteq> [] \<and>
     list_all (\<lambda>(i, c). lower_letter c \<or> i > 0 \<and> digit_char c \<or> i > 0 \<and> c = CHR ''-'')
       (enumerate 0 v)"

section \<open>The loop\<close>

text \<open>
  One iteration: the invocation and the positional arguments so far, the argument at hand and the
  arguments after it; the result holds the arguments of the next iteration.
\<close>

definition with_value ::
    "(string \<Rightarrow> cli_error + invocation) \<Rightarrow> string list \<Rightarrow> string \<Rightarrow> string list \<Rightarrow>
     cli_error + (invocation \<times> string list \<times> string list)" where
  "with_value f ps v rest = (case f v of Inl e \<Rightarrow> Inl e | Inr j \<Rightarrow> Inr (j, ps, rest))"

definition with_next ::
    "(string \<Rightarrow> cli_error + invocation) \<Rightarrow> string list \<Rightarrow> string \<Rightarrow> string list \<Rightarrow>
     cli_error + (invocation \<times> string list \<times> string list)" where
  "with_next f ps name rest =
     (case flag_value rest name of Inl e \<Rightarrow> Inl e | Inr v \<Rightarrow> with_value f ps v (tl rest))"

definition parse_arg ::
    "(string \<Rightarrow> int option) \<Rightarrow> invocation \<Rightarrow> string list \<Rightarrow> string \<Rightarrow> string list \<Rightarrow>
     cli_error + (invocation \<times> string list \<times> string list)" where
  "parse_arg pd i ps arg rest =
     (if arg = ''--help'' \<or> arg = ''-h'' then Inl HelpRequested
      else if arg = ''--json'' then
        (if iv_output i \<noteq> OutTable \<and> iv_output i \<noteq> OutJSON then Inl JsonConflictsOutput
         else Inr (i\<lparr>iv_output := OutJSON\<rparr>, ps, rest))
      else if arg = ''--quiet'' \<or> arg = ''-q'' then Inr (i\<lparr>iv_quiet := True\<rparr>, ps, rest)
      else if arg = ''--yes'' \<or> arg = ''-y'' then Inr (i\<lparr>iv_confirm := True\<rparr>, ps, rest)
      else if prefix ''--output='' arg then with_value (set_output i) ps (drop 9 arg) rest
      else if arg = ''--output'' then with_next (set_output i) ps arg rest
      else if takes_value arg then
        (case cut (CHR ''='') arg of
           Some (name, v) \<Rightarrow> with_value (apply_value pd i name) ps v rest
         | None \<Rightarrow> with_next (apply_value pd i arg) ps arg rest)
      else if prefix ''-'' arg then Inl (UnknownOption arg)
      else Inr (i, ps @ [arg], rest))"

lemma with_value_rest: "with_value f ps v rest = Inr (j, qs, rest') \<Longrightarrow> rest' = rest \<and> qs = ps \<and> f v = Inr j"
  by (simp add: with_value_def split: sum.splits)

lemma with_next_rest:
  "with_next f ps name rest = Inr (j, qs, rest') \<Longrightarrow> length rest' \<le> length rest \<and> qs = ps \<and> (\<exists>v. f v = Inr j)"
  by (auto simp: with_next_def split: sum.splits dest!: with_value_rest)

lemma parse_arg_rest: "parse_arg pd i ps arg rest = Inr (j, qs, rest') \<Longrightarrow> length rest' \<le> length rest"
  unfolding parse_arg_def by (auto split: if_splits option.splits dest!: with_value_rest with_next_rest)

function parse_loop ::
    "(string \<Rightarrow> int option) \<Rightarrow> invocation \<Rightarrow> string list \<Rightarrow> string list \<Rightarrow> cli_error + (invocation \<times> string list)" where
  "parse_loop pd i ps [] = Inr (i, ps)"
| "parse_loop pd i ps (arg # rest) =
     (case parse_arg pd i ps arg rest of
        Inl e \<Rightarrow> Inl e
      | Inr (j, qs, rest') \<Rightarrow> parse_loop pd j qs rest')"
  by pat_completeness auto

termination
  by (relation "measure (\<lambda>(pd, i, ps, args). length args)") (auto simp: le_imp_less_Suc dest!: parse_arg_rest sym [of "Inr _"])

definition parse_args :: "(string \<Rightarrow> int option) \<Rightarrow> string list \<Rightarrow> cli_error + invocation" where
  "parse_args pd args =
     (case parse_loop pd start_invocation [] args of
        Inl e \<Rightarrow> Inl e
      | Inr (i, ps) \<Rightarrow>
          (case ps of
             resource # verb # arguments \<Rightarrow>
               if \<not> cli_word resource \<or> \<not> cli_word verb then Inl NotWords
               else Inr (i\<lparr>iv_resource := resource, iv_verb := verb, iv_arguments := arguments,
                    iv_output := (if iv_quiet i \<and> iv_output i = OutTable then OutPlain else iv_output i)\<rparr>)
           | _ \<Rightarrow> Inl NoResourceVerb))"

definition parse_exit_code :: "string \<Rightarrow> cli_error + int" where
  "parse_exit_code v =
     (case atoi v of
        None \<Rightarrow> Inl BadExitCode
      | Some code \<Rightarrow> if code < 0 \<or> code > 255 then Inl BadExitCode else Inr code)"

text \<open>The usage text.\<close>

definition usage :: "string \<Rightarrow> string" where
  "usage program = join_with [CHR 0x0A]
     [''Usage: '' @ program @ '' <resource> <verb> [arguments] [options]'',
      ''  --input <file|->       strict JSON input (use - for stdin)'',
      ''  --output <mode>        table, json or plain'',
      ''  --json                 shorthand for --output json'',
      ''  --quiet                suppress non-result output'',
      ''  --yes                  accept declared non-interactive confirmation'',
      ''  --timeout <duration>   operation timeout (default 30s)'',
      ''  --request-id <id>      caller-supplied correlation/idempotency seed'',
      ''  --query <key=value>     repeatable query parameter'',
      ''  --url <http(s)://...>  remote application origin'',
      ''  --token-file <path>    protected remote API-token file'',
      ''  --session-file <path>  protected browser/CLI session file'']"

end
