(* ===== verification/Cli_Parse_Laws.thy ===== *)
theory Cli_Parse_Laws
  imports Cli_Parse
begin

text \<open>
  What parsing yields is well formed, and every well-formed invocation has a canonical command line
  that parses back to it.
\<close>

section \<open>Well-formed invocations\<close>

definition positional :: "string \<Rightarrow> bool" where
  "positional a \<longleftrightarrow> \<not> prefix ''-'' a"

definition origin_ok :: "string \<Rightarrow> bool" where
  "origin_ok u \<longleftrightarrow> u = [] \<or> trim_slashes u = u \<and> (prefix ''http://'' u \<or> prefix ''https://'' u)"

definition options_ok :: "invocation \<Rightarrow> bool" where
  "options_ok i \<longleftrightarrow> 0 < iv_timeout i \<and> length (iv_request i) \<le> 128 \<and> origin_ok (iv_url i) \<and>
     iv_token_file i \<noteq> ''-'' \<and> iv_session_file i \<noteq> ''-'' \<and> (iv_token_file i = [] \<or> iv_session_file i = []) \<and>
     list_all (\<lambda>q. str_contains q ''='' \<and> \<not> prefix ''='' q) (iv_query i)"

definition invocation_ok :: "invocation \<Rightarrow> bool" where
  "invocation_ok i \<longleftrightarrow> options_ok i \<and> cli_word (iv_resource i) \<and> cli_word (iv_verb i) \<and>
     list_all positional (iv_arguments i) \<and> \<not> (iv_quiet i \<and> iv_output i = OutTable)"

lemma trim_slashes_idem [simp]: "trim_slashes (trim_slashes s) = trim_slashes s"
  by (simp add: trim_slashes_def dropWhile_idem)

lemma options_ok_start [simp]: "options_ok start_invocation"
  by (simp add: options_ok_def start_invocation_def origin_ok_def)

lemma set_output_ok: "set_output i v = Inr j \<Longrightarrow> options_ok i \<Longrightarrow> options_ok j"
  by (auto simp: set_output_def options_ok_def split: option.splits if_splits)

lemma apply_values:
  "apply_value pd i ''--input'' v = Inr (i\<lparr>iv_input := v\<rparr>)"
  "apply_value pd i ''--timeout'' v =
     (case pd v of None \<Rightarrow> Inl (InvalidTimeout v)
      | Some d \<Rightarrow> if d \<le> 0 then Inl (InvalidTimeout v) else Inr (i\<lparr>iv_timeout := d\<rparr>))"
  "apply_value pd i ''--request-id'' v = (if length v > 128 \<or> v = [] then Inl BadRequestID else Inr (i\<lparr>iv_request := v\<rparr>))"
  "apply_value pd i ''--url'' v =
     (if \<not> prefix ''http://'' (trim_slashes v) \<and> \<not> prefix ''https://'' (trim_slashes v) then Inl BadURL
      else Inr (i\<lparr>iv_url := trim_slashes v\<rparr>))"
  "apply_value pd i ''--token-file'' v =
     (if v = ''-'' then Inl TokenFileStdin else if iv_session_file i \<noteq> [] then Inl TokenConflictsSession
      else Inr (i\<lparr>iv_token_file := v\<rparr>))"
  "apply_value pd i ''--session-file'' v =
     (if v = ''-'' then Inl SessionFileStdin else if iv_token_file i \<noteq> [] then Inl SessionConflictsToken
      else Inr (i\<lparr>iv_session_file := v\<rparr>))"
  "apply_value pd i ''--query'' v =
     (if \<not> str_contains v ''='' \<or> prefix ''='' v then Inl BadQuery else Inr (i\<lparr>iv_query := iv_query i @ [v]\<rparr>))"
  by (simp_all add: apply_value_def Let_def)

lemma apply_value_option: "apply_value pd i name v = Inr j \<Longrightarrow> name \<in> set value_options"
  by (rule ccontr) (simp add: apply_value_def value_options_def)

lemma apply_each_ok:
  "apply_value pd i ''--input'' v = Inr j \<Longrightarrow> options_ok i \<Longrightarrow> options_ok j"
  "apply_value pd i ''--timeout'' v = Inr j \<Longrightarrow> options_ok i \<Longrightarrow> options_ok j"
  "apply_value pd i ''--request-id'' v = Inr j \<Longrightarrow> options_ok i \<Longrightarrow> options_ok j"
  "apply_value pd i ''--url'' v = Inr j \<Longrightarrow> options_ok i \<Longrightarrow> options_ok j"
  "apply_value pd i ''--token-file'' v = Inr j \<Longrightarrow> options_ok i \<Longrightarrow> options_ok j"
  "apply_value pd i ''--session-file'' v = Inr j \<Longrightarrow> options_ok i \<Longrightarrow> options_ok j"
  "apply_value pd i ''--query'' v = Inr j \<Longrightarrow> options_ok i \<Longrightarrow> options_ok j"
  unfolding apply_values
  by (auto simp: options_ok_def origin_ok_def split: option.splits if_splits)

lemma apply_value_ok: "apply_value pd i name v = Inr j \<Longrightarrow> options_ok i \<Longrightarrow> options_ok j"
proof -
  assume a: "apply_value pd i name v = Inr j" and i: "options_ok i"
  have "name = ''--input'' \<or> name = ''--timeout'' \<or> name = ''--request-id'' \<or> name = ''--url'' \<or>
      name = ''--token-file'' \<or> name = ''--session-file'' \<or> name = ''--query''"
    using apply_value_option [OF a] by (simp only: value_options_def list.set insert_iff empty_iff simp_thms)
  from this a i show ?thesis
    by (elim disjE) (hypsubst, erule (1) apply_each_ok)+
qed

lemma parse_arg_ok:
  assumes step: "parse_arg pd i ps arg rest = Inr (j, qs, rest')" and ok: "options_ok i" and "list_all positional ps"
  shows "options_ok j \<and> list_all positional qs"
proof -
  have upd: "options_ok (i\<lparr>iv_output := out\<rparr>)" "options_ok (i\<lparr>iv_quiet := b\<rparr>)" "options_ok (i\<lparr>iv_confirm := b\<rparr>)" for out b
    using ok by (simp_all add: options_ok_def)
  let ?asks = "arg = ''--help'' \<or> arg = ''-h''" and ?quiet = "arg = ''--quiet'' \<or> arg = ''-q''"
    and ?yes = "arg = ''--yes'' \<or> arg = ''-y''"
  have "\<not> ?asks"
  proof
    assume ?asks
    then have "parse_arg pd i ps arg rest = Inl HelpRequested" by (simp only: parse_arg_def if_True)
    with step show False by simp
  qed
  then consider (json) "arg = ''--json''" | (quiet) "arg \<noteq> ''--json''" "?quiet" | (yes) "arg \<noteq> ''--json''" "\<not> ?quiet" "?yes"
    | (glued) "arg \<noteq> ''--json''" "\<not> ?quiet" "\<not> ?yes" "prefix ''--output='' arg"
    | (split) "arg \<noteq> ''--json''" "\<not> ?quiet" "\<not> ?yes" "\<not> prefix ''--output='' arg" "arg = ''--output''"
    | (valued) "arg \<noteq> ''--json''" "\<not> ?quiet" "\<not> ?yes" "\<not> prefix ''--output='' arg" "arg \<noteq> ''--output''" "takes_value arg"
    | (plain) "arg \<noteq> ''--json''" "\<not> ?quiet" "\<not> ?yes" "\<not> prefix ''--output='' arg" "arg \<noteq> ''--output''" "\<not> takes_value arg"
    by blast
  then show ?thesis
  proof cases
    case json
    then have "(if iv_output i \<noteq> OutTable \<and> iv_output i \<noteq> OutJSON then Inl JsonConflictsOutput
         else Inr (i\<lparr>iv_output := OutJSON\<rparr>, ps, rest)) = Inr (j, qs, rest')"
      using step by (simp add: parse_arg_def)
    then show ?thesis using upd assms(3) by (auto split: if_splits)
  next
    case quiet
    then have "Inr (i\<lparr>iv_quiet := True\<rparr>, ps, rest) = (Inr (j, qs, rest') :: cli_error + _)"
      using step \<open>\<not> ?asks\<close> by (simp only: parse_arg_def if_True if_False)
    then show ?thesis using upd assms(3) by auto
  next
    case yes
    then have "Inr (i\<lparr>iv_confirm := True\<rparr>, ps, rest) = (Inr (j, qs, rest') :: cli_error + _)"
      using step \<open>\<not> ?asks\<close> by (simp only: parse_arg_def if_True if_False)
    then show ?thesis using upd assms(3) by auto
  next
    case glued
    then have "with_value (set_output i) ps (drop 9 arg) rest = Inr (j, qs, rest')"
      using step \<open>\<not> ?asks\<close> by (simp only: parse_arg_def if_True if_False)
    then show ?thesis using with_value_rest set_output_ok ok assms(3) by blast
  next
    case split
    then have "with_next (set_output i) ps arg rest = Inr (j, qs, rest')"
      using step \<open>\<not> ?asks\<close> by (simp only: parse_arg_def if_True if_False) simp
    then show ?thesis using with_next_rest set_output_ok ok assms(3) by blast
  next
    case valued
    then have "(case cut (CHR ''='') arg of Some (name, v) \<Rightarrow> with_value (apply_value pd i name) ps v rest
         | None \<Rightarrow> with_next (apply_value pd i arg) ps arg rest) = Inr (j, qs, rest')"
      using step \<open>\<not> ?asks\<close> by (simp only: parse_arg_def if_True if_False)
    then have "(\<exists>name v. apply_value pd i name v = Inr j) \<and> qs = ps"
      by (auto split: option.splits dest!: with_value_rest with_next_rest)
    then show ?thesis using apply_value_ok ok assms(3) by blast
  next
    case plain
    then have "(if prefix ''-'' arg then Inl (UnknownOption arg) else Inr (i, ps @ [arg], rest)) = Inr (j, qs, rest')"
      using step \<open>\<not> ?asks\<close> by (simp only: parse_arg_def if_True if_False)
    then show ?thesis using ok assms(3) by (auto simp: positional_def split: if_splits)
  qed
qed

lemma parse_loop_ok:
  "parse_loop pd i ps args = Inr (j, qs) \<Longrightarrow> options_ok i \<Longrightarrow> list_all positional ps \<Longrightarrow>
   options_ok j \<and> list_all positional qs"
proof (induction pd i ps args rule: parse_loop.induct)
  case (2 pd i ps arg rest)
  then show ?case using parse_arg_ok [of pd i ps arg rest] by (fastforce split: sum.splits)
qed simp

section \<open>The canonical command line\<close>

definition option_if :: "bool \<Rightarrow> string \<Rightarrow> string list" where
  "option_if b x = (if b then [x] else [])"

definition output_args :: "cli_output \<Rightarrow> string list" where
  "output_args out = (case out of OutTable \<Rightarrow> [] | OutJSON \<Rightarrow> [''--json''] | OutPlain \<Rightarrow> [''--output=plain''])"

definition canonical_args :: "(int \<Rightarrow> string) \<Rightarrow> invocation \<Rightarrow> string list" where
  "canonical_args fmt i =
     iv_resource i # iv_verb i # iv_arguments i @
     option_if (iv_input i \<noteq> []) (''--input='' @ iv_input i) @ output_args (iv_output i) @
     option_if (iv_quiet i) ''--quiet'' @ option_if (iv_confirm i) ''--yes'' @ [''--timeout='' @ fmt (iv_timeout i)] @
     option_if (iv_request i \<noteq> []) (''--request-id='' @ iv_request i) @
     option_if (iv_url i \<noteq> []) (''--url='' @ iv_url i) @
     option_if (iv_token_file i \<noteq> []) (''--token-file='' @ iv_token_file i) @
     option_if (iv_session_file i \<noteq> []) (''--session-file='' @ iv_session_file i) @
     map (\<lambda>q. ''--query='' @ q) (iv_query i)"

lemma positional_not_option: "positional a \<Longrightarrow> \<not> takes_value a"
  by (cases a) (auto simp: positional_def takes_value_def value_options_def split: option.splits dest!: cut_Some)

lemma loop_positional: "positional a \<Longrightarrow> parse_loop pd i ps (a # rest) = parse_loop pd i (ps @ [a]) rest"
  using positional_not_option [of a]
  by (cases a) (auto simp: positional_def parse_arg_def)

lemma loop_positionals: "list_all positional as \<Longrightarrow> parse_loop pd i ps (as @ rest) = parse_loop pd i (ps @ as) rest"
  by (induction as arbitrary: ps) (simp_all add: loop_positional del: parse_loop.simps(2))

lemma loop_value:
  assumes "cut (CHR ''='') arg = Some (name, v)" and "name \<in> set value_options" and "apply_value pd i name v = Inr j"
  shows "parse_loop pd i ps (arg # rest) = parse_loop pd j ps rest"
proof -
  have arg: "arg = name @ CHR ''='' # v" using cut_Some [OF assms(1)] by simp
  have "takes_value arg" using assms(1,2) by (simp add: takes_value_def)
  moreover have "arg \<noteq> ''--help'' \<and> arg \<noteq> ''-h'' \<and> arg \<noteq> ''--json'' \<and> arg \<noteq> ''--quiet'' \<and> arg \<noteq> ''-q'' \<and> arg \<noteq> ''--yes'' \<and>
    arg \<noteq> ''-y'' \<and> arg \<noteq> ''--output'' \<and> \<not> prefix ''--output='' arg"
    using assms(2) unfolding arg value_options_def by auto
  ultimately show ?thesis using assms(1,3) by (simp add: parse_arg_def with_value_def)
qed

lemma cut_option:
  "cut (CHR ''='') (''--input='' @ v) = Some (''--input'', v)" "cut (CHR ''='') (''--timeout='' @ v) = Some (''--timeout'', v)"
  "cut (CHR ''='') (''--request-id='' @ v) = Some (''--request-id'', v)" "cut (CHR ''='') (''--url='' @ v) = Some (''--url'', v)"
  "cut (CHR ''='') (''--token-file='' @ v) = Some (''--token-file'', v)"
  "cut (CHR ''='') (''--session-file='' @ v) = Some (''--session-file'', v)"
  "cut (CHR ''='') (''--query='' @ v) = Some (''--query'', v)"
  by simp_all

lemma value_option_mem:
  "''--input'' \<in> set value_options" "''--timeout'' \<in> set value_options" "''--request-id'' \<in> set value_options"
  "''--url'' \<in> set value_options" "''--token-file'' \<in> set value_options" "''--session-file'' \<in> set value_options"
  "''--query'' \<in> set value_options"
  by (simp_all add: value_options_def)

text \<open>One lemma per option of the canonical line, each about the state it finds.\<close>

lemma loop_optional:
  assumes "cut (CHR ''='') arg = Some (name, v)" and "name \<in> set value_options"
    and "v = [] \<Longrightarrow> j = i" and "v \<noteq> [] \<Longrightarrow> apply_value pd i name v = Inr j"
  shows "parse_loop pd i ps (option_if (v \<noteq> []) arg @ rest) = parse_loop pd j ps rest"
proof (cases "v = []")
  case False
  then show ?thesis using loop_value [OF assms(1,2) assms(4) [OF False]] by (simp add: option_if_def del: parse_loop.simps(2))
qed (simp add: option_if_def assms(3))

lemma loop_input:
  "iv_input i = [] \<Longrightarrow>
   parse_loop pd i ps (option_if (v \<noteq> []) (''--input='' @ v) @ rest) = parse_loop pd (i\<lparr>iv_input := v\<rparr>) ps rest"
  by (rule loop_optional [OF cut_option(1) value_option_mem(1)]) (simp_all add: apply_values)

lemma loop_timeout:
  "pd v = Some d \<Longrightarrow> 0 < d \<Longrightarrow> parse_loop pd i ps ((''--timeout='' @ v) # rest) = parse_loop pd (i\<lparr>iv_timeout := d\<rparr>) ps rest"
  by (rule loop_value [OF cut_option(2) value_option_mem(2)]) (simp add: apply_values)

lemma loop_timeout_option:
  "pd v = Some d \<Longrightarrow> 0 < d \<Longrightarrow> parse_loop pd i ps ([''--timeout='' @ v] @ rest) = parse_loop pd (i\<lparr>iv_timeout := d\<rparr>) ps rest"
  using loop_timeout by (metis append_Cons append_Nil)

lemma loop_request:
  "iv_request i = [] \<Longrightarrow> length v \<le> 128 \<Longrightarrow>
   parse_loop pd i ps (option_if (v \<noteq> []) (''--request-id='' @ v) @ rest) = parse_loop pd (i\<lparr>iv_request := v\<rparr>) ps rest"
  by (rule loop_optional [OF cut_option(3) value_option_mem(3)]) (simp_all add: apply_values)

lemma loop_url:
  "iv_url i = [] \<Longrightarrow> origin_ok v \<Longrightarrow>
   parse_loop pd i ps (option_if (v \<noteq> []) (''--url='' @ v) @ rest) = parse_loop pd (i\<lparr>iv_url := v\<rparr>) ps rest"
  by (rule loop_optional [OF cut_option(4) value_option_mem(4)]) (auto simp: apply_values origin_ok_def)

lemma loop_token:
  "iv_token_file i = [] \<Longrightarrow> iv_session_file i = [] \<Longrightarrow> v \<noteq> ''-'' \<Longrightarrow>
   parse_loop pd i ps (option_if (v \<noteq> []) (''--token-file='' @ v) @ rest) = parse_loop pd (i\<lparr>iv_token_file := v\<rparr>) ps rest"
  by (rule loop_optional [OF cut_option(5) value_option_mem(5)]) (simp_all add: apply_values)

lemma loop_session:
  "iv_session_file i = [] \<Longrightarrow> iv_token_file i = [] \<or> v = [] \<Longrightarrow> v \<noteq> ''-'' \<Longrightarrow>
   parse_loop pd i ps (option_if (v \<noteq> []) (''--session-file='' @ v) @ rest) = parse_loop pd (i\<lparr>iv_session_file := v\<rparr>) ps rest"
  by (rule loop_optional [OF cut_option(6) value_option_mem(6)]) (auto simp: apply_values)

lemma loop_queries:
  "list_all (\<lambda>q. str_contains q ''='' \<and> \<not> prefix ''='' q) qs \<Longrightarrow>
   parse_loop pd i ps (map (\<lambda>q. ''--query='' @ q) qs) = Inr (i\<lparr>iv_query := iv_query i @ qs\<rparr>, ps)"
proof (induction qs arbitrary: i)
  case (Cons q qs)
  then have "apply_value pd i ''--query'' q = Inr (i\<lparr>iv_query := iv_query i @ [q]\<rparr>)" by (simp add: apply_values)
  from loop_value [OF cut_option(7) value_option_mem(7) this] show ?case
    using Cons by (simp del: parse_loop.simps(2) append.simps(2))
qed simp

lemma parse_json: "iv_output i = OutTable \<Longrightarrow> parse_arg pd i ps ''--json'' rest = Inr (i\<lparr>iv_output := OutJSON\<rparr>, ps, rest)"
  by (simp add: parse_arg_def)

lemma parse_plain:
  "iv_output i = OutTable \<Longrightarrow> parse_arg pd i ps ''--output=plain'' rest = Inr (i\<lparr>iv_output := OutPlain\<rparr>, ps, rest)"
  by (simp add: parse_arg_def with_value_def set_output_def output_of_def)

lemma unchanged:
  "iv_output i = out \<Longrightarrow> i\<lparr>iv_output := out\<rparr> = i" "iv_quiet i = b \<Longrightarrow> i\<lparr>iv_quiet := b\<rparr> = i"
  "iv_confirm i = b \<Longrightarrow> i\<lparr>iv_confirm := b\<rparr> = i"
  by (cases i; simp; fail)+

lemma loop_output:
  "iv_output i = OutTable \<Longrightarrow> parse_loop pd i ps (output_args out @ rest) = parse_loop pd (i\<lparr>iv_output := out\<rparr>) ps rest"
  by (cases out) (simp_all add: output_args_def parse_json parse_plain unchanged)

lemma parse_flags:
  "parse_arg pd i ps ''--quiet'' rest = Inr (i\<lparr>iv_quiet := True\<rparr>, ps, rest)"
  "parse_arg pd i ps ''--yes'' rest = Inr (i\<lparr>iv_confirm := True\<rparr>, ps, rest)"
  by (simp_all add: parse_arg_def)

lemma loop_quiet: "\<not> iv_quiet i \<Longrightarrow> parse_loop pd i ps (option_if b ''--quiet'' @ rest) = parse_loop pd (i\<lparr>iv_quiet := b\<rparr>) ps rest"
  by (cases b) (simp_all add: option_if_def parse_flags unchanged)

lemma loop_yes: "\<not> iv_confirm i \<Longrightarrow> parse_loop pd i ps (option_if b ''--yes'' @ rest) = parse_loop pd (i\<lparr>iv_confirm := b\<rparr>) ps rest"
  by (cases b) (simp_all add: option_if_def parse_flags unchanged)

lemma word_positional: "cli_word w \<Longrightarrow> positional w"
  by (cases w) (auto simp: cli_word_def positional_def letter_defs)

lemma start_fields [simp]:
  "iv_input start_invocation = []" "iv_output start_invocation = OutTable" "\<not> iv_quiet start_invocation"
  "\<not> iv_confirm start_invocation" "iv_request start_invocation = []" "iv_url start_invocation = []"
  "iv_token_file start_invocation = []" "iv_session_file start_invocation = []" "iv_query start_invocation = []"
  by (simp_all add: start_invocation_def)

lemma canonical_parses:
  assumes "invocation_ok i" and "pd (fmt (iv_timeout i)) = Some (iv_timeout i)"
  shows "parse_args pd (canonical_args fmt i) = Inr i"
proof -
  have ok: "0 < iv_timeout i" "length (iv_request i) \<le> 128" "origin_ok (iv_url i)" "iv_token_file i \<noteq> ''-''"
    "iv_session_file i \<noteq> ''-''" "iv_token_file i = [] \<or> iv_session_file i = []"
    "list_all (\<lambda>q. str_contains q ''='' \<and> \<not> prefix ''='' q) (iv_query i)"
    "cli_word (iv_resource i)" "cli_word (iv_verb i)" "list_all positional (iv_arguments i)"
    "iv_quiet i \<longrightarrow> iv_output i \<noteq> OutTable"
    using assms(1) by (simp_all add: invocation_ok_def options_ok_def)
  let ?j = "start_invocation\<lparr>iv_input := iv_input i, iv_output := iv_output i, iv_quiet := iv_quiet i, iv_confirm := iv_confirm i,
     iv_timeout := iv_timeout i, iv_request := iv_request i, iv_url := iv_url i, iv_token_file := iv_token_file i,
     iv_session_file := iv_session_file i, iv_query := iv_query i\<rparr>"
  have "parse_loop pd start_invocation [] (canonical_args fmt i) = Inr (?j, iv_resource i # iv_verb i # iv_arguments i)"
    using ok assms(2) unfolding canonical_args_def
    by (simp add: loop_positional loop_positionals loop_input loop_output loop_quiet loop_yes loop_timeout_option loop_request loop_url
        loop_token loop_session loop_queries word_positional del: parse_loop.simps(2) append.simps(2))
  then have "parse_args pd (canonical_args fmt i) =
      Inr (?j\<lparr>iv_resource := iv_resource i, iv_verb := iv_verb i, iv_arguments := iv_arguments i\<rparr>)"
    using ok by (simp add: parse_args_def unchanged)
  also have "?j\<lparr>iv_resource := iv_resource i, iv_verb := iv_verb i, iv_arguments := iv_arguments i\<rparr> = i"
    by (cases i) (simp add: start_invocation_def)
  finally show ?thesis .
qed

lemma parsed_ok: "parse_args pd args = Inr i \<Longrightarrow> invocation_ok i"
proof -
  assume "parse_args pd args = Inr i"
  then obtain j r v as where l: "parse_loop pd start_invocation [] args = Inr (j, r # v # as)" and w: "cli_word r" "cli_word v"
    and i: "i = j\<lparr>iv_resource := r, iv_verb := v, iv_arguments := as,
                    iv_output := (if iv_quiet j \<and> iv_output j = OutTable then OutPlain else iv_output j)\<rparr>"
    by (auto simp: parse_args_def split: sum.splits list.splits if_splits)
  from parse_loop_ok [OF l] have "options_ok j" "list_all positional as" by simp_all
  then show ?thesis using w by (simp add: i invocation_ok_def options_ok_def)
qed

text \<open>C32. Whatever \<open>Parse\<close> accepts is a well-formed invocation (words for resource and verb, positional
  arguments without a dash, a positive timeout, an http or https origin without trailing slash, at
  most one credential file, never standard input, queries with a key, and no table when quiet), and the canonical command line of it,
  one token per option, parses to the same invocation again.\<close>

theorem parse_normal_form:
  assumes "parse_args pd args = Inr i"
  shows "invocation_ok i \<and> (pd (fmt (iv_timeout i)) = Some (iv_timeout i) \<longrightarrow> parse_args pd (canonical_args fmt i) = Inr i)"
  using parsed_ok [OF assms] canonical_parses by blast

lemma parse_normal_form_witness:
  "parse_args atoi [''task'', ''-q'', ''list'', ''--query=a=b'', ''--timeout'', ''5'', ''x''] =
     parse_args atoi [''task'', ''list'', ''x'', ''--output=plain'', ''--quiet'', ''--timeout=5'', ''--query=a=b'']"
proof -
  let ?args = "[''task'', ''-q'', ''list'', ''--query=a=b'', ''--timeout'', ''5'', ''x'']"
  define i where "i = start_invocation\<lparr>iv_resource := ''task'', iv_verb := ''list'', iv_arguments := [''x''], iv_output := OutPlain,
     iv_quiet := True, iv_timeout := 5, iv_query := [''a=b'']\<rparr>"
  have "parse_args atoi ?args = Inr i" unfolding i_def by code_simp
  moreover have "canonical_args itoa i =
      [''task'', ''list'', ''x'', ''--output=plain'', ''--quiet'', ''--timeout=5'', ''--query=a=b'']"
    unfolding i_def by code_simp
  moreover have "atoi (itoa (iv_timeout i)) = Some (iv_timeout i)" by (rule atoi_itoa) (simp_all add: i_def)
  ultimately show ?thesis using parse_normal_form [of atoi ?args i itoa] by simp
qed

text \<open>An exit code is read exactly when it is the decimal form of a byte, up to a sign and leading zeros.\<close>

lemma exit_code_read: "0 \<le> n \<Longrightarrow> n \<le> 255 \<Longrightarrow> parse_exit_code (itoa n) = Inr n"
  by (simp add: parse_exit_code_def atoi_itoa)

text \<open>The two orders of the same pair of options differ: a table asked for explicitly is taken for the default.\<close>

lemma json_after_table:
  "parse_args pd [''task'', ''list'', ''--output=table'', ''--json''] =
     Inr (start_invocation\<lparr>iv_resource := ''task'', iv_verb := ''list'', iv_output := OutJSON\<rparr>)"
  "parse_args pd [''task'', ''list'', ''--json'', ''--output=table''] = Inl OutputConflictsJson"
  by (simp_all add: parse_args_def parse_arg_def takes_value_def value_options_def with_value_def set_output_def output_of_def
      cli_word_def start_invocation_def letter_defs)

end
