(* ===== verification/Protocol_Wire.thy ===== *)
theory Protocol_Wire
  imports Cli_Parse
begin

text \<open>
  The wire primitives of \<open>protocol/protocol.go\<close>: error codes with their HTTP status and exit code,
  strict decoding, pages, keys, redaction of JSON pointers and rendering.

  The JSON decoder, the JSON encoder and the tab writer are arguments.
\<close>

section \<open>Errors\<close>

datatype error_code =
    CodeInvalid
  | CodeUnauthorized
  | CodeForbidden
  | CodeNotFound
  | CodeConflict
  | CodeUnavailable
  | CodeInternal
  | CodePartial
  | CodeOther string

record api_error =
  ae_code :: error_code
  ae_message :: string
  ae_request :: string
  ae_reason :: "string option"

definition api_error :: "error_code \<Rightarrow> string \<Rightarrow> api_error" where
  "api_error c m = \<lparr>ae_code = c, ae_message = m, ae_request = [], ae_reason = None\<rparr>"

text \<open>An \<open>error\<close> value: one of the package, another one, or one that wraps another.\<close>

datatype go_error = ApiError api_error | PlainError string | Wrapped string go_error

fun errors_as :: "go_error \<Rightarrow> api_error option" where
  "errors_as (ApiError e) = Some e"
| "errors_as (PlainError m) = None"
| "errors_as (Wrapped m e) = errors_as e"

fun http_status :: "error_code \<Rightarrow> nat" where
  "http_status CodeInvalid = 400"
| "http_status CodeUnauthorized = 401"
| "http_status CodeForbidden = 403"
| "http_status CodeNotFound = 404"
| "http_status CodeConflict = 409"
| "http_status CodeUnavailable = 503"
| "http_status CodePartial = 207"
| "http_status _ = 500"

definition exit_ok :: nat where "exit_ok = 0"
definition exit_failure :: nat where "exit_failure = 1"
definition exit_usage :: nat where "exit_usage = 2"
definition exit_auth :: nat where "exit_auth = 3"
definition exit_not_found :: nat where "exit_not_found = 4"
definition exit_conflict :: nat where "exit_conflict = 5"
definition exit_unavailable :: nat where "exit_unavailable = 6"
definition exit_partial :: nat where "exit_partial = 7"

fun code_exit :: "error_code \<Rightarrow> nat" where
  "code_exit CodeInvalid = exit_usage"
| "code_exit CodeUnauthorized = exit_auth"
| "code_exit CodeForbidden = exit_auth"
| "code_exit CodeNotFound = exit_not_found"
| "code_exit CodeConflict = exit_conflict"
| "code_exit CodeUnavailable = exit_unavailable"
| "code_exit CodePartial = exit_partial"
| "code_exit _ = exit_failure"

definition exit_code :: "go_error option \<Rightarrow> nat" where
  "exit_code err =
     (case err of
        None \<Rightarrow> exit_ok
      | Some e \<Rightarrow> (case errors_as e of None \<Rightarrow> exit_failure | Some a \<Rightarrow> code_exit (ae_code a)))"

section \<open>Strict decoding\<close>

text \<open>
  A reader is what it delivers and the error it ends with. \<open>decode\<close> is \<open>json.Decoder.Decode\<close>
  into the target with unknown fields refused: the value and the input it left, or a reason.
  \<open>at_end\<close> tells whether a further \<open>Decode\<close> reports \<open>io.EOF\<close>. \<open>maximum + 1\<close> is 64-bit.
\<close>

definition default_max_body :: int where
  "default_max_body = 2 ^ 20"

definition decode_strict ::
    "(string \<Rightarrow> string + 'a \<times> string) \<Rightarrow> (string \<Rightarrow> bool) \<Rightarrow> string \<times> go_error option \<Rightarrow> int \<Rightarrow> go_error + 'a" where
  "decode_strict decode at_end reader maximum0 =
     (let maximum = (if maximum0 \<le> 0 then default_max_body else maximum0);
          limit = nat (wrap64 (maximum + 1));
          (content, failure) = reader;
          body = take limit content;
          err = (if length content < limit then failure else None)
      in case err of
           Some e \<Rightarrow> Inl e
         | None \<Rightarrow>
             if int (length body) > maximum then Inl (ApiError (api_error CodeInvalid ''JSON input exceeds the size limit''))
             else (case decode body of
                 Inl reason \<Rightarrow> Inl (ApiError ((api_error CodeInvalid ''invalid JSON input'')\<lparr>ae_reason := Some reason\<rparr>))
               | Inr (v, rest) \<Rightarrow>
                   if \<not> at_end rest then Inl (ApiError (api_error CodeInvalid ''JSON input must contain exactly one value''))
                   else Inr v))"

section \<open>Pages, confirmations and keys\<close>

record page =
  pg_number :: int
  pg_size :: int

definition normalize_page :: "int \<Rightarrow> int \<Rightarrow> int \<Rightarrow> page" where
  "normalize_page number size0 maximum0 =
     (let n = (if number < 1 then 1 else number);
          maximum = (if maximum0 < 1 then 100 else maximum0);
          s = (if size0 < 1 then 50 else size0)
      in \<lparr>pg_number = n, pg_size = (if s > maximum then maximum else s)\<rparr>)"

definition confirm :: "string \<Rightarrow> string \<Rightarrow> go_error + unit" where
  "confirm expected actual =
     (if expected = [] \<or> actual \<noteq> expected
      then Inl (ApiError (api_error CodeInvalid ''confirmation text did not match'')) else Inr ())"

text \<open>The 16 random bytes are an argument.\<close>

definition new_request_id :: "string option \<Rightarrow> go_error + string" where
  "new_request_id raw = (case raw of None \<Rightarrow> Inl (PlainError ''rand'') | Some b \<Rightarrow> Inr (hex_encode b))"

definition key_char :: "char \<Rightarrow> bool" where
  "key_char c \<longleftrightarrow> lower_letter c \<or> upper_letter c \<or> digit_char c \<or> c \<in> set ''._:-''"

definition valid_key :: "string \<Rightarrow> bool" where
  "valid_key v \<longleftrightarrow> \<not> (length v < 8 \<or> length v > 128) \<and> list_all key_char v"

section \<open>Redaction\<close>

text \<open>
  What \<open>json.Unmarshal\<close> stores into an \<open>any\<close>. An object is an association list; the keys of a Go
  map are distinct.
\<close>

datatype json =
    JNull
  | JBool bool
  | JNumber string
  | JString string
  | JArray "json list"
  | JObject "(string \<times> json) list"

definition redacted :: json where
  "redacted = JString ''[redacted]''"

text \<open>\<open>strings.ReplaceAll\<close> of a two-byte text by one byte.\<close>

fun replace_pair :: "char \<Rightarrow> char \<Rightarrow> char \<Rightarrow> string \<Rightarrow> string" where
  "replace_pair a b c (x # y # s) =
     (if x = a \<and> y = b then c # replace_pair a b c s else x # replace_pair a b c (y # s))"
| "replace_pair a b c s = s"

definition pointer_parts :: "string \<Rightarrow> string list option" where
  "pointer_parts pointer =
     (case pointer of
        [] \<Rightarrow> Some []
      | c # rest \<Rightarrow>
          if c \<noteq> CHR ''/'' then None
          else Some (map (\<lambda>p. replace_pair (CHR ''~'') (CHR ''0'') (CHR ''~'')
             (replace_pair (CHR ''~'') (CHR ''1'') (CHR ''/'') p)) (split_all (CHR ''/'') rest)))"

text \<open>The in-place update of a map entry and of a slice element.\<close>

fun update_key :: "string \<Rightarrow> ('v \<Rightarrow> 'v) \<Rightarrow> (string \<times> 'v) list \<Rightarrow> (string \<times> 'v) list" where
  "update_key k f [] = []"
| "update_key k f ((x, v) # kvs) = (if x = k then (x, f v) # kvs else (x, v) # update_key k f kvs)"

fun redact_at :: "string list \<Rightarrow> json \<Rightarrow> json" where
  "redact_at [] v = v"
| "redact_at (p # ps) (JObject kvs) =
     JObject (update_key p (\<lambda>v. if ps = [] then redacted else redact_at ps v) kvs)"
| "redact_at (p # ps) (JArray vs) =
     (case atoi p of
        None \<Rightarrow> JArray vs
      | Some i \<Rightarrow>
          if 0 \<le> i \<and> i < int (length vs)
          then JArray (vs[nat i := (if ps = [] then redacted else redact_at ps (vs ! nat i))])
          else JArray vs)"
| "redact_at (p # ps) v = v"

fun redact_all :: "json \<Rightarrow> string list \<Rightarrow> json option" where
  "redact_all v [] = Some v"
| "redact_all v (pointer # pointers) =
     (case pointer_parts pointer of None \<Rightarrow> None | Some ps \<Rightarrow> redact_all (redact_at ps v) pointers)"

text \<open>\<open>to_json\<close> is \<open>json.Marshal\<close> followed by \<open>json.Unmarshal\<close>.\<close>

definition redact :: "('v \<Rightarrow> json option) \<Rightarrow> 'v \<Rightarrow> string list \<Rightarrow> json option" where
  "redact to_json v pointers = (case to_json v of None \<Rightarrow> None | Some clone \<Rightarrow> redact_all clone pointers)"

section \<open>Rendering\<close>

record table =
  tb_columns :: "string list"
  tb_rows :: "string list list"

datatype 'v renderable = RTable table | RText string | RValue 'v

text \<open>A writer takes a text and may report an error; \<open>tabulate\<close> flushes the rows given to a tab writer.\<close>

type_synonym 'w writer = "'w \<Rightarrow> string \<Rightarrow> 'w \<times> string option"

fun write_rows :: "'w writer \<Rightarrow> 'w \<Rightarrow> string list list \<Rightarrow> 'w \<times> string option" where
  "write_rows wr w [] = (w, None)"
| "write_rows wr w (row # rows) =
     (case wr w (join_with [CHR 0x09] row @ [CHR 0x0A]) of
        (w1, Some e) \<Rightarrow> (w1, Some e)
      | (w1, None) \<Rightarrow> write_rows wr w1 rows)"

definition render ::
    "'w writer \<Rightarrow> ('w \<Rightarrow> 'v renderable \<Rightarrow> 'w \<times> string option) \<Rightarrow> ('w \<Rightarrow> string list \<Rightarrow> 'w \<times> string option) \<Rightarrow>
     'w \<Rightarrow> cli_output \<Rightarrow> 'v renderable \<Rightarrow> 'w \<times> string option" where
  "render wr encode tabulate w mode v =
     (if mode = OutJSON then encode w v
      else (case v of
          RText text \<Rightarrow> wr w (text @ [CHR 0x0A])
        | RValue _ \<Rightarrow> (w, Some ''plain and table output require protocol.Table or string'')
        | RTable t \<Rightarrow>
            if mode = OutPlain then write_rows wr w (tb_rows t)
            else tabulate w
              ((if tb_columns t \<noteq> [] then [join_with [CHR 0x09] (tb_columns t) @ [CHR 0x0A]] else []) @
               map (\<lambda>row. join_with [CHR 0x09] row @ [CHR 0x0A]) (tb_rows t))))"

end
