(* ===== verification/Protocol_Wire_Laws.thy ===== *)
theory Protocol_Wire_Laws
  imports Protocol_Wire
begin

text \<open>
  Redaction leaves nothing readable at a declared pointer and touches nothing else; pointers written
  with escapes are read back; the bounds of pages and decoded bodies.
\<close>

section \<open>Pointers\<close>

fun escape_part :: "string \<Rightarrow> string" where
  "escape_part [] = []"
| "escape_part (c # s) =
     (if c = CHR ''~'' then ''~0'' else if c = CHR ''/'' then ''~1'' else [c]) @ escape_part s"

definition pointer_of :: "string list \<Rightarrow> string" where
  "pointer_of ps = concat (map (\<lambda>p. CHR ''/'' # escape_part p) ps)"

fun escape_slash :: "string \<Rightarrow> string" where
  "escape_slash [] = []"
| "escape_slash (c # s) = (if c = CHR ''~'' then ''~0'' else [c]) @ escape_slash s"

lemma replace_skip: "x \<noteq> a \<Longrightarrow> replace_pair a b c (x # s) = x # replace_pair a b c s"
  by (cases s) auto

lemma replace_tilde_zero: "replace_pair (CHR ''~'') (CHR ''1'') c (CHR ''~'' # CHR ''0'' # s) = CHR ''~'' # CHR ''0'' # replace_pair (CHR ''~'') (CHR ''1'') c s"
  by (simp add: replace_skip)

lemma unescape_slash: "replace_pair (CHR ''~'') (CHR ''1'') (CHR ''/'') (escape_part s) = escape_slash s"
  by (induction s) (simp_all add: replace_skip)

lemma unescape_tilde: "replace_pair (CHR ''~'') (CHR ''0'') (CHR ''~'') (escape_slash s) = s"
  by (induction s) (simp_all add: replace_skip)

lemma escape_no_slash: "CHR ''/'' \<notin> set (escape_part s)"
  by (induction s) auto

lemma split_pointer:
  "split_all (CHR ''/'') (escape_part p @ pointer_of ps) = map escape_part (p # ps)"
proof (induction ps arbitrary: p)
  case Nil
  then show ?case by (simp add: pointer_of_def split_all_none escape_no_slash)
next
  case (Cons q ps)
  then show ?case by (simp add: pointer_of_def split_all_append escape_no_slash)
qed

lemma pointer_round_trip: "pointer_parts (pointer_of ps) = Some ps"
proof (cases ps)
  case (Cons p rest)
  then have "pointer_of ps = CHR ''/'' # (escape_part p @ pointer_of rest)" by (simp add: pointer_of_def)
  then show ?thesis using Cons
    by (simp add: pointer_parts_def split_pointer unescape_slash unescape_tilde comp_def)
qed (simp add: pointer_parts_def pointer_of_def)

section \<open>What a pointer reaches\<close>

fun resolve :: "string list \<Rightarrow> json \<Rightarrow> json option" where
  "resolve [] v = Some v"
| "resolve (p # ps) (JObject kvs) = (case map_of kvs p of None \<Rightarrow> None | Some v \<Rightarrow> resolve ps v)"
| "resolve (p # ps) (JArray vs) =
     (case atoi p of
        None \<Rightarrow> None
      | Some i \<Rightarrow> if 0 \<le> i \<and> i < int (length vs) then resolve ps (vs ! nat i) else None)"
| "resolve (p # ps) v = None"

definition hidden :: "string list \<Rightarrow> json \<Rightarrow> bool" where
  "hidden q v \<longleftrightarrow> resolve q v = None \<or> resolve q v = Some redacted"

lemma map_of_update_key: "map_of (update_key k f kvs) x = (if x = k then map_option f (map_of kvs k) else map_of kvs x)"
  by (induction k f kvs rule: update_key.induct) auto

lemma resolve_redacted: "resolve q redacted = (if q = [] then Some redacted else None)"
  by (cases q) (simp_all add: redacted_def)

text \<open>The value below a redacted step, by the kind of the container.\<close>

definition below :: "string list \<Rightarrow> json \<Rightarrow> json" where
  "below ps v = (if ps = [] then redacted else redact_at ps v)"

lemma resolve_redact_Cons:
  "resolve (q # qs) (redact_at (p # ps) v) =
     (case v of
        JObject kvs \<Rightarrow>
          (case map_of kvs q of None \<Rightarrow> None | Some w \<Rightarrow> resolve qs (if q = p then below ps w else w))
      | JArray vs \<Rightarrow>
          (case atoi q of
             None \<Rightarrow> None
           | Some i \<Rightarrow> if 0 \<le> i \<and> i < int (length vs) then resolve qs (if atoi p = Some i then below ps (vs ! nat i) else vs ! nat i)
               else None)
      | _ \<Rightarrow> None)"
  by (cases v) (auto simp: map_of_update_key below_def nth_list_update nat_eq_iff split: option.splits)

lemma redact_hides: "p \<noteq> [] \<Longrightarrow> hidden p (redact_at p v)"
proof (induction p arbitrary: v)
  case (Cons s ps)
  have "hidden ps (below ps w)" for w
    using Cons.IH by (cases "ps = []") (simp_all add: below_def hidden_def resolve_redacted)
  then show ?case
    unfolding hidden_def resolve_redact_Cons by (auto split: json.splits option.splits)
qed simp

lemma hidden_Nil_redact: "hidden [] v \<Longrightarrow> redact_at p v = v"
  by (cases p) (auto simp: hidden_def redacted_def)

lemma redact_keeps_hidden: "hidden q v \<Longrightarrow> hidden q (redact_at p v)"
proof (induction q arbitrary: v p)
  case Nil
  then show ?case using hidden_Nil_redact by metis
next
  case (Cons s qs)
  show ?case
  proof (cases p)
    case (Cons t ps)
    have step: "hidden qs (below ps w)" if "hidden qs w" for w
      using Cons.IH [OF that] that by (cases "ps = []") (auto simp: below_def hidden_def resolve_redacted)
    show ?thesis
    proof (cases v)
      case (JObject kvs)
      then show ?thesis
        using Cons.prems step [unfolded hidden_def] unfolding Cons hidden_def resolve_redact_Cons
        by (cases "map_of kvs s") simp_all
    next
      case (JArray vs)
      then show ?thesis
        using Cons.prems step [unfolded hidden_def] unfolding Cons hidden_def resolve_redact_Cons
        by (cases "atoi s") (auto split: if_splits)
    qed (simp_all add: Cons hidden_def)
  qed (use Cons.prems in simp)
qed

lemma redact_all_hides:
  "redact_all v pointers = Some w \<Longrightarrow> p \<in> set pointers \<Longrightarrow> pointer_parts p = Some ps \<Longrightarrow> ps \<noteq> [] \<Longrightarrow> hidden ps w"
proof -
  have keep: "redact_all v pointers = Some w \<Longrightarrow> hidden q v \<Longrightarrow> hidden q w" for q v w pointers
    by (induction v pointers rule: redact_all.induct) (auto split: option.splits intro: redact_keeps_hidden)
  show "redact_all v pointers = Some w \<Longrightarrow> p \<in> set pointers \<Longrightarrow> pointer_parts p = Some ps \<Longrightarrow> ps \<noteq> [] \<Longrightarrow> hidden ps w"
    by (induction v pointers rule: redact_all.induct) (auto split: option.splits intro: redact_hides keep)
qed

section \<open>Order and independence\<close>

lemma below_redacted [simp]: "below ps redacted = redacted"
  by (cases ps) (simp_all add: below_def redacted_def)

lemma redact_redacted: "redact_at ps redacted = redacted"
  by (cases ps) (simp_all add: redacted_def)

lemma redact_at_Cons:
  "redact_at (p # ps) v =
     (case v of
        JObject kvs \<Rightarrow> JObject (update_key p (below ps) kvs)
      | JArray vs \<Rightarrow>
          (case atoi p of
             None \<Rightarrow> JArray vs
           | Some i \<Rightarrow> if 0 \<le> i \<and> i < int (length vs) then JArray (vs[nat i := below ps (vs ! nat i)]) else JArray vs)
      | _ \<Rightarrow> v)"
  by (cases v) (simp_all add: below_def [abs_def] split: option.splits)

lemma update_key_commute:
  "(\<And>v. f (g v) = g (f v)) \<Longrightarrow> update_key a f (update_key b g kvs) = update_key b g (update_key a f kvs)"
  by (induction kvs) auto

lemma update_key_twice: "update_key a f (update_key a g kvs) = update_key a (\<lambda>v. f (g v)) kvs"
  by (induction kvs) auto

lemma redact_commute: "redact_at p (redact_at q v) = redact_at q (redact_at p v)"
proof (induction p arbitrary: q v)
  case (Cons s ps)
  show ?case
  proof (cases q)
    case (Cons t qs)
    have step: "below ps (below qs w) = below qs (below ps w)" for w
      using Cons.IH [of qs w] by (cases "ps = []"; cases "qs = []") (use redact_redacted in \<open>auto simp: below_def\<close>)
    show ?thesis
      by (cases v) (auto simp: Cons redact_at_Cons step update_key_commute nth_list_update list_update_swap nat_eq_iff
          split: option.splits)
  qed simp
qed simp

lemma below_twice: "below ps (below ps w) = below ps w"
  if "\<And>v. redact_at ps (redact_at ps v) = redact_at ps v"
  using that by (simp add: below_def)

lemma redact_twice: "redact_at p (redact_at p v) = redact_at p v"
proof (induction p arbitrary: v)
  case (Cons s ps)
  note twice = below_twice [of ps, OF Cons.IH]
  show ?case by (cases v) (auto simp: redact_at_Cons update_key_twice twice split: option.splits)
qed simp

definition redact_paths :: "string list list \<Rightarrow> json \<Rightarrow> json" where
  "redact_paths pss v = fold redact_at pss v"

lemma redact_all_paths:
  "redact_all v pointers = map_option (\<lambda>pss. redact_paths pss v) (those (map pointer_parts pointers))"
  by (induction v pointers rule: redact_all.induct) (auto simp: redact_paths_def option.map_comp comp_def split: option.splits)

lemma redact_paths_move: "redact_paths pss (redact_at p v) = redact_at p (redact_paths pss v)"
  by (induction pss arbitrary: v) (simp_all add: redact_paths_def, metis redact_commute)

lemma redact_paths_absorb: "p \<in> set pss \<Longrightarrow> redact_paths pss (redact_at p v) = redact_paths pss v"
proof (induction pss arbitrary: v)
  case (Cons q pss)
  show ?case
  proof (cases "p = q")
    case False
    then have "redact_paths pss (redact_at p (redact_at q v)) = redact_paths pss (redact_at q v)" using Cons by simp
    then show ?thesis by (simp add: redact_paths_def redact_commute [of q p])
  qed (simp add: redact_paths_def redact_twice)
qed simp

section \<open>What redaction leaves alone\<close>

text \<open>Two paths that part in a value: at a container they share, they go to different entries or to none.\<close>

fun apart :: "json \<Rightarrow> string list \<Rightarrow> string list \<Rightarrow> bool" where
  "apart v [] q \<longleftrightarrow> False"
| "apart v p [] \<longleftrightarrow> False"
| "apart (JObject kvs) (p # ps) (q # qs) \<longleftrightarrow>
     p \<noteq> q \<or> (case map_of kvs p of None \<Rightarrow> True | Some w \<Rightarrow> apart w ps qs)"
| "apart (JArray vs) (p # ps) (q # qs) \<longleftrightarrow>
     atoi p \<noteq> atoi q \<or>
     (case atoi p of None \<Rightarrow> True | Some i \<Rightarrow> 0 \<le> i \<and> i < int (length vs) \<longrightarrow> apart (vs ! nat i) ps qs)"
| "apart v (p # ps) (q # qs) \<longleftrightarrow> True"

lemma apart_below: "apart w ps qs \<Longrightarrow> below ps w = redact_at ps w"
  by (cases ps) (simp_all add: below_def)

lemma redact_apart: "apart v p q \<Longrightarrow> resolve q (redact_at p v) = resolve q v"
proof (induction v p q rule: apart.induct)
  case (3 kvs p ps q qs)
  then show ?case by (auto simp: resolve_redact_Cons apart_below simp del: redact_at.simps split: option.splits)
next
  case (4 vs p ps q qs)
  then show ?case by (auto simp: resolve_redact_Cons apart_below simp del: redact_at.simps split: option.splits)
qed auto

lemma apart_keep: "apart v p q \<Longrightarrow> apart v p' q \<Longrightarrow> apart (redact_at p v) p' q"
proof (induction v p q arbitrary: p' rule: apart.induct)
  case (3 kvs p ps q qs)
  then show ?case
    by (cases p') (auto simp: redact_at_Cons map_of_update_key apart_below simp del: redact_at.simps split: option.splits)
next
  case (4 vs p ps q qs)
  then show ?case
    by (cases p') (auto simp: redact_at_Cons nth_list_update apart_below nat_eq_iff simp del: redact_at.simps split: option.splits)
qed (auto elim: apart.elims)

lemma redact_paths_apart:
  "\<forall>p \<in> set pss. apart v p q \<Longrightarrow> resolve q (redact_paths pss v) = resolve q v"
proof (induction pss arbitrary: v)
  case (Cons p pss)
  then have "\<forall>p' \<in> set pss. apart (redact_at p v) p' q" by (simp add: apart_keep)
  from Cons.IH [OF this] show ?case using Cons.prems redact_apart by (simp add: redact_paths_def)
qed (simp add: redact_paths_def)

lemma redact_paths_hide: "p \<in> set pss \<Longrightarrow> p \<noteq> [] \<Longrightarrow> hidden p (redact_paths pss v)"
proof -
  assume "p \<in> set pss" "p \<noteq> []"
  then have "redact_paths pss v = redact_at p (redact_paths pss v)"
    using redact_paths_absorb [of p pss v] by (simp add: redact_paths_move)
  then show ?thesis using redact_hides [OF \<open>p \<noteq> []\<close>] by metis
qed

lemma those_Some: "those xs = Some ys \<Longrightarrow> xs = map Some ys"
  by (induction xs arbitrary: ys) (auto split: option.splits)

text \<open>C33. After \<open>Redact\<close> a declared pointer, other than the empty one, reaches nothing or the text
  \<open>[redacted]\<close>, whatever the other pointers are; two values that differ only below a declared
  pointer give the same result, which does not depend on the order or repetition of pointers; and a path that parts
  from every declared pointer reaches what it reached before.\<close>

theorem redaction_complete:
  assumes "redact_all v pointers = Some w"
  shows "(\<forall>p \<in> set pointers. \<forall>ps. pointer_parts p = Some ps \<and> ps \<noteq> [] \<longrightarrow> hidden ps w) \<and>
    (\<forall>p \<in> set pointers. \<forall>ps v'. pointer_parts p = Some ps \<and> redact_at ps v' = redact_at ps v \<longrightarrow> redact_all v' pointers = Some w) \<and>
    (\<forall>q. (\<forall>p \<in> set pointers. \<forall>ps. pointer_parts p = Some ps \<longrightarrow> apart v ps q) \<longrightarrow> resolve q w = resolve q v) \<and>
    redact_all w pointers = Some w"
proof -
  obtain pss where pss: "those (map pointer_parts pointers) = Some pss" and w: "w = redact_paths pss v"
    using assms by (auto simp: redact_all_paths)
  have "map pointer_parts pointers = map Some pss" using pss those_Some by blast
  then have parts: "set (map pointer_parts pointers) = Some ` set pss" by simp
  then have mem: "ps \<in> set pss" if "p \<in> set pointers" "pointer_parts p = Some ps" for p ps
    using that by (metis image_iff image_set option.inject)
  have "redact_all v' pointers = Some w" if "p \<in> set pointers" "pointer_parts p = Some ps" "redact_at ps v' = redact_at ps v" for p ps v'
    using redact_paths_absorb [OF mem [OF that(1,2)]] that(3) by (metis redact_all_paths pss w option.map(2))
  moreover have "resolve q w = resolve q v"
    if "\<forall>p \<in> set pointers. \<forall>ps. pointer_parts p = Some ps \<longrightarrow> apart v ps q" for q
  proof -
    have "\<exists>p \<in> set pointers. pointer_parts p = Some ps" if "ps \<in> set pss" for ps
      using parts that by (metis (no_types, lifting) image_iff image_set)
    then show ?thesis unfolding w by (intro redact_paths_apart) (use that in blast)
  qed
  moreover have "redact_all w pointers = Some w"
  proof -
    have "redact_paths qss w = w" if "set qss \<subseteq> set pss" for qss
      using that
    proof (induction qss)
      case (Cons q qss)
      then have "redact_at q w = w" unfolding w using redact_paths_absorb redact_paths_move by (metis list.set_intros(1) subsetD)
      then show ?case using Cons by (simp add: redact_paths_def)
    qed (simp add: redact_paths_def)
    then show ?thesis by (simp add: redact_all_paths pss)
  qed
  ultimately show ?thesis using redact_paths_hide mem w by blast
qed

lemma redaction_complete_witness:
  "\<exists>w. redact_all (JObject [(''user'', JObject [(''token'', JString ''t''), (''name'', JString ''n'')])]) [''/user/token''] = Some w \<and>
     hidden [''user'', ''token''] w \<and> resolve [''user'', ''name''] w = Some (JString ''n'')"
proof -
  let ?v = "JObject [(''user'', JObject [(''token'', JString ''t''), (''name'', JString ''n'')])]"
  have parts: "pointer_parts ''/user/token'' = Some [''user'', ''token'']" by code_simp
  obtain w where w: "redact_all ?v [''/user/token''] = Some w" by (simp add: parts)
  have "apart ?v [''user'', ''token''] [''user'', ''name'']" by simp
  then show ?thesis using redaction_complete [OF w] w parts by auto
qed

section \<open>Bounds\<close>

text \<open>A page always has a positive number and a size between one and the maximum, and normalising it again
  changes nothing; a strictly decoded value came from a body within the limit that holds nothing after it.\<close>

lemma wire_bounds:
  "1 \<le> pg_number (normalize_page n s m) \<and> 1 \<le> pg_size (normalize_page n s m) \<and>
   pg_size (normalize_page n s m) \<le> (if m < 1 then 100 else m) \<and>
   normalize_page (pg_number (normalize_page n s m)) (pg_size (normalize_page n s m)) m = normalize_page n s m \<and>
   (0 < limit \<and> limit < 2 ^ 63 - 1 \<longrightarrow>
     (decode_strict decode at_end (content, failure) limit = Inr value \<longleftrightarrow>
       int (length content) \<le> limit \<and> failure = None \<and>
       (\<exists>rest. decode content = Inr (value, rest) \<and> at_end rest)))"
proof -
  have "decode_strict decode at_end (content, failure) limit = Inr value \<longleftrightarrow>
       int (length content) \<le> limit \<and> failure = None \<and> (\<exists>rest. decode content = Inr (value, rest) \<and> at_end rest)"
    if l: "0 < limit" "limit < 2 ^ 63 - 1"
  proof -
    have "wrap64 (limit + 1) = limit + 1" using l by (simp add: wrap64_succ)
    then have m: "nat (wrap64 (limit + 1)) = Suc (nat limit)" using l by simp
    show ?thesis
    proof (cases "int (length content) \<le> limit")
      case True
      then have "length content < Suc (nat limit)" by linarith
      then show ?thesis using True l m by (auto simp: decode_strict_def Let_def split: option.splits sum.splits)
    next
      case False
      then have "\<not> length content < Suc (nat limit)" using l by linarith
      then show ?thesis using False l m by (auto simp: decode_strict_def Let_def min_def split: option.splits)
    qed
  qed
  then show ?thesis by (auto simp: normalize_page_def Let_def)
qed

end
