(* ===== verification/Contract_Check.thy ===== *)
theory Contract_Check
  imports Op_Contract Cli_Parse
begin

text \<open>
  The contract tests of \<open>contracttest/contracttest.go\<close> and \<open>contracttest/matrix.go\<close>: the comparison
  of a product's declared operations with what its tests observed, the coverage matrix with its
  Markdown form, and the stricter sets of findings.

  \<open>explain\<close> renders the error of the registry. A map is visited in the order of its first keys; what
  a visit adds is sorted afterwards, and equal keys carry equal findings. Reading and
  writing the artifact files is not modelled; their contents are.
\<close>

section \<open>Manifests\<close>

record surface_exception =
  sx_operation :: string
  sx_reason :: string

record evidence =
  ev_website :: bool
  ev_tests :: "string list"

record manifest =
  mf_version :: int
  mf_project :: string
  mf_operations :: "contract list"
  mf_routes :: "op_route list"
  mf_commands :: "op_cli list"
  mf_website :: "string list"
  mf_exceptions :: "surface_exception list"
  mf_evidence :: "(string \<times> evidence) list"

record finding =
  fd_code :: string
  fd_subject :: string
  fd_message :: string

record check_report =
  cr_project :: string
  cr_findings :: "finding list"

definition report_ok :: "check_report \<Rightarrow> bool" where
  "report_ok r \<longleftrightarrow> cr_findings r = []"

definition found :: "string \<Rightarrow> string \<Rightarrow> string \<Rightarrow> finding" where
  "found code subject message = \<lparr>fd_code = code, fd_subject = subject, fd_message = message\<rparr>"

definition finding_key :: "finding \<Rightarrow> string" where
  "finding_key f = fd_code f @ CHR 0x00 # fd_subject f"

definition found_if :: "bool \<Rightarrow> string \<Rightarrow> string \<Rightarrow> string \<Rightarrow> finding list" where
  "found_if b code subject message = (if b then [found code subject message] else [])"

section \<open>Check\<close>

definition declared_ids :: "contract list \<Rightarrow> string list" where
  "declared_ids cs = map ct_id cs"

fun declared_routes :: "contract list \<Rightarrow> string \<rightharpoonup> string" where
  "declared_routes [] = Map.empty"
| "declared_routes (c # cs) = [route_key (ct_route c) \<mapsto> ct_id c] ++ declared_routes cs"

text \<open>The loop over the exceptions, with the keys of the map \<open>exceptions\<close>.\<close>

fun check_exceptions :: "string list \<Rightarrow> surface_exception list \<Rightarrow> finding list \<times> string list" where
  "check_exceptions seen [] = ([], seen)"
| "check_exceptions seen (x # xs) =
     (if sx_operation x = [] \<or> blank (sx_reason x) then
        (let (fs, keys) = check_exceptions seen xs
         in (found ''exception.invalid'' (sx_operation x) ''exception requires an operation and reason'' # fs, keys))
      else
        (let (fs, keys) = check_exceptions (List.insert (sx_operation x) seen) xs
         in (found_if (sx_operation x \<in> set seen) ''exception.duplicate'' (sx_operation x) ''exception is declared more than once'' @ fs,
             keys)))"

definition observed_command :: "manifest \<Rightarrow> op_cli \<Rightarrow> bool" where
  "observed_command m l \<longleftrightarrow> command_key l \<in> set (map command_key (mf_commands m))"

definition check_contract :: "manifest \<Rightarrow> contract \<Rightarrow> finding list" where
  "check_contract m c =
     found_if (ct_automation c = ''automatable'' \<and> ct_cli c = None) ''cli.missing'' (ct_id c) ''automatable operation has no CLI mapping'' @
     found_if (case ct_cli c of None \<Rightarrow> False | Some l \<Rightarrow> cl_implemented l \<and> \<not> observed_command m l)
       ''cli.unobserved'' (ct_id c) ''implemented CLI command is not observed by the product'' @
     found_if (ct_kind c \<noteq> ''read'' \<and> \<not> ad_required (ct_audit c)) ''audit.missing'' (ct_id c) ''mutation has no required audit event''"

definition check_steps :: "(contract_error \<Rightarrow> string) \<Rightarrow> manifest \<Rightarrow> finding list" where
  "check_steps explain m =
     (let ops = mf_operations m;
          ids = declared_ids ops;
          declared = declared_routes ops;
          (exception_findings, exceptions) = check_exceptions [] (mf_exceptions m);
          observed = map route_key (mf_routes m)
      in found_if (mf_version m \<noteq> 1) ''manifest.version'' (mf_project m) ''unsupported manifest schema version'' @
         found_if (blank (mf_project m)) ''manifest.project'' [] ''project is required'' @
         (case new_registry ops of Inl e \<Rightarrow> [found ''operations.invalid'' (mf_project m) (explain e)] | Inr _ \<Rightarrow> []) @
         exception_findings @
         concat (map (\<lambda>key. found_if (declared key = None) ''route.undeclared'' key ''observed HTTP route has no operation contract'') observed) @
         concat (map (\<lambda>key. case declared key of None \<Rightarrow> []
           | Some i \<Rightarrow> found_if (key \<notin> set observed) ''route.unobserved'' i ''declared operation route is not observed by the product'')
           (remdups (map (\<lambda>c. route_key (ct_route c)) ops))) @
         concat (map (\<lambda>i. found_if (i \<notin> set ids \<and> i \<notin> set exceptions) ''website.undeclared'' i
           ''website operation has no contract or documented exception'') (mf_website m)) @
         concat (map (\<lambda>i. found_if (i \<in> set ids) ''exception.stale'' i ''exception refers to a declared operation'') exceptions) @
         (case new_registry ops of
            Inl _ \<Rightarrow> []
          | Inr r \<Rightarrow> concat (map (check_contract m) (registry_contracts r ids))))"

definition check :: "(contract_error \<Rightarrow> string) \<Rightarrow> manifest \<Rightarrow> check_report" where
  "check explain m = \<lparr>cr_project = mf_project m, cr_findings = sort_key finding_key (check_steps explain m)\<rparr>"

definition require :: "(contract_error \<Rightarrow> string) \<Rightarrow> manifest \<Rightarrow> string option" where
  "require explain m =
     (let r = check explain m
      in if report_ok r then None
         else Some (mf_project m @ '' operation contract failed:'' @ [CHR 0x0A] @
           join_with [CHR 0x0A] (map (\<lambda>f. fd_code f @ '' '' @ fd_subject f @ '': '' @ fd_message f) (cr_findings r))))"

section \<open>The coverage matrix\<close>

record matrix_row =
  mr_operation :: string
  mr_website :: bool
  mr_method :: string
  mr_route :: string
  mr_cli :: string
  mr_cli_observed :: bool
  mr_boundary :: string
  mr_permission :: string
  mr_scopes :: "string list"
  mr_input :: string
  mr_output :: string
  mr_tests :: "string list"

record matrix =
  mx_version :: int
  mx_project :: string
  mx_operations :: "matrix_row list"

definition matrix_row_of :: "manifest \<Rightarrow> contract \<Rightarrow> matrix_row" where
  "matrix_row_of m c =
     (let command = (case ct_cli c of None \<Rightarrow> [] | Some l \<Rightarrow> command_key l)
      in \<lparr>mr_operation = ct_id c,
          mr_website = (ct_id c \<in> set (mf_website m) \<or> (\<exists>(i, e) \<in> set (mf_evidence m). i = ct_id c \<and> ev_website e)),
          mr_method = ro_method (ct_route c), mr_route = ro_path (ct_route c),
          mr_cli = command, mr_cli_observed = (case ct_cli c of None \<Rightarrow> False | Some l \<Rightarrow> observed_command m l),
          mr_boundary = au_boundary (ct_auth c), mr_permission = au_capability (ct_auth c),
          mr_scopes = sort (au_scopes (ct_auth c)), mr_input = ct_input c, mr_output = ct_output c,
          mr_tests = (case map_of (mf_evidence m) (ct_id c) of None \<Rightarrow> [] | Some e \<Rightarrow> sort (ev_tests e))\<rparr>)"

definition build_matrix :: "manifest \<Rightarrow> matrix" where
  "build_matrix m = \<lparr>mx_version = 1, mx_project = mf_project m,
     mx_operations = sort_key mr_operation (map (matrix_row_of m) (mf_operations m))\<rparr>"

definition dash :: string where "dash = [CHR 0xE2, CHR 0x80, CHR 0x94]"
definition arrow :: string where "arrow = [CHR 0xE2, CHR 0x86, CHR 0x92]"

definition yes_no :: "bool \<Rightarrow> string" where
  "yes_no v = (if v then ''yes'' else ''no'')"

definition empty_dash :: "string \<Rightarrow> string" where
  "empty_dash v = (if v = [] then dash else v)"

definition tick :: string where "tick = [CHR 0x60]"

definition markdown_row :: "matrix_row \<Rightarrow> string" where
  "markdown_row r =
     (let command = (if mr_cli r = [] then dash else if \<not> mr_cli_observed r then mr_cli r @ '' (unobserved)'' else mr_cli r);
          permission = mr_boundary r @ (if mr_permission r \<noteq> [] then '':'' @ mr_permission r else []) @
            (if mr_scopes r \<noteq> [] then '' token='' @ join_with '','' (mr_scopes r) else []);
          schemas = (if mr_input r \<noteq> [] \<or> mr_output r \<noteq> [] then empty_dash (mr_input r) @ '' '' @ arrow @ '' '' @ empty_dash (mr_output r)
            else dash);
          tests = (if mr_tests r \<noteq> [] then join_with ''<br>'' (mr_tests r) else dash)
      in ''| '' @ tick @ mr_operation r @ tick @ '' | '' @ yes_no (mr_website r) @ '' | '' @ tick @ mr_method r @ '' '' @ mr_route r @
         tick @ '' | '' @ tick @ command @ tick @ '' | '' @ tick @ permission @ tick @ '' | '' @ tick @ schemas @ tick @
         '' | '' @ tests @ '' |'' @ [CHR 0x0A])"

definition markdown :: "matrix \<Rightarrow> string" where
  "markdown m =
     ''# '' @ mx_project m @ '' functional coverage'' @ [CHR 0x0A, CHR 0x0A] @
     ''Generated from the tested operation manifest. Do not edit by hand.'' @ [CHR 0x0A, CHR 0x0A] @
     ''| Operation | Website | API | CLI | Permission | Schemas | Tests |'' @ [CHR 0x0A] @
     ''| --- | :---: | --- | --- | --- | --- | --- |'' @ [CHR 0x0A] @
     concat (map markdown_row (mx_operations m))"

text \<open>The comparison of the artifacts; a file that cannot be read is \<open>None\<close>, \<open>to_json\<close> is \<open>json.MarshalIndent\<close>.\<close>

datatype artifact_error = JsonUnreadable | JsonStale | MarkdownUnreadable | MarkdownStale | MatrixJson

definition check_matrix_artifacts ::
    "(matrix \<Rightarrow> string option) \<Rightarrow> string option \<Rightarrow> string option \<Rightarrow> manifest \<Rightarrow> artifact_error + unit" where
  "check_matrix_artifacts to_json json_file markdown_file m =
     (let mx = build_matrix m
      in case to_json mx of
           None \<Rightarrow> Inl MatrixJson
         | Some j \<Rightarrow>
             (case json_file of
                None \<Rightarrow> Inl JsonUnreadable
              | Some got \<Rightarrow>
                  if got \<noteq> j @ [CHR 0x0A] then Inl JsonStale
                  else (case markdown_file of
                      None \<Rightarrow> Inl MarkdownUnreadable
                    | Some md \<Rightarrow> if md \<noteq> markdown mx then Inl MarkdownStale else Inr ())))"

section \<open>Stricter findings\<close>

definition certify_contract :: "manifest \<Rightarrow> contract \<Rightarrow> finding list" where
  "certify_contract m c =
     found_if (case map_of (mf_evidence m) (ct_id c) of None \<Rightarrow> True | Some e \<Rightarrow> ev_tests e = [])
       ''evidence.missing'' (ct_id c) ''operation has no independent test evidence'' @
     (if ct_automation c = ''automatable'' then
        found_if (case ct_cli c of None \<Rightarrow> True | Some l \<Rightarrow> \<not> cl_implemented l \<or> \<not> observed_command m l)
          ''cli.uncertified'' (ct_id c) ''automatable operation has no observed implemented CLI command'' @
        found_if (ct_output c = [] \<or> ct_kind c \<noteq> ''read'' \<and> ct_input c = [])
          ''schema.missing'' (ct_id c) ''automatable operation lacks named input/output schema coverage''
      else [])"

definition certification_findings :: "(contract_error \<Rightarrow> string) \<Rightarrow> manifest \<Rightarrow> finding list" where
  "certification_findings explain m =
     sort_key finding_key (cr_findings (check explain m) @ concat (map (certify_contract m) (mf_operations m)))"

definition secure_contract :: "contract \<Rightarrow> finding list" where
  "secure_contract c =
     found_if (au_boundary (ct_auth c) = ''public'' \<and> ct_kind c = ''destructive'')
       ''security.public-destructive'' (ct_id c) ''destructive operation cannot be public'' @
     found_if (au_scopes (ct_auth c) \<noteq> [] \<and> au_boundary (ct_auth c) \<noteq> ''session'' \<and> au_boundary (ct_auth c) \<noteq> ''capability'')
       ''security.token-boundary'' (ct_id c) ''API-token scopes require a human session/capability boundary'' @
     found_if (ct_kind c \<noteq> ''read'' \<and> (\<not> ad_required (ct_audit c) \<or> ad_event (ct_audit c) = []))
       ''security.audit'' (ct_id c) ''mutation/destructive operation lacks an audit event'' @
     found_if (ct_kind c = ''read'' \<and> ct_secret_inputs c \<noteq> [])
       ''security.read-secret-input'' (ct_id c) ''read operation declares secret input'' @
     found_if (ct_automation c = ''automatable'' \<and> ct_kind c = ''destructive'' \<and>
         (case ct_cli c of None \<Rightarrow> True | Some l \<Rightarrow> \<not> cl_implemented l))
       ''security.destructive-cli'' (ct_id c) ''destructive operation lacks confirmed CLI path''"

definition security_findings :: "manifest \<Rightarrow> finding list" where
  "security_findings m = sort_key finding_key (concat (map secure_contract (mf_operations m)))"

definition path_placeholder_count :: "string \<Rightarrow> nat" where
  "path_placeholder_count path = length (filter (\<lambda>c. c = CHR ''{'') path)"

definition grammar_args :: "contract \<Rightarrow> op_cli \<Rightarrow> string list" where
  "grammar_args c l =
     [cl_resource l, cl_verb l] @ replicate (path_placeholder_count (ro_path (ct_route c))) ''example'' @
     (if ct_kind c = ''destructive'' then [''--yes''] else []) @
     [''--json'', ''--timeout'', ''30s'', ''--request-id'', ''phase5-dogfood'', ''--url'', ''http://127.0.0.1:1'']"

definition automation_findings ::
    "(string \<Rightarrow> int option) \<Rightarrow> (cli_error \<Rightarrow> string) \<Rightarrow> manifest \<Rightarrow> finding list" where
  "automation_findings pd explain m =
     concat (map (\<lambda>c.
       case ct_cli c of
         None \<Rightarrow> []
       | Some l \<Rightarrow>
           if ct_automation c \<noteq> ''automatable'' then []
           else (case parse_args pd (grammar_args c l) of
               Inl e \<Rightarrow> [found ''automation.grammar'' (ct_id c) (explain e)]
             | Inr _ \<Rightarrow> []))
       (mf_operations m))"

end
