(* ===== verification/Contract_Check_Laws.thy ===== *)
theory Contract_Check_Laws
  imports Contract_Check Auth_Execution_Laws Cli_Parse_Laws
begin

text \<open>
  A manifest passes exactly when declaration and observation agree; two of the declared findings can
  never be reported; the grammar of the command line accepts every command a valid contract declares.
\<close>

section \<open>The findings of a check\<close>

lemma found_if_Nil [simp]: "found_if b c s m = [] \<longleftrightarrow> \<not> b"
  by (simp add: found_if_def)

lemma sort_Nil [simp]: "sort_key f xs = [] \<longleftrightarrow> xs = []"
  by (metis length_0_conv length_sort)

lemma declared_routes_None: "declared_routes cs key = None \<longleftrightarrow> key \<notin> (\<lambda>c. route_key (ct_route c)) ` set cs"
  by (induction cs) (auto simp: map_add_None)

definition exception_ok :: "surface_exception \<Rightarrow> bool" where
  "exception_ok x \<longleftrightarrow> sx_operation x \<noteq> [] \<and> \<not> blank (sx_reason x)"

lemma check_exceptions_clean:
  "fst (check_exceptions seen xs) = [] \<longleftrightarrow>
     list_all exception_ok xs \<and> distinct (map sx_operation xs) \<and> set seen \<inter> sx_operation ` set xs = {}"
  by (induction xs arbitrary: seen) (auto simp: Let_def case_prod_unfold exception_ok_def)

lemma check_exceptions_keys:
  "list_all exception_ok xs \<Longrightarrow> set (snd (check_exceptions seen xs)) = set seen \<union> sx_operation ` set xs"
  by (induction xs arbitrary: seen) (auto simp: Let_def case_prod_unfold exception_ok_def)

text \<open>What the code asks of a contract beyond its own validation.\<close>

definition surface_ok :: "manifest \<Rightarrow> contract \<Rightarrow> bool" where
  "surface_ok m c \<longleftrightarrow> (\<forall>l. ct_cli c = Some l \<and> cl_implemented l \<longrightarrow> command_key l \<in> command_key ` set (mf_commands m))"

lemma valid_contract_surface:
  assumes "contract_ok c"
  shows "\<not> (ct_automation c = ''automatable'' \<and> ct_cli c = None)" "\<not> (ct_kind c \<noteq> ''read'' \<and> \<not> ad_required (ct_audit c))"
  using assms by (auto simp: contract_ok_def contract_validate_def split: if_splits sum.splits)

lemma check_contract_valid: "contract_ok c \<Longrightarrow> check_contract m c = [] \<longleftrightarrow> surface_ok m c"
  using valid_contract_surface [of c] by (auto simp: check_contract_def surface_ok_def observed_command_def split: option.splits)

definition manifest_consistent :: "manifest \<Rightarrow> bool" where
  "manifest_consistent m \<longleftrightarrow> mf_version m = 1 \<and> \<not> blank (mf_project m) \<and> all_distinct (mf_operations m) \<and>
     list_all exception_ok (mf_exceptions m) \<and> distinct (map sx_operation (mf_exceptions m)) \<and>
     route_key ` set (mf_routes m) = (\<lambda>c. route_key (ct_route c)) ` set (mf_operations m) \<and>
     set (mf_website m) \<subseteq> ct_id ` set (mf_operations m) \<union> sx_operation ` set (mf_exceptions m) \<and>
     ct_id ` set (mf_operations m) \<inter> sx_operation ` set (mf_exceptions m) = {} \<and>
     (\<forall>c \<in> set (mf_operations m). surface_ok m c)"

lemma check_steps_Nil: "check_steps explain m = [] \<longleftrightarrow> manifest_consistent m"
proof -
  let ?ops = "mf_operations m" and ?xs = "mf_exceptions m"
  let ?ids = "declared_ids ?ops" and ?keys = "snd (check_exceptions [] ?xs)"
  have ids: "set ?ids = ct_id ` set ?ops" by (simp add: declared_ids_def)
  have registry: "(case new_registry ?ops of Inl e \<Rightarrow> [found ''operations.invalid'' (mf_project m) (explain e)] | Inr _ \<Rightarrow> []) = [] \<and>
      (case new_registry ?ops of Inl _ \<Rightarrow> [] | Inr r \<Rightarrow> concat (map (check_contract m) (registry_contracts r ?ids))) = [] \<longleftrightarrow>
      all_distinct ?ops \<and> (\<forall>c \<in> set ?ops. surface_ok m c)"
  proof (cases "new_registry ?ops")
    case (Inl e)
    then have "\<not> all_distinct ?ops" using new_registry_iff [of ?ops "registry_of (rev ?ops)"] by auto
    then show ?thesis using Inl by simp
  next
    case (Inr r)
    then have d: "all_distinct ?ops" and r: "r = registry_of (rev ?ops)" using new_registry_iff by blast+
    have "registry_contracts r ?ids = sort_key ct_id ?ops"
      unfolding r using d by (intro registry_lists) (simp_all add: all_distinct_def declared_ids_def)
    then show ?thesis using Inr d check_contract_valid by (auto simp: all_distinct_def)
  qed
  have unobserved: "concat (map (\<lambda>key. case declared_routes ?ops key of None \<Rightarrow> []
           | Some i \<Rightarrow> found_if (key \<notin> set (map route_key (mf_routes m))) ''route.unobserved'' i ''declared operation route is not observed by the product'')
           (remdups (map (\<lambda>c. route_key (ct_route c)) ?ops))) = [] \<longleftrightarrow>
      (\<lambda>c. route_key (ct_route c)) ` set ?ops \<subseteq> route_key ` set (mf_routes m)"
  proof -
    have "(case declared_routes ?ops key of None \<Rightarrow> []
           | Some i \<Rightarrow> found_if (key \<notin> set (map route_key (mf_routes m))) c i msg) = [] \<longleftrightarrow> key \<in> route_key ` set (mf_routes m)"
      if "key \<in> (\<lambda>c. route_key (ct_route c)) ` set ?ops" for key c msg
      using that declared_routes_None [of ?ops key] by (cases "declared_routes ?ops key") auto
    then show ?thesis by (auto simp: concat_eq_Nil_conv)
  qed
  have keys: "fst (check_exceptions [] ?xs) = [] \<Longrightarrow> set ?keys = sx_operation ` set ?xs"
    using check_exceptions_clean [of "[]" ?xs] check_exceptions_keys [of ?xs "[]"] by simp
  have "check_steps explain m = [] \<longleftrightarrow> mf_version m = 1 \<and> \<not> blank (mf_project m) \<and>
      (all_distinct ?ops \<and> (\<forall>c \<in> set ?ops. surface_ok m c)) \<and> fst (check_exceptions [] ?xs) = [] \<and>
      route_key ` set (mf_routes m) \<subseteq> (\<lambda>c. route_key (ct_route c)) ` set ?ops \<and>
      (\<lambda>c. route_key (ct_route c)) ` set ?ops \<subseteq> route_key ` set (mf_routes m) \<and>
      (\<forall>i \<in> set (mf_website m). i \<in> set ?ids \<or> i \<in> set ?keys) \<and> (\<forall>i \<in> set ?keys. i \<notin> set ?ids)"
    unfolding check_steps_def Let_def case_prod_unfold append_is_Nil_conv unobserved registry [symmetric]
    by (auto simp: concat_eq_Nil_conv declared_routes_None)
  then show ?thesis
    using keys check_exceptions_clean [of "[]" ?xs] unfolding manifest_consistent_def ids by auto
qed

text \<open>C34. A manifest passes the contract check exactly when it is consistent: the operations form a registry,
  the observed routes are the declared routes, every implemented command was observed, the website uses only
  declared operations and documented exceptions, and no exception is repeated, unexplained or about a
  declared operation. The findings \<open>cli.missing\<close> and \<open>audit.missing\<close> are never reported: the registry
  already refuses what they look for.\<close>

theorem check_passes_iff:
  "(require explain m = None \<longleftrightarrow> manifest_consistent m) \<and> (report_ok (check explain m) \<longleftrightarrow> manifest_consistent m) \<and>
   (\<forall>r. new_registry (mf_operations m) = Inr r \<longrightarrow>
     (\<forall>c \<in> set (mf_operations m). \<forall>f \<in> set (check_contract m c). fd_code f = ''cli.unobserved''))"
proof -
  have "report_ok (check explain m) \<longleftrightarrow> manifest_consistent m"
    by (simp add: report_ok_def check_def check_steps_Nil)
  moreover have "fd_code f = ''cli.unobserved''"
    if "new_registry (mf_operations m) = Inr r" "c \<in> set (mf_operations m)" "f \<in> set (check_contract m c)" for r c f
  proof -
    have "contract_ok c" using that(1,2) by (auto simp: new_registry_iff all_distinct_def)
    then have "check_contract m c = found_if (case ct_cli c of None \<Rightarrow> False | Some l \<Rightarrow> cl_implemented l \<and> \<not> observed_command m l)
       ''cli.unobserved'' (ct_id c) ''implemented CLI command is not observed by the product''"
      using valid_contract_surface unfolding check_contract_def by (simp add: found_if_def)
    then show ?thesis using that(3) by (auto simp: found_if_def found_def split: if_splits)
  qed
  ultimately show ?thesis by (auto simp: require_def Let_def)
qed

section \<open>Security findings\<close>

lemma security_clean_iff:
  "security_findings m = [] \<longleftrightarrow> (\<forall>c \<in> set (mf_operations m). secure_contract c = [])"
  by (simp add: security_findings_def concat_eq_Nil_conv)

section \<open>The grammar accepts every declared command\<close>

lemma word_pattern_cli: "word_pattern s \<Longrightarrow> cli_word s"
proof -
  assume "word_pattern s"
  then obtain c r where s: "s = c # r" "lower_letter c" "\<forall>d \<in> set r. lower_letter d \<or> digit_char d \<or> d = CHR ''-''"
    by (cases s) (auto simp: word_pattern_def)
  have "list_all (\<lambda>(i, c). lower_letter c \<or> i > 0 \<and> digit_char c \<or> i > 0 \<and> c = CHR ''-'')
      (enumerate (Suc n) r)" for n
    using s(3) by (induction r arbitrary: n) auto
  then show ?thesis using s by (simp add: cli_word_def)
qed

lemma parse_call_options:
  assumes "pd ''30s'' = Some d" and "0 < d" and "iv_output i = OutTable"
  shows "parse_loop pd i ps [''--json'', ''--timeout'', ''30s'', ''--request-id'', ''phase5-dogfood'', ''--url'', ''http://127.0.0.1:1''] =
    Inr (i\<lparr>iv_output := OutJSON, iv_timeout := d, iv_request := ''phase5-dogfood'', iv_url := ''http://127.0.0.1:1''\<rparr>, ps)"
proof -
  have "trim_slashes ''http://127.0.0.1:1'' = ''http://127.0.0.1:1''" by code_simp
  then show ?thesis using assms
    by (simp add: parse_arg_def takes_value_def value_options_def with_next_def with_value_def flag_value_def apply_values)
qed

lemma grammar_args_parse:
  assumes "contract_ok c" and "ct_cli c = Some l" and "pd ''30s'' = Some d" and "0 < d"
  shows "parse_args pd (grammar_args c l) =
    Inr (start_invocation\<lparr>iv_confirm := (ct_kind c = ''destructive''), iv_output := OutJSON, iv_timeout := d,
      iv_request := ''phase5-dogfood'', iv_url := ''http://127.0.0.1:1'', iv_resource := cl_resource l, iv_verb := cl_verb l,
      iv_arguments := replicate (path_placeholder_count (ro_path (ct_route c))) ''example''\<rparr>)"
proof -
  let ?n = "path_placeholder_count (ro_path (ct_route c))" and ?b = "ct_kind c = ''destructive''"
  let ?ps = "cl_resource l # cl_verb l # replicate ?n ''example''"
  have w: "cli_word (cl_resource l)" "cli_word (cl_verb l)"
    using contract_ok_parts(3) [OF assms(1,2)] word_pattern_cli by blast+
  have "list_all positional ?ps" using w word_positional by (auto simp: list_all_iff positional_def)
  then have "parse_loop pd start_invocation [] (?ps @ option_if ?b ''--yes'' @
      [''--json'', ''--timeout'', ''30s'', ''--request-id'', ''phase5-dogfood'', ''--url'', ''http://127.0.0.1:1'']) =
    Inr (start_invocation\<lparr>iv_confirm := ?b, iv_output := OutJSON, iv_timeout := d, iv_request := ''phase5-dogfood'',
      iv_url := ''http://127.0.0.1:1''\<rparr>, ?ps)"
    using parse_call_options [where pd = pd and d = d, OF assms(3,4), of "start_invocation\<lparr>iv_confirm := ?b\<rparr>" ?ps]
    by (simp only: loop_positionals loop_yes start_fields append_Nil not_False_eq_True) simp
  then show ?thesis using w by (simp add: parse_args_def grammar_args_def option_if_def)
qed

text \<open>For valid contracts the grammar gate reports nothing: \<open>Parse\<close> accepts the resource and verb of
  every declared command together with one argument per placeholder, the confirmation of a
  destructive operation and the options of a remote call, and yields exactly these.\<close>

theorem declared_commands_parse:
  assumes "\<forall>c \<in> set (mf_operations m). contract_validate c = Inr ()" and "pd ''30s'' = Some d" and "0 < d"
  shows "automation_findings pd explain m = [] \<and>
    (\<forall>c \<in> set (mf_operations m). \<forall>l. ct_cli c = Some l \<longrightarrow>
      (\<exists>i. parse_args pd (grammar_args c l) = Inr i \<and> iv_resource i = cl_resource l \<and> iv_verb i = cl_verb l \<and>
         length (iv_arguments i) = path_placeholder_count (ro_path (ct_route c)) \<and>
         iv_confirm i = (ct_kind c = ''destructive'') \<and> iv_output i = OutJSON \<and> iv_timeout i = d))"
proof -
  have ok: "parse_args pd (grammar_args c l) =
    Inr (start_invocation\<lparr>iv_confirm := (ct_kind c = ''destructive''), iv_output := OutJSON, iv_timeout := d,
      iv_request := ''phase5-dogfood'', iv_url := ''http://127.0.0.1:1'', iv_resource := cl_resource l, iv_verb := cl_verb l,
      iv_arguments := replicate (path_placeholder_count (ro_path (ct_route c))) ''example''\<rparr>)"
    if "c \<in> set (mf_operations m)" "ct_cli c = Some l" for c l
    using that assms by (intro grammar_args_parse) (simp_all add: contract_ok_def)
  then have "automation_findings pd explain m = []"
    by (auto simp: automation_findings_def concat_eq_Nil_conv split: option.splits)
  with ok show ?thesis by simp
qed

section \<open>Examples\<close>

definition ex_manifest :: manifest where
  "ex_manifest = \<lparr>mf_version = 1, mf_project = ''notes'',
     mf_operations = [ex_contract ''notes.del'' ''del'', ex_contract ''notes.add'' ''add''],
     mf_routes = [\<lparr>ro_method = ''POST'', ro_path = ''/api/add''\<rparr>, \<lparr>ro_method = ''POST'', ro_path = ''/api/del''\<rparr>],
     mf_commands = [\<lparr>cl_resource = ''note'', cl_verb = ''add'', cl_implemented = True\<rparr>,
       \<lparr>cl_resource = ''note'', cl_verb = ''del'', cl_implemented = True\<rparr>],
     mf_website = [''notes.add'', ''legacy''], mf_exceptions = [\<lparr>sx_operation = ''legacy'', sx_reason = ''old''\<rparr>], mf_evidence = []\<rparr>"

lemma ex_all_distinct: "all_distinct (mf_operations ex_manifest)"
  using ex_contracts_valid by (simp add: all_distinct_def ex_manifest_def ex_contract_def contract_ok_def command_of_def)

lemma check_passes_iff_witness: "require (\<lambda>e. []) ex_manifest = None"
proof -
  have "\<not> blank ''notes''" "\<not> blank ''old''" by code_simp+
  then have "manifest_consistent ex_manifest"
    using ex_all_distinct unfolding manifest_consistent_def
    by (auto simp: ex_manifest_def ex_contract_def exception_ok_def surface_ok_def route_key_def command_key_def)
  then show ?thesis using check_passes_iff [of "\<lambda>e. []" ex_manifest] by blast
qed

lemma declared_commands_parse_witness:
  "automation_findings (\<lambda>s. Some 30) (\<lambda>e. []) ex_manifest = []"
  using declared_commands_parse [of ex_manifest "\<lambda>s. Some 30" 30 "\<lambda>e. []"] ex_contracts_valid
  by (simp add: ex_manifest_def)

end
