(* ===== verification/Go_Utf8.thy ===== *)
theory Go_Utf8
  imports Go_Base
begin

text \<open>
  UTF-8 as \<open>unicode/utf8\<close> decodes it: the length of the valid encoding at the head of a text,
  validity, and \<open>strings.ToValidUTF8\<close>.
\<close>

definition byte :: "char \<Rightarrow> nat" where
  "byte c = of_char c"

definition continuation :: "char \<Rightarrow> bool" where
  "continuation c \<longleftrightarrow> 128 \<le> byte c \<and> byte c \<le> 191"

text \<open>\<open>utf8.RuneStart\<close>\<close>

definition rune_start :: "char \<Rightarrow> bool" where
  "rune_start c \<longleftrightarrow> \<not> continuation c"

text \<open>The range of the second byte after a given first byte.\<close>

definition second_ok :: "nat \<Rightarrow> char \<Rightarrow> bool" where
  "second_ok b c \<longleftrightarrow> continuation c \<and> (b = 224 \<longrightarrow> 160 \<le> byte c) \<and> (b = 237 \<longrightarrow> byte c \<le> 159) \<and>
     (b = 240 \<longrightarrow> 144 \<le> byte c) \<and> (b = 244 \<longrightarrow> byte c \<le> 143)"

text \<open>The length of the valid encoding at the head, zero when there is none.\<close>

definition rune_len :: "string \<Rightarrow> nat" where
  "rune_len s =
     (case s of
        [] \<Rightarrow> 0
      | c # r \<Rightarrow>
          (let b = byte c
           in if b < 128 then 1
              else if 194 \<le> b \<and> b \<le> 223 then
                (case r of c1 # _ \<Rightarrow> if second_ok b c1 then 2 else 0 | _ \<Rightarrow> 0)
              else if 224 \<le> b \<and> b \<le> 239 then
                (case r of c1 # c2 # _ \<Rightarrow> if second_ok b c1 \<and> continuation c2 then 3 else 0 | _ \<Rightarrow> 0)
              else if 240 \<le> b \<and> b \<le> 244 then
                (case r of c1 # c2 # c3 # _ \<Rightarrow> if second_ok b c1 \<and> continuation c2 \<and> continuation c3 then 4 else 0 | _ \<Rightarrow> 0)
              else 0))"

function valid_utf8 :: "string \<Rightarrow> bool" where
  "valid_utf8 [] = True"
| "valid_utf8 (c # s) = (rune_len (c # s) \<noteq> 0 \<and> valid_utf8 (drop (rune_len (c # s) - 1) s))"
  by pat_completeness auto
termination by (relation "measure length") auto

definition replacement_char :: string where
  "replacement_char = [CHR 0xEF, CHR 0xBF, CHR 0xBD]"

text \<open>The loop of \<open>ToValidUTF8\<close>: the flag tells whether the byte before was invalid.\<close>

function to_valid :: "bool \<Rightarrow> string \<Rightarrow> string" where
  "to_valid bad [] = []"
| "to_valid bad (c # s) =
     (if rune_len (c # s) = 0 then (if bad then [] else replacement_char) @ to_valid True s
      else take (rune_len (c # s)) (c # s) @ to_valid False (drop (rune_len (c # s) - 1) s))"
  by pat_completeness auto
termination by (relation "measure (\<lambda>(b, s). length s)") auto

declare valid_utf8.simps(2) [simp del] to_valid.simps(2) [simp del]

section \<open>Laws\<close>

text \<open>An encoding is its bytes: a starting byte, then continuations, whatever follows.\<close>

definition rune :: "string \<Rightarrow> bool" where
  "rune r \<longleftrightarrow> r \<noteq> [] \<and> rune_len r = length r"

lemma rune_len_take: "rune_len s = n \<Longrightarrow> n \<noteq> 0 \<Longrightarrow> n \<le> length s \<and> n \<le> 4 \<and> rune_len (take n s @ t) = n"
  by (auto simp: rune_len_def Let_def split: list.splits if_splits)

lemma rune_len_rune: "rune r \<Longrightarrow> rune_len (r @ t) = length r"
  using rune_len_take [of r "length r" t] by (simp add: rune_def)

lemma rune_bytes: "rune (c # r) \<Longrightarrow> \<not> continuation c \<and> list_all continuation r \<and> length r \<le> 3"
  by (auto simp: rune_def rune_len_def Let_def continuation_def second_ok_def split: list.splits if_splits)

lemma valid_rune_append: "rune r \<Longrightarrow> valid_utf8 (r @ t) = valid_utf8 t"
proof -
  assume r: "rune r"
  then obtain c r' where c: "r = c # r'" by (cases r) (auto simp: rune_def)
  have "rune_len (c # r' @ t) = Suc (length r')" using rune_len_rune [OF r, of t] c by simp
  then show ?thesis by (simp add: c valid_utf8.simps(2))
qed

lemma head_rune: "rune_len s \<noteq> 0 \<Longrightarrow> \<exists>r t. s = r @ t \<and> rune r \<and> r = take (rune_len s) s \<and> t = drop (rune_len s) s"
  using rune_len_take [of s "rune_len s" "[]"] by (intro exI [of _ "take (rune_len s) s"] exI [of _ "drop (rune_len s) s"])
    (auto simp: rune_def)

text \<open>Valid texts are the concatenations of encodings.\<close>

lemma valid_induct [consumes 1, case_names empty rune]:
  assumes "valid_utf8 s" and "P []" and "\<And>r t. rune r \<Longrightarrow> valid_utf8 t \<Longrightarrow> P t \<Longrightarrow> P (r @ t)"
  shows "P s"
  using assms(1)
proof (induction s rule: valid_utf8.induct)
  case (2 c s)
  then have n: "rune_len (c # s) \<noteq> 0" by (simp add: valid_utf8.simps(2))
  then obtain r t where r: "c # s = r @ t" "rune r" "t = drop (rune_len (c # s)) (c # s)" using head_rune by blast
  have "drop n (c # s) = drop (n - 1) s" if "n \<noteq> 0" for n using that by (cases n) simp_all
  then have t: "t = drop (rune_len (c # s) - 1) s" using n r(3) by metis
  have "valid_utf8 t" using "2.prems" by (simp add: valid_utf8.simps(2) t)
  then show ?case using r assms(3) "2.IH" t by metis
qed (rule assms(2))

lemma valid_append: "valid_utf8 s \<Longrightarrow> valid_utf8 t \<Longrightarrow> valid_utf8 (s @ t)"
  by (induction s rule: valid_induct) (simp_all add: valid_rune_append)

lemma to_valid_valid: "valid_utf8 (to_valid bad s)"
proof (induction bad s rule: to_valid.induct)
  case (2 bad c s)
  have "rune replacement_char" by code_simp
  then have rep: "valid_utf8 (replacement_char @ t) = valid_utf8 t" for t by (rule valid_rune_append)
  show ?case
  proof (cases "rune_len (c # s) = 0")
    case True
    then show ?thesis using "2.IH"(1) rep by (simp add: to_valid.simps(2))
  next
    case False
    then obtain r t where "c # s = r @ t" "rune r" "r = take (rune_len (c # s)) (c # s)" using head_rune by blast
    then show ?thesis using "2.IH"(2) False valid_rune_append by (simp add: to_valid.simps(2))
  qed
qed simp

lemma to_valid_id: "valid_utf8 s \<Longrightarrow> to_valid bad s = s"
proof (induction s arbitrary: bad rule: valid_induct)
  case (rune r t)
  then obtain c r' where c: "r = c # r'" by (cases r) (auto simp: rune_def)
  have "rune_len (c # r' @ t) = Suc (length r')" using rune_len_rune [OF rune(1), of t] c by simp
  then show ?case using rune(3) by (simp add: c to_valid.simps(2))
qed simp

text \<open>What follows a cut before a starting byte is valid again.\<close>

lemma valid_suffix:
  "valid_utf8 s \<Longrightarrow> s = u @ v \<Longrightarrow> v = [] \<or> rune_start (hd v) \<Longrightarrow> valid_utf8 v"
proof (induction s arbitrary: u v rule: valid_induct)
  case (rune r t)
  consider (none) "u = []" | (inner) x where "u \<noteq> []" "r = u @ x" "v = x @ t" | (after) x where "u = r @ x" "t = x @ v"
    using rune.prems(1) by (metis append_eq_append_conv2)
  then show ?case
  proof cases
    case none
    then have "v = r @ t" using rune.prems(1) by simp
    then show ?thesis using valid_rune_append [OF rune(1)] rune(2) by simp
  next
    case inner
    show ?thesis
    proof (cases x)
      case Nil
      then show ?thesis using inner rune(2) by simp
    next
      case (Cons d x')
      obtain c u' where u: "u = c # u'" using inner(1) by (cases u) auto
      have "list_all continuation (u' @ x)" using rune_bytes [of c "u' @ x"] rune(1) inner(2) u by simp
      then show ?thesis using rune.prems(2) inner(3) Cons by (simp add: rune_start_def)
    qed
  next
    case after
    then show ?thesis using rune.IH rune.prems(2) by blast
  qed
qed simp

text \<open>A cut in a valid text has at most three continuation bytes after it.\<close>

lemma valid_cut:
  "valid_utf8 s \<Longrightarrow> s = u @ v \<Longrightarrow> length (takeWhile continuation v) \<le> 3"
proof (induction s arbitrary: u v rule: valid_induct)
  case (rune r t)
  have start: "takeWhile continuation t = []" using rune(2)
  proof (induction t rule: valid_induct)
    case (rune r' t')
    then obtain c r'' where "r' = c # r''" by (cases r') (auto simp: rune_def)
    then show ?case using rune_bytes [of c r''] rune(1) by simp
  qed simp
  consider (inner) x where "r = u @ x" "v = x @ t" | (after) x where "u = r @ x" "t = x @ v"
    using rune.prems by (metis append_eq_append_conv2)
  then show ?case
  proof cases
    case inner
    have "length (takeWhile continuation (x @ t)) \<le> 3"
    proof (cases "list_all continuation x")
      case True
      obtain c r' where c: "r = c # r'" using rune(1) by (cases r) (auto simp: rune_def)
      then have b: "\<not> continuation c" "length r' \<le> 3" using rune_bytes rune(1) by blast+
      have "length x \<le> 3 \<or> x = r" using inner(1) c b by (cases u) auto
      then have "length x \<le> 3" using True b c by auto
      then show ?thesis using True start by (simp add: list_all_iff)
    next
      case False
      obtain c r' where c: "r = c # r'" using rune(1) by (cases r) (auto simp: rune_def)
      have "list_all continuation r'" using rune_bytes [of c r'] rune(1) c by simp
      then have "x = r" using inner(1) c False by (cases u) auto
      then show ?thesis using rune_bytes [of c r'] rune(1) c by simp
    qed
    then show ?thesis using inner(2) by simp
  next
    case after
    then show ?thesis using rune.IH by blast
  qed
qed simp

end
