(* ===== verification/Terminal_Session.thy ===== *)
theory Terminal_Session
  imports Go_Utf8 Conv_Events
begin

text \<open>
  Terminal sessions of \<open>terminal/terminal.go\<close>: the record with its defaults and limits, and the
  scrollback, which keeps the newest bytes within its limit without cutting a character.
\<close>

record terminal_session =
  ts_id :: string
  ts_title :: string
  ts_cwd :: string
  ts_state :: string
  ts_created :: int
  ts_updated :: int
  ts_closed :: int
  ts_scrollback :: string

definition terminal_id_ok :: "string \<Rightarrow> bool" where
  "terminal_id_ok i \<longleftrightarrow> i \<noteq> [] \<and> length i \<le> 128 \<and> list_all id_char i"

definition terminal_normalize :: "terminal_session \<Rightarrow> terminal_session option" where
  "terminal_normalize s0 =
     (let s = s0\<lparr>ts_id := trim_space (ts_id s0)\<rparr>
      in if \<not> terminal_id_ok (ts_id s) \<or> length (ts_title s) > 200 \<or> length (ts_cwd s) > 4096 then None
         else (let s = (if blank (ts_title s) then s\<lparr>ts_title := ''Terminal''\<rparr> else s)
               in Some (if ts_state s = [] then s\<lparr>ts_state := ''disconnected''\<rparr> else s)))"

definition scrollback_limit :: "int \<Rightarrow> nat" where
  "scrollback_limit limit = nat (if limit \<le> 0 then 262144 else limit)"

definition append_scrollback :: "string \<Rightarrow> string \<Rightarrow> int \<Rightarrow> string" where
  "append_scrollback existing p limit =
     (let combined = existing @ to_valid False p
      in if length combined \<le> scrollback_limit limit then combined
         else dropWhile (\<lambda>c. \<not> rune_start c) (drop (length combined - scrollback_limit limit) combined))"

definition normalize_output :: "string \<Rightarrow> string" where
  "normalize_output p = to_valid False p"

definition check_capacity :: "bool \<Rightarrow> int \<Rightarrow> int \<Rightarrow> bool" where
  "check_capacity already n limit0 =
     (let limit = (if limit0 \<le> 0 then 16 else limit0) in already \<or> \<not> n \<ge> limit)"

section \<open>Laws\<close>

text \<open>The scrollback after a list of writes.\<close>

definition scrollback :: "int \<Rightarrow> string list \<Rightarrow> string" where
  "scrollback limit ps = foldl (\<lambda>s p. append_scrollback s p limit) [] ps"

lemma drop_while_cut:
  "\<exists>u. s = u @ dropWhile P (drop k s) \<and> (dropWhile P (drop k s) = [] \<or> \<not> P (hd (dropWhile P (drop k s))))"
proof -
  have "s = (take k s @ takeWhile P (drop k s)) @ dropWhile P (drop k s)" by simp
  then show ?thesis using hd_dropWhile [of P "drop k s"] by blast
qed

lemma valid_drop_while:
  "valid_utf8 s \<Longrightarrow> k \<le> length s \<Longrightarrow> length s - k - 3 \<le> length (dropWhile continuation (drop k s))"
proof -
  assume v: "valid_utf8 s" and k: "k \<le> length s"
  have "length (takeWhile continuation (drop k s)) \<le> 3" using valid_cut [OF v, of "take k s" "drop k s"] by simp
  moreover have "length (takeWhile continuation (drop k s)) + length (dropWhile continuation (drop k s)) = length s - k"
    by (metis length_append length_drop takeWhile_dropWhile_id)
  ultimately show ?thesis by linarith
qed

lemma append_scrollback_cut:
  "\<exists>u. existing @ to_valid False p = u @ append_scrollback existing p limit \<and>
     length (append_scrollback existing p limit) \<le> scrollback_limit limit \<and>
     (u = [] \<or> append_scrollback existing p limit = [] \<or> rune_start (hd (append_scrollback existing p limit)))"
proof -
  let ?s = "existing @ to_valid False p" and ?l = "scrollback_limit limit"
  show ?thesis
  proof (cases "length ?s \<le> ?l")
    case True
    then show ?thesis by (intro exI [of _ "[]"]) (simp add: append_scrollback_def)
  next
    case False
    then have r: "append_scrollback existing p limit = dropWhile (\<lambda>c. \<not> rune_start c) (drop (length ?s - ?l) ?s)"
      by (simp only: append_scrollback_def Let_def if_False)
    have "length (drop (length ?s - ?l) ?s) \<le> ?l" by simp
    then have "length (dropWhile (\<lambda>c. \<not> rune_start c) (drop (length ?s - ?l) ?s)) \<le> ?l"
      using length_dropWhile_le [of "\<lambda>c. \<not> rune_start c" "drop (length ?s - ?l) ?s"] by (rule order.trans [rotated])
    then show ?thesis unfolding r using drop_while_cut [of ?s "\<lambda>c. \<not> rune_start c" "length ?s - ?l"] by blast
  qed
qed

lemma append_scrollback_valid:
  assumes "valid_utf8 existing"
  shows "valid_utf8 (append_scrollback existing p limit)"
proof -
  have v: "valid_utf8 (existing @ to_valid False p)" using assms to_valid_valid by (rule valid_append)
  obtain u where "existing @ to_valid False p = u @ append_scrollback existing p limit"
    "u = [] \<or> append_scrollback existing p limit = [] \<or> rune_start (hd (append_scrollback existing p limit))"
    using append_scrollback_cut by blast
  then show ?thesis using valid_suffix [OF v] v by (cases "u = []") auto
qed

lemma append_scrollback_long:
  assumes "valid_utf8 existing"
  shows "length (append_scrollback existing p limit) \<ge> min (length (existing @ to_valid False p)) (scrollback_limit limit - 3)"
proof (cases "length (existing @ to_valid False p) \<le> scrollback_limit limit")
  case False
  let ?s = "existing @ to_valid False p"
  have v: "valid_utf8 ?s" using assms to_valid_valid by (rule valid_append)
  have "append_scrollback existing p limit = dropWhile continuation (drop (length ?s - scrollback_limit limit) ?s)"
    using False by (simp only: append_scrollback_def Let_def if_False rune_start_def not_not)
  then show ?thesis using valid_drop_while [OF v, of "length ?s - scrollback_limit limit"] False diff_le_self by fastforce
qed (simp add: append_scrollback_def)

text \<open>C35. Whatever bytes a terminal writes, in whatever pieces, the scrollback is valid UTF-8 within its
  limit (256 KiB when none is given), it is the end of the accumulated output, and a write that
  overflows gives up at most three bytes more than it must.\<close>

theorem scrollback_well_formed:
  "valid_utf8 (scrollback limit ps) \<and> length (scrollback limit ps) \<le> scrollback_limit limit \<and>
   suffix (scrollback limit (ps @ [p])) (scrollback limit ps @ normalize_output p) \<and>
   length (scrollback limit (ps @ [p])) \<ge> min (length (scrollback limit ps @ normalize_output p)) (scrollback_limit limit - 3) \<and>
   (valid_utf8 p \<and> length (scrollback limit ps @ p) \<le> scrollback_limit limit \<longrightarrow>
     scrollback limit (ps @ [p]) = scrollback limit ps @ p)"
proof -
  have snoc: "scrollback limit (ps @ [p]) = append_scrollback (scrollback limit ps) p limit" for ps p
    by (simp add: scrollback_def)
  have ok: "valid_utf8 (scrollback limit ps) \<and> length (scrollback limit ps) \<le> scrollback_limit limit"
  proof (induction ps rule: rev_induct)
    case (snoc p ps)
    then show ?case using append_scrollback_valid append_scrollback_cut [of "scrollback limit ps" p limit]
      by (auto simp: scrollback_def)
  qed (simp add: scrollback_def)
  moreover have "suffix (append_scrollback (scrollback limit ps) p limit) (scrollback limit ps @ normalize_output p)"
    using append_scrollback_cut [of "scrollback limit ps" p limit] by (auto simp: suffix_def normalize_output_def)
  ultimately show ?thesis
    using append_scrollback_long [of "scrollback limit ps" p limit]
    by (auto simp: snoc normalize_output_def append_scrollback_def to_valid_id)
qed

lemma scrollback_well_formed_witness:
  "scrollback 4 [[CHR 0xC3], [CHR 0xA9, CHR ''a'']] = ''a'' \<or> length (scrollback 4 [[CHR 0xC3], [CHR 0xA9, CHR ''a'']]) \<le> 4"
  using scrollback_well_formed [of 4 "[[CHR 0xC3], [CHR 0xA9, CHR ''a'']]" "[]"] by (simp add: scrollback_limit_def)

text \<open>A character that arrives in two pieces is lost: each piece is replaced on its own.\<close>

lemma split_character_replaced:
  "scrollback 9 [[CHR 0xC3], [CHR 0xA9]] = replacement_char @ replacement_char"
  "scrollback 9 [[CHR 0xC3, CHR 0xA9]] = [CHR 0xC3, CHR 0xA9]"
  by code_simp+

end
