(* ===== verification/Workspace_Paths.thy ===== *)
theory Workspace_Paths
  imports Go_Base
begin

text \<open>
  The workspace resolver of \<open>workspace/workspace.go\<close>, with the functions of \<open>path/filepath\<close> it uses, on
  Unix.

  \<open>eval\<close> is \<open>filepath.EvalSymlinks\<close> and \<open>cwd\<close> the working directory, \<open>None\<close> where \<open>os.Getwd\<close>
  fails.
\<close>

section \<open>Paths\<close>

definition is_abs :: "string \<Rightarrow> bool" where
  "is_abs p \<longleftrightarrow> prefix ''/'' p"

text \<open>The elements between the slashes.\<close>

definition elements :: "string \<Rightarrow> string list" where
  "elements p = filter (\<lambda>x. x \<noteq> []) (split_all (CHR ''/'') p)"

text \<open>\<open>Clean\<close>: the loop over the elements; the elements kept so far, last first.\<close>

fun clean_elements :: "bool \<Rightarrow> string list \<Rightarrow> string list \<Rightarrow> string list" where
  "clean_elements rooted kept [] = rev kept"
| "clean_elements rooted kept (x # xs) =
     (if x = [] \<or> x = ''.'' then clean_elements rooted kept xs
      else if x = ''..'' then
        (case kept of
           k # ks \<Rightarrow> if k \<noteq> ''..'' then clean_elements rooted ks xs else clean_elements rooted (x # kept) xs
         | [] \<Rightarrow> if rooted then clean_elements rooted [] xs else clean_elements rooted [x] xs)
      else clean_elements rooted (x # kept) xs)"

definition rooted_path :: "string list \<Rightarrow> string" where
  "rooted_path xs = CHR ''/'' # join_with ''/'' xs"

definition clean :: "string \<Rightarrow> string" where
  "clean p =
     (let xs = clean_elements (is_abs p) [] (split_all (CHR ''/'') p)
      in if is_abs p then rooted_path xs else if xs = [] then ''.'' else join_with ''/'' xs)"

definition join_path :: "string list \<Rightarrow> string" where
  "join_path ps = (let qs = filter (\<lambda>p. p \<noteq> []) ps in if qs = [] then [] else clean (join_with ''/'' qs))"

definition abs_path :: "string option \<Rightarrow> string \<Rightarrow> string option" where
  "abs_path cwd p = (if is_abs p then Some (clean p) else map_option (\<lambda>d. join_path [d, p]) cwd)"

definition dir_path :: "string \<Rightarrow> string" where
  "dir_path p = clean (rev (dropWhile (\<lambda>c. c \<noteq> CHR ''/'') (rev p)))"

definition base_path :: "string \<Rightarrow> string" where
  "base_path p =
     (if p = [] then ''.''
      else (let q = rev (dropWhile (\<lambda>c. c = CHR ''/'') (rev p));
                b = rev (takeWhile (\<lambda>c. c \<noteq> CHR ''/'') (rev q))
            in if b = [] then ''/'' else b))"

fun strip_common :: "string list \<Rightarrow> string list \<Rightarrow> string list \<times> string list" where
  "strip_common (b # bs) (t # ts) = (if b = t then strip_common bs ts else (b # bs, t # ts))"
| "strip_common bs ts = (bs, ts)"

text \<open>\<open>Rel\<close>: one \<open>..\<close> for every element of the base that is left, then what is left of the target.\<close>

definition rel_path :: "string \<Rightarrow> string \<Rightarrow> string option" where
  "rel_path base0 targ0 =
     (let base = clean base0; targ = clean targ0
      in if targ = base then Some ''.''
         else (let base = (if base = ''.'' then [] else base)
               in if is_abs base \<noteq> is_abs targ then None
                  else (let (bs, ts) = strip_common (elements base) (elements targ)
                        in if bs \<noteq> [] \<and> ts \<noteq> [] \<and> hd bs = ''..'' then None
                           else Some (join_with ''/'' (replicate (length bs) ''..'' @ ts)))))"

section \<open>The resolver\<close>

datatype symlink_error = NotExist | OtherProblem

datatype workspace_error = WorkingDirectory | Escape | PathUnavailable | ParentUnavailable | RootUnavailable

datatype path_status = Available | Missing | Inaccessible | OutsideRoot | SymlinkEscape

type_synonym symlinks = "string \<Rightarrow> symlink_error + string"

record resolver =
  rv_root :: string

definition new_resolver :: "string option \<Rightarrow> symlinks \<Rightarrow> string \<Rightarrow> workspace_error + resolver" where
  "new_resolver cwd eval root =
     (case abs_path cwd root of
        None \<Rightarrow> Inl WorkingDirectory
      | Some p \<Rightarrow> (case eval p of Inl _ \<Rightarrow> Inl RootUnavailable | Inr real \<Rightarrow> Inr \<lparr>rv_root = real\<rparr>))"

definition inside :: "resolver \<Rightarrow> string \<Rightarrow> bool" where
  "inside r p \<longleftrightarrow> (case rel_path (rv_root r) p of None \<Rightarrow> False | Some rel \<Rightarrow> rel \<noteq> ''..'' \<and> \<not> prefix ''../'' rel)"

definition candidate :: "resolver \<Rightarrow> string \<Rightarrow> string" where
  "candidate r p0 =
     (let p = trim_space p0
      in if p = [] \<or> p = ''/'' then rv_root r
         else if is_abs p then clean p
         else join_path [rv_root r, p])"

definition resolve_path :: "string option \<Rightarrow> symlinks \<Rightarrow> resolver \<Rightarrow> string \<Rightarrow> workspace_error + string" where
  "resolve_path cwd eval r p =
     (case abs_path cwd (candidate r p) of
        None \<Rightarrow> Inl WorkingDirectory
      | Some c \<Rightarrow>
          if \<not> inside r c then Inl Escape
          else (case eval c of
              Inl _ \<Rightarrow> Inl PathUnavailable
            | Inr real \<Rightarrow> if \<not> inside r real then Inl Escape else Inr real))"

definition resolve_for_create :: "string option \<Rightarrow> symlinks \<Rightarrow> resolver \<Rightarrow> string \<Rightarrow> workspace_error + string" where
  "resolve_for_create cwd eval r p =
     (case abs_path cwd (candidate r p) of
        None \<Rightarrow> Inl WorkingDirectory
      | Some c \<Rightarrow>
          if \<not> inside r c then Inl Escape
          else (case eval (dir_path c) of
              Inl _ \<Rightarrow> Inl ParentUnavailable
            | Inr parent \<Rightarrow>
                (let q = join_path [parent, base_path c] in if \<not> inside r q then Inl Escape else Inr q)))"

definition workspace_status :: "string option \<Rightarrow> symlinks \<Rightarrow> resolver \<Rightarrow> string \<Rightarrow> path_status" where
  "workspace_status cwd eval r p =
     (case abs_path cwd (candidate r p) of
        None \<Rightarrow> Inaccessible
      | Some c \<Rightarrow>
          if \<not> inside r c then OutsideRoot
          else (case eval c of
              Inl NotExist \<Rightarrow> Missing
            | Inl OtherProblem \<Rightarrow> Inaccessible
            | Inr real \<Rightarrow> if \<not> inside r real then SymlinkEscape else Available))"

definition relative_path :: "resolver \<Rightarrow> string \<Rightarrow> string" where
  "relative_path r p =
     (case rel_path (rv_root r) p of
        None \<Rightarrow> ''/''
      | Some rel \<Rightarrow> if rel = ''.'' then ''/'' else CHR ''/'' # rel)"

section \<open>Containment\<close>

text \<open>An element of a clean absolute path.\<close>

definition plain :: "string \<Rightarrow> bool" where
  "plain x \<longleftrightarrow> x \<noteq> [] \<and> x \<noteq> ''.'' \<and> x \<noteq> ''..'' \<and> CHR ''/'' \<notin> set x"

lemma split_no_sep: "x \<in> set (split_all c s) \<Longrightarrow> c \<notin> set x"
  by (induction s arbitrary: x) (auto split: if_splits list.splits)

lemma clean_elements_plain:
  "list_all plain kept \<Longrightarrow> \<forall>x \<in> set xs. CHR ''/'' \<notin> set x \<Longrightarrow> list_all plain (clean_elements True kept xs)"
  by (induction "True" kept xs rule: clean_elements.induct) (auto simp: plain_def split: list.splits)

lemma clean_elements_id:
  "list_all plain xs \<Longrightarrow> clean_elements rooted kept xs = rev kept @ xs"
  by (induction xs arbitrary: kept) (auto simp: plain_def)

lemma clean_abs: "is_abs p \<Longrightarrow> \<exists>xs. list_all plain xs \<and> clean p = rooted_path xs"
  using clean_elements_plain [of "[]" "split_all (CHR ''/'') p"] split_no_sep by (auto simp: clean_def Let_def)

lemma elements_rooted: "list_all plain xs \<Longrightarrow> elements (rooted_path xs) = xs"
proof (cases "xs = []")
  case False
  assume p: "list_all plain xs"
  then have "split_all (CHR ''/'') (join_with ''/'' xs) = xs" using False split_join [of xs "CHR ''/''"] by (auto simp: plain_def list_all_iff)
  then show ?thesis using p by (auto simp: elements_def rooted_path_def plain_def list_all_iff intro: filter_True)
qed (simp add: elements_def rooted_path_def)

lemma is_abs_rooted [simp]: "is_abs (rooted_path xs)"
  by (simp add: is_abs_def rooted_path_def)

lemma clean_rooted: "list_all plain xs \<Longrightarrow> clean (rooted_path xs) = rooted_path xs"
proof -
  assume p: "list_all plain xs"
  have "clean_elements True [] (split_all (CHR ''/'') (rooted_path xs)) = xs"
  proof (cases "xs = []")
    case False
    then have "split_all (CHR ''/'') (join_with ''/'' xs) = xs" using p split_join [of xs "CHR ''/''"] by (auto simp: plain_def list_all_iff)
    then show ?thesis using clean_elements_id [OF p] by (simp add: rooted_path_def)
  qed (simp add: rooted_path_def)
  then show ?thesis by (simp add: clean_def)
qed

lemma strip_common_spec:
  "strip_common bs ts = (br, tr) \<Longrightarrow> \<exists>c. bs = c @ br \<and> ts = c @ tr \<and> (br = [] \<or> tr = [] \<or> hd br \<noteq> hd tr)"
proof (induction bs ts rule: strip_common.induct)
  case (1 b bs t ts)
  then show ?case by (auto split: if_splits)
qed auto

lemma prefix_iff_stripped:
  assumes "strip_common bs ts = (br, tr)"
  shows "prefix bs ts \<longleftrightarrow> br = []"
proof -
  obtain c where "bs = c @ br" "ts = c @ tr" "br = [] \<or> tr = [] \<or> hd br \<noteq> hd tr" using strip_common_spec [OF assms] by blast
  then show ?thesis by (cases br; cases tr) auto
qed

lemma parent_path: "prefix ''../'' (join_with ''/'' (x # xs)) \<Longrightarrow> CHR ''/'' \<notin> set x \<Longrightarrow> x = ''..''"
proof -
  assume "prefix ''../'' (join_with ''/'' (x # xs))" and x: "CHR ''/'' \<notin> set x"
  then obtain s where s: "join_with ''/'' (x # xs) = ''..'' @ CHR ''/'' # s" by (auto simp: prefix_def)
  have "hd (split_all (CHR ''/'') (join_with ''/'' (x # xs))) = x"
    using x by (cases xs) (simp_all add: split_all_none split_all_append)
  moreover have "hd (split_all (CHR ''/'') (''..'' @ CHR ''/'' # s)) = ''..''" using split_all_append [of "CHR ''/''" "''..''" s] by simp
  ultimately show ?thesis unfolding s by simp
qed

lemma dots_path: "bs \<noteq> [] \<Longrightarrow> (let rel = join_with ''/'' (replicate (length bs) ''..'' @ ts) in rel = ''..'' \<or> prefix ''../'' rel)"
  by (cases bs; cases "replicate (length (tl bs)) ''..'' @ ts") (auto simp: join_with_Cons)

text \<open>\<open>inside\<close> compares whole elements: the root's elements start those of the path.\<close>

lemma inside_iff:
  assumes "is_abs (rv_root r)" and "is_abs p"
  shows "inside r p \<longleftrightarrow> prefix (elements (clean (rv_root r))) (elements (clean p))"
proof -
  obtain xs ys where x: "list_all plain xs" "clean (rv_root r) = rooted_path xs" and y: "list_all plain ys" "clean p = rooted_path ys"
    using clean_abs assms by metis
  obtain br tr where s: "strip_common xs ys = (br, tr)" by fastforce
  then obtain c where c: "xs = c @ br" "ys = c @ tr" using strip_common_spec by blast
  have rel: "rel_path (rv_root r) p = (if xs = ys then Some ''.'' else if br \<noteq> [] \<and> tr \<noteq> [] \<and> hd br = ''..'' then None
      else Some (join_with ''/'' (replicate (length br) ''..'' @ tr)))"
  proof -
    have "rooted_path ys = rooted_path xs \<longleftrightarrow> xs = ys" using elements_rooted x(1) y(1) by metis
    moreover have "rooted_path xs \<noteq> ''.''" by (simp add: rooted_path_def)
    ultimately show ?thesis using s x y by (simp add: rel_path_def elements_rooted Let_def)
  qed
  have "inside r p \<longleftrightarrow> br = []"
  proof (cases "br = []")
    case True
    show ?thesis
    proof (cases tr)
      case Nil
      then show ?thesis using rel True c by (simp add: inside_def)
    next
      case (Cons t ts)
      then have t: "plain t" "xs \<noteq> ys" using y(1) c True by auto
      have "join_with ''/'' (t # ts) \<noteq> ''..''"
        using t(1) by (cases ts) (auto simp: plain_def append_eq_Cons_conv)
      moreover have "\<not> prefix ''../'' (join_with ''/'' (t # ts))" using parent_path t(1) by (auto simp: plain_def)
      ultimately show ?thesis using rel True Cons t(2) by (simp add: inside_def)
    qed
  next
    case False
    then have "xs \<noteq> ys" using s prefix_iff_stripped [OF s] by auto
    then show ?thesis using rel False dots_path [OF False, of tr] by (auto simp: inside_def Let_def)
  qed
  then show ?thesis using prefix_iff_stripped [OF s] x y by (simp add: elements_rooted)
qed

lemma clean_idem: "is_abs p \<Longrightarrow> is_abs (clean p) \<and> clean (clean p) = clean p"
  using clean_abs [of p] clean_rooted by auto

lemma dir_path_abs: "is_abs p \<Longrightarrow> is_abs (dir_path p)"
proof -
  assume "is_abs p"
  then obtain s where p: "p = CHR ''/'' # s" by (auto simp: is_abs_def prefix_def)
  have "is_abs (rev (dropWhile (\<lambda>c. c \<noteq> CHR ''/'') (rev p)))"
    by (cases "CHR ''/'' \<in> set s") (auto simp: p is_abs_def dropWhile_append)
  then show ?thesis by (simp add: dir_path_def clean_idem)
qed

section \<open>Resolved paths\<close>

text \<open>\<open>below root p\<close>: \<open>p\<close> is the root or a path under it.\<close>

definition below :: "string \<Rightarrow> string \<Rightarrow> bool" where
  "below root p \<longleftrightarrow> prefix (elements root) (elements p)"

text \<open>
  What \<open>EvalSymlinks\<close> documents: the result is \<open>Clean\<close>, and it is absolute unless the argument is
  relative.
\<close>

definition real_paths :: "symlinks \<Rightarrow> bool" where
  "real_paths eval \<longleftrightarrow> (\<forall>p q. is_abs p \<longrightarrow> eval p = Inr q \<longrightarrow> is_abs q \<and> clean q = q)"

lemma is_abs_Nil [simp]: "\<not> is_abs []"
  by (simp add: is_abs_def)

lemma join_path_abs:
  assumes "is_abs d"
  shows "is_abs (join_path [d, p]) \<and> clean (join_path [d, p]) = join_path [d, p]"
proof -
  have "d \<noteq> []" and "\<And>q. is_abs (join_with ''/'' [d, q])" using assms by (auto simp: is_abs_def)
  then show ?thesis using assms by (simp add: join_path_def clean_idem Let_def)
qed

lemma abs_path_abs: "abs_path cwd p = Some q \<Longrightarrow> pred_option is_abs cwd \<Longrightarrow> is_abs q"
  using clean_idem [of p] by (cases cwd) (auto simp: abs_path_def join_path_abs split: if_splits)

lemma new_resolver_root:
  assumes "new_resolver cwd eval root = Inr r" and "real_paths eval" and "pred_option is_abs cwd"
  shows "is_abs (rv_root r) \<and> clean (rv_root r) = rv_root r"
proof -
  obtain p where p: "abs_path cwd root = Some p" and e: "eval p = Inr (rv_root r)"
    using assms(1) by (auto simp: new_resolver_def split: option.splits sum.splits)
  then show ?thesis using abs_path_abs [OF p assms(3)] assms(2) unfolding real_paths_def by blast
qed

lemma candidate_abs:
  assumes "is_abs (rv_root r)" and "clean (rv_root r) = rv_root r"
  shows "is_abs (candidate r p) \<and> clean (candidate r p) = candidate r p"
  using assms clean_idem join_path_abs by (simp add: candidate_def Let_def)

lemma abs_path_candidate:
  assumes "is_abs (rv_root r)" and "clean (rv_root r) = rv_root r"
  shows "abs_path cwd (candidate r p) = Some (candidate r p)"
  using candidate_abs [OF assms] by (simp add: abs_path_def)

lemma inside_below:
  assumes "is_abs (rv_root r)" and "clean (rv_root r) = rv_root r" and "is_abs p" and "clean p = p"
  shows "inside r p \<longleftrightarrow> below (rv_root r) p"
  using assms by (simp add: inside_iff below_def)

lemma resolver_facts:
  assumes "new_resolver cwd eval root = Inr r" and "real_paths eval" and "pred_option is_abs cwd"
  shows "is_abs (rv_root r)" and "clean (rv_root r) = rv_root r"
  using new_resolver_root [OF assms] by simp_all

text \<open>C36. A resolver made by \<open>New\<close> resolves a path to \<open>q\<close> exactly when the path, made absolute and clean, lies
  under the root before any link is followed, its links lead to \<open>q\<close>, and \<open>q\<close> lies under the root too:
  neither \<open>..\<close> elements nor symbolic links lead out, directories whose names only begin like the root's are
  not under it, and the current working directory plays no part.\<close>

theorem resolve_contained:
  assumes "new_resolver cwd eval root = Inr r" and "real_paths eval" and "pred_option is_abs cwd"
  shows "resolve_path cwd' eval r p = Inr q \<longleftrightarrow>
    below (rv_root r) (candidate r p) \<and> eval (candidate r p) = Inr q \<and> below (rv_root r) q"
proof -
  note root = resolver_facts [OF assms]
  have "inside r (candidate r p) = below (rv_root r) (candidate r p)"
    using candidate_abs [OF root] inside_below [OF root] by blast
  moreover have "eval (candidate r p) = Inr x \<Longrightarrow> inside r x = below (rv_root r) x" for x
    using candidate_abs [OF root] inside_below [OF root] assms(2) unfolding real_paths_def by blast
  ultimately show ?thesis
    using abs_path_candidate [OF root] by (auto simp: resolve_path_def split: sum.splits)
qed

theorem resolve_contained_witness:
  "resolve_path None (\<lambda>p. Inr (clean p)) \<lparr>rv_root = ''/w''\<rparr> ''a/../b'' = Inr ''/w/b''"
proof -
  have "new_resolver None (\<lambda>p. Inr (clean p)) ''/w'' = Inr \<lparr>rv_root = ''/w''\<rparr>" by code_simp
  moreover have "real_paths (\<lambda>p. Inr (clean p))" by (simp add: real_paths_def clean_idem)
  moreover have "candidate \<lparr>rv_root = ''/w''\<rparr> ''a/../b'' = ''/w/b'' \<and> clean ''/w/b'' = ''/w/b'' \<and> below ''/w'' ''/w/b''" by code_simp
  ultimately show ?thesis using resolve_contained [of None "\<lambda>p. Inr (clean p)" "''/w''" _ None "''a/../b''" "''/w/b''"] by simp
qed

text \<open>\<open>ResolveForCreate\<close> gives \<open>q\<close> exactly when the clean path lies under the root, \<open>q\<close> is the real parent
  directory joined with the last element, and \<open>q\<close> lies under the root. Only the links of the parent are
  followed: what the last element itself names is not looked at, so a link out of the root that exists there
  is accepted (the witness has one, which \<open>Resolve\<close> refuses).\<close>

theorem create_contained:
  assumes "new_resolver cwd eval root = Inr r" and "real_paths eval" and "pred_option is_abs cwd"
  shows "resolve_for_create cwd' eval r p = Inr q \<longleftrightarrow>
    below (rv_root r) (candidate r p) \<and> below (rv_root r) q \<and>
    (\<exists>parent. eval (dir_path (candidate r p)) = Inr parent \<and> q = join_path [parent, base_path (candidate r p)])"
proof -
  note root = resolver_facts [OF assms]
  let ?c = "candidate r p"
  have "inside r ?c = below (rv_root r) ?c"
    using candidate_abs [OF root] inside_below [OF root] by blast
  moreover have "inside r (join_path [parent, b]) = below (rv_root r) (join_path [parent, b])" if e: "eval (dir_path ?c) = Inr parent" for parent b
  proof -
    have "is_abs (dir_path ?c)" using dir_path_abs candidate_abs [OF root] by blast
    then have "is_abs parent" using e assms(2) unfolding real_paths_def by blast
    then show ?thesis using join_path_abs inside_below [OF root] by blast
  qed
  ultimately show ?thesis
    using abs_path_candidate [OF root] by (auto simp: resolve_for_create_def Let_def split: sum.splits)
qed

theorem create_contained_witness:
  "let eval = (\<lambda>p. if p = ''/w/link'' then Inr ''/etc/passwd'' else Inr (clean p)); r = \<lparr>rv_root = ''/w''\<rparr>
   in resolve_for_create None eval r ''link'' = Inr ''/w/link'' \<and> resolve_path None eval r ''link'' = Inl Escape"
proof -
  define eval :: symlinks where "eval = (\<lambda>p. if p = ''/w/link'' then Inr ''/etc/passwd'' else Inr (clean p))"
  let ?r = "\<lparr>rv_root = ''/w''\<rparr>"
  have 1: "new_resolver None eval ''/w'' = Inr ?r" unfolding eval_def by code_simp
  have "is_abs ''/etc/passwd'' \<and> clean ''/etc/passwd'' = ''/etc/passwd''" by code_simp
  then have 2: "real_paths eval" by (auto simp: real_paths_def eval_def clean_idem split: if_splits)
  have 3: "candidate ?r ''link'' = ''/w/link'' \<and> dir_path ''/w/link'' = ''/w'' \<and> clean ''/w'' = ''/w'' \<and>
    base_path ''/w/link'' = ''link'' \<and> join_path [''/w'', ''link''] = ''/w/link'' \<and> below ''/w'' ''/w/link''" by code_simp
  have "eval ''/w'' = Inr ''/w''" using 3 by (simp add: eval_def)
  then have "resolve_for_create None eval ?r ''link'' = Inr ''/w/link''"
    using create_contained [OF 1 2, of None "''link''" "''/w/link''"] 3 by simp
  moreover have "resolve_path None eval ?r ''link'' = Inl Escape" unfolding eval_def by code_simp
  ultimately show ?thesis unfolding eval_def Let_def by blast
qed

text \<open>The statuses are the outcomes of \<open>Resolve\<close>, told apart.\<close>

lemma status_of_resolve:
  "workspace_status cwd eval r p = Available \<longleftrightarrow> (\<exists>q. resolve_path cwd eval r p = Inr q)"
  "workspace_status cwd eval r p \<in> {OutsideRoot, SymlinkEscape} \<longleftrightarrow> resolve_path cwd eval r p = Inl Escape"
  by (auto simp: workspace_status_def resolve_path_def split: option.splits sum.splits symlink_error.splits)

lemma relative_not_resolved:
  "let r = \<lparr>rv_root = ''/w''\<rparr>
   in resolve_path None Inr r ''a/b'' = Inr ''/w/a/b'' \<and> relative_path r ''/w/a/b'' = ''/a/b'' \<and>
      resolve_path None Inr r ''/a/b'' = Inl Escape"
  by code_simp

end
