(* ===== verification/Editor_Files.thy ===== *)
theory Editor_Files
  imports Go_Base
begin

text \<open>
  The editor primitives of \<open>editor/editor.go\<close>: search and replace, and the atomic write with its revision
  check.

  \<^item> A regular expression library is a record of the functions of \<open>regexp\<close> that the code calls, and
    \<open>lower\<close> is \<open>strings.ToLower\<close>.
  \<^item> The file system maps paths to regular files. A record \<open>faults\<close> says which of the system calls of one
    operation fail, and how far a failing write got; no other process writes in between. \<open>sha\<close> is
    \<open>sha256.Sum256\<close> and \<open>tmp\<close> the name that \<open>os.CreateTemp\<close> chose.
  \<^item> An operation that changes files returns its trace: the file system after every system call, so that a
    crash between two calls leaves one of its states.
\<close>

section \<open>Search and replace\<close>

datatype call = CallStat | CallRead | CallCreate | CallChmod | CallWrite | CallSync | CallClose | CallRename

datatype editor_error = EmptyPattern | BadPattern | BinaryFile | LimitExceeded nat | FileChanged | NoSuchFile | CallFailed call

record query =
  q_pattern :: string
  q_regex :: bool
  q_case_sensitive :: bool

record 're regexp_lib =
  rx_quote_meta :: "string \<Rightarrow> string"
  rx_compile :: "string \<Rightarrow> 're option"
  rx_find_all :: "'re \<Rightarrow> string \<Rightarrow> (nat \<times> nat) list"
  rx_replace_all :: "'re \<Rightarrow> string \<Rightarrow> string \<Rightarrow> string"

definition compile_query :: "'re regexp_lib \<Rightarrow> query \<Rightarrow> editor_error + 're" where
  "compile_query R q =
     (if q_pattern q = [] then Inl EmptyPattern
      else (let pattern = (if \<not> q_regex q then rx_quote_meta R (q_pattern q) else q_pattern q);
                pattern = (if \<not> q_case_sensitive q then ''(?i)'' @ pattern else pattern)
            in (case rx_compile R pattern of None \<Rightarrow> Inl BadPattern | Some re \<Rightarrow> Inr re)))"

definition looks_binary :: "string \<Rightarrow> bool" where
  "looks_binary b = (let b = (if length b > 8192 then take 8192 b else b) in CHR 0x00 \<in> set b)"

definition replace_content :: "'re regexp_lib \<Rightarrow> string \<Rightarrow> query \<Rightarrow> string \<Rightarrow> int \<Rightarrow> editor_error + string \<times> nat" where
  "replace_content R content q replacement limit =
     (if looks_binary content then Inl BinaryFile
      else (case compile_query R q of
          Inl e \<Rightarrow> Inl e
        | Inr re \<Rightarrow>
            (let matches = rx_find_all R re content
             in if limit > 0 \<and> int (length matches) > limit then Inl (LimitExceeded (length matches))
                else Inr (rx_replace_all R re content replacement, length matches))))"

definition literal_contains :: "(string \<Rightarrow> string) \<Rightarrow> string \<Rightarrow> string \<Rightarrow> bool \<Rightarrow> bool" where
  "literal_contains lower content needle case_sensitive =
     (let (content, needle) = (if \<not> case_sensitive then (lower content, lower needle) else (content, needle))
      in str_contains content needle)"

section \<open>Files\<close>

record stored_file =
  fl_data :: string
  fl_mode :: nat
  fl_modified :: int

type_synonym files = "string \<Rightarrow> stored_file option"

record faults =
  ft_stat :: bool
  ft_stat_again :: bool
  ft_read :: bool
  ft_create :: bool
  ft_chmod :: bool
  ft_write :: "nat option"
  ft_sync :: bool
  ft_close :: bool
  ft_rename :: bool
  ft_remove :: bool

definition no_faults :: faults where
  "no_faults = \<lparr>ft_stat = False, ft_stat_again = False, ft_read = False, ft_create = False, ft_chmod = False,
     ft_write = None, ft_sync = False, ft_close = False, ft_rename = False, ft_remove = False\<rparr>"

record revision =
  rev_size :: nat
  rev_modified :: int
  rev_sha :: string

definition file_revision :: "(string \<Rightarrow> string) \<Rightarrow> faults \<Rightarrow> files \<Rightarrow> string \<Rightarrow> editor_error + revision" where
  "file_revision sha F fs path =
     (case fs path of
        None \<Rightarrow> Inl NoSuchFile
      | Some info \<Rightarrow>
          if ft_stat_again F then Inl (CallFailed CallStat)
          else if ft_read F then Inl (CallFailed CallRead)
          else Inr \<lparr>rev_size = length (fl_data info), rev_modified = fl_modified info, rev_sha = sha (fl_data info)\<rparr>)"

text \<open>The steps on the temporary file: each is skipped once an error has occurred, but the file is closed.\<close>

definition chmod_step :: "faults \<Rightarrow> string \<Rightarrow> nat \<Rightarrow> files \<Rightarrow> files \<times> editor_error option" where
  "chmod_step F name mode fs =
     (if ft_chmod F then (fs, Some (CallFailed CallChmod))
      else (fs(name := map_option (\<lambda>f. f\<lparr>fl_mode := mode\<rparr>) (fs name)), None))"

definition write_step :: "faults \<Rightarrow> int \<Rightarrow> string \<Rightarrow> string \<Rightarrow> files \<Rightarrow> files \<times> editor_error option" where
  "write_step F now name data fs =
     (let put = (\<lambda>d. fs(name := map_option (\<lambda>f. f\<lparr>fl_data := d, fl_modified := now\<rparr>) (fs name)))
      in (case ft_write F of
          None \<Rightarrow> (put data, None)
        | Some n \<Rightarrow> (put (take n data), Some (CallFailed CallWrite))))"

definition sync_step :: "faults \<Rightarrow> files \<Rightarrow> files \<times> editor_error option" where
  "sync_step F fs = (fs, if ft_sync F then Some (CallFailed CallSync) else None)"

definition close_step :: "faults \<Rightarrow> files \<Rightarrow> files \<times> editor_error option" where
  "close_step F fs = (fs, if ft_close F then Some (CallFailed CallClose) else None)"

definition rename_step :: "faults \<Rightarrow> string \<Rightarrow> string \<Rightarrow> files \<Rightarrow> files \<times> editor_error option" where
  "rename_step F name path fs =
     (if ft_rename F then (fs, Some (CallFailed CallRename)) else ((fs(name := None))(path := fs name), None))"

text \<open>The deferred \<open>os.Remove\<close>; its error is ignored.\<close>

definition remove_step :: "faults \<Rightarrow> string \<Rightarrow> files \<Rightarrow> files" where
  "remove_step F name fs = (if ft_remove F then fs else fs(name := None))"

type_synonym outcome = "files list \<times> editor_error option"

text \<open>\<open>if e == nil { e = step() }\<close>: the states so far, last first, and the error so far.\<close>

definition unless_failed :: "(files \<Rightarrow> files \<times> editor_error option) \<Rightarrow> outcome \<Rightarrow> outcome" where
  "unless_failed f out =
     (case out of
        (fs # trace, None) \<Rightarrow> (let (fs', e) = f fs in (fs' # fs # trace, e))
      | _ \<Rightarrow> out)"

definition close_always :: "faults \<Rightarrow> outcome \<Rightarrow> outcome" where
  "close_always F out =
     (case out of
        (fs # trace, e) \<Rightarrow> (let (fs', close_err) = close_step F fs in (fs' # fs # trace, if e = None then close_err else e))
      | _ \<Rightarrow> out)"

definition finish :: "faults \<Rightarrow> string \<Rightarrow> outcome \<Rightarrow> outcome" where
  "finish F name out = (case out of (fs # trace, e) \<Rightarrow> (remove_step F name fs # fs # trace, e) | _ \<Rightarrow> out)"

text \<open>The trace is returned in the order of time, from the state before.\<close>

definition through_temp :: "faults \<Rightarrow> int \<Rightarrow> string \<Rightarrow> files \<Rightarrow> string \<Rightarrow> string \<Rightarrow> nat \<Rightarrow> outcome" where
  "through_temp F now tmp fs path data mode =
     (if ft_create F then ([fs], Some (CallFailed CallCreate))
      else (let out = ([fs(tmp \<mapsto> \<lparr>fl_data = [], fl_mode = 384, fl_modified = now\<rparr>), fs], None);
                out = unless_failed (chmod_step F tmp mode) out;
                out = unless_failed (write_step F now tmp data) out;
                out = unless_failed (sync_step F) out;
                out = close_always F out;
                out = unless_failed (rename_step F tmp path) out;
                out = finish F tmp out
            in (rev (fst out), snd out)))"

definition write_atomic_mode :: "faults \<Rightarrow> int \<Rightarrow> string \<Rightarrow> files \<Rightarrow> string \<Rightarrow> string \<Rightarrow> nat \<Rightarrow> outcome" where
  "write_atomic_mode F now tmp fs path data mode = through_temp F now tmp fs path data (mode mod 512)"

definition write_atomic ::
  "(string \<Rightarrow> string) \<Rightarrow> faults \<Rightarrow> int \<Rightarrow> string \<Rightarrow> files \<Rightarrow> string \<Rightarrow> string \<Rightarrow> revision option \<Rightarrow> outcome" where
  "write_atomic sha F now tmp fs path data expected =
     (if ft_stat F then ([fs], Some (CallFailed CallStat))
      else (case fs path of
          None \<Rightarrow> through_temp F now tmp fs path data 416
        | Some info \<Rightarrow>
            (let mode = fl_mode info mod 512
             in (case expected of
                  None \<Rightarrow> through_temp F now tmp fs path data mode
                | Some want \<Rightarrow>
                    (case file_revision sha F fs path of
                       Inl e \<Rightarrow> ([fs], Some e)
                     | Inr current \<Rightarrow>
                         if want \<noteq> current then ([fs], Some FileChanged)
                         else through_temp F now tmp fs path data mode)))))"

section \<open>All or nothing\<close>

text \<open>\<open>same_but n\<close>: two file systems agree except for the file \<open>n\<close>.\<close>

definition same_but :: "string \<Rightarrow> files \<Rightarrow> files \<Rightarrow> bool" where
  "same_but n s t \<longleftrightarrow> (\<forall>p. p \<noteq> n \<longrightarrow> s p = t p)"

lemmas step_defs = chmod_step_def write_step_def sync_step_def close_step_def rename_step_def remove_step_def
  unless_failed_def close_always_def finish_def

text \<open>
  The write to a temporary file: every state of the trace is the old file system but for the temporary
  file, or the new one; an error leaves the old, success the new without the temporary file.
\<close>

lemma through_temp_outcome:
  assumes "through_temp F now tmp fs path data mode = (trace, err)" and "fs tmp = None" and "tmp \<noteq> path"
  shows "if err = None then last trace = fs(path \<mapsto> \<lparr>fl_data = data, fl_mode = mode, fl_modified = now\<rparr>)
         else \<not> ft_remove F \<longrightarrow> last trace = fs"
    and "s \<in> set trace \<Longrightarrow> same_but tmp s fs \<or> err = None \<and> s = fs(path \<mapsto> \<lparr>fl_data = data, fl_mode = mode, fl_modified = now\<rparr>)"
  using assms
  by (auto simp: through_temp_def step_defs same_but_def fun_eq_iff Let_def split: if_splits option.splits)

lemma write_atomic_cases:
  assumes "write_atomic sha F now tmp fs path data expected = (trace, err)"
  obtains (untouched) e where "trace = [fs]" "err = Some e"
  | (written) "through_temp F now tmp fs path data (case fs path of None \<Rightarrow> 416 | Some info \<Rightarrow> fl_mode info mod 512) = (trace, err)"
  using assms by (auto simp: write_atomic_def Let_def split: if_splits option.splits sum.splits)

text \<open>The file that a successful write leaves: its data, with the mode of the old file or 0640.\<close>

definition written_file :: "files \<Rightarrow> string \<Rightarrow> string \<Rightarrow> int \<Rightarrow> stored_file" where
  "written_file fs path data now =
     \<lparr>fl_data = data, fl_mode = (case fs path of None \<Rightarrow> 416 | Some info \<Rightarrow> fl_mode info mod 512), fl_modified = now\<rparr>"

text \<open>C37. \<open>WriteAtomic\<close> is all or nothing, whichever system calls fail: a crash between two of them finds every
  file but the temporary one as it was, or the whole new file at its path; success leaves exactly the data
  with the old permissions (0640 for a new file) and no temporary file, and an error leaves every file as it
  was once the temporary one could be removed.\<close>

theorem write_atomic_all_or_nothing:
  assumes "write_atomic sha F now tmp fs path data expected = (trace, err)" and "fs tmp = None" and "tmp \<noteq> path"
  shows "(\<forall>s \<in> set trace. same_but tmp s fs \<or> err = None \<and> s = fs(path \<mapsto> written_file fs path data now)) \<and>
    (if err = None then last trace = fs(path \<mapsto> written_file fs path data now) else ft_remove F \<or> last trace = fs)"
  using assms(1)
proof (cases rule: write_atomic_cases)
  case untouched
  then show ?thesis by (simp add: same_but_def)
next
  case written
  from through_temp_outcome [OF written assms(2,3)] show ?thesis by (auto simp: written_file_def)
qed

theorem write_atomic_all_or_nothing_witness:
  "let fs = [''/w/x'' \<mapsto> \<lparr>fl_data = ''old'', fl_mode = 384, fl_modified = 1\<rparr>];
       (trace, err) = write_atomic (\<lambda>d. d) (no_faults\<lparr>ft_write := Some 1\<rparr>) 2 ''/w/t'' fs ''/w/x'' ''new'' None
   in err = Some (CallFailed CallWrite) \<and> last trace = fs \<and> same_but ''/w/t'' (trace ! 3) fs"
proof -
  define fs :: files where "fs = [''/w/x'' \<mapsto> \<lparr>fl_data = ''old'', fl_mode = 384, fl_modified = 1\<rparr>]"
  let ?F = "no_faults\<lparr>ft_write := Some 1\<rparr>"
  obtain trace err where w: "write_atomic (\<lambda>d. d) ?F 2 ''/w/t'' fs ''/w/x'' ''new'' None = (trace, err)" by fastforce
  then have e: "err = Some (CallFailed CallWrite)" "length trace = 6"
    by (auto simp: write_atomic_def through_temp_def step_defs no_faults_def fs_def Let_def)
  have "fs ''/w/t'' = None" by (simp add: fs_def)
  from write_atomic_all_or_nothing [OF w this] e have "last trace = fs" "same_but ''/w/t'' (trace ! 3) fs"
    by (auto simp: no_faults_def)
  then show ?thesis using w e unfolding fs_def by (simp add: Let_def)
qed

text \<open>Without failing calls, \<open>WriteAtomic\<close> accepts a write exactly when the file does not exist, no
  revision was expected, or the expected revision is that of the file: its size, its time of modification and
  its digest. A file that has vanished is written again although a revision was expected.\<close>

theorem write_atomic_accepts_iff:
  "snd (write_atomic sha no_faults now tmp fs path data expected) = None \<longleftrightarrow>
    (case fs path of
       None \<Rightarrow> True
     | Some info \<Rightarrow> expected \<in> {None, Some \<lparr>rev_size = length (fl_data info), rev_modified = fl_modified info, rev_sha = sha (fl_data info)\<rparr>})"
proof -
  have "snd (through_temp no_faults now tmp fs path data mode) = None" for mode
    by (simp add: through_temp_def step_defs no_faults_def)
  then show ?thesis by (auto simp: write_atomic_def file_revision_def no_faults_def Let_def split: option.splits)
qed

text \<open>A replacement answers only for text, and never replaces more matches than a positive limit allows.\<close>

lemma replace_content_ok:
  "replace_content R content q replacement limit = Inr (out, n) \<longleftrightarrow>
    \<not> looks_binary content \<and> (limit > 0 \<longrightarrow> int n \<le> limit) \<and>
    (\<exists>re. compile_query R q = Inr re \<and> n = length (rx_find_all R re content) \<and> out = rx_replace_all R re content replacement)"
  by (auto simp: replace_content_def Let_def split: sum.splits if_splits)

lemma looks_binary_prefix: "looks_binary b \<longleftrightarrow> CHR 0x00 \<in> set (take 8192 b)"
  by (simp add: looks_binary_def Let_def)

lemma literal_contains_exact: "literal_contains lower content needle True \<longleftrightarrow> (\<exists>u v. content = u @ needle @ v)"
  by (simp add: literal_contains_def str_contains_iff)

end
