(* ===== verification/Launcher_Catalogue.thy ===== *)
theory Launcher_Catalogue
  imports Auth_Password
begin

text \<open>
  The instance catalogue of \<open>launcher/launcher.go\<close>: the normalization of an uploaded document, the
  application URL of an instance and the view of a catalogue, and the fields of the access error page.

  The parser and the printer of \<open>net/url\<close> and \<open>net.ParseIP\<close> are the fields of \<open>url_lib\<close>. Random bytes
  are a list, twelve for every identifier drawn; \<open>None\<close> is the outcome of a normalization that has drawn
  the whole list. The HTML of the error page is not modelled.
\<close>

section \<open>The access error page\<close>

record access_page =
  ap_status :: int
  ap_product :: string
  ap_mark :: string
  ap_accent :: string
  ap_heading :: string
  ap_message :: string
  ap_action_label :: string
  ap_action_url :: string

definition hex_letter :: "char \<Rightarrow> bool" where
  "hex_letter c \<longleftrightarrow> digit_char c \<or> byte_range 97 102 c \<or> byte_range 65 70 c"

definition accent_pattern :: "string \<Rightarrow> bool" where
  "accent_pattern s \<longleftrightarrow> (case s of [] \<Rightarrow> False | c # r \<Rightarrow> c = CHR ''#'' \<and> length r = 6 \<and> list_all hex_letter r)"

definition write_access_error :: "int \<Rightarrow> string \<Rightarrow> string \<Rightarrow> string \<Rightarrow> access_page" where
  "write_access_error status product mark accent =
     (let (heading, message, label, status) =
            (if status = 401 then
               (''Authentication required'', ''Sign in with an account that can configure this launcher, then try again.'', ''Sign in'', status)
             else
               (''Permission denied'', ''Your account does not have permission to configure this launcher.'', ''Open application'', 403))
      in \<lparr>ap_status = status, ap_product = product, ap_mark = mark,
          ap_accent = (if \<not> accent_pattern accent then ''#7fc89b'' else accent), ap_heading = heading, ap_message = message,
          ap_action_label = label, ap_action_url = ''/app/?return=%2F%3Fconfig''\<rparr>)"

section \<open>The catalogue\<close>

definition catalogue_version :: int where "catalogue_version = 1"

record entry =
  en_id :: string
  en_name :: string
  en_domain :: string
  en_port :: "int option"

record entry_view =
  ev_id :: string
  ev_name :: string
  ev_domain :: string
  ev_port :: "int option"
  ev_app_url :: string

text \<open>\<open>None\<close> is the nil slice, an absent array.\<close>

record catalogue =
  ct_doc_version :: int
  ct_product :: string
  ct_instances :: "entry list option"

record view =
  vw_version :: int
  vw_product :: string
  vw_instances :: "entry_view list"

datatype launcher_error =
    CatalogueVersion
  | OtherProduct
  | InstancesMissing
  | TooManyInstances
  | InstanceName
  | InstanceDomain
  | InstanceURL
  | InstancePort
  | BadAppURL

record app_url =
  lu_scheme :: string
  lu_host :: string
  lu_user :: bool
  lu_path :: string
  lu_raw_path :: string
  lu_query :: string
  lu_fragment :: string

record url_lib =
  ul_parse :: "string \<Rightarrow> app_url option"
  ul_string :: "app_url \<Rightarrow> string"
  ul_is_ip :: "string \<Rightarrow> bool"

text \<open>\<open>Hostname\<close>: the host without a port and without the brackets of an IPv6 address.\<close>

definition optional_port :: "string \<Rightarrow> bool" where
  "optional_port p \<longleftrightarrow> (case p of [] \<Rightarrow> True | c # r \<Rightarrow> c = CHR '':'' \<and> list_all digit_char r)"

definition strip_port :: "string \<Rightarrow> string" where
  "strip_port host =
     (let tail = takeWhile (\<lambda>c. c \<noteq> CHR '':'') (rev host)
      in if CHR '':'' \<in> set host \<and> optional_port (CHR '':'' # rev tail) then take (length host - length tail - 1) host else host)"

definition hostname :: "app_url \<Rightarrow> string" where
  "hostname u =
     (let h = strip_port (lu_host u)
      in if prefix ''['' h \<and> suffix '']'' h then butlast (tl h) else h)"

definition join_host_port :: "string \<Rightarrow> string \<Rightarrow> string" where
  "join_host_port host port =
     (if CHR '':'' \<in> set host then CHR ''['' # host @ '']:'' @ port else host @ CHR '':'' # port)"

definition trim_suffix :: "string \<Rightarrow> string \<Rightarrow> string" where
  "trim_suffix s t = (if suffix t s then take (length s - length t) s else s)"

definition normalize_domain :: "url_lib \<Rightarrow> string \<Rightarrow> launcher_error + string" where
  "normalize_domain U raw0 =
     (let raw = trim_space raw0
      in if raw = [] \<or> length raw > 512 \<or> list_ex (\<lambda>c. (of_char c :: nat) \<le> 32) raw then Inl InstanceDomain
         else (let probe = (if \<not> str_contains raw ''://'' then ''https://'' @ raw else raw)
               in (case ul_parse U probe of
                   None \<Rightarrow> Inl InstanceURL
                 | Some u \<Rightarrow>
                     if hostname u = [] \<or> (lu_scheme u \<noteq> ''http'' \<and> lu_scheme u \<noteq> ''https'') \<or> lu_user u \<or> lu_query u \<noteq> [] \<or>
                        lu_fragment u \<noteq> [] \<or> (lu_path u \<noteq> [] \<and> lu_path u \<noteq> ''/'')
                     then Inl InstanceURL
                     else Inr (trim_suffix raw ''/''))))"

definition id_char :: "char \<Rightarrow> bool" where
  "id_char c \<longleftrightarrow> lower_letter c \<or> upper_letter c \<or> digit_char c \<or> c \<in> set ''._-''"

definition instance_id_pattern :: "string \<Rightarrow> bool" where
  "instance_id_pattern s \<longleftrightarrow> s \<noteq> [] \<and> length s \<le> 128 \<and> list_all id_char s"

fun draw_id :: "string set \<Rightarrow> string list \<Rightarrow> (string \<times> string list) option" where
  "draw_id seen [] = None"
| "draw_id seen (b # bs) =
     (let i = new_id ''instance'' b in if i \<in> seen then draw_id seen bs else Some (i, bs))"

definition draw_for :: "string list \<Rightarrow> string set \<Rightarrow> string \<Rightarrow> (string \<times> string list) option" where
  "draw_for rnd seen i = (if \<not> instance_id_pattern i \<or> i \<in> seen then draw_id seen rnd else Some (i, rnd))"

fun normalize_entries :: "url_lib \<Rightarrow> string list \<Rightarrow> string set \<Rightarrow> entry list \<Rightarrow> (launcher_error + entry list) option" where
  "normalize_entries U rnd seen [] = Some (Inr [])"
| "normalize_entries U rnd seen (item # items) =
     (let name = trim_space (en_name item)
      in if name = [] \<or> length name > 100 then Some (Inl InstanceName)
         else (case normalize_domain U (en_domain item) of
             Inl e \<Rightarrow> Some (Inl e)
           | Inr domain \<Rightarrow>
               if (case en_port item of None \<Rightarrow> False | Some p \<Rightarrow> p < 1 \<or> p > 65535) then Some (Inl InstancePort)
               else (let i = trim_space (en_id item)
                     in (case draw_for rnd seen i of
                         None \<Rightarrow> None
                       | Some (i, rnd') \<Rightarrow>
                           (case normalize_entries U rnd' (insert i seen) items of
                              None \<Rightarrow> None
                            | Some (Inl e) \<Rightarrow> Some (Inl e)
                            | Some (Inr out) \<Rightarrow>
                                Some (Inr (item\<lparr>en_id := i, en_name := name, en_domain := domain\<rparr> # out)))))))"

definition normalize_catalogue :: "url_lib \<Rightarrow> string list \<Rightarrow> string \<Rightarrow> catalogue \<Rightarrow> (launcher_error + entry list) option" where
  "normalize_catalogue U rnd product doc =
     (if ct_doc_version doc \<noteq> catalogue_version then Some (Inl CatalogueVersion)
      else if ct_product doc \<noteq> [] \<and> ct_product doc \<noteq> product then Some (Inl OtherProduct)
      else (case ct_instances doc of
          None \<Rightarrow> Some (Inl InstancesMissing)
        | Some items \<Rightarrow>
            if length items > 1000 then Some (Inl TooManyInstances) else normalize_entries U rnd {} items))"

section \<open>The view\<close>

definition instance_url :: "url_lib \<Rightarrow> entry \<Rightarrow> launcher_error + string" where
  "instance_url U item =
     (case (if \<not> str_contains (en_domain item) ''://'' then
              (case ul_parse U (''https://'' @ en_domain item) of
                 None \<Rightarrow> None
               | Some probe \<Rightarrow>
                   (let host = hostname probe;
                        scheme = (if host = ''localhost'' \<or> suffix ''.localhost'' host \<or> ul_is_ip U host then ''http'' else ''https'')
                    in Some (scheme @ ''://'' @ en_domain item)))
            else Some (en_domain item)) of
        None \<Rightarrow> Inl BadAppURL
      | Some raw \<Rightarrow>
          (case ul_parse U raw of
             None \<Rightarrow> Inl BadAppURL
           | Some u \<Rightarrow>
               (let u = (case en_port item of None \<Rightarrow> u | Some p \<Rightarrow> u\<lparr>lu_host := join_host_port (hostname u) (itoa p)\<rparr>)
                in Inr (ul_string U (u\<lparr>lu_path := ''/app/'', lu_raw_path := [], lu_query := [], lu_fragment := []\<rparr>)))))"

fun view_entries :: "url_lib \<Rightarrow> entry list \<Rightarrow> launcher_error + entry_view list" where
  "view_entries U [] = Inr []"
| "view_entries U (item # items) =
     (case instance_url U item of
        Inl e \<Rightarrow> Inl e
      | Inr url \<Rightarrow>
          (case view_entries U items of
             Inl e \<Rightarrow> Inl e
           | Inr vs \<Rightarrow> Inr (\<lparr>ev_id = en_id item, ev_name = en_name item, ev_domain = en_domain item,
                            ev_port = en_port item, ev_app_url = url\<rparr> # vs)))"

definition make_view :: "url_lib \<Rightarrow> string \<Rightarrow> entry list \<Rightarrow> launcher_error + view" where
  "make_view U product items =
     (case view_entries U items of
        Inl e \<Rightarrow> Inl e
      | Inr vs \<Rightarrow> Inr \<lparr>vw_version = catalogue_version, vw_product = product, vw_instances = vs\<rparr>)"

section \<open>Identifiers\<close>

lemma length_sextets_le: "length (sextets xs) \<le> 2 * length xs"
  by (induction xs rule: sextets.induct) simp_all

lemma new_id_pattern:
  assumes "length b = 12"
  shows "instance_id_pattern (new_id ''instance'' b)"
proof -
  have "length (token b) \<le> 24"
    using length_sextets_le [of "map of_char b"] assms by (simp add: token_def base64_encode_def)
  moreover have "list_all id_char base64_url" by code_simp
  then have "list_all id_char (token b)"
    using base64_alphabet [OF base64_url_ok(2), of b] by (auto simp: token_def list_all_iff)
  moreover have "list_all id_char ''instance_''" by code_simp
  ultimately show ?thesis by (simp add: instance_id_pattern_def new_id_def)
qed

lemma new_id_inject: "new_id p b = new_id p c \<longleftrightarrow> b = c"
  by (auto simp: new_id_def token_def) (metis base64_url_round_trip option.inject)

lemma draw_id_fresh: "draw_id seen rnd = Some (i, rnd') \<Longrightarrow> i \<notin> seen \<and> (\<exists>b \<in> set rnd. i = new_id ''instance'' b) \<and> set rnd' \<subseteq> set rnd"
  by (induction rnd) (auto simp: Let_def split: if_splits)

text \<open>The identifiers of the list that have not been seen.\<close>

definition unseen :: "string set \<Rightarrow> string list \<Rightarrow> nat" where
  "unseen seen rnd = length (filter (\<lambda>b. new_id ''instance'' b \<notin> seen) rnd)"

lemma draw_id_unseen:
  assumes "0 < unseen seen rnd" and "distinct rnd"
  shows "\<exists>i rnd'. draw_id seen rnd = Some (i, rnd') \<and> distinct rnd' \<and> unseen seen rnd \<le> Suc (unseen (insert i seen) rnd')"
  using assms
proof (induction rnd)
  case (Cons b bs)
  show ?case
  proof (cases "new_id ''instance'' b \<in> seen")
    case True
    then show ?thesis using Cons by (simp add: unseen_def Let_def)
  next
    case False
    have "filter (\<lambda>c. new_id ''instance'' c \<noteq> new_id ''instance'' b \<and> new_id ''instance'' c \<notin> seen) bs =
        filter (\<lambda>c. new_id ''instance'' c \<notin> seen) bs"
      using Cons.prems by (intro filter_cong) (auto simp: new_id_inject)
    then show ?thesis using False Cons.prems by (simp add: unseen_def Let_def)
  qed
qed (simp add: unseen_def)

lemma unseen_insert: "distinct rnd \<Longrightarrow> unseen seen rnd \<le> Suc (unseen (insert i seen) rnd)"
proof (induction rnd)
  case (Cons b bs)
  have "unseen seen bs = unseen (insert (new_id ''instance'' b) seen) bs"
    using Cons.prems unfolding unseen_def by (intro arg_cong [where f = length] filter_cong) (auto simp: new_id_inject)
  then show ?case using Cons by (auto simp: unseen_def)
qed (simp add: unseen_def)

lemma normalize_entries_total:
  "length items \<le> unseen seen rnd \<Longrightarrow> distinct rnd \<Longrightarrow> normalize_entries U rnd seen items \<noteq> None"
proof (induction items arbitrary: rnd seen)
  case (Cons item items)
  let ?i = "trim_space (en_id item)"
  obtain i rnd' where d: "draw_for rnd seen ?i = Some (i, rnd')"
      and rest: "length items \<le> unseen (insert i seen) rnd'" "distinct rnd'"
  proof (cases "\<not> instance_id_pattern ?i \<or> ?i \<in> seen")
    case True
    then show ?thesis using draw_id_unseen [of seen rnd] Cons.prems that by (fastforce simp: draw_for_def)
  next
    case False
    then show ?thesis using unseen_insert [of rnd seen ?i] Cons.prems that [of ?i rnd] by (auto simp: draw_for_def)
  qed
  then show ?case using Cons.IH [OF rest] d by (auto simp: Let_def split: sum.splits option.splits)
qed simp

section \<open>The normal form\<close>

text \<open>An entry of a normalized catalogue.\<close>

definition entry_ok :: "entry \<Rightarrow> bool" where
  "entry_ok e \<longleftrightarrow> instance_id_pattern (en_id e) \<and> en_name e \<noteq> [] \<and> trim_space (en_name e) = en_name e \<and>
     length (en_name e) \<le> 100 \<and> length (en_domain e) \<le> 512 \<and>
     pred_option (\<lambda>p. 1 \<le> p \<and> p \<le> 65535) (en_port e)"

text \<open>An entry answers its item: the trimmed name, the domain without its last slash, the same port.\<close>

definition answers :: "url_lib \<Rightarrow> entry \<Rightarrow> entry \<Rightarrow> bool" where
  "answers U item e \<longleftrightarrow> en_name e = trim_space (en_name item) \<and> normalize_domain U (en_domain item) = Inr (en_domain e) \<and> en_port e = en_port item"

lemma normalize_domain_length: "normalize_domain U raw = Inr d \<Longrightarrow> length d \<le> 512"
  by (auto simp: normalize_domain_def trim_suffix_def Let_def split: if_splits option.splits)

lemma normalize_entries_Cons:
  assumes "normalize_entries U rnd seen (item # items) = Some (Inr out)"
  shows "\<exists>i rnd' d es. out = item\<lparr>en_id := i, en_name := trim_space (en_name item), en_domain := d\<rparr> # es \<and>
    normalize_entries U rnd' (insert i seen) items = Some (Inr es) \<and>
    draw_for rnd seen (trim_space (en_id item)) = Some (i, rnd') \<and> normalize_domain U (en_domain item) = Inr d \<and>
    trim_space (en_name item) \<noteq> [] \<and> length (trim_space (en_name item)) \<le> 100 \<and> pred_option (\<lambda>p. 1 \<le> p \<and> p \<le> 65535) (en_port item)"
  using assms
  by (auto simp: Let_def not_less split: sum.splits option.splits if_splits)

lemma normalize_entries_ok:
  assumes "normalize_entries U rnd seen items = Some (Inr out)" and "\<forall>b \<in> set rnd. length b = 12"
  shows "list_all2 (answers U) items out \<and> list_all entry_ok out \<and> distinct (map en_id out) \<and> en_id ` set out \<inter> seen = {}"
  using assms
proof (induction items arbitrary: rnd seen out)
  case (Cons item items)
  from normalize_entries_Cons [OF Cons.prems(1)] obtain i rnd' d es where
    out: "out = item\<lparr>en_id := i, en_name := trim_space (en_name item), en_domain := d\<rparr> # es"
      "normalize_entries U rnd' (insert i seen) items = Some (Inr es)"
    and i: "draw_for rnd seen (trim_space (en_id item)) = Some (i, rnd')"
    and e: "normalize_domain U (en_domain item) = Inr d" "trim_space (en_name item) \<noteq> []" "length (trim_space (en_name item)) \<le> 100"
      "pred_option (\<lambda>p. 1 \<le> p \<and> p \<le> 65535) (en_port item)"
    by blast
  have "i \<notin> seen \<and> instance_id_pattern i \<and> set rnd' \<subseteq> set rnd"
    using i draw_id_fresh [of seen rnd i rnd'] new_id_pattern Cons.prems(2) by (auto simp: draw_for_def split: if_splits)
  moreover from this have "list_all2 (answers U) items es \<and> list_all entry_ok es \<and> distinct (map en_id es) \<and> en_id ` set es \<inter> insert i seen = {}"
    using Cons.IH [OF out(2)] Cons.prems(2) by blast
  moreover have "entry_ok (item\<lparr>en_id := i, en_name := trim_space (en_name item), en_domain := d\<rparr>) \<longleftrightarrow> instance_id_pattern i"
    "answers U item (item\<lparr>en_id := i, en_name := trim_space (en_name item), en_domain := d\<rparr>)"
    using normalize_domain_length [OF e(1)] e by (simp_all add: entry_ok_def answers_def)
  ultimately show ?case unfolding out(1) by auto
qed simp

lemma normalize_entries_keeps:
  assumes "normalize_entries U rnd seen items = Some (Inr out)" and "n < length items"
    and "instance_id_pattern (trim_space (en_id (items ! n)))"
    and "trim_space (en_id (items ! n)) \<notin> seen \<union> en_id ` set (take n out)"
  shows "en_id (out ! n) = trim_space (en_id (items ! n))"
  using assms
proof (induction items arbitrary: rnd seen out n)
  case (Cons item items)
  from normalize_entries_Cons [OF Cons.prems(1)] obtain i rnd' d es where
    out: "out = item\<lparr>en_id := i, en_name := trim_space (en_name item), en_domain := d\<rparr> # es"
      "normalize_entries U rnd' (insert i seen) items = Some (Inr es)"
    and i: "draw_for rnd seen (trim_space (en_id item)) = Some (i, rnd')"
    by blast
  show ?case
  proof (cases n)
    case 0
    then show ?thesis using Cons.prems(3,4) i unfolding out(1) by (auto simp: draw_for_def)
  next
    case (Suc m)
    then show ?thesis using Cons.IH [OF out(2), of m] Cons.prems(2-4) unfolding out(1) by simp
  qed
qed simp

section \<open>Correctness\<close>

definition sample_urls :: url_lib where
  "sample_urls = \<lparr>ul_parse = (\<lambda>s. Some \<lparr>lu_scheme = ''https'', lu_host = ''h'', lu_user = False, lu_path = [], lu_raw_path = [],
     lu_query = [], lu_fragment = []\<rparr>), ul_string = lu_host, ul_is_ip = (\<lambda>h. False)\<rparr>"

definition sample_catalogue :: catalogue where
  "sample_catalogue = \<lparr>ct_doc_version = 1, ct_product = [],
     ct_instances = Some [\<lparr>en_id = ''one'', en_name = ''a '', en_domain = ''h/'', en_port = Some 80\<rparr>,
       \<lparr>en_id = ''one'', en_name = ''b'', en_domain = ''h'', en_port = None\<rparr>]\<rparr>"

text \<open>A document that \<open>Normalize\<close> accepts becomes a catalogue of at most 1000 entries with distinct identifiers
  of the pattern, names of 1 to 100 bytes without white space around them, domains of at most 512 bytes and
  valid ports. Every entry answers the item in its place, and keeps the item's identifier when that is valid
  and not yet taken.\<close>

theorem normalize_catalogue_normal_form:
  assumes "normalize_catalogue U rnd product doc = Some (Inr out)" and "\<forall>b \<in> set rnd. length b = 12"
  shows "\<exists>items. ct_instances doc = Some items \<and> length out \<le> 1000 \<and> list_all2 (answers U) items out \<and> list_all entry_ok out \<and>
    distinct (map en_id out) \<and>
    (\<forall>n < length items. instance_id_pattern (trim_space (en_id (items ! n))) \<and> trim_space (en_id (items ! n)) \<notin> en_id ` set (take n out)
       \<longrightarrow> en_id (out ! n) = trim_space (en_id (items ! n)))"
proof -
  from assms(1) obtain items where items: "ct_instances doc = Some items" "length items \<le> 1000" "normalize_entries U rnd {} items = Some (Inr out)"
    by (auto simp: normalize_catalogue_def split: if_splits option.splits)
  show ?thesis
    using items normalize_entries_ok [OF items(3) assms(2)] normalize_entries_keeps [OF items(3)]
    by (auto dest: list_all2_lengthD)
qed

theorem normalize_catalogue_normal_form_witness:
  "\<exists>out. normalize_catalogue sample_urls [replicate 12 (CHR ''a'')] ''cortex'' sample_catalogue = Some (Inr out) \<and>
    length out = 2 \<and> distinct (map en_id out) \<and> en_id (out ! 0) = ''one'' \<and> list_all entry_ok out"
proof -
  obtain out where out: "normalize_catalogue sample_urls [replicate 12 (CHR ''a'')] ''cortex'' sample_catalogue = Some (Inr out)" 
    and l: "length out = 2" "en_id (out ! 0) = ''one''"
  proof -
    have "(case normalize_catalogue sample_urls [replicate 12 (CHR ''a'')] ''cortex'' sample_catalogue of
        Some (Inr out) \<Rightarrow> length out = 2 \<and> en_id (out ! 0) = ''one'' | _ \<Rightarrow> False)" by code_simp
    then show ?thesis using that by (auto split: option.splits sum.splits)
  qed
  with normalize_catalogue_normal_form [OF out] show ?thesis by auto
qed

text \<open>Drawing identifiers ends: distinct random values, one for each item, are enough for \<open>Normalize\<close> to
  return, whatever identifiers the document has.\<close>

theorem normalize_catalogue_returns:
  assumes "distinct rnd" and "pred_option (\<lambda>items. length items \<le> length rnd) (ct_instances doc)"
  shows "normalize_catalogue U rnd product doc \<noteq> None"
  using assms normalize_entries_total [of _ "{}" rnd]
  by (auto simp: normalize_catalogue_def unseen_def split: option.splits)

theorem normalize_catalogue_returns_witness:
  "normalize_catalogue sample_urls [''r'', ''s''] ''cortex'' sample_catalogue \<noteq> None"
  by (rule normalize_catalogue_returns) (simp_all add: sample_catalogue_def)

text \<open>The view has the entries in their order, and needs the URL of every one.\<close>

lemma view_entries_all:
  "view_entries U items = Inr vs \<Longrightarrow>
    list_all2 (\<lambda>e v. instance_url U e = Inr (ev_app_url v) \<and> ev_id v = en_id e \<and> ev_name v = en_name e \<and>
      ev_domain v = en_domain e \<and> ev_port v = en_port e) items vs"
  by (induction items arbitrary: vs) (auto split: sum.splits)

lemma accent_safe: "accent_pattern (ap_accent (write_access_error status product mark accent))"
proof -
  have "accent_pattern ''#7fc89b''" by code_simp
  then show ?thesis by (simp add: write_access_error_def)
qed

end
