(* ===== verification/Api_Client.thy ===== *)
theory Api_Client
  imports Protocol_Wire Auth_Execution
begin

text \<open>
  The client of \<open>client/client.go\<close>: the endpoint of a contract, one exchange and the retries around it, the
  token files, and the local executor.

  What happens outside is an environment over a world \<open>'w\<close>: the HTTP transport, the token source and the
  pause before a retry. The parser of URLs, the JSON functions and the environment are parameters; the client
  keeps a log of the requests it hands to the transport.
\<close>

section \<open>Errors and status codes\<close>

datatype client_error =
    TransportError string
  | PeerError go_error
  | ContractRefused contract_error
  | ExecutionRefused execution_error
  | Cancelled

definition retryable :: "client_error \<Rightarrow> bool" where
  "retryable err =
     (case err of
        TransportError _ \<Rightarrow> True
      | PeerError e \<Rightarrow> (case errors_as e of Some a \<Rightarrow> ae_code a = CodeUnavailable | None \<Rightarrow> False)
      | _ \<Rightarrow> False)"

definition code_for_status :: "int \<Rightarrow> error_code" where
  "code_for_status status =
     (if status \<in> set [400, 405, 413, 415, 422] then CodeInvalid
      else if status = 401 then CodeUnauthorized
      else if status = 403 then CodeForbidden
      else if status = 404 then CodeNotFound
      else if status = 409 then CodeConflict
      else if status \<in> set [502, 503, 504] then CodeUnavailable
      else CodeInternal)"

definition retry_safe :: "contract \<Rightarrow> string \<Rightarrow> bool" where
  "retry_safe c key =
     (if ct_kind c = ''read'' then True else ip_supported (ct_idempotency c) \<and> key \<noteq> [] \<and> valid_key key)"

section \<open>Token files\<close>

text \<open>The answers of \<open>os.Stat\<close>, its permission bits, and of \<open>os.ReadFile\<close>.\<close>

datatype token_error = TokenStat | TokenMode | TokenRead | TokenEmpty

definition file_token :: "nat option \<Rightarrow> string option \<Rightarrow> token_error + string" where
  "file_token mode content =
     (case mode of
        None \<Rightarrow> Inl TokenStat
      | Some m \<Rightarrow>
          if m mod 64 \<noteq> 0 then Inl TokenMode
          else (case content of
              None \<Rightarrow> Inl TokenRead
            | Some body \<Rightarrow> (let token = trim_space body in if token = [] then Inl TokenEmpty else Inr token)))"

section \<open>The client\<close>

record options =
  op_base_url :: string
  op_max_body :: int
  op_max_attempts :: int

record api_client =
  ac_base :: go_url
  ac_maximum :: int
  ac_max_attempts :: int

definition trim_right_slashes :: "string \<Rightarrow> string" where
  "trim_right_slashes s = rev (dropWhile (\<lambda>c. c = CHR ''/'') (rev s))"

definition new_client :: "(string \<Rightarrow> go_url option) \<Rightarrow> options \<Rightarrow> string + api_client" where
  "new_client parse options =
     (case parse (trim_right_slashes (op_base_url options)) of
        None \<Rightarrow> Inl ''base URL must be an http(s) origin''
      | Some base \<Rightarrow>
          if (url_scheme base \<noteq> ''http'' \<and> url_scheme base \<noteq> ''https'') \<or> url_host base = [] \<or> url_has_user base \<or>
             url_query base \<noteq> [] \<or> url_fragment base \<noteq> []
          then Inl ''base URL must be an http(s) origin''
          else if url_path base \<noteq> [] then Inl ''base URL must not contain a path''
          else Inr \<lparr>ac_base = base,
                    ac_maximum = (if op_max_body options \<le> 0 then default_max_body else op_max_body options),
                    ac_max_attempts = (if op_max_attempts options < 1 then 1 else op_max_attempts options)\<rparr>)"

section \<open>Endpoints\<close>

text \<open>The bytes that \<open>url.PathEscape\<close> and \<open>URL.EscapedPath\<close> keep, and the percent escapes of the others.\<close>

definition unreserved :: "char \<Rightarrow> bool" where
  "unreserved c \<longleftrightarrow> lower_letter c \<or> upper_letter c \<or> digit_char c \<or> c \<in> set ''-_.~''"

definition segment_char :: "char \<Rightarrow> bool" where
  "segment_char c \<longleftrightarrow> unreserved c \<or> c \<in> set ''$&+=:@''"

definition path_char :: "char \<Rightarrow> bool" where
  "path_char c \<longleftrightarrow> unreserved c \<or> c \<in> set ''$&+,/:;=@''"

definition upper_hex :: string where
  "upper_hex = ''0123456789ABCDEF''"

definition escape_byte :: "char \<Rightarrow> string" where
  "escape_byte c = [CHR ''%'', upper_hex ! (of_char c div 16), upper_hex ! (of_char c mod 16)]"

definition escape :: "(char \<Rightarrow> bool) \<Rightarrow> string \<Rightarrow> string" where
  "escape keep s = concat (map (\<lambda>c. if keep c then [c] else escape_byte c) s)"

definition path_escape :: "string \<Rightarrow> string" where
  "path_escape = escape segment_char"

text \<open>\<open>strings.ReplaceAll\<close> with a marker that is not empty.\<close>

function replace_all :: "string \<Rightarrow> string \<Rightarrow> string \<Rightarrow> string" where
  "replace_all marker new [] = []"
| "replace_all marker new (c # s) =
     (if marker \<noteq> [] \<and> prefix marker (c # s) then new @ replace_all marker new (drop (length marker) (c # s))
      else c # replace_all marker new s)"
  by pat_completeness auto
termination by (relation "measure (\<lambda>(m, n, s). length s)") auto

definition marker :: "string \<Rightarrow> string" where
  "marker name = CHR ''{'' # name @ ''}''"

text \<open>The path values are a map; the list has them in the order of the iteration.\<close>

fun fill_path :: "string \<Rightarrow> (string \<times> string) list \<Rightarrow> string option" where
  "fill_path path [] = (if CHR ''{'' \<in> set path then None else Some path)"
| "fill_path path ((name, v) # vs) =
     (if \<not> str_contains path (marker name) then None
      else fill_path (replace_all (marker name) (path_escape v) path) vs)"

text \<open>\<open>URL.String\<close> of the base with the path and the encoded query.\<close>

definition endpoint :: "api_client \<Rightarrow> string \<Rightarrow> (string \<times> string) list \<Rightarrow> string \<Rightarrow> string option" where
  "endpoint c pattern values query =
     (case fill_path pattern values of
        None \<Rightarrow> None
      | Some path \<Rightarrow>
          Some (url_string (ac_base c) @ escape path_char path @ (if query = [] then [] else CHR ''?'' # query)))"

section \<open>One exchange\<close>

record http_request =
  hq_method :: string
  hq_url :: string
  hq_body :: string
  hq_content_type :: "string option"
  hq_request_id :: "string option"
  hq_idempotency :: "string option"
  hq_authorization :: "string option"

text \<open>A response: its status, what its body delivers and whether the body then ends with an error.\<close>

record http_response =
  hr_status :: int
  hr_body :: string
  hr_broken :: "string option"
  hr_request_id :: string

record 'w environment =
  ev_token :: "('w \<Rightarrow> 'w \<times> (client_error + string)) option"
  ev_request_ok :: "string \<Rightarrow> string \<Rightarrow> bool"
  ev_send :: "'w \<Rightarrow> http_request \<Rightarrow> 'w \<times> (string + http_response)"
  ev_pause :: "'w \<Rightarrow> int \<Rightarrow> 'w \<times> bool"

record 'i call_request =
  cr_path_values :: "(string \<times> string) list"
  cr_query :: string
  cr_input :: "'i option"
  cr_request_id :: string
  cr_idempotency :: string

text \<open>\<open>json.Unmarshal\<close> into the error, \<open>http.StatusText\<close> and \<open>json.Unmarshal\<close> into the output.\<close>

record 'o decoders =
  dc_error :: "string \<Rightarrow> api_error \<Rightarrow> api_error"
  dc_status_text :: "int \<Rightarrow> string"
  dc_output :: "(string \<Rightarrow> 'o option) option"

definition build_request :: "string \<Rightarrow> string \<Rightarrow> string \<Rightarrow> 'i call_request \<Rightarrow> string option \<Rightarrow> http_request" where
  "build_request meth url body call token =
     \<lparr>hq_method = meth, hq_url = url, hq_body = body,
      hq_content_type = (if body = [] then None else Some ''application/json''),
      hq_request_id = (if cr_request_id call = [] then None else Some (cr_request_id call)),
      hq_idempotency = (if cr_idempotency call = [] then None else Some (cr_idempotency call)),
      hq_authorization = map_option (\<lambda>t. ''Bearer '' @ t) token\<rparr>"

definition read_answer :: "int \<Rightarrow> 'o decoders \<Rightarrow> http_response \<Rightarrow> client_error + 'o option" where
  "read_answer maximum D response =
     (let limit = nat (wrap64 (maximum + 1));
          body = take limit (hr_body response);
          broken = (if length (hr_body response) < limit then hr_broken response else None)
      in case broken of
           Some e \<Rightarrow> Inl (TransportError e)
         | None \<Rightarrow>
             if int (length body) > maximum
             then Inl (PeerError (ApiError (api_error CodeUnavailable ''response exceeds the size limit'')))
             else if hr_status response < 200 \<or> hr_status response \<ge> 300 then
               (let e = dc_error D body
                      ((api_error (code_for_status (hr_status response)) (trim_space body))\<lparr>ae_request := hr_request_id response\<rparr>)
                in Inl (PeerError (ApiError
                     (if ae_message e = [] then e\<lparr>ae_message := dc_status_text D (hr_status response)\<rparr> else e))))
             else if dc_output D = None \<or> hr_status response = 204 \<or> body = [] then Inr None
             else (case the (dc_output D) body of
                 None \<Rightarrow> Inl (PeerError (ApiError (api_error CodeUnavailable ''invalid JSON response'')))
               | Some v \<Rightarrow> Inr (Some v)))"

type_synonym ('w, 'r) effect = "'w \<times> http_request list \<times> 'r"

definition call_once ::
    "'w environment \<Rightarrow> 'o decoders \<Rightarrow> int \<Rightarrow> string \<Rightarrow> string \<Rightarrow> string \<Rightarrow> 'i call_request \<Rightarrow> 'w \<Rightarrow> ('w, client_error + 'o option) effect" where
  "call_once E D maximum meth url body call w =
     (if \<not> ev_request_ok E meth url then (w, [], Inl (PeerError (PlainError ''invalid request'')))
      else (case (case ev_token E of None \<Rightarrow> (w, Inr None) | Some t \<Rightarrow> map_prod id (map_sum id Some) (t w)) of
          (w1, Inl e) \<Rightarrow> (w1, [], Inl e)
        | (w1, Inr token) \<Rightarrow>
            (let request = build_request meth url body call token
             in (case ev_send E w1 request of
                 (w2, Inl e) \<Rightarrow> (w2, [request], Inl (TransportError e))
               | (w2, Inr response) \<Rightarrow> (w2, [request], read_answer maximum D response)))))"

section \<open>Calls with retries\<close>

function call_loop ::
    "'w environment \<Rightarrow> ('w \<Rightarrow> ('w, client_error + 'o option) effect) \<Rightarrow> int \<Rightarrow> int \<Rightarrow> 'w \<Rightarrow> ('w, client_error + 'o option) effect" where
  "call_loop E once attempts attempt w =
     (let (w1, sent, res) = once w
      in (case res of
          Inr v \<Rightarrow> (w1, sent, Inr v)
        | Inl err \<Rightarrow>
            if attempt \<ge> attempts \<or> \<not> retryable err then (w1, sent, Inl err)
            else (let (w2, cancelled) = ev_pause E w1 (attempt * 25)
                  in if cancelled then (w2, sent, Inl Cancelled)
                     else (let (w3, sent3, res3) = call_loop E once attempts (attempt + 1) w2 in (w3, sent @ sent3, res3)))))"
  by pat_completeness auto
termination by (relation "measure (\<lambda>(E, f, n, k, w). nat (n - k))") auto

declare call_loop.simps [simp del]

definition call ::
    "'w environment \<Rightarrow> 'o decoders \<Rightarrow> ('i \<Rightarrow> string option) \<Rightarrow> api_client \<Rightarrow> contract \<Rightarrow> 'i call_request \<Rightarrow> 'w \<Rightarrow> ('w, client_error + 'o option) effect" where
  "call E D marshal c contract request w =
     (case contract_validate contract of
        Inl e \<Rightarrow> (w, [], Inl (ContractRefused e))
      | Inr _ \<Rightarrow>
          (case endpoint c (ro_path (ct_route contract)) (cr_path_values request) (cr_query request) of
             None \<Rightarrow> (w, [], Inl (PeerError (PlainError ''path values'')))
           | Some url \<Rightarrow>
               (case (case cr_input request of None \<Rightarrow> Some [] | Some i \<Rightarrow> marshal i) of
                  None \<Rightarrow> (w, [], Inl (PeerError (PlainError ''marshal'')))
                | Some body \<Rightarrow>
                    (let attempts = (if retry_safe contract (cr_idempotency request) then ac_max_attempts c else 1)
                     in call_loop E (call_once E D (ac_maximum c) (ro_method (ct_route contract)) url body request) attempts 1 w))))"

section \<open>The local executor\<close>

type_synonym ('w, 'v) handler = "'w \<Rightarrow> execution \<Rightarrow> string \<Rightarrow> 'w \<times> (client_error + 'v)"

type_synonym ('w, 'v) local_executor = "string \<Rightarrow> ('w, 'v) handler option"

definition new_local_executor :: "('w, 'v) local_executor" where
  "new_local_executor = (\<lambda>i. None)"

text \<open>A nil handler is \<open>None\<close>.\<close>

definition register_handler :: "('w, 'v) local_executor \<Rightarrow> contract \<Rightarrow> ('w, 'v) handler option \<Rightarrow> ('w, 'v) local_executor \<times> (client_error + unit)" where
  "register_handler e contract handler =
     (case contract_validate contract of
        Inl err \<Rightarrow> (e, Inl (ContractRefused err))
      | Inr _ \<Rightarrow>
          (case handler of
             None \<Rightarrow> (e, Inl (PeerError (PlainError ''operation handler is required'')))
           | Some h \<Rightarrow>
               (case e (ct_id contract) of
                  Some _ \<Rightarrow> (e, Inl (PeerError (PlainError ''already registered'')))
                | None \<Rightarrow> (e(ct_id contract \<mapsto> h), Inr ()))))"

definition local_call :: "('w, 'v) local_executor \<Rightarrow> contract \<Rightarrow> execution \<Rightarrow> string \<Rightarrow> 'w \<Rightarrow> 'w \<times> (client_error + 'v)" where
  "local_call e contract ex input w =
     (case execution_validate ex of
        Inl err \<Rightarrow> (w, Inl (ExecutionRefused err))
      | Inr _ \<Rightarrow>
          (case authorize contract (Some (ex_principal ex)) of
             Inl err \<Rightarrow> (w, Inl (ExecutionRefused err))
           | Inr _ \<Rightarrow>
               (case e (ct_id contract) of
                  None \<Rightarrow> (w, Inl (PeerError (ApiError (api_error CodeNotFound ''operation is not registered''))))
                | Some handler \<Rightarrow> handler w ex input)))"

section \<open>Retries\<close>

text \<open>The request of every exchange of a call.\<close>

definition request_of :: "string \<Rightarrow> string \<Rightarrow> string \<Rightarrow> 'i call_request \<Rightarrow> http_request \<Rightarrow> bool" where
  "request_of meth url body req q \<longleftrightarrow> (\<exists>token. q = build_request meth url body req token)"

lemma call_once_sent:
  "call_once E D maximum meth url body req w = (w', sent, res) \<Longrightarrow> length sent \<le> 1 \<and> list_all (request_of meth url body req) sent"
  by (auto simp: call_once_def request_of_def Let_def split: if_splits prod.splits sum.splits)

lemma call_loop_sent:
  assumes "call_loop E once attempts attempt w = (w', sent, res)"
    and "\<And>w w' sent res. once w = (w', sent, res) \<Longrightarrow> length sent \<le> 1 \<and> list_all P sent"
  shows "length sent \<le> nat (max 1 (attempts - attempt + 1)) \<and> list_all P sent"
  using assms
proof (induction E once attempts attempt w arbitrary: w' sent res rule: call_loop.induct)
  case (1 E once attempts attempt w)
  obtain w1 s1 r1 where o: "once w = (w1, s1, r1)" by (cases "once w") auto
  note s1 = "1.prems"(2) [OF o]
  show ?case
  proof (cases "(\<exists>v. r1 = Inr v) \<or> (\<exists>e. r1 = Inl e \<and> (attempt \<ge> attempts \<or> \<not> retryable e)) \<or> snd (ev_pause E w1 (attempt * 25))")
    case True
    then have "sent = s1" using "1.prems"(1) o by (auto simp: call_loop.simps [of E once attempts attempt w] split: sum.splits prod.splits if_splits)
    then show ?thesis using s1 by auto
  next
    case False
    then obtain e w2 where e: "r1 = Inl e" "attempt < attempts" "retryable e" and p: "ev_pause E w1 (attempt * 25) = (w2, False)"
      by (cases "ev_pause E w1 (attempt * 25)"; cases r1) auto
    obtain w3 s3 r3 where r: "call_loop E once attempts (attempt + 1) w2 = (w3, s3, r3)" by (cases "call_loop E once attempts (attempt + 1) w2") auto
    have "sent = s1 @ s3" using "1.prems"(1) o e p r by (simp add: call_loop.simps [of E once attempts attempt w])
    moreover have "length s3 \<le> nat (max 1 (attempts - (attempt + 1) + 1)) \<and> list_all P s3"
      using "1.IH" [OF o [symmetric] refl refl e(1) _ p [symmetric] refl _ r "1.prems"(2)] e by simp
    ultimately show ?thesis using s1 e(2) by auto
  qed
qed

text \<open>C38. A call hands the transport at most as many requests as the client allows, all with the method, the
  URL, the body and the idempotency key of the call, and at most one request when the operation is not a read
  and the call has no valid key for a contract that supports one.\<close>

theorem call_sends_boundedly:
  assumes "call E D marshal c contract request w = (w', sent, res)"
  shows "length sent \<le> nat (max 1 (if retry_safe contract (cr_idempotency request) then ac_max_attempts c else 1)) \<and>
    (\<exists>url body. list_all (request_of (ro_method (ct_route contract)) url body request) sent)"
proof -
  have "length s \<le> 1 \<and> list_all (request_of m url body request) s"
    if "call_once E D maximum m url body request w = (w', s, res)" for maximum m url body w w' s res
    using call_once_sent [OF that] .
  note loop = call_loop_sent [OF _ this]
  show ?thesis
    using assms by (auto simp: call_def Let_def dest!: loop split: sum.splits option.splits if_splits) 
qed

text \<open>The world before each further attempt, when no pause is cancelled.\<close>

fun attempt_world :: "'w environment \<Rightarrow> ('w \<Rightarrow> ('w, client_error + 'o option) effect) \<Rightarrow> int \<Rightarrow> nat \<Rightarrow> 'w \<Rightarrow> 'w" where
  "attempt_world E once attempt 0 w = w"
| "attempt_world E once attempt (Suc k) w =
     attempt_world E once (attempt + 1) k (fst (ev_pause E (fst (once w)) (attempt * 25)))"

lemma call_loop_recovers:
  assumes "int k \<le> attempts - attempt"
    and "\<forall>j < k. \<exists>e. snd (snd (once (attempt_world E once attempt j w))) = Inl e \<and> retryable e"
    and "\<forall>w t. \<not> snd (ev_pause E w t)"
    and "snd (snd (once (attempt_world E once attempt k w))) = Inr v"
  shows "snd (snd (call_loop E once attempts attempt w)) = Inr v"
  using assms
proof (induction k arbitrary: attempt w)
  case 0
  then show ?case by (auto simp: call_loop.simps [of E once attempts attempt w] split: prod.splits)
next
  case (Suc k)
  obtain w1 s1 r1 where o: "once w = (w1, s1, r1)" by (cases "once w") auto
  obtain w2 b where p: "ev_pause E w1 (attempt * 25) = (w2, b)" by (cases "ev_pause E w1 (attempt * 25)") auto
  have b: "\<not> b" using Suc.prems(3) p by (metis snd_conv)
  obtain e where e: "r1 = Inl e" "retryable e" using Suc.prems(2) o by force
  have "\<exists>e. snd (snd (once (attempt_world E once (attempt + 1) j w2))) = Inl e \<and> retryable e" if "j < k" for j
    using Suc.prems(2) that o p by (elim allE [of _ "Suc j"]) simp
  then have "snd (snd (call_loop E once attempts (attempt + 1) w2)) = Inr v"
    using Suc.prems o p by (intro Suc.IH) auto
  then show ?case using o p b e Suc.prems(1) by (simp add: call_loop.simps [of E once attempts attempt w] split_beta)
qed

text \<open>C39. Transient failures are overcome: when the first \<open>k\<close> exchanges of a call that may be retried fail with
  retryable errors and the next one succeeds, the call answers with that success, provided \<open>k\<close> is below the
  client's limit and no pause is cancelled.\<close>

theorem call_recovers:
  assumes "contract_validate contract = Inr ()" and "retry_safe contract (cr_idempotency request)" and "int k < ac_max_attempts c"
    and "endpoint c (ro_path (ct_route contract)) (cr_path_values request) (cr_query request) = Some url"
    and "(case cr_input request of None \<Rightarrow> Some [] | Some i \<Rightarrow> marshal i) = Some body"
    and once: "once = call_once E D (ac_maximum c) (ro_method (ct_route contract)) url body request"
    and "\<forall>j < k. \<exists>e. snd (snd (once (attempt_world E once 1 j w))) = Inl e \<and> retryable e"
    and "\<forall>w t. \<not> snd (ev_pause E w t)"
    and "snd (snd (once (attempt_world E once 1 k w))) = Inr v"
  shows "snd (snd (call E D marshal c contract request w)) = Inr v"
proof -
  have "int k \<le> ac_max_attempts c - 1" using assms(3) by simp
  note call_loop_recovers [OF this assms(7,8,9)]
  then show ?thesis using assms(1,2,4,5) once by (simp add: call_def Let_def)
qed

section \<open>Errors across the wire\<close>

text \<open>The client reads from an error status the code that the server wrote as that status: the two tables
  agree on every code of the protocol but the partial one, which is a success on the wire (207).\<close>

theorem status_round_trip:
  assumes "code \<noteq> CodePartial" and "\<forall>s. code \<noteq> CodeOther s"
  shows "code_for_status (int (http_status code)) = code"
  using assms by (cases code) (simp_all add: code_for_status_def)

lemma partial_read_as_success:
  "read_answer 100 \<lparr>dc_error = (\<lambda>b e. e), dc_status_text = (\<lambda>s. []), dc_output = None\<rparr>
     \<lparr>hr_status = int (http_status CodePartial), hr_body = ''x'', hr_broken = None, hr_request_id = []\<rparr> = Inr None"
  by (simp add: read_answer_def wrap64_def)

text \<open>With the largest limit, \<open>maximum + 1\<close> wraps, nothing of the body is read and any 2xx response is empty.\<close>

lemma largest_limit_reads_nothing:
  assumes "200 \<le> hr_status r" and "hr_status r < 300"
  shows "read_answer (2 ^ 63 - 1) D r = Inr None"
  using assms by (simp add: read_answer_def wrap64_def Let_def)

section \<open>Path values\<close>

text \<open>The inverse of the escapes, as a server applies it to the path it receives.\<close>

definition hex_value_of :: "char \<Rightarrow> nat option" where
  "hex_value_of c =
     (let n = of_char c in
      if digit_char c then Some (n - 48) else if byte_range 65 70 c then Some (n - 55)
      else if byte_range 97 102 c then Some (n - 87) else None)"

fun path_unescape :: "string \<Rightarrow> string option" where
  "path_unescape [] = Some []"
| "path_unescape (c # s) =
     (if c = CHR ''%'' then
        (case s of
           h # l # r \<Rightarrow>
             (case (hex_value_of h, hex_value_of l) of
                (Some x, Some y) \<Rightarrow> map_option (\<lambda>t. char_of (16 * x + y) # t) (path_unescape r)
              | _ \<Rightarrow> None)
         | _ \<Rightarrow> None)
      else map_option (\<lambda>t. c # t) (path_unescape s))"

lemma hex_value_upper: "n < 16 \<Longrightarrow> hex_value_of (upper_hex ! n) = Some n"
proof -
  have "list_all (\<lambda>n. hex_value_of (upper_hex ! n) = Some n) [0..<16]" by code_simp
  moreover assume "n < 16"
  ultimately show ?thesis by (simp add: list_all_iff)
qed

lemma unescape_escape: "\<not> keep (CHR ''%'') \<Longrightarrow> path_unescape (escape keep s) = Some s"
proof (induction s)
  case (Cons c s)
  have "16 * (of_char c div 16) + of_char c mod 16 = (of_char c :: nat)" by simp
  then show ?case using Cons by (auto simp: escape_def escape_byte_def hex_value_upper)
qed (simp add: escape_def)

lemma escape_id: "escape keep s = s \<longleftrightarrow> list_all keep s"
proof -
  have "length (escape keep s) = length s + 2 * length (filter (\<lambda>c. \<not> keep c) s)" for s
    by (induction s) (simp_all add: escape_def escape_byte_def)
  from this [of s] have "escape keep s = s \<Longrightarrow> list_all keep s" by (auto simp: list_all_iff filter_empty_conv)
  moreover have "list_all keep s \<Longrightarrow> escape keep s = s" by (induction s) (auto simp: escape_def)
  ultimately show ?thesis by blast
qed

lemma replace_all_absent: "CHR ''{'' \<notin> set b \<Longrightarrow> replace_all (marker n) x b = b"
  by (induction b) (auto simp: marker_def)

lemma replace_all_once:
  "CHR ''{'' \<notin> set a \<Longrightarrow> CHR ''{'' \<notin> set b \<Longrightarrow> replace_all (marker n) x (a @ marker n @ b) = a @ x @ b"
proof (induction a)
  case Nil
  have m: "marker n @ b = CHR ''{'' # n @ ''}'' @ b" "prefix (marker n) (marker n @ b)" "marker n \<noteq> []"
    by (simp_all add: marker_def)
  then have "replace_all (marker n) x (marker n @ b) = x @ replace_all (marker n) x (drop (length (marker n)) (marker n @ b))"
    by (metis replace_all.simps(2))
  then show ?case using Nil replace_all_absent by simp
qed (auto simp: marker_def)

lemma path_escape_no_brace: "CHR ''{'' \<notin> set (path_escape v)"
proof -
  have "\<not> segment_char (CHR ''{'')" by code_simp
  moreover have "list_all (\<lambda>n. upper_hex ! n \<noteq> CHR ''{'') [0..<16]" by code_simp
  then have h: "n < 16 \<Longrightarrow> upper_hex ! n \<noteq> CHR ''{''" for n by (simp add: list_all_iff)
  have "CHR ''{'' \<notin> set (escape_byte c)" for c
    using h [of "of_char c div 16"] h [of "of_char c mod 16"] by (auto simp: escape_byte_def)
  ultimately show ?thesis by (auto simp: path_escape_def escape_def split: if_splits)
qed

text \<open>The value of a path parameter is escaped when it is put into the route and again when the URL is printed:
  what the server reads after its one decoding is the value only if every byte of it needs no escape, and the
  escaped value otherwise.\<close>

theorem path_value_arrives_iff:
  assumes "CHR ''{'' \<notin> set a" and "CHR ''{'' \<notin> set b"
  shows "\<exists>path. endpoint c (a @ marker n @ b) [(n, v)] [] = Some (url_string (ac_base c) @ path) \<and>
    path_unescape path = Some (a @ path_escape v @ b) \<and> (path_unescape path = Some (a @ v @ b) \<longleftrightarrow> list_all segment_char v)"
proof -
  have "str_contains (a @ marker n @ b) (marker n)" by (auto simp: str_contains_iff)
  moreover have "CHR ''{'' \<notin> set (a @ path_escape v @ b)" using assms path_escape_no_brace by simp
  ultimately have f: "fill_path (a @ marker n @ b) [(n, v)] = Some (a @ path_escape v @ b)"
    using replace_all_once [OF assms] by simp
  have "\<not> path_char (CHR ''%'')" by code_simp
  note u = unescape_escape [where keep = path_char, OF this, of "a @ path_escape v @ b"]
  show ?thesis
    by (rule exI [of _ "escape path_char (a @ path_escape v @ b)"])
      (use f u escape_id [of segment_char v] in \<open>simp add: endpoint_def path_escape_def\<close>)
qed

section \<open>Clients and local calls\<close>

lemma new_client_limits: "new_client parse options = Inr c \<Longrightarrow> 1 \<le> ac_max_attempts c \<and> 0 < ac_maximum c"
  by (auto simp: new_client_def default_max_body_def split: option.splits if_splits)

text \<open>The token of a file that other users cannot reach; without white space around it.\<close>

lemma file_token_ok: "file_token mode content = Inr t \<Longrightarrow> (\<exists>m. mode = Some m \<and> m mod 64 = 0) \<and> t \<noteq> [] \<and> trim_space t = t"
  by (auto simp: file_token_def Let_def split: option.splits if_splits)

text \<open>A handler runs only for a valid execution whose principal the given contract authorizes.\<close>

lemma local_call_guarded:
  assumes "local_call e contract ex input w = (w', res)" and "w' \<noteq> w \<or> (\<exists>v. res = Inr v)"
  shows "execution_validate ex = Inr () \<and> authorize contract (Some (ex_principal ex)) = Inr () \<and> e (ct_id contract) \<noteq> None"
  using assms by (auto simp: local_call_def split: sum.splits option.splits)

text \<open>The authorization is that of the contract in the call, not of the registered one.\<close>

lemma local_call_by_identifier:
  assumes "register_handler e contract (Some h) = (e', Inr ())" and "ct_id other = ct_id contract"
    and "au_boundary (ct_auth other) = ''public''" and "execution_validate ex = Inr ()"
  shows "local_call e' other ex input w = h w ex input"
  using assms by (auto simp: local_call_def register_handler_def authorize_def split: sum.splits option.splits)

section \<open>An example\<close>

text \<open>A server that is unavailable once.\<close>

definition sample_env :: "nat environment" where
  "sample_env = \<lparr>ev_token = None, ev_request_ok = (\<lambda>m u. True),
     ev_send = (\<lambda>n q. (n + 1, Inr \<lparr>hr_status = (if n = 0 then 503 else 200), hr_body = ''x'', hr_broken = None, hr_request_id = []\<rparr>)),
     ev_pause = (\<lambda>n t. (n, False))\<rparr>"

definition sample_decoders :: "string decoders" where
  "sample_decoders = \<lparr>dc_error = (\<lambda>b e. e), dc_status_text = (\<lambda>n. []), dc_output = Some (\<lambda>b. Some b)\<rparr>"

definition sample_client :: api_client where
  "sample_client = \<lparr>ac_base = \<lparr>url_scheme = ''http'', url_host = ''h'', url_hostname = ''h'', url_port = [], url_has_user = False,
     url_query = [], url_fragment = [], url_path = [], url_string = ''http://h''\<rparr>, ac_maximum = 100, ac_max_attempts = 3\<rparr>"

definition sample_read :: contract where
  "sample_read = \<lparr>ct_version = 1, ct_id = ''items.get'', ct_kind = ''read'', ct_route = \<lparr>ro_method = ''GET'', ro_path = ''/items/{id}''\<rparr>,
     ct_cli = Some \<lparr>cl_resource = ''items'', cl_verb = ''get'', cl_implemented = True\<rparr>,
     ct_auth = \<lparr>au_boundary = ''capability'', au_capability = ''items.read'', au_scopes = []\<rparr>, ct_input = [], ct_output = [],
     ct_audit = \<lparr>ad_event = ''items.get'', ad_required = False\<rparr>,
     ct_idempotency = \<lparr>ip_supported = False, ip_required = False, ip_retry_safe = True\<rparr>, ct_automation = ''automatable'',
     ct_secret_inputs = [], ct_secret_outputs = []\<rparr>"

definition sample_call :: "string call_request" where
  "sample_call = \<lparr>cr_path_values = [(''id'', ''a'')], cr_query = [], cr_input = None, cr_request_id = [], cr_idempotency = []\<rparr>"

lemma sample_facts:
  "contract_validate sample_read = Inr ()"
  "endpoint sample_client (ro_path (ct_route sample_read)) (cr_path_values sample_call) (cr_query sample_call) = Some ''http://h/items/a''"
  by code_simp+

lemma sample_once:
  "call_once sample_env sample_decoders 100 meth url [] sample_call n =
     (n + 1, [build_request meth url [] sample_call None],
      if n = 0 then Inl (PeerError (ApiError \<lparr>ae_code = CodeUnavailable, ae_message = ''x'', ae_request = [], ae_reason = None\<rparr>))
      else Inr (Some ''x''))"
proof -
  have "trim_space ''x'' = ''x''" by code_simp
  then show ?thesis
    by (simp add: call_once_def sample_env_def sample_decoders_def read_answer_def wrap64_def api_error_def code_for_status_def Let_def)
qed

theorem call_sends_boundedly_witness:
  "\<exists>sent. fst (snd (call sample_env sample_decoders (\<lambda>i. None) sample_client (sample_read\<lparr>ct_kind := ''mutation''\<rparr>) sample_call 0)) = sent \<and> length sent \<le> 1"
proof -
  obtain w' sent res where c: "call sample_env sample_decoders (\<lambda>i. None) sample_client (sample_read\<lparr>ct_kind := ''mutation''\<rparr>) sample_call 0 = (w', sent, res)"
    by (rule prod_cases3)
  have "\<not> retry_safe (sample_read\<lparr>ct_kind := ''mutation''\<rparr>) (cr_idempotency sample_call)" by code_simp
  with call_sends_boundedly [OF c] c show ?thesis by simp
qed

theorem call_recovers_witness:
  "snd (snd (call sample_env sample_decoders (\<lambda>i. None) sample_client sample_read sample_call 0)) = Inr (Some ''x'')"
proof -
  have f: "cr_input sample_call = None" "ac_maximum sample_client = 100" "ac_max_attempts sample_client = 3"
    "ev_pause sample_env = (\<lambda>n t. (n, False))" "retry_safe sample_read (cr_idempotency sample_call)"
    by (simp_all add: sample_call_def sample_client_def sample_env_def retry_safe_def sample_read_def)
  have once: "call_once sample_env sample_decoders 100 m u [] sample_call 0 = (1, [build_request m u [] sample_call None], Inl (PeerError (ApiError
      \<lparr>ae_code = CodeUnavailable, ae_message = ''x'', ae_request = [], ae_reason = None\<rparr>)))"
    "call_once sample_env sample_decoders 100 m u [] sample_call (Suc 0) = (2, [build_request m u [] sample_call None], Inr (Some ''x''))" for m u
    by (subst sample_once, simp)+
  show ?thesis
    by (rule call_recovers [where k = 1, OF sample_facts(1) f(5) _ sample_facts(2) _ refl])
      (simp_all add: f, simp_all only: once fst_conv snd_conv One_nat_def, simp_all add: retryable_def once)
qed

theorem status_round_trip_witness: "code_for_status (int (http_status CodeConflict)) = CodeConflict"
  by (rule status_round_trip) simp_all

theorem path_value_arrives_iff_witness:
  "\<exists>path. endpoint sample_client ''/items/{id}'' [(''id'', ''a b'')] [] = Some (''http://h'' @ path) \<and>
    path_unescape path = Some ''/items/a%20b''"
proof -
  have "path_escape ''a b'' = ''a%20b''" by code_simp
  then show ?thesis
    using path_value_arrives_iff [of "''/items/''" "[]" sample_client "''id''" "''a b''"]
    by (auto simp: marker_def sample_client_def)
qed

end
