(* ===== verification/Automation_Run.thy ===== *)
theory Automation_Run
  imports Protocol_Wire_Laws Api_Client
begin

text \<open>
  The command of \<open>automation/automation.go\<close>: \<open>Run\<close> as one function of the arguments and of what the
  environment answers.

  The environment gives the content of the files, the answers to the requests and the result of writing the
  session file; \<open>url_fun\<close> is \<open>net/url\<close> and \<open>json_fun\<close> is \<open>encoding/json\<close>. The outcome has the requests
  that were sent, what is written to the standard output, the exit code and the problem that is reported on
  the standard error. Permissions are those of a Unix system.
\<close>

section \<open>Routes\<close>

definition brace :: "char \<Rightarrow> bool" where
  "brace c \<longleftrightarrow> c = CHR ''{'' \<or> c = CHR ''}''"

text \<open>The matches of the pattern of a path variable, from left to right.\<close>

function path_vars :: "string \<Rightarrow> string list" where
  "path_vars [] = []"
| "path_vars (c # s) =
     (let n = takeWhile (\<lambda>d. \<not> brace d) s; r = dropWhile (\<lambda>d. \<not> brace d) s
      in if c = CHR ''{'' \<and> n \<noteq> [] \<and> r \<noteq> [] \<and> hd r = CHR ''}'' then (c # n @ ''}'') # path_vars (tl r) else path_vars s)"
  by pat_completeness auto
termination
proof (relation "measure length")
  fix c s n r
  assume "r = dropWhile (\<lambda>d. \<not> brace d) s"
  then have "length r \<le> length s" by (simp add: length_dropWhile_le)
  then show "(tl r, c # s) \<in> measure length" by simp
qed auto

fun replace_first :: "string \<Rightarrow> string \<Rightarrow> string \<Rightarrow> string" where
  "replace_first old new [] = (if old = [] then new else [])"
| "replace_first old new (c # s) =
     (if prefix old (c # s) then new @ drop (length old) (c # s) else c # replace_first old new s)"

fun fill_vars :: "string \<Rightarrow> (string \<times> string) list \<Rightarrow> string" where
  "fill_vars path [] = path"
| "fill_vars path ((v, arg) # rest) = fill_vars (replace_first v (path_escape arg) path) rest"

fun query_pairs :: "string list \<Rightarrow> (string \<times> string) list option" where
  "query_pairs [] = Some []"
| "query_pairs (item # items) =
     (case cut (CHR ''='') item of
        None \<Rightarrow> None
      | Some (k, v) \<Rightarrow> if k = [] then None else map_option (\<lambda>kvs. (k, v) # kvs) (query_pairs items))"

text \<open>\<open>url.Parse\<close>, and \<open>String\<close> of a URL to whose query pairs were added.\<close>

record url_fun =
  uf_parse :: "string \<Rightarrow> go_url option"
  uf_print :: "go_url \<Rightarrow> (string \<times> string) list \<Rightarrow> string"

definition route_url :: "url_fun \<Rightarrow> string \<Rightarrow> string \<Rightarrow> string list \<Rightarrow> string list \<Rightarrow> string option" where
  "route_url U base path args queries =
     (let vars = path_vars path
      in if length args \<noteq> length vars then None
         else (case uf_parse U (trim_slashes base @ fill_vars path (zip vars args)) of
             None \<Rightarrow> None
           | Some u \<Rightarrow>
               if url_scheme u = [] \<or> url_host u = [] then None
               else map_option (uf_print U u) (query_pairs queries)))"

section \<open>Files\<close>

definition max_body :: nat where "max_body = 2 ^ 20"

record json_fun =
  js_valid :: "string \<Rightarrow> bool"
  js_decode :: "string \<Rightarrow> json option"
  js_encode :: "json \<Rightarrow> string option"
  js_indent :: "string \<Rightarrow> string option"
  js_session :: "string \<Rightarrow> (string \<times> string) option"

text \<open>A reader: what it delivers, and the error it then ends with.\<close>

type_synonym reader = "string \<times> string option"

definition read_limited :: "nat \<Rightarrow> reader \<Rightarrow> string option" where
  "read_limited limit r = (if length (fst r) < limit \<and> snd r \<noteq> None then None else Some (take limit (fst r)))"

definition read_input :: "json_fun \<Rightarrow> (string \<Rightarrow> reader option) \<Rightarrow> reader \<Rightarrow> string \<Rightarrow> string option" where
  "read_input J open_file stdin path =
     (if path = [] then Some []
      else (case (if path = ''-'' then Some stdin else open_file path) of
          None \<Rightarrow> None
        | Some r \<Rightarrow>
            (case read_limited (max_body + 1) r of
               None \<Rightarrow> None
             | Some content \<Rightarrow> if length content > max_body \<or> \<not> js_valid J content then None else Some content)))"

text \<open>What \<open>Stat\<close> and then \<open>ReadFile\<close> answer for a protected file: \<open>Stat\<close> fails, because the file is not there or
  otherwise; it gives permissions and \<open>ReadFile\<close> fails, likewise; or it gives permissions and \<open>ReadFile\<close> a
  content. The file may change between the two calls, so permissions and content are independent.\<close>

datatype read_problem = NotThere | NotReadable

datatype protected_file = FileAbsent | FileProblem | FileUnread nat read_problem | FileContent nat string

definition read_protected_file :: "protected_file \<Rightarrow> read_problem + string" where
  "read_protected_file f =
     (case f of
        FileAbsent \<Rightarrow> Inl NotThere
      | FileProblem \<Rightarrow> Inl NotReadable
      | FileUnread mode problem \<Rightarrow> if mode mod 64 \<noteq> 0 then Inl NotReadable else Inl problem
      | FileContent mode content \<Rightarrow> if mode mod 64 \<noteq> 0 then Inl NotReadable else Inr content)"

definition read_secret :: "protected_file \<Rightarrow> string option" where
  "read_secret f =
     (case read_protected_file f of
        Inl _ \<Rightarrow> None
      | Inr content \<Rightarrow> (let v = trim_space content in if v = [] then None else Some v))"

section \<open>Requests and responses\<close>

record auto_request = http_request +
  aq_cookie :: "(string \<times> string) option"
  aq_csrf :: "(string \<times> string) option"

record auto_response = http_response +
  as_cookies :: "(string \<times> string) list"

record auto_options =
  ao_default_url :: string
  ao_cookie_name :: string
  ao_csrf_header :: string
  ao_csrf_fields :: "string list"
  ao_session_info :: string

record 'w auto_env =
  am_open :: "string \<Rightarrow> reader option"
  am_stdin :: reader
  am_protected :: "string \<Rightarrow> protected_file"
  am_request_ok :: "string \<Rightarrow> string \<Rightarrow> bool"
  am_send :: "'w \<Rightarrow> auto_request \<Rightarrow> 'w \<times> auto_response option"
  am_write_session :: "'w \<Rightarrow> string \<Rightarrow> string \<times> string \<Rightarrow> 'w \<times> bool"

fun first_field :: "(string \<times> json) list \<Rightarrow> string list \<Rightarrow> string" where
  "first_field kvs [] = []"
| "first_field kvs (f # fs) =
     (case map_of kvs f of Some (JString x) \<Rightarrow> if x \<noteq> [] then x else first_field kvs fs | _ \<Rightarrow> first_field kvs fs)"

definition find_csrf :: "json_fun \<Rightarrow> string \<Rightarrow> string list \<Rightarrow> string" where
  "find_csrf J data names = (case js_decode J data of Some (JObject kvs) \<Rightarrow> first_field kvs names | _ \<Rightarrow> [])"

definition exit_for_status :: "int \<Rightarrow> nat" where
  "exit_for_status status =
     (if 200 \<le> status \<and> status < 300 then exit_ok
      else if status = 401 \<or> status = 403 then exit_auth
      else if status = 404 then exit_not_found
      else if status = 409 then exit_conflict
      else if status = 502 \<or> status = 503 \<or> status = 504 then exit_unavailable
      else exit_failure)"

section \<open>Output\<close>

definition clone_json :: "json_fun \<Rightarrow> json \<Rightarrow> json option" where
  "clone_json J v = Option.bind (js_encode J v) (js_decode J)"

definition redact_output :: "json_fun \<Rightarrow> string \<Rightarrow> string list \<Rightarrow> string" where
  "redact_output J data pointers =
     (if pointers = [] \<or> \<not> js_valid J data then data
      else (case js_decode J data of
          None \<Rightarrow> data
        | Some v \<Rightarrow>
            (case redact (clone_json J) v pointers of
               None \<Rightarrow> data
             | Some w \<Rightarrow> (case js_encode J w of None \<Rightarrow> data | Some encoded \<Rightarrow> encoded))))"

definition shown :: "json_fun \<Rightarrow> invocation \<Rightarrow> string \<Rightarrow> string" where
  "shown J i data =
     (if \<not> iv_quiet i \<and> data \<noteq> [] then
        (if iv_output i = OutJSON then trim_space data @ [CHR 0x0A]
         else (case js_indent J data of
             Some text \<Rightarrow> text @ [CHR 0x0A]
           | None \<Rightarrow> data @ (if last data \<noteq> CHR 0x0A then [CHR 0x0A] else [])))
      else [])"

section \<open>The command\<close>

datatype problem =
    ParseProblem cli_error
  | UnsupportedOperation
  | NeedsYes
  | NeedsURL
  | BadRoute
  | BadInput
  | BadRequest
  | BadToken
  | BadSession
  | SessionUnsupported
  | SessionUnreadable
  | SessionMissing
  | NoResponse
  | BadResponse
  | SessionNotWritten

record 'w run_outcome =
  rn_world :: 'w
  rn_sent :: "auto_request list"
  rn_stdout :: string
  rn_exit :: nat
  rn_problem :: "problem option"

definition stop :: "'w \<Rightarrow> nat \<Rightarrow> problem \<Rightarrow> 'w run_outcome" where
  "stop w code p = \<lparr>rn_world = w, rn_sent = [], rn_stdout = [], rn_exit = code, rn_problem = Some p\<rparr>"

definition find_contract :: "contract list \<Rightarrow> string \<Rightarrow> string \<Rightarrow> contract option" where
  "find_contract contracts resource verb =
     List.find (\<lambda>c. case ct_cli c of None \<Rightarrow> False | Some m \<Rightarrow> cl_resource m = resource \<and> cl_verb m = verb) contracts"

text \<open>The credentials of the request: the token, and the session with the cookie and the CSRF header.\<close>

definition with_token :: "protected_file \<Rightarrow> invocation \<Rightarrow> auto_request \<Rightarrow> (nat \<times> problem) + auto_request" where
  "with_token f i req =
     (if iv_token_file i = [] then Inr req
      else (case read_secret f of
          None \<Rightarrow> Inl (exit_auth, BadToken)
        | Some token \<Rightarrow> Inr (req\<lparr>hq_authorization := Some (''Bearer '' @ token)\<rparr>)))"

definition with_session ::
    "json_fun \<Rightarrow> auto_options \<Rightarrow> contract \<Rightarrow> protected_file \<Rightarrow> invocation \<Rightarrow> auto_request \<Rightarrow> (nat \<times> problem) + auto_request \<times> string" where
  "with_session J options c f i req =
     (if iv_session_file i = [] then Inr (req, [])
      else (case read_protected_file f of
          Inr content \<Rightarrow>
            (case js_session J content of
               None \<Rightarrow> Inl (exit_auth, BadSession)
             | Some (cookie, csrf) \<Rightarrow>
                 if cookie = [] then Inl (exit_auth, BadSession)
                 else if ao_cookie_name options = [] then Inl (exit_auth, SessionUnsupported)
                 else Inr (req\<lparr>aq_cookie := Some (ao_cookie_name options, cookie),
                     aq_csrf := (if csrf \<noteq> [] \<and> ao_csrf_header options \<noteq> [] \<and> ct_kind c \<noteq> ''read''
                                 then Some (ao_csrf_header options, csrf) else None)\<rparr>, csrf))
        | Inl NotReadable \<Rightarrow> Inl (exit_auth, SessionUnreadable)
        | Inl NotThere \<Rightarrow> if au_boundary (ct_auth c) \<noteq> ''public'' then Inl (exit_auth, SessionMissing) else Inr (req, [])))"

definition first_request :: "contract \<Rightarrow> invocation \<Rightarrow> string \<Rightarrow> string \<Rightarrow> auto_request" where
  "first_request c i url body =
     \<lparr>hq_method = ro_method (ct_route c), hq_url = url, hq_body = body,
      hq_content_type = (if body \<noteq> [] then Some ''application/json'' else None),
      hq_request_id = (if iv_request i \<noteq> [] then Some (iv_request i) else None),
      hq_idempotency = (if iv_request i \<noteq> [] \<and> ip_supported (ct_idempotency c) then Some (iv_request i) else None),
      hq_authorization = None, aq_cookie = None, aq_csrf = None\<rparr>"

definition fetch_csrf ::
    "'w auto_env \<Rightarrow> json_fun \<Rightarrow> auto_options \<Rightarrow> string \<Rightarrow> string \<Rightarrow> 'w \<Rightarrow> 'w \<times> auto_request list \<times> string" where
  "fetch_csrf A J options base cookie w =
     (let url = trim_slashes base @ ao_session_info options
      in if \<not> am_request_ok A ''GET'' url then (w, [], [])
         else (let req = \<lparr>hq_method = ''GET'', hq_url = url, hq_body = [], hq_content_type = None, hq_request_id = None,
                          hq_idempotency = None, hq_authorization = None, aq_cookie = Some (ao_cookie_name options, cookie), aq_csrf = None\<rparr>
               in (case am_send A w req of
                   (w1, None) \<Rightarrow> (w1, [req], [])
                 | (w1, Some resp) \<Rightarrow>
                     if hr_status resp < 200 \<or> hr_status resp \<ge> 300 then (w1, [req], [])
                     else (case read_limited max_body (hr_body resp, hr_broken resp) of
                         None \<Rightarrow> (w1, [req], [])
                       | Some data \<Rightarrow> (w1, [req], find_csrf J data (ao_csrf_fields options))))))"

text \<open>Every cookie of the session's name is saved, with the CSRF token of the response, of the session endpoint or
  of the old session; \<open>False\<close> where a session could not be written.\<close>

fun save_sessions ::
    "'w auto_env \<Rightarrow> json_fun \<Rightarrow> auto_options \<Rightarrow> string \<Rightarrow> string \<Rightarrow> string \<Rightarrow> string \<Rightarrow> (string \<times> string) list \<Rightarrow> 'w \<Rightarrow>
     'w \<times> auto_request list \<times> bool" where
  "save_sessions A J options base path loaded data [] w = (w, [], True)"
| "save_sessions A J options base path loaded data ((name, v) # cookies) w =
     (if name = ao_cookie_name options \<and> v \<noteq> [] then
        (let csrf = find_csrf J data (ao_csrf_fields options);
             (w1, sent, csrf) = (if csrf = [] \<and> ao_session_info options \<noteq> [] then fetch_csrf A J options base v w else (w, [], csrf));
             csrf = (if csrf = [] then loaded else csrf)
         in (case am_write_session A w1 path (v, csrf) of
             (w2, False) \<Rightarrow> (w2, sent, False)
           | (w2, True) \<Rightarrow>
               (let (w3, more, ok) = save_sessions A J options base path loaded data cookies w2 in (w3, sent @ more, ok))))
      else save_sessions A J options base path loaded data cookies w)"

definition exchange ::
    "'w auto_env \<Rightarrow> json_fun \<Rightarrow> auto_options \<Rightarrow> contract \<Rightarrow> invocation \<Rightarrow> string \<Rightarrow> string \<Rightarrow> auto_request \<Rightarrow> 'w \<Rightarrow> 'w run_outcome" where
  "exchange A J options c i base loaded req w =
     (case am_send A w req of
        (w1, None) \<Rightarrow> (stop w1 exit_unavailable NoResponse)\<lparr>rn_sent := [req]\<rparr>
      | (w1, Some resp) \<Rightarrow>
          (case read_limited (max_body + 1) (hr_body resp, hr_broken resp) of
             None \<Rightarrow> (stop w1 exit_failure BadResponse)\<lparr>rn_sent := [req]\<rparr>
           | Some data \<Rightarrow>
               if length data > max_body then (stop w1 exit_failure BadResponse)\<lparr>rn_sent := [req]\<rparr>
               else (let (w2, sent, ok) =
                           (if iv_session_file i \<noteq> [] \<and> ao_cookie_name options \<noteq> []
                            then save_sessions A J options base (iv_session_file i) loaded data (as_cookies resp) w1
                            else (w1, [], True))
                     in if \<not> ok then (stop w2 exit_failure SessionNotWritten)\<lparr>rn_sent := req # sent\<rparr>
                        else \<lparr>rn_world = w2, rn_sent = req # sent,
                              rn_stdout = shown J i (redact_output J data (ct_secret_outputs c)),
                              rn_exit = exit_for_status (hr_status resp), rn_problem = None\<rparr>)))"

definition run_command ::
    "(string \<Rightarrow> int option) \<Rightarrow> 'w auto_env \<Rightarrow> url_fun \<Rightarrow> json_fun \<Rightarrow> string list \<Rightarrow> contract list \<Rightarrow> auto_options \<Rightarrow> 'w \<Rightarrow> 'w run_outcome" where
  "run_command pd A U J args contracts options w =
     (case parse_args pd args of
        Inl e \<Rightarrow> stop w (if e = HelpRequested then exit_ok else exit_usage) (ParseProblem e)
      | Inr i \<Rightarrow>
          (case find_contract contracts (iv_resource i) (iv_verb i) of
             None \<Rightarrow> stop w exit_usage UnsupportedOperation
           | Some c \<Rightarrow>
               if \<not> (case ct_cli c of None \<Rightarrow> False | Some m \<Rightarrow> cl_implemented m) then stop w exit_usage UnsupportedOperation
               else if ct_kind c = ''destructive'' \<and> \<not> iv_confirm i then stop w exit_usage NeedsYes
               else (let base = (if iv_url i = [] then ao_default_url options else iv_url i)
                     in if base = [] then stop w exit_usage NeedsURL
                        else (case route_url U base (ro_path (ct_route c)) (iv_arguments i) (iv_query i) of
                            None \<Rightarrow> stop w exit_usage BadRoute
                          | Some url \<Rightarrow>
                              (case read_input J (am_open A) (am_stdin A) (iv_input i) of
                                 None \<Rightarrow> stop w exit_usage BadInput
                               | Some body \<Rightarrow>
                                   if \<not> am_request_ok A (ro_method (ct_route c)) url then stop w exit_failure BadRequest
                                   else (case with_token (am_protected A (iv_token_file i)) i (first_request c i url body) of
                                       Inl (code, p) \<Rightarrow> stop w code p
                                     | Inr req \<Rightarrow>
                                         (case with_session J options c (am_protected A (iv_session_file i)) i req of
                                            Inl (code, p) \<Rightarrow> stop w code p
                                          | Inr (req, loaded) \<Rightarrow> exchange A J options c i base loaded req w)))))))"

section \<open>What is sent\<close>

text \<open>The credentials of a request: a token only from a protected file and then always, a session cookie only from a
  protected file, and always for a session file with an operation that is not public.\<close>

definition credentials_ok :: "'w auto_env \<Rightarrow> contract \<Rightarrow> invocation \<Rightarrow> auto_request \<Rightarrow> bool" where
  "credentials_ok A c i req \<longleftrightarrow>
     (case hq_authorization req of
        None \<Rightarrow> iv_token_file i = []
      | Some v \<Rightarrow> \<exists>mode content. am_protected A (iv_token_file i) = FileContent mode content \<and> mode mod 64 = 0 \<and> v = ''Bearer '' @ trim_space content) \<and>
     (case aq_cookie req of
        None \<Rightarrow> iv_session_file i = [] \<or> au_boundary (ct_auth c) = ''public''
      | Some _ \<Rightarrow> \<exists>mode content. am_protected A (iv_session_file i) = FileContent mode content \<and> mode mod 64 = 0)"

lemma with_token_ok:
  "with_token (am_protected A (iv_token_file i)) i (first_request c i url body) = Inr req \<Longrightarrow>
    \<exists>auth. req = (first_request c i url body)\<lparr>hq_authorization := auth\<rparr> \<and>
      (case auth of None \<Rightarrow> iv_token_file i = []
       | Some v \<Rightarrow> \<exists>mode content. am_protected A (iv_token_file i) = FileContent mode content \<and> mode mod 64 = 0 \<and> v = ''Bearer '' @ trim_space content)"
  by (auto simp: with_token_def first_request_def read_secret_def read_protected_file_def Let_def
      split: if_splits option.splits sum.splits protected_file.splits)

lemma with_session_ok:
  "with_session J options c (am_protected A (iv_session_file i)) i req = Inr (req', loaded) \<Longrightarrow> aq_cookie req = None \<Longrightarrow>
    hq_method req' = hq_method req \<and> hq_authorization req' = hq_authorization req \<and> hq_idempotency req' = hq_idempotency req \<and>
      (case aq_cookie req' of None \<Rightarrow> iv_session_file i = [] \<or> au_boundary (ct_auth c) = ''public''
       | Some _ \<Rightarrow> \<exists>mode content. am_protected A (iv_session_file i) = FileContent mode content \<and> mode mod 64 = 0)"
  by (auto simp: with_session_def read_protected_file_def
      split: if_splits option.splits sum.splits protected_file.splits read_problem.splits)

lemma exchange_sent: "\<exists>rest. rn_sent (exchange A J options c i base loaded req w) = req # rest"
  by (auto simp: exchange_def Let_def split: prod.splits option.splits)

text \<open>C40. \<open>Run\<close> sends a request only for an implemented operation that the arguments name, and for a destructive
  one only with \<open>--yes\<close>. The first request has the method of its contract, the request identifier as
  the idempotency key exactly where the contract supports one, and its credentials come from protected files
  alone; a token file that is given is always used.\<close>

theorem run_sends_guarded:
  assumes "rn_sent (run_command pd A U J args contracts options w) \<noteq> []"
  shows "\<exists>i c req rest. rn_sent (run_command pd A U J args contracts options w) = req # rest \<and>
    parse_args pd args = Inr i \<and> find_contract contracts (iv_resource i) (iv_verb i) = Some c \<and> pred_option cl_implemented (ct_cli c) \<and>
    (ct_kind c = ''destructive'' \<longrightarrow> iv_confirm i) \<and> hq_method req = ro_method (ct_route c) \<and>
    hq_idempotency req = (if iv_request i \<noteq> [] \<and> ip_supported (ct_idempotency c) then Some (iv_request i) else None) \<and>
    credentials_ok A c i req"
proof -
  have stop: "rn_sent (stop w code p) = []" for code p by (simp add: stop_def)
  obtain i where i: "parse_args pd args = Inr i" using assms stop by (cases "parse_args pd args") (auto simp: run_command_def)
  obtain c where c: "find_contract contracts (iv_resource i) (iv_verb i) = Some c"
    using assms stop i by (cases "find_contract contracts (iv_resource i) (iv_verb i)") (auto simp: run_command_def)
  have guards: "pred_option cl_implemented (ct_cli c)" "ct_kind c = ''destructive'' \<longrightarrow> iv_confirm i"
    using assms stop i c by (auto simp: run_command_def split: option.splits if_splits)
  define base where "base = (if iv_url i = [] then ao_default_url options else iv_url i)"
  note run = run_command_def [of pd A U J args contracts options w, unfolded i sum.case c option.case, folded base_def]
  obtain url where url: "route_url U base (ro_path (ct_route c)) (iv_arguments i) (iv_query i) = Some url"
    using assms stop run by (cases "route_url U base (ro_path (ct_route c)) (iv_arguments i) (iv_query i)") (auto simp: Let_def split: if_splits)
  obtain body where body: "read_input J (am_open A) (am_stdin A) (iv_input i) = Some body"
    using assms stop run url by (cases "read_input J (am_open A) (am_stdin A) (iv_input i)") (auto simp: Let_def split: if_splits)
  obtain req1 where t: "with_token (am_protected A (iv_token_file i)) i (first_request c i url body) = Inr req1"
    using assms stop run url body
    by (cases "with_token (am_protected A (iv_token_file i)) i (first_request c i url body)") (auto simp: Let_def split: if_splits)
  obtain req loaded where s: "with_session J options c (am_protected A (iv_session_file i)) i req1 = Inr (req, loaded)"
    using assms stop run url body t
    by (cases "with_session J options c (am_protected A (iv_session_file i)) i req1") (auto simp: Let_def split: if_splits)
  have r: "run_command pd A U J args contracts options w = exchange A J options c i base loaded req w"
    using assms stop run url body t s by (auto simp: Let_def split: if_splits)
  obtain auth where req1: "req1 = (first_request c i url body)\<lparr>hq_authorization := auth\<rparr>"
    and auth: "case auth of None \<Rightarrow> iv_token_file i = []
       | Some v \<Rightarrow> \<exists>mode content. am_protected A (iv_token_file i) = FileContent mode content \<and> mode mod 64 = 0 \<and> v = ''Bearer '' @ trim_space content"
    using with_token_ok [OF t] by blast
  have "aq_cookie req1 = None" by (simp add: req1 first_request_def)
  from with_session_ok [OF s this] have
    "hq_method req = ro_method (ct_route c) \<and> hq_authorization req = auth \<and>
     hq_idempotency req = (if iv_request i \<noteq> [] \<and> ip_supported (ct_idempotency c) then Some (iv_request i) else None) \<and> credentials_ok A c i req"
    using auth by (auto simp: req1 first_request_def credentials_ok_def)
  then show ?thesis using exchange_sent r i c guards by metis
qed

definition sample_auto :: "nat auto_env" where
  "sample_auto = \<lparr>am_open = (\<lambda>f. None), am_stdin = ([], None), am_protected = (\<lambda>f. FileContent 384 ''t ''), am_request_ok = (\<lambda>m u. True),
     am_send = (\<lambda>n q. (n + 1, None)), am_write_session = (\<lambda>n f s. (n, True))\<rparr>"

definition sample_url_fun :: url_fun where
  "sample_url_fun = \<lparr>uf_parse = (\<lambda>s. Some \<lparr>url_scheme = ''http'', url_host = ''h'', url_hostname = ''h'', url_port = [], url_has_user = False,
     url_query = [], url_fragment = [], url_path = [], url_string = s\<rparr>), uf_print = (\<lambda>u kvs. url_string u)\<rparr>"

definition sample_json_fun :: json_fun where
  "sample_json_fun = \<lparr>js_valid = (\<lambda>s. True), js_decode = (\<lambda>s. Some (JObject [(''token'', JString s)])),
     js_encode = (\<lambda>v. Some (if resolve [''token''] v = Some redacted then ''hidden'' else ''secret'')), js_indent = (\<lambda>s. None), js_session = (\<lambda>s. None)\<rparr>"

definition sample_options :: auto_options where
  "sample_options = \<lparr>ao_default_url = ''http://h'', ao_cookie_name = [], ao_csrf_header = [], ao_csrf_fields = [], ao_session_info = []\<rparr>"

definition sample_invocation :: invocation where
  "sample_invocation = start_invocation\<lparr>iv_resource := ''items'', iv_verb := ''get'', iv_arguments := [''a''], iv_token_file := ''f''\<rparr>"

lemma sample_parsed: "parse_args (\<lambda>s. None) [''items'', ''get'', ''a'', ''--token-file'', ''f''] = Inr sample_invocation"
  by code_simp

lemma sample_invocation_fields [simp]:
  "iv_resource sample_invocation = ''items''" "iv_verb sample_invocation = ''get''" "iv_arguments sample_invocation = [''a'']"
  "iv_token_file sample_invocation = ''f''" "iv_session_file sample_invocation = []" "iv_url sample_invocation = []"
  "iv_query sample_invocation = []" "iv_input sample_invocation = []" "iv_request sample_invocation = []"
  by (simp_all add: sample_invocation_def start_invocation_def)

lemma sample_routed: "route_url sample_url_fun ''http://h'' ''/items/{id}'' [''a''] [] = Some ''http://h/items/a''"
  by code_simp

lemma sample_run:
  "rn_sent (run_command (\<lambda>s. None) sample_auto sample_url_fun sample_json_fun [''items'', ''get'', ''a'', ''--token-file'', ''f'']
      [sample_read] sample_options 0) =
   [(first_request sample_read sample_invocation ''http://h/items/a'' [])\<lparr>hq_authorization := Some ''Bearer t''\<rparr>]"
proof -
  have "trim_space ''t '' = ''t''" by code_simp
  then show ?thesis
    using sample_routed
    by (simp add: run_command_def sample_parsed find_contract_def sample_read_def sample_options_def read_input_def sample_auto_def
        with_token_def with_session_def read_secret_def read_protected_file_def exchange_def Let_def)
qed

theorem run_sends_guarded_witness:
  "\<exists>req. rn_sent (run_command (\<lambda>s. None) sample_auto sample_url_fun sample_json_fun [''items'', ''get'', ''a'', ''--token-file'', ''f'']
      [sample_read] sample_options 0) = [req] \<and> hq_authorization req = Some ''Bearer t'' \<and> hq_idempotency req = None"
proof -
  let ?out = "run_command (\<lambda>s. None) sample_auto sample_url_fun sample_json_fun [''items'', ''get'', ''a'', ''--token-file'', ''f'']
      [sample_read] sample_options 0"
  have "rn_sent ?out \<noteq> []" by (simp add: sample_run)
  from run_sends_guarded [OF this] obtain i and c :: contract and req rest where r: "rn_sent ?out = req # rest"
    "parse_args (\<lambda>s. None) [''items'', ''get'', ''a'', ''--token-file'', ''f''] = Inr i"
    "hq_idempotency req = (if iv_request i \<noteq> [] \<and> ip_supported (ct_idempotency c) then Some (iv_request i) else None)"
    by blast
  then show ?thesis using sample_run by (auto simp: sample_parsed)
qed

section \<open>What is shown\<close>

lemma validated_pointer: "validate_pointers seen vs = Inr () \<Longrightarrow> p \<in> set vs \<Longrightarrow> \<exists>ps. pointer_parts p = Some ps \<and> ps \<noteq> []"
proof (induction seen vs rule: validate_pointers.induct)
  case (2 seen v vs)
  then show ?case by (cases v) (auto simp: pointer_parts_def split: if_splits)
qed simp

lemma redact_all_total: "(\<And>p. p \<in> set pointers \<Longrightarrow> pointer_parts p \<noteq> None) \<Longrightarrow> \<exists>w. redact_all v pointers = Some w"
  by (induction v pointers rule: redact_all.induct) (auto split: option.splits)

text \<open>For a valid contract with secret outputs, a response that decodes as JSON is shown as the encoding of a
  value in which every secret pointer reaches nothing or the marker \<open>[redacted]\<close>. A response that does not
  decode is shown as it is.\<close>

theorem output_hides_secrets:
  assumes "contract_validate c = Inr ()" and "ct_secret_outputs c \<noteq> []" and "js_valid J data"
    and "js_decode J data = Some v" and "clone_json J v \<noteq> None" and "\<forall>w. js_encode J w \<noteq> None"
  shows "\<exists>w. js_encode J w = Some (redact_output J data (ct_secret_outputs c)) \<and>
    list_all (\<lambda>p. \<exists>ps. pointer_parts p = Some ps \<and> hidden ps w) (ct_secret_outputs c)"
proof -
  have "validate_pointers {} (ct_secret_inputs c @ ct_secret_outputs c) = Inr ()"
    using assms(1) by (auto simp: contract_validate_def split: if_splits sum.splits)
  then have parts: "\<exists>ps. pointer_parts p = Some ps \<and> ps \<noteq> []" if "p \<in> set (ct_secret_outputs c)" for p
    using validated_pointer that by simp
  obtain v' where v': "clone_json J v = Some v'" using assms(5) by blast
  obtain w where w: "redact_all v' (ct_secret_outputs c) = Some w" using redact_all_total [of "ct_secret_outputs c" v'] parts by fastforce
  obtain out where "js_encode J w = Some out" using assms(6) by blast
  then have "js_encode J w = Some (redact_output J data (ct_secret_outputs c))"
    using assms(2-4) v' w by (simp add: redact_output_def redact_def)
  moreover have "list_all (\<lambda>p. \<exists>ps. pointer_parts p = Some ps \<and> hidden ps w) (ct_secret_outputs c)"
    using parts redact_all_hides [OF w] by (fastforce simp: list_all_iff)
  ultimately show ?thesis by blast
qed

theorem output_hides_secrets_witness:
  "\<exists>w. js_encode sample_json_fun w = Some (redact_output sample_json_fun ''t'' [''/token'']) \<and> hidden [''token''] w"
proof -
  let ?c = "sample_read\<lparr>ct_secret_outputs := [''/token'']\<rparr>"
  have 1: "contract_validate ?c = Inr ()" and 2: "pointer_parts ''/token'' = Some [''token'']" by code_simp+
  have "js_valid sample_json_fun ''t''" "js_decode sample_json_fun ''t'' = Some (JObject [(''token'', JString ''t'')])"
    "\<forall>w. js_encode sample_json_fun w \<noteq> None" "clone_json sample_json_fun (JObject [(''token'', JString ''t'')]) \<noteq> None"
    by (simp_all add: sample_json_fun_def clone_json_def)
  with output_hides_secrets [OF 1 _ this(1,2,4,3)] 2 show ?thesis by auto
qed

lemma redaction_fails_open: "js_decode J data = None \<Longrightarrow> redact_output J data pointers = data"
  by (simp add: redact_output_def)

section \<open>Exit codes\<close>

text \<open>The exit code of an HTTP status is the exit code that the protocol gives to the error the status was made
  from, for every code but two: an invalid request exits as a plain failure, not as a usage error, and a partial
  failure exits as a success.\<close>

theorem exit_codes_agree_iff:
  "exit_for_status (int (http_status code)) = code_exit code \<longleftrightarrow> code \<noteq> CodeInvalid \<and> code \<noteq> CodePartial"
  by (cases code) (simp_all add: exit_for_status_def exit_ok_def exit_failure_def exit_usage_def exit_auth_def
      exit_not_found_def exit_conflict_def exit_unavailable_def exit_partial_def)

end
