(* ===== verification/Auth_Audit.thy ===== *)
theory Auth_Audit
  imports Go_Utf8 Auth_Execution
begin

text \<open>
  The audit events of \<open>auth/audit.go\<close> and the redaction of their details, with the three patterns written as
  functions on bytes.

  A match of a pattern is a number of bytes. The patterns ignore case, so a letter also stands for the other
  characters that fold to it: U+017F for \<open>s\<close> and U+212A for \<open>k\<close>.
\<close>

section \<open>Patterns\<close>

text \<open>The bytes of one character of the text that folds to the lower-case byte \<open>k\<close>.\<close>

definition fold_char :: "char \<Rightarrow> string \<Rightarrow> nat option" where
  "fold_char k s =
     (case s of
        [] \<Rightarrow> None
      | c # r \<Rightarrow>
          if c = k \<or> lower_letter k \<and> byte c + 32 = byte k then Some 1
          else if k = CHR ''s'' \<and> prefix [CHR 0xC5, CHR 0xBF] s then Some 2
          else if k = CHR ''k'' \<and> prefix [CHR 0xE2, CHR 0x84, CHR 0xAA] s then Some 3
          else None)"

fun fold_word :: "string \<Rightarrow> string \<Rightarrow> nat option" where
  "fold_word [] s = Some 0"
| "fold_word (k # ks) s =
     (case fold_char k s of None \<Rightarrow> None | Some n \<Rightarrow> map_option (\<lambda>m. n + m) (fold_word ks (drop n s)))"

definition secret_words :: "string list" where
  "secret_words = [''password'', ''token'', ''secret'', ''credential'', ''authorization'', ''recovery'', ''totp'',
     ''api_key'', ''api-key'', ''apikey'', ''session'']"

fun first_word :: "string list \<Rightarrow> string \<Rightarrow> nat option" where
  "first_word [] s = None"
| "first_word (w # ws) s = (case fold_word w s of Some n \<Rightarrow> Some n | None \<Rightarrow> first_word ws s)"

definition regexp_space :: "char \<Rightarrow> bool" where
  "regexp_space c \<longleftrightarrow> c \<in> {CHR 0x09, CHR 0x0A, CHR 0x0C, CHR 0x0D, CHR 0x20}"

definition skip_spaces :: "string \<Rightarrow> string" where
  "skip_spaces = dropWhile regexp_space"

text \<open>A quoted text without quotes inside, and what follows it.\<close>

definition quoted_rest :: "string \<Rightarrow> string option" where
  "quoted_rest s =
     (case s of
        c # r \<Rightarrow> if c = CHR 0x22 then map_option snd (cut (CHR 0x22) r) else None
      | [] \<Rightarrow> None)"

definition value_rest :: "string \<Rightarrow> string option" where
  "value_rest s =
     (case quoted_rest s of
        Some r \<Rightarrow> Some r
      | None \<Rightarrow> if s \<noteq> [] \<and> \<not> regexp_space (hd s) then Some (dropWhile (\<lambda>c. \<not> regexp_space c) s) else None)"

text \<open>A match at the front of a text: the word and what follows the match.\<close>

definition secret_match :: "string \<Rightarrow> (string \<times> string) option" where
  "secret_match s =
     (case first_word secret_words s of
        None \<Rightarrow> None
      | Some n \<Rightarrow>
          (case skip_spaces (drop n s) of
             c # r \<Rightarrow> if c = CHR ''='' then map_option (\<lambda>t. (take n s, t)) (value_rest (skip_spaces r)) else None
           | [] \<Rightarrow> None))"

definition json_match :: "string \<Rightarrow> (string \<times> string) option" where
  "json_match s =
     (case s of
        [] \<Rightarrow> None
      | q # s1 \<Rightarrow>
          if q \<noteq> CHR 0x22 then None
          else (case first_word secret_words s1 of
              None \<Rightarrow> None
            | Some n \<Rightarrow>
                if \<not> prefix [CHR 0x22] (drop n s1) then None
                else (case skip_spaces (drop (n + 1) s1) of
                    c # r \<Rightarrow> if c = CHR '':'' then map_option (\<lambda>t. (take n s1, t)) (quoted_rest (skip_spaces r)) else None
                  | [] \<Rightarrow> None)))"

text \<open>\<open>ReplaceAllString\<close>: a match at the front is replaced and the search goes on after it.\<close>

lemma quoted_rest_shorter: "quoted_rest s = Some r \<Longrightarrow> length r < length s"
  by (auto simp: quoted_rest_def dest!: cut_Some split: list.splits if_splits)

lemma skip_spaces_le: "length (skip_spaces s) \<le> length s"
  by (simp add: skip_spaces_def length_dropWhile_le)

lemma value_rest_shorter: "value_rest s = Some r \<Longrightarrow> length r < length s"
proof -
  assume a: "value_rest s = Some r"
  have d: "length (dropWhile (\<lambda>c. \<not> regexp_space c) (c # t)) < length (c # t)" if "\<not> regexp_space c" for c t
    using that length_dropWhile_le [of "\<lambda>c. \<not> regexp_space c" t] by simp
  show ?thesis
  proof (cases "quoted_rest s")
    case None
    then show ?thesis using a d by (cases s) (auto simp: value_rest_def split: if_splits simp del: dropWhile.simps)
  next
    case (Some t)
    then show ?thesis using a quoted_rest_shorter by (simp add: value_rest_def)
  qed
qed

lemma secret_match_shorter: "secret_match s = Some (k, r) \<Longrightarrow> length r < length s"
proof -
  assume "secret_match s = Some (k, r)"
  then obtain n c t where "skip_spaces (drop n s) = c # t" and "value_rest (skip_spaces t) = Some r"
    by (auto simp: secret_match_def split: option.splits list.splits if_splits)
  then show ?thesis using skip_spaces_le [of "drop n s"] skip_spaces_le [of t] value_rest_shorter by fastforce
qed

lemma json_match_shorter: "json_match s = Some (k, r) \<Longrightarrow> length r < length s"
proof -
  assume "json_match s = Some (k, r)"
  then obtain q s1 n c t where "s = q # s1" "skip_spaces (drop (n + 1) s1) = c # t" and "quoted_rest (skip_spaces t) = Some r"
    by (auto simp: json_match_def split: option.splits list.splits if_splits)
  then show ?thesis using skip_spaces_le [of "drop (n + 1) s1"] skip_spaces_le [of t] quoted_rest_shorter by fastforce
qed

function redact_secrets :: "string \<Rightarrow> string" where
  "redact_secrets [] = []"
| "redact_secrets (c # s) =
     (case secret_match (c # s) of
        Some (k, r) \<Rightarrow> k @ ''=[redacted]'' @ redact_secrets r
      | None \<Rightarrow> c # redact_secrets s)"
  by pat_completeness auto
termination by (relation "measure length") (auto dest: secret_match_shorter)

function redact_json :: "string \<Rightarrow> string" where
  "redact_json [] = []"
| "redact_json (c # s) =
     (case json_match (c # s) of
        Some (k, r) \<Rightarrow> CHR 0x22 # k @ CHR 0x22 # '': '' @ CHR 0x22 # ''[redacted]'' @ CHR 0x22 # redact_json r
      | None \<Rightarrow> c # redact_json s)"
  by pat_completeness auto
termination by (relation "measure length") (auto dest: json_match_shorter)

definition control_byte :: "char \<Rightarrow> bool" where
  "control_byte c \<longleftrightarrow> byte c < 32 \<or> byte c = 127"

definition redact_audit_detail :: "string \<Rightarrow> string" where
  "redact_audit_detail detail0 =
     (let detail = to_valid False (trim_space detail0);
          detail = filter (\<lambda>c. \<not> control_byte c) detail;
          detail = redact_secrets detail;
          detail = redact_json detail
      in if length detail > 4096 then take 4096 detail @ ''[truncated]'' else detail)"

section \<open>Events\<close>

record audit_event =
  ae_version :: int
  ae_request_id :: string
  ae_action :: string
  ae_target :: string
  ae_outcome :: string
  ae_account :: string
  ae_identity :: string
  ae_remote :: string
  ae_detail :: string
  ae_created :: int

definition new_audit_event :: "int \<Rightarrow> string \<Rightarrow> string \<Rightarrow> string \<Rightarrow> string \<Rightarrow> string \<Rightarrow> string \<Rightarrow> string \<Rightarrow> audit_event" where
  "new_audit_event now request action target account identity remote detail =
     \<lparr>ae_version = 1, ae_request_id = request, ae_action = action, ae_target = target, ae_outcome = audit_outcome action,
      ae_account = account, ae_identity = identity, ae_remote = remote, ae_detail = redact_audit_detail detail, ae_created = now\<rparr>"

section \<open>What is kept in the log\<close>

lemma secret_match_parts: "secret_match s = Some (k, r) \<Longrightarrow> set k \<subseteq> set s \<and> set r \<subseteq> set s"
proof -
  assume "secret_match s = Some (k, r)"
  then obtain n c t where k: "k = take n s" and t: "skip_spaces (drop n s) = c # t" and r: "value_rest (skip_spaces t) = Some r"
    by (auto simp: secret_match_def split: option.splits list.splits if_splits)
  have "set (c # t) \<subseteq> set s" unfolding t [symmetric] skip_spaces_def using set_dropWhileD set_drop_subset by fastforce
  moreover have "set (skip_spaces t) \<subseteq> set t" by (auto simp: skip_spaces_def dest: set_dropWhileD)
  moreover have "set r \<subseteq> set u" if "value_rest u = Some r" for u
    using that by (auto simp: value_rest_def quoted_rest_def dest!: cut_Some dest: set_dropWhileD split: option.splits list.splits if_splits)
  ultimately show ?thesis using r k set_take_subset by (metis set_subset_Cons subset_trans)
qed

lemma json_match_parts: "json_match s = Some (k, r) \<Longrightarrow> set k \<subseteq> set s \<and> set r \<subseteq> set s"
proof -
  assume "json_match s = Some (k, r)"
  then obtain q s1 n c t where s: "s = q # s1" and k: "k = take n s1" and t: "skip_spaces (drop (n + 1) s1) = c # t"
      and r: "quoted_rest (skip_spaces t) = Some r"
    by (auto simp: json_match_def split: option.splits list.splits if_splits)
  have "set (c # t) \<subseteq> set s1" unfolding t [symmetric] skip_spaces_def using set_dropWhileD set_drop_subset by fastforce
  moreover have "set (skip_spaces t) \<subseteq> set t" by (auto simp: skip_spaces_def dest: set_dropWhileD)
  moreover have "set r \<subseteq> set u" if "quoted_rest u = Some r" for u
    using that by (auto simp: quoted_rest_def dest!: cut_Some split: list.splits if_splits)
  ultimately show ?thesis using r k s set_take_subset by (metis set_subset_Cons subset_trans)
qed

lemma redact_secrets_bytes: "list_all P ''=[redacted]'' \<Longrightarrow> list_all P s \<Longrightarrow> list_all P (redact_secrets s)"
proof (induction s rule: redact_secrets.induct)
  case (2 c s)
  show ?case
  proof (cases "secret_match (c # s)")
    case None
    then show ?thesis using 2 by simp
  next
    case (Some kr)
    obtain k r where kr: "kr = (k, r)" by fastforce
    have "list_all P k \<and> list_all P r" using secret_match_parts [of "c # s" k r] Some kr "2.prems"(2) by (auto simp: list_all_iff)
    then show ?thesis using 2 Some kr by simp
  qed
qed simp

lemma redact_json_bytes: "list_all P (CHR 0x22 # '': [redacted]'') \<Longrightarrow> list_all P s \<Longrightarrow> list_all P (redact_json s)"
proof (induction s rule: redact_json.induct)
  case (2 c s)
  show ?case
  proof (cases "json_match (c # s)")
    case None
    then show ?thesis using 2 by simp
  next
    case (Some kr)
    obtain k r where kr: "kr = (k, r)" by fastforce
    have "list_all P k \<and> list_all P r" using json_match_parts [of "c # s" k r] Some kr "2.prems"(2) by (auto simp: list_all_iff)
    then show ?thesis using 2 Some kr by simp
  qed
qed simp

text \<open>The detail of an audit event is one line of bounded length: whatever the client supplied, it has no
  C0 control byte and no DEL, and at most 4107 bytes.\<close>

theorem audit_detail_one_line:
  "list_all (\<lambda>c. \<not> control_byte c) (redact_audit_detail detail) \<and> length (redact_audit_detail detail) \<le> 4107"
proof -
  let ?P = "\<lambda>c. \<not> control_byte c"
  let ?s = "redact_json (redact_secrets (filter ?P (to_valid False (trim_space detail))))"
  have lits: "list_all ?P ''=[redacted]''" "list_all ?P (CHR 0x22 # '': [redacted]'')" "list_all ?P ''[truncated]''"
    by (simp_all add: control_byte_def byte_def)
  have "list_all ?P ?s" by (intro redact_json_bytes redact_secrets_bytes lits) (simp add: list_all_iff)
  then have "list_all ?P (take n ?s)" for n unfolding list_all_iff using set_take_subset by fast
  then show ?thesis using lits(3) \<open>list_all ?P ?s\<close> by (simp add: redact_audit_detail_def Let_def)
qed

text \<open>A secret given as a word is replaced up to the next white space, one in quotes up to the closing quote.\<close>

lemma secrets_hidden_example: "redact_secrets ''Password = x y'' = ''Password=[redacted] y''"
  by code_simp

text \<open>The value ends at the first white space, so what follows the scheme of an authorization stays.\<close>

lemma bearer_kept: "redact_secrets ''authorization=Bearer abc'' = ''authorization=[redacted] abc''"
  by code_simp

text \<open>A quoted value ends at the first quote, also one that JSON escapes.\<close>

lemma escaped_quote_kept:
  "redact_json (CHR 0x22 # ''token'' @ CHR 0x22 # '':'' @ CHR 0x22 # ''a'' @ CHR 0x5C # CHR 0x22 # ''b'') =
     CHR 0x22 # ''token'' @ CHR 0x22 # '': '' @ CHR 0x22 # ''[redacted]'' @ CHR 0x22 # ''b''"
  by code_simp

section \<open>What is left of the first pattern\<close>

text \<open>The bytes of a word: none of them is a blank or the sign that follows the word.\<close>

definition plain :: "char \<Rightarrow> bool" where
  "plain c \<longleftrightarrow> c \<noteq> CHR ''='' \<and> \<not> regexp_space c"

definition word_key :: "char \<Rightarrow> bool" where
  "word_key k \<longleftrightarrow> lower_letter k \<or> k = CHR ''_'' \<or> k = CHR ''-''"

lemma secret_words_keys: "w \<in> set secret_words \<Longrightarrow> w \<noteq> [] \<and> list_all word_key w"
  by (auto simp: secret_words_def word_key_def letter_defs)

lemma plain_key: "word_key k \<Longrightarrow> plain k"
  by (auto simp: word_key_def plain_def regexp_space_def letter_defs)

lemma upper_plain: "lower_letter k \<Longrightarrow> byte c + 32 = byte k \<Longrightarrow> plain c"
  by (auto simp: plain_def regexp_space_def letter_defs byte_def)

lemma fold_char_bytes:
  assumes "fold_char k s = Some n" and "word_key k"
  shows "0 < n" and "n \<le> length s" and "list_all plain (take n s)" and "fold_char k (take n s @ b) = Some n"
proof -
  have "0 < n \<and> n \<le> length s \<and> list_all plain (take n s) \<and> fold_char k (take n s @ b) = Some n"
  proof (cases s)
    case (Cons c r)
    consider "c = k \<or> lower_letter k \<and> byte c + 32 = byte k" "n = 1"
      | "\<not> (c = k \<or> lower_letter k \<and> byte c + 32 = byte k)" "k = CHR ''s''" "prefix [CHR 0xC5, CHR 0xBF] s" "n = 2"
      | "\<not> (c = k \<or> lower_letter k \<and> byte c + 32 = byte k)" "k = CHR ''k''" "prefix [CHR 0xE2, CHR 0x84, CHR 0xAA] s" "n = 3"
      using assms(1) Cons by (auto simp: fold_char_def split: if_splits)
    then show ?thesis
    proof cases
      case 1
      then have "plain c" using assms(2) plain_key upper_plain by blast
      with 1 Cons show ?thesis by (simp add: fold_char_def)
    next
      case 2
      then obtain t where "s = CHR 0xC5 # CHR 0xBF # t" by (auto simp: prefix_def)
      with Cons have "c = CHR 0xC5" "r = CHR 0xBF # t" by simp_all
      with 2 Cons show ?thesis by (simp add: fold_char_def plain_def regexp_space_def)
    next
      case 3
      then obtain t where "s = CHR 0xE2 # CHR 0x84 # CHR 0xAA # t" by (auto simp: prefix_def)
      with Cons have "c = CHR 0xE2" "r = CHR 0x84 # CHR 0xAA # t" by simp_all
      with 3 Cons show ?thesis by (simp add: fold_char_def plain_def regexp_space_def)
    qed
  qed (use assms in \<open>simp add: fold_char_def\<close>)
  then show "0 < n" "n \<le> length s" "list_all plain (take n s)" "fold_char k (take n s @ b) = Some n" by auto
qed

lemma fold_char_key:
  assumes "fold_char j s = Some m" and "fold_char k s = Some n" and "word_key j" and "word_key k"
  shows "j = k \<and> m = n"
proof -
  have d: "byte j = byte k \<Longrightarrow> j = k" by (simp add: byte_def)
  show ?thesis
    using assms d by (cases s) (auto simp: fold_char_def word_key_def letter_defs byte_def split: if_splits)
qed

lemma fold_word_bytes:
  assumes "fold_word w s = Some n" and "list_all word_key w"
  shows "n \<le> length s \<and> list_all plain (take n s) \<and> fold_word w (take n s @ b) = Some n \<and> (w \<noteq> [] \<longrightarrow> 0 < n)"
  using assms
proof (induction w arbitrary: s n)
  case (Cons k ks)
  obtain i m where i: "fold_char k s = Some i" and m: "fold_word ks (drop i s) = Some m" and n: "n = i + m"
    using Cons.prems(1) by (auto split: option.splits)
  have k: "word_key k" and ks: "list_all word_key ks" using Cons.prems(2) by simp_all
  note f = fold_char_bytes [OF i k]
  note ih = Cons.IH [OF m ks]
  have "take n s = take i s @ take m (drop i s)" unfolding n by (simp add: take_add)
  moreover have "fold_word (k # ks) (take i s @ take m (drop i s) @ b) = Some n"
    using f(2,4) ih n by simp
  ultimately show ?case using f(1-3) ih n by auto
qed simp

text \<open>Two words that match at the same place are one a beginning of the other, and no word begins another.\<close>

lemma fold_word_prefix:
  assumes "fold_word v s = Some m" and "fold_word w s = Some n" and "list_all word_key v" and "list_all word_key w"
  shows "prefix v w \<or> prefix w v"
  using assms
proof (induction v arbitrary: w s m n)
  case (Cons j js)
  show ?case
  proof (cases w)
    case (Cons k ks)
    obtain a a' where a: "fold_char j s = Some a" "fold_word js (drop a s) = Some a'"
      using Cons.prems(1) by (auto split: option.splits)
    obtain b b' where b: "fold_char k s = Some b" "fold_word ks (drop b s) = Some b'"
      using Cons.prems(2) \<open>w = k # ks\<close> by (auto split: option.splits)
    have "j = k \<and> a = b" using fold_char_key [OF a(1) b(1)] Cons.prems(3,4) \<open>w = k # ks\<close> by simp
    with Cons.IH [OF a(2), of ks b'] b Cons.prems(3,4) \<open>w = k # ks\<close> show ?thesis by auto
  qed simp
qed simp

lemma secret_words_apart: "list_all (\<lambda>v. list_all (\<lambda>w. prefix v w \<longrightarrow> v = w) secret_words) secret_words"
  by code_simp

lemma secret_words_prefix: "v \<in> set secret_words \<Longrightarrow> w \<in> set secret_words \<Longrightarrow> prefix v w \<Longrightarrow> v = w"
  using secret_words_apart unfolding list_all_iff by blast

lemma first_word_Some:
  "first_word ws s = Some n \<Longrightarrow> \<exists>w \<in> set ws. fold_word w s = Some n"
  by (induction ws) (auto split: option.splits)

lemma first_word_None: "first_word ws s = None \<Longrightarrow> v \<in> set ws \<Longrightarrow> fold_word v s = None"
  by (induction ws) (auto split: option.splits)

lemma first_word_unique:
  assumes "\<And>v w m. v \<in> set ws \<Longrightarrow> fold_word v s = Some n \<Longrightarrow> w \<in> set ws \<Longrightarrow> fold_word w s = Some m \<Longrightarrow> m = n"
    and "v \<in> set ws" and "fold_word v s = Some n"
  shows "first_word ws s = Some n"
proof -
  obtain m where "first_word ws s = Some m" using first_word_None [OF _ assms(2)] assms(3) by fastforce
  with first_word_Some assms show ?thesis by metis
qed

lemma secret_word_front:
  assumes "first_word secret_words s = Some n"
  shows "0 < n" and "n \<le> length s" and "list_all plain (take n s)"
    and "first_word secret_words (take n s @ b) = Some n"
proof -
  obtain w where w: "w \<in> set secret_words" "fold_word w s = Some n" using first_word_Some [OF assms] by blast
  note k = secret_words_keys [OF w(1)]
  note f = fold_word_bytes [OF w(2), of b]
  have "m = i" if "v \<in> set secret_words" "fold_word v t = Some i" "u \<in> set secret_words" "fold_word u t = Some m" for u v t i m
    using fold_word_prefix [OF that(2,4)] secret_words_keys [OF that(1)] secret_words_keys [OF that(3)]
      secret_words_prefix [OF that(1,3)] secret_words_prefix [OF that(3,1)] that(2,4) by auto
  from first_word_unique [OF this w(1)] f k
  show "0 < n" "n \<le> length s" "list_all plain (take n s)" "first_word secret_words (take n s @ b) = Some n" by auto
qed

lemma secret_match_Some:
  assumes "secret_match s = Some (k, r)"
  obtains z q where "s = k @ z" and "k \<noteq> []" and "list_all plain k"
    and "first_word secret_words s = Some (length k)" and "skip_spaces z = CHR ''='' # q"
    and "value_rest (skip_spaces q) = Some r"
proof -
  obtain n q where n: "first_word secret_words s = Some n" "k = take n s" "skip_spaces (drop n s) = CHR ''='' # q"
    "value_rest (skip_spaces q) = Some r"
    using assms by (auto simp: secret_match_def split: option.splits list.splits if_splits)
  note f = secret_word_front [OF n(1)]
  show thesis
    by (rule that [of "drop n s" q]) (use n f in auto)
qed

lemma skip_spaces_hd: "a \<noteq> [] \<Longrightarrow> \<not> regexp_space (hd a) \<Longrightarrow> skip_spaces (a @ b) = a @ b"
  by (cases a) (simp_all add: skip_spaces_def)

lemma skip_spaces_append:
  "skip_spaces a = [] \<Longrightarrow> skip_spaces (a @ b) = skip_spaces b"
  "skip_spaces a = c # q \<Longrightarrow> skip_spaces (a @ b) = c # q @ b"
  unfolding skip_spaces_def by (induction a) (auto split: if_splits)

lemma secret_match_Nil [simp]: "secret_match [] = None"
  by (auto simp: secret_match_def skip_spaces_def split: option.split)

text \<open>A match that reaches over a text up to a word and the sign behind it ends with that word, or its sign
  comes before the word.\<close>

lemma match_before_sign:
  assumes m: "secret_match (u @ k0 @ CHR ''='' # T) = Some (k, t)" and k0: "k0 \<noteq> []" "list_all plain k0"
  obtains "k = u @ k0"
    | n q where "first_word secret_words (u @ k0 @ CHR ''='' # T) = Some n" and "n \<le> length u"
        and "skip_spaces (drop n u @ k0 @ CHR ''='' # T) = CHR ''='' # q @ k0 @ CHR ''='' # T"
        and "skip_spaces (drop n u) = CHR ''='' # q"
proof -
  let ?y = "u @ k0 @ CHR ''='' # T"
  obtain z q where z: "?y = k @ z" "k \<noteq> []" "list_all plain k" "first_word secret_words ?y = Some (length k)"
    "skip_spaces z = CHR ''='' # q"
    using secret_match_Some [OF m] by metis
  have le: "length k \<le> length (u @ k0)"
  proof (rule ccontr)
    assume "\<not> length k \<le> length (u @ k0)"
    then have "k ! length (u @ k0) = ?y ! length (u @ k0)" and "length (u @ k0) < length k"
      unfolding z(1) by (simp_all add: nth_append)
    moreover have "?y ! length (u @ k0) = CHR ''=''"
      using nth_append_length [of "u @ k0" "CHR ''=''" T] by simp
    ultimately have "CHR ''='' \<in> set k" by (metis nth_mem)
    then show False using z(3) by (auto simp: list_all_iff plain_def)
  qed
  have zd: "z = drop (length k) ?y" using z(1) by simp
  consider "length k = length (u @ k0)" | "length u < length k" "length k < length (u @ k0)" | "length k \<le> length u"
    using le by fastforce
  then show thesis
  proof cases
    case 1
    have "k = take (length (u @ k0)) ?y" using z(1) 1 by simp
    then have "k = u @ k0" by simp
    then show thesis by (rule that(1))
  next
    case 2
    let ?v = "drop (length k - length u) k0"
    have v: "?v \<noteq> []" "list_all plain ?v" using 2 k0(2) by (auto simp: list_all_iff dest: in_set_dropD)
    then have h: "plain (hd ?v)" by (cases ?v) auto
    have "z = ?v @ CHR ''='' # T" using zd 2 by simp
    then have "skip_spaces z = ?v @ CHR ''='' # T" using skip_spaces_hd v h by (simp add: plain_def)
    then have "hd ?v = CHR ''=''" using z(5) v by (cases ?v) auto
    then show thesis using h by (simp add: plain_def)
  next
    case 3
    let ?b = "k0 @ CHR ''='' # T"
    have z3: "z = drop (length k) u @ ?b" using zd 3 by simp
    show thesis
    proof (cases "skip_spaces (drop (length k) u)")
      case Nil
      then have "skip_spaces z = skip_spaces ?b" unfolding z3 by (rule skip_spaces_append)
      moreover have "skip_spaces ?b = ?b" using skip_spaces_hd [of k0 "CHR ''='' # T"] k0
        by (cases k0) (auto simp: plain_def)
      ultimately have "hd k0 = CHR ''=''" using z(5) k0(1) by (cases k0) auto
      then show thesis using k0 by (cases k0) (auto simp: plain_def)
    next
      case (Cons c q')
      then have "skip_spaces z = (c # q') @ ?b" unfolding z3 using skip_spaces_append(2) by simp
      with z(5) have "c = CHR ''=''" by simp
      with Cons \<open>skip_spaces z = (c # q') @ ?b\<close> z3 z(4) 3 show thesis by (intro that(2)) auto
    qed
  qed
qed

text \<open>No match starts in the replacement.\<close>

lemma no_match_in_replacement:
  assumes "i < 11"
  shows "secret_match (drop i ''=[redacted]'' @ R) = None"
proof -
  have "i = 0 \<or> i = 1 \<or> i = 2 \<or> i = 3 \<or> i = 4 \<or> i = 5 \<or> i = 6 \<or> i = 7 \<or> i = 8 \<or> i = 9 \<or> i = 10"
    using assms by presburger
  then have "first_word secret_words (drop i ''=[redacted]'' @ R) = None"
    by (elim disjE; hypsubst; simp add: secret_words_def fold_char_def letter_defs byte_def)
  then show ?thesis by (simp add: secret_match_def)
qed

text \<open>The text up to the first match is kept.\<close>

lemma redact_split:
  "\<exists>u s'. s = u @ s' \<and> redact_secrets s = u @ redact_secrets s' \<and> (s' = [] \<or> secret_match s' \<noteq> None)"
proof (induction s rule: redact_secrets.induct)
  case (2 c s)
  show ?case
  proof (cases "secret_match (c # s)")
    case None
    then obtain u s' where "s = u @ s'" "redact_secrets s = u @ redact_secrets s'" "s' = [] \<or> secret_match s' \<noteq> None"
      using 2 by auto
    with None show ?thesis by (intro exI [of _ "c # u"] exI [of _ s']) simp
  next
    case (Some kr)
    then show ?thesis by (intro exI [of _ "[]"] exI [of _ "c # s"]) simp
  qed
qed simp

lemma value_rest_found: "skip_spaces s \<noteq> [] \<Longrightarrow> value_rest (skip_spaces s) \<noteq> None"
  using hd_dropWhile [of regexp_space s] by (auto simp: value_rest_def skip_spaces_def split: option.splits)

lemma skip_spaces_found: "c \<in> set s \<Longrightarrow> \<not> regexp_space c \<Longrightarrow> skip_spaces s \<noteq> []"
  by (auto simp: skip_spaces_def dropWhile_eq_Nil_conv)

text \<open>A word that matches before a kept text matches there in the source too.\<close>

lemma match_in_source:
  assumes w: "first_word secret_words (u @ T) = Some n" and n: "n \<le> length u"
    and q: "skip_spaces (drop n u) = CHR ''='' # q" and z: "c \<in> set z" "\<not> regexp_space c"
  shows "secret_match (u @ z) \<noteq> None"
proof -
  have "first_word secret_words (take n (u @ T) @ drop n u @ z) = Some n"
    using secret_word_front(4) [OF w] .
  then have f: "first_word secret_words (u @ z) = Some n" using n by (simp add: append_assoc [symmetric])
  have "skip_spaces (drop n (u @ z)) = CHR ''='' # q @ z"
    using skip_spaces_append(2) [OF q, of z] n by simp
  moreover have "value_rest (skip_spaces (q @ z)) \<noteq> None"
    using z by (intro value_rest_found skip_spaces_found [of c]) auto
  ultimately show ?thesis using f by (auto simp: secret_match_def)
qed

text \<open>Every place of the redacted text at which the pattern still matches is one that was replaced.\<close>

lemma match_left_is_replaced:
  assumes "redact_secrets s = x @ y" and "secret_match y = Some (k, t)"
  shows "prefix (k @ ''=[redacted]'') y"
  using assms
proof (induction s arbitrary: x y k t rule: redact_secrets.induct)
  case 1
  then show ?case by simp
next
  case (2 c s)
  show ?case
  proof (cases "secret_match (c # s)")
    case None
    then have red: "c # redact_secrets s = x @ y" using "2.prems"(1) by simp
    show ?thesis
    proof (cases x)
      case (Cons a x')
      with red "2.IH"(1) [OF None] "2.prems"(2) show ?thesis by simp
    next
      case Nil
      obtain u s' where u: "s = u @ s'" "redact_secrets s = u @ redact_secrets s'"
        "s' = [] \<or> secret_match s' \<noteq> None"
        using redact_split by blast
      have y: "y = (c # u) @ redact_secrets s'" using red Nil u(2) by simp
      show ?thesis
      proof (cases "s' = []")
        case True
        then have "y = c # s" using y u(1) by simp
        then show ?thesis using None "2.prems"(2) by simp
      next
        case False
        then obtain k0 r0 where k0: "secret_match s' = Some (k0, r0)" using u(3) by auto
        obtain z q where z: "s' = k0 @ z" "k0 \<noteq> []" "list_all plain k0" using secret_match_Some [OF k0] by metis
        obtain b bs where s': "s' = b # bs" using False by (cases s') auto
        then have y': "y = (c # u) @ k0 @ CHR ''='' # ''[redacted]'' @ redact_secrets r0"
          using y k0 by simp
        have m: "secret_match ((c # u) @ k0 @ CHR ''='' # ''[redacted]'' @ redact_secrets r0) = Some (k, t)"
          using "2.prems"(2) y' by simp
        show ?thesis
        proof (rule match_before_sign [OF m z(2,3)])
          assume "k = (c # u) @ k0"
          then show ?thesis using y' by (simp add: prefix_def)
        next
          fix n q
          assume n: "first_word secret_words ((c # u) @ k0 @ CHR ''='' # ''[redacted]'' @ redact_secrets r0) = Some n"
            "n \<le> length (c # u)" "skip_spaces (drop n (c # u)) = CHR ''='' # q"
          have "hd k0 \<in> set s'" "\<not> regexp_space (hd k0)" using z by (cases k0; auto simp: plain_def)+
          with match_in_source [OF n] have "secret_match ((c # u) @ s') \<noteq> None" by blast
          then show ?thesis using None u(1) by simp
        qed
      qed
    qed
  next
    case (Some kr)
    obtain k0 r0 where kr: "kr = (k0, r0)" by fastforce
    obtain z q where z: "c # s = k0 @ z" "k0 \<noteq> []" "list_all plain k0"
      using secret_match_Some Some kr by metis
    let ?R = "redact_secrets r0"
    have red: "k0 @ ''=[redacted]'' @ ?R = x @ y" using "2.prems"(1) Some kr by simp
    then have y: "y = drop (length x) (k0 @ ''=[redacted]'' @ ?R)" by simp
    consider "length x < length k0" | "length k0 \<le> length x" "length x < length k0 + 11" | "length k0 + 11 \<le> length x"
      by linarith
    then show ?thesis
    proof cases
      case 1
      let ?v = "drop (length x) k0"
      have v: "?v \<noteq> []" "list_all plain ?v" using 1 z(3) by (auto simp: list_all_iff dest: in_set_dropD)
      have yv: "y = [] @ ?v @ CHR ''='' # ''[redacted]'' @ ?R" using y 1 by simp
      have m: "secret_match ([] @ ?v @ CHR ''='' # ''[redacted]'' @ ?R) = Some (k, t)"
        using "2.prems"(2) unfolding yv .
      show ?thesis
      proof (rule match_before_sign [OF m v])
        assume "k = [] @ ?v"
        then show ?thesis using yv by (simp add: prefix_def)
      next
        fix n q
        assume "skip_spaces (drop n []) = CHR ''='' # q"
        then show ?thesis by (simp add: skip_spaces_def)
      qed
    next
      case 2
      then have "drop (length x) (k0 @ w @ ?R) = drop (length x - length k0) w @ ?R" if "length w = 11" for w
        using that by simp
      from this [of "''=[redacted]''"] have "y = drop (length x - length k0) ''=[redacted]'' @ ?R"
        unfolding y by simp
      with 2 no_match_in_replacement [of "length x - length k0" ?R] "2.prems"(2) show ?thesis by simp
    next
      case 3
      have "drop (length k0 + 11) (k0 @ w @ ?R) = ?R" if "length w = 11" for w
        using that by simp
      from this [of "''=[redacted]''"] have "?R = drop (length k0 + 11) (x @ y)"
        unfolding red [symmetric] by simp
      with 3 have "?R = drop (length k0 + 11) x @ y" by simp
      with "2.IH"(2) [OF Some kr [symmetric]] "2.prems"(2) show ?thesis by blast
    qed
  qed
qed

section \<open>The patterns as they are written\<close>

text \<open>
  An assignment at the front of a text, read off the pattern
  \<open>(word)\s*=\s*("[^"]*"|[^\s]+)\<close>: the word, blanks, the sign, blanks and the whole value, which is
  a complete quoted text or, where there is none, everything up to the next blank or the end. In
  JSON the word is quoted, the sign a colon and the value always quoted.
\<close>

definition secret_word :: "string \<Rightarrow> bool" where
  "secret_word w \<longleftrightarrow> (\<exists>k \<in> set secret_words. fold_word k w = Some (length w))"

definition quoted :: "string \<Rightarrow> bool" where
  "quoted v \<longleftrightarrow> (\<exists>q. v = CHR 0x22 # q @ [CHR 0x22] \<and> CHR 0x22 \<notin> set q)"

definition whole_value :: "string \<Rightarrow> string \<Rightarrow> bool" where
  "whole_value v r \<longleftrightarrow> quoted v \<or>
     v \<noteq> [] \<and> list_all (\<lambda>c. \<not> regexp_space c) v \<and> (r = [] \<or> regexp_space (hd r)) \<and>
     (\<nexists>v' r'. v @ r = v' @ r' \<and> quoted v')"

definition assigns :: "string \<Rightarrow> string \<Rightarrow> string \<Rightarrow> bool" where
  "assigns s w r \<longleftrightarrow> (\<exists>b1 b2 v. s = w @ b1 @ CHR ''='' # b2 @ v @ r \<and> secret_word w \<and>
     list_all regexp_space b1 \<and> list_all regexp_space b2 \<and> whole_value v r)"

definition json_assigns :: "string \<Rightarrow> string \<Rightarrow> string \<Rightarrow> bool" where
  "json_assigns s w r \<longleftrightarrow> (\<exists>b1 b2 v. s = CHR 0x22 # w @ CHR 0x22 # b1 @ CHR '':'' # b2 @ v @ r \<and> secret_word w \<and>
     list_all regexp_space b1 \<and> list_all regexp_space b2 \<and> quoted v)"

text \<open>A text with every assignment, from the left, replaced by what is shown of its word: a byte is kept
  only where none begins.\<close>

inductive redacts :: "(string \<Rightarrow> string \<Rightarrow> string \<Rightarrow> bool) \<Rightarrow> (string \<Rightarrow> string) \<Rightarrow> string \<Rightarrow> string \<Rightarrow> bool" for A shown where
  RedactsNil: "redacts A shown [] []"
| RedactsKept: "\<nexists>w r. A (c # s) w r \<Longrightarrow> redacts A shown s out \<Longrightarrow> redacts A shown (c # s) (c # out)"
| RedactsShown: "A s w r \<Longrightarrow> redacts A shown r out \<Longrightarrow> redacts A shown s (shown w @ out)"

lemma quoted_rest_iff: "quoted_rest s = Some r \<longleftrightarrow> (\<exists>v. s = v @ r \<and> quoted v)"
proof
  assume "quoted_rest s = Some r"
  then obtain x q where "s = CHR 0x22 # x" "cut (CHR 0x22) x = Some (q, r)"
    by (auto simp: quoted_rest_def split: list.splits if_splits)
  then show "\<exists>v. s = v @ r \<and> quoted v"
    using cut_Some by (intro exI [of _ "CHR 0x22 # q @ [CHR 0x22]"]) (fastforce simp: quoted_def)
next
  assume "\<exists>v. s = v @ r \<and> quoted v"
  then obtain q where "s = CHR 0x22 # q @ CHR 0x22 # r" "CHR 0x22 \<notin> set q" by (auto simp: quoted_def)
  then show "quoted_rest s = Some r" by (simp add: quoted_rest_def cut_append)
qed

lemma value_rest_iff: "value_rest s = Some r \<longleftrightarrow> (\<exists>v. s = v @ r \<and> whole_value v r)"
proof (cases "quoted_rest s")
  case (Some t)
  then obtain v where v: "s = v @ t" "quoted v" by (auto simp: quoted_rest_iff)
  have "r = t" if "s = v' @ r" "quoted v'" for v' using that Some quoted_rest_iff [of s r] by auto
  moreover have "whole_value v' r \<longleftrightarrow> quoted v'" if "s = v' @ r" for v'
    unfolding whole_value_def using that v by metis
  ultimately show ?thesis using Some v by (auto simp: value_rest_def)
next
  case None
  then have n: "\<nexists>v t. s = v @ t \<and> quoted v" using quoted_rest_iff [of s] by auto
  let ?p = "\<lambda>c. \<not> regexp_space c"
  show ?thesis
  proof
    assume "value_rest s = Some r"
    then have s: "s \<noteq> []" "?p (hd s)" "r = dropWhile ?p s" using None by (auto simp: value_rest_def split: if_splits)
    have "r = [] \<or> regexp_space (hd r)" using hd_dropWhile [of ?p s] s(3) by auto
    moreover have "takeWhile ?p s \<noteq> []" using s(1,2) by (cases s) auto
    moreover have "list_all ?p (takeWhile ?p s)" by (auto simp: list_all_iff dest: set_takeWhileD)
    moreover have "s = takeWhile ?p s @ r" using s(3) by simp
    ultimately show "\<exists>v. s = v @ r \<and> whole_value v r"
      using n by (intro exI [of _ "takeWhile ?p s"]) (metis whole_value_def)
  next
    assume "\<exists>v. s = v @ r \<and> whole_value v r"
    then obtain v where v: "s = v @ r" "whole_value v r" by blast
    then have u: "v \<noteq> []" "list_all ?p v" "r = [] \<or> regexp_space (hd r)" using n by (auto simp: whole_value_def)
    have "dropWhile ?p s = dropWhile ?p r" unfolding v(1) using u(2) by (simp add: list_all_iff)
    also have "\<dots> = r" using u(3) by (cases r) auto
    finally show "value_rest s = Some r" using None u v(1) by (cases v) (auto simp: value_rest_def)
  qed
qed

lemma skip_spaces_iff:
  "\<not> regexp_space c \<Longrightarrow> skip_spaces z = c # q \<longleftrightarrow> (\<exists>b. list_all regexp_space b \<and> z = b @ c # q)"
proof
  assume "skip_spaces z = c # q"
  then have "z = takeWhile regexp_space z @ c # q" unfolding skip_spaces_def by (metis takeWhile_dropWhile_id)
  then show "\<exists>b. list_all regexp_space b \<and> z = b @ c # q"
    by (intro exI [of _ "takeWhile regexp_space z"]) (auto simp: list_all_iff dest: set_takeWhileD)
next
  assume "\<not> regexp_space c" and "\<exists>b. list_all regexp_space b \<and> z = b @ c # q"
  then show "skip_spaces z = c # q" by (auto simp: skip_spaces_def list_all_iff)
qed

text \<open>A rest found after skipping blanks, for values that do not begin with one.\<close>

lemma rest_after_spaces:
  assumes "\<And>v. P v \<Longrightarrow> v \<noteq> [] \<and> \<not> regexp_space (hd v)"
    and "\<And>s. f s = Some r \<longleftrightarrow> (\<exists>v. s = v @ r \<and> P v)"
  shows "f (skip_spaces q) = Some r \<longleftrightarrow> (\<exists>b v. q = b @ v @ r \<and> list_all regexp_space b \<and> P v)"
proof
  assume "f (skip_spaces q) = Some r"
  then obtain v where v: "skip_spaces q = v @ r" "P v" using assms(2) by blast
  then have c: "v = hd v # tl v" "\<not> regexp_space (hd v)" using assms(1) by auto
  have "skip_spaces q = hd v # tl v @ r" unfolding v(1) using c(1) by (metis append_Cons)
  then obtain b where "list_all regexp_space b" "q = b @ hd v # tl v @ r"
    unfolding skip_spaces_iff [OF c(2)] by blast
  moreover have "hd v # tl v @ r = v @ r" using c(1) by (metis append_Cons)
  ultimately show "\<exists>b v. q = b @ v @ r \<and> list_all regexp_space b \<and> P v" using v(2) by metis
next
  assume "\<exists>b v. q = b @ v @ r \<and> list_all regexp_space b \<and> P v"
  then obtain b v where v: "q = b @ v @ r" "list_all regexp_space b" "P v" by blast
  then have "skip_spaces q = v @ r"
    using assms(1) [OF v(3)] skip_spaces_iff [of "hd v" q "tl v @ r"] by (cases v) auto
  with v(3) show "f (skip_spaces q) = Some r" using assms(2) by blast
qed

lemma quoted_hd: "quoted v \<Longrightarrow> v \<noteq> [] \<and> \<not> regexp_space (hd v)"
  by (auto simp: quoted_def regexp_space_def)

lemma whole_value_hd: "whole_value v r \<Longrightarrow> v \<noteq> [] \<and> \<not> regexp_space (hd v)"
  by (auto simp: whole_value_def list_all_iff dest: quoted_hd)

lemma first_word_iff: "first_word secret_words s = Some n \<longleftrightarrow> n \<le> length s \<and> secret_word (take n s)"
proof
  assume f: "first_word secret_words s = Some n"
  have "n \<le> length s" by (rule secret_word_front(2) [OF f])
  moreover have "first_word secret_words (take n s @ []) = Some n" by (rule secret_word_front(4) [OF f])
  ultimately show "n \<le> length s \<and> secret_word (take n s)"
    using first_word_Some [of secret_words "take n s" n] by (auto simp: secret_word_def min_def)
next
  assume "n \<le> length s \<and> secret_word (take n s)"
  then obtain k where k: "k \<in> set secret_words" "fold_word k (take n s) = Some n"
    by (auto simp: secret_word_def min_def)
  have "fold_word k (take n (take n s) @ drop n s) = Some n"
    using fold_word_bytes [OF k(2)] secret_words_keys [OF k(1)] by blast
  then have f: "fold_word k s = Some n" by simp
  obtain m where m: "first_word secret_words s = Some m"
    using first_word_None [OF _ k(1), of s] f by fastforce
  then obtain w where w: "w \<in> set secret_words" "fold_word w s = Some m" using first_word_Some by blast
  have "prefix w k \<or> prefix k w"
    using fold_word_prefix [OF w(2) f] secret_words_keys w(1) k(1) by blast
  then have "w = k" using secret_words_prefix w(1) k(1) by blast
  with w(2) f m show "first_word secret_words s = Some n" by simp
qed

lemma secret_match_iff: "secret_match s = Some (w, r) \<longleftrightarrow> assigns s w r"
proof -
  have "secret_match s = Some (w, r) \<longleftrightarrow> (\<exists>n q. first_word secret_words s = Some n \<and> w = take n s \<and>
      skip_spaces (drop n s) = CHR ''='' # q \<and> value_rest (skip_spaces q) = Some r)"
    by (auto simp: secret_match_def split: option.split list.split)
  also have "\<dots> \<longleftrightarrow> (\<exists>z q. s = w @ z \<and> secret_word w \<and> skip_spaces z = CHR ''='' # q \<and> value_rest (skip_spaces q) = Some r)"
  proof
    assume "\<exists>n q. first_word secret_words s = Some n \<and> w = take n s \<and>
      skip_spaces (drop n s) = CHR ''='' # q \<and> value_rest (skip_spaces q) = Some r"
    then show "\<exists>z q. s = w @ z \<and> secret_word w \<and> skip_spaces z = CHR ''='' # q \<and> value_rest (skip_spaces q) = Some r"
      using first_word_iff by (metis append_take_drop_id)
  next
    assume "\<exists>z q. s = w @ z \<and> secret_word w \<and> skip_spaces z = CHR ''='' # q \<and> value_rest (skip_spaces q) = Some r"
    then show "\<exists>n q. first_word secret_words s = Some n \<and> w = take n s \<and>
      skip_spaces (drop n s) = CHR ''='' # q \<and> value_rest (skip_spaces q) = Some r"
      by (elim exE conjE, intro exI [of _ "length w"] exI) (auto simp: first_word_iff)
  qed
  also have "\<dots> \<longleftrightarrow> assigns s w r"
    using skip_spaces_iff [of "CHR ''=''"] rest_after_spaces [of "\<lambda>v. whole_value v r" value_rest r, OF whole_value_hd value_rest_iff]
    by (fastforce simp: assigns_def regexp_space_def)
  finally show ?thesis .
qed

lemma json_match_iff: "json_match s = Some (w, r) \<longleftrightarrow> json_assigns s w r"
proof -
  have "json_match s = Some (w, r) \<longleftrightarrow> (\<exists>s1 n q. s = CHR 0x22 # s1 \<and> first_word secret_words s1 = Some n \<and>
      w = take n s1 \<and> prefix [CHR 0x22] (drop n s1) \<and> skip_spaces (drop (n + 1) s1) = CHR '':'' # q \<and>
      quoted_rest (skip_spaces q) = Some r)"
  proof (cases s)
    case (Cons a s1)
    then show ?thesis
      by (cases "first_word secret_words s1") (auto simp: json_match_def split: option.split list.split)
  qed (simp add: json_match_def)
  also have "\<dots> \<longleftrightarrow> (\<exists>z q. s = CHR 0x22 # w @ CHR 0x22 # z \<and> secret_word w \<and> skip_spaces z = CHR '':'' # q \<and>
      quoted_rest (skip_spaces q) = Some r)"
  proof
    assume "\<exists>s1 n q. s = CHR 0x22 # s1 \<and> first_word secret_words s1 = Some n \<and>
      w = take n s1 \<and> prefix [CHR 0x22] (drop n s1) \<and> skip_spaces (drop (n + 1) s1) = CHR '':'' # q \<and>
      quoted_rest (skip_spaces q) = Some r"
    then obtain s1 n q where h: "s = CHR 0x22 # s1" "first_word secret_words s1 = Some n" "w = take n s1"
      "prefix [CHR 0x22] (drop n s1)" "skip_spaces (drop (n + 1) s1) = CHR '':'' # q"
      "quoted_rest (skip_spaces q) = Some r"
      by blast
    obtain z where z: "drop n s1 = CHR 0x22 # z" using h(4) by (auto simp: prefix_def)
    have d: "drop (n + 1) s1 = drop 1 (drop n s1)" by simp
    have sp: "skip_spaces z = CHR '':'' # q" using h(5) unfolding d z by simp
    have "s = CHR 0x22 # w @ CHR 0x22 # z" unfolding h(1,3) using append_take_drop_id [of n s1] z by simp
    moreover have "secret_word w" using h(2) unfolding h(3) by (simp only: first_word_iff)
    ultimately show "\<exists>z q. s = CHR 0x22 # w @ CHR 0x22 # z \<and> secret_word w \<and> skip_spaces z = CHR '':'' # q \<and>
      quoted_rest (skip_spaces q) = Some r"
      using sp h(6) by blast
  next
    assume "\<exists>z q. s = CHR 0x22 # w @ CHR 0x22 # z \<and> secret_word w \<and> skip_spaces z = CHR '':'' # q \<and>
      quoted_rest (skip_spaces q) = Some r"
    then show "\<exists>s1 n q. s = CHR 0x22 # s1 \<and> first_word secret_words s1 = Some n \<and>
      w = take n s1 \<and> prefix [CHR 0x22] (drop n s1) \<and> skip_spaces (drop (n + 1) s1) = CHR '':'' # q \<and>
      quoted_rest (skip_spaces q) = Some r"
      by (elim exE conjE, intro exI [of _ "tl s"] exI [of _ "length w"] exI) (auto simp: first_word_iff)
  qed
  also have "\<dots> \<longleftrightarrow> json_assigns s w r"
    using skip_spaces_iff [of "CHR '':''"] rest_after_spaces [of quoted quoted_rest r, OF quoted_hd quoted_rest_iff]
    by (fastforce simp: json_assigns_def regexp_space_def)
  finally show ?thesis .
qed

definition show_secret :: "string \<Rightarrow> string" where
  "show_secret w = w @ ''=[redacted]''"

definition show_json :: "string \<Rightarrow> string" where
  "show_json w = CHR 0x22 # w @ CHR 0x22 # '': '' @ CHR 0x22 # ''[redacted]'' @ [CHR 0x22]"

lemma redact_secrets_redacts: "redacts assigns show_secret s (redact_secrets s)"
proof (induction s rule: redact_secrets.induct)
  case (2 c s)
  show ?case
  proof (cases "secret_match (c # s)")
    case None
    then have "\<nexists>w r. assigns (c # s) w r" using secret_match_iff [of "c # s"] by simp
    from RedactsKept [where A = assigns, OF this "2.IH"(1) [OF None]] None show ?thesis by simp
  next
    case (Some kr)
    obtain k r where kr: "kr = (k, r)" by fastforce
    then have "assigns (c # s) k r" using Some secret_match_iff by simp
    from RedactsShown [where A = assigns, OF this "2.IH"(2) [OF Some kr [symmetric]]] Some kr
    show ?thesis by (simp add: show_secret_def)
  qed
qed (simp add: RedactsNil)

lemma redact_json_redacts: "redacts json_assigns show_json s (redact_json s)"
proof (induction s rule: redact_json.induct)
  case (2 c s)
  show ?case
  proof (cases "json_match (c # s)")
    case None
    then have "\<nexists>w r. json_assigns (c # s) w r" using json_match_iff [of "c # s"] by simp
    from RedactsKept [where A = json_assigns, OF this "2.IH"(1) [OF None]] None show ?thesis by simp
  next
    case (Some kr)
    obtain k r where kr: "kr = (k, r)" by fastforce
    then have "json_assigns (c # s) k r" using Some json_match_iff by simp
    from RedactsShown [where A = json_assigns, OF this "2.IH"(2) [OF Some kr [symmetric]]] Some kr
    show ?thesis by (simp add: show_json_def)
  qed
qed (simp add: RedactsNil)

text \<open>C25. What \<open>RedactAuditDetail\<close> leaves of a detail: of the valid UTF-8 text without control characters,
  every assignment to a secret word, from the left, is replaced as a whole, the word kept and the
  value gone up to its closing quote, or up to the next blank or the end when it is not quoted;
  then every quoted JSON member with a secret name and a quoted value likewise; nothing else
  changes, and the result is cut to 4096 bytes. In the result of the first pass the only places
  that still read as an assignment are the replaced ones. A secret that has blanks and is not
  quoted, or holds an escaped quote, is hidden only up to there.\<close>

theorem assigned_secrets_replaced:
  assumes "clean = filter (\<lambda>c. \<not> control_byte c) (to_valid False (trim_space detail))"
  shows "\<exists>first out. redacts assigns show_secret clean first \<and> redacts json_assigns show_json first out \<and>
    redact_audit_detail detail = (if length out > 4096 then take 4096 out @ ''[truncated]'' else out) \<and>
    (\<forall>x y w r. first = x @ y \<and> assigns y w r \<longrightarrow> prefix (show_secret w) y)"
proof (intro exI conjI allI impI)
  show "redacts assigns show_secret clean (redact_secrets clean)" by (rule redact_secrets_redacts)
  show "redacts json_assigns show_json (redact_secrets clean) (redact_json (redact_secrets clean))"
    by (rule redact_json_redacts)
  show "redact_audit_detail detail = (if length (redact_json (redact_secrets clean)) > 4096
      then take 4096 (redact_json (redact_secrets clean)) @ ''[truncated]'' else redact_json (redact_secrets clean))"
    unfolding assms redact_audit_detail_def Let_def ..
  show "prefix (show_secret w) y" if "redact_secrets clean = x @ y \<and> assigns y w r" for x y w r
    using that match_left_is_replaced [of clean x y w r] by (simp add: secret_match_iff show_secret_def)
qed

lemma assigned_secrets_replaced_witness:
  "\<exists>first out. redacts assigns show_secret ''id=7 Password = x session=y'' first \<and> redacts json_assigns show_json first out \<and>
    redact_audit_detail ''id=7 Password = x session=y'' = (if length out > 4096 then take 4096 out @ ''[truncated]'' else out)"
proof -
  have "''id=7 Password = x session=y'' =
      filter (\<lambda>c. \<not> control_byte c) (to_valid False (trim_space ''id=7 Password = x session=y''))"
    by code_simp
  from assigned_secrets_replaced [OF this] show ?thesis by blast
qed

lemma audit_detail_example:
  "redact_audit_detail ''id=7 Password = x session=y'' = ''id=7 Password=[redacted] session=[redacted]''"
  by code_simp

end
