(* ===== verification/Surface_Inventory.thy ===== *)
theory Surface_Inventory
  imports Go_Base
begin

text \<open>
  The scanner of \<open>cmd/surface-inventory/main.go\<close>: the walk over a repository, the endpoints and commands that
  its files show, and the rows of the report.

  The submatches of the four patterns are the fields of \<open>scan\<close>. A repository is a tree whose entries are in
  the order of the walk; \<open>None\<close> is a directory or a file that cannot be read.
\<close>

section \<open>Findings of a file\<close>

record scan =
  sc_routes :: "string \<Rightarrow> (string \<times> string) list"
  sc_paths :: "string \<Rightarrow> string list"
  sc_literals :: "string \<Rightarrow> string list"
  sc_commands :: "string \<Rightarrow> string list"

record found_endpoint =
  fe_methods :: "string list"
  fe_sources :: "string list"
  fe_website :: bool

text \<open>A Go set, a map to \<open>true\<close>, is a list without repetitions.\<close>

definition put :: "'a \<Rightarrow> 'a list \<Rightarrow> 'a list" where
  "put x xs = (if x \<in> set xs then xs else xs @ [x])"

fun add_endpoint :: "(string \<times> found_endpoint) list \<Rightarrow> string \<Rightarrow> string \<Rightarrow> string \<Rightarrow> bool \<Rightarrow> (string \<times> found_endpoint) list" where
  "add_endpoint [] path meth source website = [(path, \<lparr>fe_methods = [meth], fe_sources = [source], fe_website = website\<rparr>)]"
| "add_endpoint ((p, f) # all) path meth source website =
     (if p = path then
        (p, \<lparr>fe_methods = put meth (fe_methods f), fe_sources = put source (fe_sources f), fe_website = fe_website f \<or> website\<rparr>) # all
      else (p, f) # add_endpoint all path meth source website)"

record inventory =
  iy_endpoints :: "(string \<times> found_endpoint) list"
  iy_commands :: "string list"
  iy_evidence :: "string list"

definition note_endpoint :: "string \<Rightarrow> bool \<Rightarrow> bool \<Rightarrow> inventory \<Rightarrow> string \<times> string \<Rightarrow> inventory" where
  "note_endpoint rel website proves y mp =
     y\<lparr>iy_endpoints := add_endpoint (iy_endpoints y) (snd mp) (fst mp) rel website,
       iy_evidence := (if proves then put rel (iy_evidence y) else iy_evidence y)\<rparr>"

definition scan_file :: "scan \<Rightarrow> string \<Rightarrow> string \<Rightarrow> string \<Rightarrow> inventory \<Rightarrow> inventory" where
  "scan_file S ext rel body y =
     (let website = (ext = ''.js'' \<or> ext = ''.html'');
          y = foldl (note_endpoint rel website True) y (sc_routes S body);
          y = foldl (note_endpoint rel website True) y (map (\<lambda>p. (''ANY'', p)) (sc_paths S body));
          y = foldl (note_endpoint rel website website) y
                (map (\<lambda>p. (''ANY'', p)) (filter (\<lambda>p. \<not> (suffix ''/'' p \<or> p = ''/api/'')) (sc_literals S body)))
      in if ext = ''.go'' \<and> (str_contains rel ''/cmd/'' \<or> prefix ''cmd/'' rel)
         then y\<lparr>iy_commands := foldl (\<lambda>cs c. put c cs) (iy_commands y) (sc_commands S body)\<rparr> else y)"

section \<open>The walk\<close>

datatype tree = File string "string option" | Dir string "tree list option"

text \<open>\<open>filepath.Ext\<close> of a name: from its last dot.\<close>

definition extension :: "string \<Rightarrow> string" where
  "extension name =
     (if CHR ''.'' \<in> set name then CHR ''.'' # rev (takeWhile (\<lambda>c. c \<noteq> CHR ''.'') (rev name)) else [])"

definition skipped_dirs :: "string list" where
  "skipped_dirs = [''.git'', ''vendor'', ''node_modules'']"

definition below_dir :: "string \<Rightarrow> string \<Rightarrow> string" where
  "below_dir dir name = (if dir = [] then name else dir @ CHR ''/'' # name)"

text \<open>\<open>full\<close> is the path of the root, which the test for tests reads; \<open>rel\<close> the path under it. \<open>None\<close> is an error.\<close>

fun walk :: "scan \<Rightarrow> string \<Rightarrow> string \<Rightarrow> tree \<Rightarrow> inventory \<Rightarrow> inventory option"
  and walk_all :: "scan \<Rightarrow> string \<Rightarrow> string \<Rightarrow> tree list \<Rightarrow> inventory \<Rightarrow> inventory option" where
  "walk S full rel (Dir name entries) y =
     (if name \<in> set skipped_dirs then Some y
      else (case entries of None \<Rightarrow> None | Some es \<Rightarrow> walk_all S full (below_dir rel name) es y))"
| "walk S full rel (File name content) y =
     (let path = below_dir rel name; ext = extension name
      in if ext \<notin> set [''.go'', ''.js'', ''.html''] then Some y
         else if suffix ''_test.go'' path \<or> str_contains (full @ CHR ''/'' # path) ''/tests/'' then Some y
         else (case content of None \<Rightarrow> None | Some body \<Rightarrow> Some (scan_file S ext path body y)))"
| "walk_all S full rel [] y = Some y"
| "walk_all S full rel (e # es) y = Option.bind (walk S full rel e y) (walk_all S full rel es)"

section \<open>The report\<close>

record inventory_row =
  ir_method :: string
  ir_path :: string
  ir_sources :: "string list"
  ir_website :: bool
  ir_cli :: bool
  ir_class :: string
  ir_automation :: string

definition keys :: "string list \<Rightarrow> string list" where
  "keys vs = sort vs"

definition classification :: "string \<Rightarrow> string \<Rightarrow> string" where
  "classification meth path =
     (if meth = ''DELETE'' \<or> str_contains path ''reset'' \<or> str_contains path ''revoke'' \<or> str_contains path ''unpair'' then ''destructive''
      else if meth = ''ANY'' then ''unresolved''
      else if meth \<noteq> ''GET'' \<and> meth \<noteq> ''HEAD'' \<and> meth \<noteq> ''OPTIONS'' then ''mutation''
      else ''read'')"

definition automation_of :: "string \<Rightarrow> string" where
  "automation_of path =
     (if str_contains path ''/callback'' \<or> str_contains path ''/oauth/'' \<or> path = ''/api/analytics/event''
      then ''browser-or-protocol-exception'' else ''missing'')"

definition row_methods :: "found_endpoint \<Rightarrow> string list" where
  "row_methods f =
     (let methods = keys (fe_methods f)
      in if length methods > 1 then filter (\<lambda>m. m \<noteq> ''ANY'') methods else methods)"

definition rows_of :: "string \<times> found_endpoint \<Rightarrow> inventory_row list" where
  "rows_of pf =
     map (\<lambda>m. \<lparr>ir_method = m, ir_path = fst pf, ir_sources = keys (fe_sources (snd pf)), ir_website = fe_website (snd pf),
                ir_cli = False, ir_class = classification m (fst pf), ir_automation = automation_of (fst pf)\<rparr>)
       (row_methods (snd pf))"

definition row_key :: "inventory_row \<Rightarrow> string list" where
  "row_key r = [ir_path r, ir_method r]"

record inventory_report =
  rp_project :: string
  rp_repository :: string
  rp_evidence :: "string list"
  rp_commands :: "string list"
  rp_endpoints :: "inventory_row list"

definition inspect :: "scan \<Rightarrow> string \<Rightarrow> string \<Rightarrow> string \<Rightarrow> tree list option \<Rightarrow> inventory_report option" where
  "inspect S full name repository entries =
     (case entries of
        None \<Rightarrow> None
      | Some es \<Rightarrow>
          (case walk_all S full [] es \<lparr>iy_endpoints = [], iy_commands = [], iy_evidence = []\<rparr> of
             None \<Rightarrow> None
           | Some y \<Rightarrow>
               Some \<lparr>rp_project = name, rp_repository = repository, rp_evidence = keys (iy_evidence y),
                     rp_commands = keys (iy_commands y), rp_endpoints = sort_key row_key (concat (map rows_of (iy_endpoints y)))\<rparr>))"

section \<open>What is observed\<close>

text \<open>The files a walk reads, and the pairs of a method and a path that a file shows.\<close>

fun visited :: "string \<Rightarrow> string \<Rightarrow> tree \<Rightarrow> (string \<times> string) list option"
  and visited_all :: "string \<Rightarrow> string \<Rightarrow> tree list \<Rightarrow> (string \<times> string) list option" where
  "visited full rel (Dir name entries) =
     (if name \<in> set skipped_dirs then Some []
      else (case entries of None \<Rightarrow> None | Some es \<Rightarrow> visited_all full (below_dir rel name) es))"
| "visited full rel (File name content) =
     (let path = below_dir rel name
      in if extension name \<notin> set [''.go'', ''.js'', ''.html''] \<or> suffix ''_test.go'' path \<or> str_contains (full @ CHR ''/'' # path) ''/tests/''
         then Some [] else map_option (\<lambda>body. [(path, body)]) content)"
| "visited_all full rel [] = Some []"
| "visited_all full rel (e # es) =
     (case (visited full rel e, visited_all full rel es) of (Some xs, Some ys) \<Rightarrow> Some (xs @ ys) | _ \<Rightarrow> None)"

definition file_pairs :: "scan \<Rightarrow> string \<Rightarrow> (string \<times> string) set" where
  "file_pairs S body =
     set (sc_routes S body) \<union> Pair ''ANY'' ` (set (sc_paths S body) \<union> {p \<in> set (sc_literals S body). \<not> suffix ''/'' p})"

definition observed :: "scan \<Rightarrow> (string \<times> string) list \<Rightarrow> (string \<times> string) set" where
  "observed S files = (\<Union>f \<in> set files. file_pairs S (snd f))"

text \<open>The pairs an inventory holds, and its form: paths and methods without repetitions.\<close>

definition pairs :: "(string \<times> found_endpoint) list \<Rightarrow> (string \<times> string) set" where
  "pairs all = {(m, p). \<exists>f. (p, f) \<in> set all \<and> m \<in> set (fe_methods f)}"

definition endpoints_ok :: "(string \<times> found_endpoint) list \<Rightarrow> bool" where
  "endpoints_ok all \<longleftrightarrow> distinct (map fst all) \<and> list_all (\<lambda>(p, f). distinct (fe_methods f)) all"

lemma add_endpoint_paths: "fst ` set (add_endpoint all path meth source website) = insert path (fst ` set all)"
  by (induction all path meth source website rule: add_endpoint.induct) auto

lemma add_endpoint_ok: "endpoints_ok all \<Longrightarrow> endpoints_ok (add_endpoint all path meth source website)"
proof (induction all path meth source website rule: add_endpoint.induct)
  case (2 p f all path meth source website)
  then show ?case using add_endpoint_paths [of all path meth source website]
    by (auto simp: endpoints_ok_def put_def)
qed (simp add: endpoints_ok_def)

lemma pairs_Cons: "pairs ((p, f) # all) = (\<lambda>m. (m, p)) ` set (fe_methods f) \<union> pairs all"
  by (auto simp: pairs_def)

lemma add_endpoint_pairs: "pairs (add_endpoint all path meth source website) = insert (meth, path) (pairs all)"
proof (induction all path meth source website rule: add_endpoint.induct)
  case (1 path meth source website)
  then show ?case by (simp add: pairs_Cons)
next
  case (2 p f all path meth source website)
  then show ?case by (auto simp: pairs_Cons put_def)
qed

lemma note_all:
  assumes "endpoints_ok (iy_endpoints y)"
  shows "endpoints_ok (iy_endpoints (foldl (note_endpoint rel website proves) y mps)) \<and>
    pairs (iy_endpoints (foldl (note_endpoint rel website proves) y mps)) = pairs (iy_endpoints y) \<union> set mps"
  using assms
  by (induction mps arbitrary: y) (auto simp: note_endpoint_def add_endpoint_ok add_endpoint_pairs)

lemma scan_file_pairs:
  assumes "endpoints_ok (iy_endpoints y)"
  shows "endpoints_ok (iy_endpoints (scan_file S ext rel body y)) \<and>
    pairs (iy_endpoints (scan_file S ext rel body y)) = pairs (iy_endpoints y) \<union> file_pairs S body"
proof -
  have "suffix ''/'' ''/api/''" by code_simp
  then have "{p \<in> set (sc_literals S body). \<not> (suffix ''/'' p \<or> p = ''/api/'')} = {p \<in> set (sc_literals S body). \<not> suffix ''/'' p}" by auto
  then show ?thesis using assms note_all by (auto simp: scan_file_def file_pairs_def Let_def)
qed

lemma walk_pairs:
  "walk S full rel e y = Some y' \<Longrightarrow> endpoints_ok (iy_endpoints y) \<Longrightarrow>
    endpoints_ok (iy_endpoints y') \<and> (\<exists>files. visited full rel e = Some files \<and> pairs (iy_endpoints y') = pairs (iy_endpoints y) \<union> observed S files)"
  "walk_all S full rel es y = Some y' \<Longrightarrow> endpoints_ok (iy_endpoints y) \<Longrightarrow>
    endpoints_ok (iy_endpoints y') \<and> (\<exists>files. visited_all full rel es = Some files \<and> pairs (iy_endpoints y') = pairs (iy_endpoints y) \<union> observed S files)"
proof (induction S full rel e y and S full rel es y arbitrary: y' and y' rule: walk_walk_all.induct)
  case (2 S full rel name content y)
  then show ?case
    using scan_file_pairs [of y S "extension name" "below_dir rel name"] by (auto simp: Let_def observed_def split: if_splits option.splits)
next
  case (4 S full rel e es y)
  from "4.prems"(1) obtain y1 where y1: "walk S full rel e y = Some y1" "walk_all S full rel es y1 = Some y'"
    by (auto simp: bind_eq_Some_conv)
  from "4.IH"(1) [OF y1(1) "4.prems"(2)] obtain f1 where f1: "endpoints_ok (iy_endpoints y1)" "visited full rel e = Some f1"
    "pairs (iy_endpoints y1) = pairs (iy_endpoints y) \<union> observed S f1" by blast
  from "4.IH"(2) [OF y1(1) y1(2) f1(1)] obtain f2 where f2: "endpoints_ok (iy_endpoints y')" "visited_all full rel es = Some f2"
    "pairs (iy_endpoints y') = pairs (iy_endpoints y1) \<union> observed S f2" by blast
  then show ?case using f1 by (auto simp: observed_def)
qed (auto simp: observed_def split: if_splits option.splits)

section \<open>The rows\<close>

lemma row_methods_distinct: "distinct (fe_methods f) \<Longrightarrow> distinct (row_methods f)"
  by (simp add: row_methods_def keys_def Let_def)

lemma row_methods_set: "set (row_methods f) = {m \<in> set (fe_methods f). m \<noteq> ''ANY'' \<or> length (fe_methods f) \<le> 1}"
  by (auto simp: row_methods_def keys_def Let_def)

lemma single_method: "distinct ms \<Longrightarrow> m \<in> set ms \<Longrightarrow> length ms \<le> 1 \<longleftrightarrow> (\<forall>k \<in> set ms. k = m)"
  by (cases ms rule: remdups_adj.cases) auto

lemma rows_distinct: "endpoints_ok all \<Longrightarrow> distinct (map row_key (concat (map rows_of all)))"
proof (induction all)
  case (Cons pf all)
  obtain p f where pf: "pf = (p, f)" by fastforce
  have "ir_path r \<in> fst ` set all" if "r \<in> set (concat (map rows_of all))" for r
    using that by (force simp: rows_of_def)
  moreover have "p \<notin> fst ` set all" and "distinct (row_methods f)" and "endpoints_ok all"
    using Cons.prems pf row_methods_distinct by (auto simp: endpoints_ok_def)
  moreover have "map row_key (rows_of pf) = map (\<lambda>m. [p, m]) (row_methods f)" by (simp add: rows_of_def pf row_key_def comp_def)
  moreover have "distinct (map (\<lambda>m. [p, m]) (row_methods f))" using \<open>distinct (row_methods f)\<close> by (simp add: distinct_map inj_on_def)
  moreover have "set (map (\<lambda>m. [p, m]) (row_methods f)) \<inter> set (map row_key (concat (map rows_of all))) = {}"
    using \<open>p \<notin> fst ` set all\<close> \<open>\<And>r. r \<in> set (concat (map rows_of all)) \<Longrightarrow> ir_path r \<in> fst ` set all\<close>
    by (fastforce simp: row_key_def)
  ultimately show ?case using Cons.IH by (simp only: list.map concat.simps map_append distinct_append)
qed simp

lemma image_pairs:
  assumes "\<And>m q. (\<exists>x \<in> A. f x = m \<and> g x = q) \<longleftrightarrow> P m q"
  shows "(\<lambda>x. (f x, g x)) ` A = {(m, q). P m q}"
proof -
  have "(m, q) \<in> (\<lambda>x. (f x, g x)) ` A \<longleftrightarrow> P m q" for m q unfolding assms [symmetric] by auto
  then show ?thesis by auto
qed

text \<open>The endpoints of a report are strictly sorted by path and method, and they are exactly what the files
  of the walk show: a pair of a method and a path is a row when some file has it, but \<open>ANY\<close> only where no
  file gives the path a method.\<close>

theorem inventory_complete:
  assumes "inspect S full name repository (Some es) = Some r"
  shows "\<exists>files. visited_all full [] es = Some files \<and> sorted_wrt (<) (map row_key (rp_endpoints r)) \<and>
    (\<lambda>x. (ir_method x, ir_path x)) ` set (rp_endpoints r) =
      {(m, p). (m, p) \<in> observed S files \<and> (m = ''ANY'' \<longrightarrow> (\<forall>k. (k, p) \<in> observed S files \<longrightarrow> k = ''ANY''))}"
proof -
  let ?y0 = "\<lparr>iy_endpoints = [], iy_commands = [], iy_evidence = []\<rparr>"
  obtain y where w: "walk_all S full [] es ?y0 = Some y"
    and rows: "rp_endpoints r = sort_key row_key (concat (map rows_of (iy_endpoints y)))"
    using assms by (auto simp: inspect_def split: option.splits)
  have "endpoints_ok (iy_endpoints ?y0)" by (simp add: endpoints_ok_def)
  from walk_pairs(2) [OF w this] obtain files where ok: "endpoints_ok (iy_endpoints y)" and v: "visited_all full [] es = Some files"
    and p: "pairs (iy_endpoints y) = observed S files" by (auto simp: pairs_def)
  have "distinct (map row_key (rp_endpoints r))"
    using rows_distinct [OF ok] by (simp add: rows distinct_map)
  then have sorted: "sorted_wrt (<) (map row_key (rp_endpoints r))"
    by (simp add: strict_sorted_iff rows)
  have unique: "f = g" if "(q, f) \<in> set (iy_endpoints y)" "(q, g) \<in> set (iy_endpoints y)" for q f g
    using ok that by (auto simp: endpoints_ok_def dest: eq_key_imp_eq_value)
  have "(\<exists>x \<in> set (rp_endpoints r). ir_method x = m \<and> ir_path x = q) \<longleftrightarrow> (\<exists>f. (q, f) \<in> set (iy_endpoints y) \<and> m \<in> set (row_methods f))" for m q
    by (force simp: rows rows_of_def)
  moreover have "(\<exists>f. (q, f) \<in> set (iy_endpoints y) \<and> m \<in> set (row_methods f)) \<longleftrightarrow>
      (m, q) \<in> observed S files \<and> (m = ''ANY'' \<longrightarrow> (\<forall>k. (k, q) \<in> observed S files \<longrightarrow> k = ''ANY''))" for m q
  proof (cases "\<exists>f. (q, f) \<in> set (iy_endpoints y)")
    case True
    then obtain f where f: "(q, f) \<in> set (iy_endpoints y)" by blast
    have d: "distinct (fe_methods f)" using ok f by (auto simp: endpoints_ok_def list_all_iff)
    have o: "(k, q) \<in> observed S files \<longleftrightarrow> k \<in> set (fe_methods f)" for k
      unfolding p [symmetric] pairs_def using f unique by blast
    have "(\<exists>f. (q, f) \<in> set (iy_endpoints y) \<and> m \<in> set (row_methods f)) \<longleftrightarrow> m \<in> set (row_methods f)" using f unique by blast
    then show ?thesis unfolding o row_methods_set using single_method [OF d, of m] by auto
  qed (auto simp: p [symmetric] pairs_def)
  ultimately have "(\<exists>x \<in> set (rp_endpoints r). ir_method x = m \<and> ir_path x = q) \<longleftrightarrow>
      (m, q) \<in> observed S files \<and> (m = ''ANY'' \<longrightarrow> (\<forall>k. (k, q) \<in> observed S files \<longrightarrow> k = ''ANY''))" for m q
    by simp
  then have "(\<lambda>x. (ir_method x, ir_path x)) ` set (rp_endpoints r) =
      {(m, p). (m, p) \<in> observed S files \<and> (m = ''ANY'' \<longrightarrow> (\<forall>k. (k, p) \<in> observed S files \<longrightarrow> k = ''ANY''))}"
    by (rule image_pairs)
  then show ?thesis using v sorted by blast
qed

definition sample_scan :: scan where
  "sample_scan = \<lparr>sc_routes = (\<lambda>b. [(b, ''/x'')]), sc_paths = (\<lambda>b. [''/x'', ''/y'']), sc_literals = (\<lambda>b. []), sc_commands = (\<lambda>b. [])\<rparr>"

definition sample_tree :: "tree list" where
  "sample_tree = [File ''a.go'' (Some ''GET''), File ''a_test.go'' (Some ''PUT''), Dir ''vendor'' None]"

theorem inventory_complete_witness:
  "\<exists>r. inspect sample_scan ''/r'' ''p'' ''q'' (Some sample_tree) = Some r \<and> sorted_wrt (<) (map row_key (rp_endpoints r)) \<and>
    (\<lambda>x. (ir_method x, ir_path x)) ` set (rp_endpoints r) = {(''GET'', ''/x''), (''ANY'', ''/y'')}"
proof -
  have "visited_all ''/r'' [] sample_tree = Some [(''a.go'', ''GET'')]" by code_simp
  moreover have "inspect sample_scan ''/r'' ''p'' ''q'' (Some sample_tree) \<noteq> None" by code_simp
  then obtain r where r: "inspect sample_scan ''/r'' ''p'' ''q'' (Some sample_tree) = Some r" by blast
  moreover have "observed sample_scan [(''a.go'', ''GET'')] = {(''GET'', ''/x''), (''ANY'', ''/x''), (''ANY'', ''/y'')}"
    by (auto simp: observed_def file_pairs_def sample_scan_def)
  ultimately show ?thesis using inventory_complete [OF r] r by (auto split: if_splits)
qed

end
