(* ===== verification/Surface_Command.thy ===== *)
theory Surface_Command
  imports Surface_Inventory Workspace_Paths
begin

text \<open>
  The patterns of \<open>cmd/surface-inventory/main.go\<close> and its command over the list of projects.

  Each pattern matches a text in at most one way from a given position, because the runs in it end
  at a character they do not contain; so a matcher is a function from a text to the submatches and
  the length of the match, and \<open>FindAll\<close> goes on behind a match.
\<close>

section \<open>Matching\<close>

function find_all :: "(string \<Rightarrow> ('a \<times> nat) option) \<Rightarrow> string \<Rightarrow> 'a list" where
  "find_all m [] = []"
| "find_all m (c # s) =
     (case m (c # s) of
        None \<Rightarrow> find_all m s
      | Some (x, n) \<Rightarrow> x # find_all m (drop (n - 1) s))"
  by pat_completeness auto
termination
  by (relation "measure (\<lambda>(m, s). length s)") auto

definition re_space :: "char \<Rightarrow> bool" where
  "re_space c \<longleftrightarrow> c \<in> set [CHR 0x09, CHR 0x0A, CHR 0x0C, CHR 0x0D, CHR '' '']"

text \<open>A quote, the run of characters in \<open>P\<close>, and a quote.\<close>

definition enclosed :: "string \<Rightarrow> (char \<Rightarrow> bool) \<Rightarrow> string \<Rightarrow> (string \<times> nat) option" where
  "enclosed quotes P s =
     (case s of
        [] \<Rightarrow> None
      | q # t \<Rightarrow>
          (let body = takeWhile P t
           in if q \<in> set quotes
             then (case dropWhile P t of
                     [] \<Rightarrow> None
                   | c # r \<Rightarrow> if c \<in> set quotes then Some (body, length body + 2) else None)
             else None))"

definition not_quote :: "char \<Rightarrow> bool" where
  "not_quote c \<longleftrightarrow> c \<noteq> CHR 0x22"

text \<open>\<open>case\s+"([a-z][a-z0-9-]*)"\<close>\<close>

definition command_char :: "char \<Rightarrow> bool" where
  "command_char c \<longleftrightarrow> lower_letter c \<or> digit_char c \<or> c = CHR ''-''"

definition command_case :: "string \<Rightarrow> (string \<times> nat) option" where
  "command_case s =
     (let t = drop 4 s; ws = takeWhile re_space t
      in if prefix ''case'' s \<and> ws \<noteq> []
         then (case enclosed [CHR 0x22] command_char (dropWhile re_space t) of
                 Some (x, n) \<Rightarrow> if x \<noteq> [] \<and> lower_letter (hd x) then Some (x, 4 + length ws + n) else None
               | None \<Rightarrow> None)
         else None)"

text \<open>\<open>(?:public|session|capability)\("(/api/[^"]+)"\<close>\<close>

definition path_route :: "string \<Rightarrow> (string \<times> nat) option" where
  "path_route s =
     (case find (\<lambda>w. prefix w s) [''public('', ''session('', ''capability(''] of
        None \<Rightarrow> None
      | Some w \<Rightarrow>
          (case enclosed [CHR 0x22] not_quote (drop (length w) s) of
             Some (x, n) \<Rightarrow> if prefix ''/api/'' x \<and> length x > 5 then Some (x, length w + n) else None
           | None \<Rightarrow> None))"

text \<open>A quote of any of three kinds, a path below \<open>/api/\<close>, \<open>/admin/\<close> or \<open>/system/\<close>, and a quote.\<close>

definition literal_char :: "char \<Rightarrow> bool" where
  "literal_char c \<longleftrightarrow> lower_letter c \<or> upper_letter c \<or> digit_char c \<or> c \<in> set ''_./{}:-''"

definition api_literal :: "string \<Rightarrow> (string \<times> nat) option" where
  "api_literal s =
     (case enclosed [CHR 0x22, CHR 0x27, CHR 0x60] literal_char s of
        Some (x, n) \<Rightarrow>
          if list_ex (\<lambda>w. prefix w x) [''/api/'', ''/admin/'', ''/system/''] then Some (x, n) else None
      | None \<Rightarrow> None)"

text \<open>\<open>"(GET|POST|PUT|PATCH|DELETE|HEAD|OPTIONS)\s+(/[^"]*)"\<close>\<close>

definition route_methods :: "string list" where
  "route_methods = [''GET'', ''POST'', ''PUT'', ''PATCH'', ''DELETE'', ''HEAD'', ''OPTIONS'']"

definition pattern_route :: "string \<Rightarrow> ((string \<times> string) \<times> nat) option" where
  "pattern_route s =
     (case enclosed [CHR 0x22] not_quote s of
        None \<Rightarrow> None
      | Some (x, n) \<Rightarrow>
          (case find (\<lambda>m. prefix m x) route_methods of
             None \<Rightarrow> None
           | Some m \<Rightarrow>
               (let t = drop (length m) x; p = dropWhile re_space t
                in if takeWhile re_space t \<noteq> [] \<and> prefix ''/'' p then Some ((m, p), n) else None)))"

definition repo_scan :: scan where
  "repo_scan = \<lparr>sc_routes = find_all pattern_route, sc_paths = find_all path_route,
     sc_literals = find_all api_literal, sc_commands = find_all command_case\<rparr>"

section \<open>What a match is\<close>

lemma find_all_elem: "x \<in> set (find_all m s) \<Longrightarrow> \<exists>u v n. s = u @ v \<and> m v = Some (x, n)"
proof (induction m s rule: find_all.induct)
  case (2 m c s)
  show ?case
  proof (cases "m (c # s)")
    case None
    with 2 obtain u v n where "s = u @ v" "m v = Some (x, n)" by auto
    then show ?thesis by (intro exI [of _ "c # u"] exI [of _ v] exI [of _ n]) simp
  next
    case (Some yn)
    obtain y n where yn: "yn = (y, n)" by fastforce
    show ?thesis
    proof (cases "x = y")
      case True
      with Some yn show ?thesis by (intro exI [of _ "[]"] exI [of _ "c # s"] exI [of _ n]) simp
    next
      case False
      with 2 Some yn obtain u v k where r: "drop (n - 1) s = u @ v" "m v = Some (x, k)" by fastforce
      have "c # s = (c # take (n - 1) s @ u) @ v" using r(1) by (metis append_Cons append_assoc append_take_drop_id)
      with r(2) show ?thesis by blast
    qed
  qed
qed simp

lemma enclosed_Some:
  assumes "enclosed quotes P s = Some (x, n)"
  shows "\<exists>q c r. s = q # x @ c # r \<and> q \<in> set quotes \<and> c \<in> set quotes \<and> n = length x + 2 \<and> (\<forall>a \<in> set x. P a)"
proof -
  obtain q t c r where t: "s = q # t" "q \<in> set quotes" "dropWhile P t = c # r" "c \<in> set quotes"
    "x = takeWhile P t" "n = length x + 2"
    using assms by (auto simp: enclosed_def Let_def split: list.splits if_splits)
  have "t = x @ c # r" using t(3,5) by (metis takeWhile_dropWhile_id)
  moreover have "\<forall>a \<in> set x. P a" unfolding t(5) by (blast dest: set_takeWhileD)
  ultimately show ?thesis using t(1,2,4,6) by (intro exI [of _ q] exI [of _ c] exI [of _ r]) simp
qed

text \<open>A route that is reported stands in the file between double quotes, a method, blanks and a path.\<close>

lemma route_in_text:
  assumes "(m, p) \<in> set (sc_routes repo_scan body)"
  shows "\<exists>u ws v. body = u @ CHR 0x22 # m @ ws @ p @ CHR 0x22 # v \<and> m \<in> set route_methods \<and>
     ws \<noteq> [] \<and> (\<forall>c \<in> set ws. re_space c) \<and> prefix ''/'' p \<and> CHR 0x22 \<notin> set p"
proof -
  have "(m, p) \<in> set (find_all pattern_route body)" using assms by (simp add: repo_scan_def)
  from find_all_elem [OF this] obtain u s n where s: "body = u @ s" "pattern_route s = Some ((m, p), n)"
    by blast
  then obtain x k where x: "enclosed [CHR 0x22] not_quote s = Some (x, k)"
    "find (\<lambda>m. prefix m x) route_methods = Some m" "p = dropWhile re_space (drop (length m) x)"
    "takeWhile re_space (drop (length m) x) \<noteq> []" "prefix ''/'' p"
    unfolding pattern_route_def Let_def by (auto split: option.splits if_splits)
  have m: "m \<in> set route_methods" "prefix m x" using x(2) by (auto simp: find_Some_iff)
  define ws where "ws = takeWhile re_space (drop (length m) x)"
  have "x = m @ ws @ p" using m(2) x(3) by (auto simp: ws_def prefix_def)
  moreover obtain r where "s = CHR 0x22 # x @ CHR 0x22 # r" and q: "\<forall>a \<in> set x. not_quote a"
    using enclosed_Some [OF x(1)] by auto
  ultimately have "body = u @ CHR 0x22 # m @ ws @ p @ CHR 0x22 # r" "CHR 0x22 \<notin> set p"
    using s(1) by (auto simp: not_quote_def)
  moreover have "\<forall>c \<in> set ws. re_space c" by (auto simp: ws_def dest: set_takeWhileD)
  ultimately show ?thesis using m(1) x(4,5) ws_def by blast
qed

section \<open>The command\<close>

definition inventory_projects :: "(string \<times> string) list" where
  "inventory_projects =
     [(''cortex'', ''crtx-dev/cortex''), (''warden'', ''warden-cv/warden''), (''trestle'', ''trestle-cv/trestle''),
      (''watchpost'', ''watchpost-cv/watchpost''), (''watchpost-agent'', ''watchpost-cv/watchpost-agent''),
      (''webfleet'', ''webfleet-cv/webfleet'')]"

record inventory_env =
  ie_mkdir :: "string \<Rightarrow> bool"
  ie_tree :: "string \<Rightarrow> tree list option"
  ie_marshal :: "inventory_report \<Rightarrow> string option"
  ie_write :: "string \<Rightarrow> string \<Rightarrow> bool"

text \<open>The files written, in order, and the exit status; the first failure ends the command.\<close>

fun inventory_run ::
  "inventory_env \<Rightarrow> string \<Rightarrow> string \<Rightarrow> (string \<times> string) list \<Rightarrow> (string \<times> string) list \<times> nat" where
  "inventory_run E workspace out [] = ([], 0)"
| "inventory_run E workspace out ((name, repository) # ps) =
     (let root = join_path [workspace, repository]; target = join_path [out, name @ ''.json'']
      in case inspect repo_scan root name repository (ie_tree E root) of
           None \<Rightarrow> ([], 1)
         | Some r \<Rightarrow>
             (case ie_marshal E r of
                None \<Rightarrow> ([], 1)
              | Some b \<Rightarrow>
                  (let body = b @ [CHR 0x0A]
                   in if ie_write E target body
                      then (case inventory_run E workspace out ps of (fs, st) \<Rightarrow> ((target, body) # fs, st))
                      else ([], 1))))"

definition inventory_main ::
  "inventory_env \<Rightarrow> string option \<Rightarrow> string option \<Rightarrow> (string \<times> string) list \<times> nat" where
  "inventory_main E workspace out =
     (let workspace = (case workspace of None \<Rightarrow> ''..'' | Some w \<Rightarrow> w);
          out = (case out of None \<Rightarrow> ''docs/inventory'' | Some w \<Rightarrow> w)
      in if ie_mkdir E out then inventory_run E workspace out inventory_projects else ([], 1))"

text \<open>The command exits with 0 exactly when every project was written; otherwise the files written are those
  of the projects before the first one that failed.\<close>

lemma inventory_run_targets:
  "inventory_run E workspace out ps = (fs, st) \<Longrightarrow>
   prefix (map fst fs) (map (\<lambda>p. join_path [out, fst p @ ''.json'']) ps) \<and> (st = 0 \<longleftrightarrow> length fs = length ps)"
proof (induction ps arbitrary: fs)
  case (Cons p ps)
  obtain name repository where "p = (name, repository)" by fastforce
  with Cons show ?case
    by (auto simp: Let_def simp del: append.simps split: option.splits if_splits prod.splits)
qed auto

end
