(* ===== verification/Replica_Rpc.thy ===== *)
theory Replica_Rpc
  imports Replica_Net
begin

text \<open>
  The four calls of the raft transport in \<open>replication/nettransport.go\<close>, and the stream of requests that a
  peer serves over one connection. An encoded request is \<open>None\<close> where \<open>json.Marshal\<close> fails.
\<close>

section \<open>Calls\<close>

definition frame_request_vote :: char where "frame_request_vote = CHR 0x02"

definition net_call ::
  "handshake_lib \<Rightarrow> dial_env \<Rightarrow> (nat \<Rightarrow> string \<Rightarrow> string option) \<Rightarrow> (string \<Rightarrow> wire_response option) \<Rightarrow>
   (string \<Rightarrow> 'p option) \<Rightarrow> peer_auth \<Rightarrow> net_transport \<Rightarrow> server_id \<Rightarrow> server_addr \<Rightarrow> char \<Rightarrow> string option \<Rightarrow> string \<Rightarrow>
   peer_auth \<times> net_transport \<times> (net_error + 'p option)" where
  "net_call L E xchg unwire de_body m t i target tag encoded data =
     (case encoded of
        None \<Rightarrow> (m, t, Inl NetJSON)
      | Some payload \<Rightarrow> round_trip L E xchg unwire de_body m t i target tag payload data)"

definition net_append_entries where
  "net_append_entries L E xchg unwire de_body m t i target args =
     net_call L E xchg unwire de_body m t i target frame_append_entries args []"

definition net_request_vote where
  "net_request_vote L E xchg unwire de_body m t i target args =
     net_call L E xchg unwire de_body m t i target frame_request_vote args []"

definition net_timeout_now where
  "net_timeout_now L E xchg unwire de_body m t i target args =
     net_call L E xchg unwire de_body m t i target frame_timeout_now args []"

text \<open>\<open>io.CopyN\<close> sends \<open>amount\<close> bytes of the snapshot; a reader that ends before is an error.\<close>

definition net_install_snapshot ::
  "handshake_lib \<Rightarrow> dial_env \<Rightarrow> (nat \<Rightarrow> string \<Rightarrow> string option) \<Rightarrow> (string \<Rightarrow> wire_response option) \<Rightarrow>
   (string \<Rightarrow> 'p option) \<Rightarrow> peer_auth \<Rightarrow> net_transport \<Rightarrow> server_id \<Rightarrow> server_addr \<Rightarrow> string option \<Rightarrow> nat \<Rightarrow> string \<Rightarrow>
   peer_auth \<times> net_transport \<times> (net_error + 'p option)" where
  "net_install_snapshot L E xchg unwire de_body m t i target args amount data =
     (case args of
        Some payload \<Rightarrow>
          (if length data \<ge> amount
           then net_call L E xchg unwire de_body m t i target frame_install_snapshot args (take amount data)
           else (case get_conn L E m t target i of
               (m', t', Inl e) \<Rightarrow> (m', t', Inl e)
             | (m', t', Inr pc) \<Rightarrow>
                 (m', drop_conn t' target pc,
                  Inl (NetWire (if length payload > max_frame_bytes then FrameTooLarge
                                else if xchg (pc_conn pc) (frame frame_install_snapshot payload @ data) = None then WriteFailed
                                else StreamEnded)))))
      | None \<Rightarrow> (m, t, Inl NetJSON))"

section \<open>A served stream\<close>

text \<open>A request on the wire: its frame and, for a snapshot, the data behind it.\<close>

type_synonym rpc_request = "char \<times> string \<times> string"

definition on_wire :: "rpc_request \<Rightarrow> string" where
  "on_wire q = (case q of (tag, payload, data) \<Rightarrow> frame tag payload @ data)"

text \<open>
  What the consumer makes of the requests one after the other: its final state and the encoded responses;
  \<open>None\<close> when a request is malformed, a response cannot be sent or a snapshot is not read to its end.
\<close>

fun consumed :: "('c, 'q, 'p) rpc_server \<Rightarrow> 'c \<Rightarrow> rpc_request list \<Rightarrow> ('c \<times> string list) option" where
  "consumed S c [] = Some (c, [])"
| "consumed S c ((tag, payload, data) # qs) =
     (if \<not> request_tag tag \<or> length payload > max_frame_bytes then None
      else (case rs_decode S tag payload of
          None \<Rightarrow> None
        | Some cmd \<Rightarrow>
            if length data \<noteq> (if tag = frame_install_snapshot then rs_size S cmd else 0) then None
            else (case rs_consume S c cmd data of
                (c', None) \<Rightarrow> None
              | (c', Some (used, resp)) \<Rightarrow>
                  (case rs_marshal S resp of
                     None \<Rightarrow> None
                   | Some out \<Rightarrow>
                       if length out > max_frame_bytes \<or> used < length data then None
                       else map_option (map_prod id (\<lambda>outs. out # outs)) (consumed S c' qs)))))"

text \<open>C10. Requests sent over one connection, snapshots with their data included, are handed to the raft consumer
  one by one, in order and whole, and answered in the same order, as long as each is well formed and the consumer
  reads every snapshot to its end: the loop of \<open>serveConn\<close> on the bytes does what the consumer does on the
  requests, and ends with the stream.\<close>

theorem serve_in_order:
  assumes "consumed S c qs = Some (c', outs)"
  shows "serve_loop S c (concat (map on_wire qs)) w = (c', w @ concat (map (frame frame_response) outs))"
  using assms
proof (induction S c qs arbitrary: outs w rule: consumed.induct)
  case (1 S c)
  then show ?case by (simp add: serve_loop.simps [of S _ "[]"] read_frame_def)
next
  case (2 S c tag payload data qs)
  then obtain cmd c1 used resp out outs' where q: "request_tag tag" "length payload \<le> max_frame_bytes" "rs_decode S tag payload = Some cmd"
      "length data = (if tag = frame_install_snapshot then rs_size S cmd else 0)"
    and r: "rs_consume S c cmd data = (c1, Some (used, resp))" "rs_marshal S resp = Some out" "length out \<le> max_frame_bytes" "length data \<le> used"
    and rest: "consumed S c1 qs = Some (c', outs')" and outs: "outs = out # outs'"
    by (auto split: if_splits option.splits prod.splits)
  have stream: "concat (map on_wire ((tag, payload, data) # qs)) = frame tag payload @ data @ concat (map on_wire qs)" by (simp add: on_wire_def)
  let ?avail = "if tag = frame_install_snapshot then take (rs_size S cmd) (data @ concat (map on_wire qs)) else []"
  have a: "?avail = data" using q(4) by auto
  have "serve_loop S c (frame tag payload @ data @ concat (map on_wire qs)) w =
      serve_loop S c1 (concat (map on_wire qs)) (w @ frame frame_response out)"
    using q r a by (simp add: serve_loop.simps [of S c "frame tag payload @ data @ concat (map on_wire qs)"] read_frame_frame write_frame_buffer)
  also have "\<dots> = (c', (w @ frame frame_response out) @ concat (map (frame frame_response) outs'))"
    using "2.IH" q r rest by force
  finally show ?case unfolding stream outs by simp
qed

definition sample_rpc :: "(nat, string, string) rpc_server" where
  "sample_rpc = \<lparr>rs_decode = (\<lambda>t p. Some p), rs_size = length, rs_consume = (\<lambda>n q d. (n + 1, Some (length d, q))), rs_marshal = Some\<rparr>"

theorem serve_in_order_witness:
  "serve_loop sample_rpc 0 (frame (CHR 0x04) ''ab'' @ ''xy'' @ frame (CHR 0x01) ''c'') [] =
     (2, frame frame_response ''ab'' @ frame frame_response ''c'')"
proof -
  have tags: "request_tag (CHR 0x04)" "request_tag (CHR 0x01)" by code_simp+
  have "consumed sample_rpc 0 [(CHR 0x04, ''ab'', ''xy''), (CHR 0x01, ''c'', [])] = Some (2, [''ab'', ''c''])"
    by (simp add: sample_rpc_def tags frame_install_snapshot_def max_frame_bytes_def)
  from serve_in_order [OF this, of "[]"] show ?thesis by (simp add: on_wire_def)
qed

text \<open>Snapshot data that the consumer leaves unread is taken for the next frame.\<close>

lemma unread_snapshot_desynchronizes:
  assumes "rs_decode S frame_install_snapshot payload = Some cmd" and "rs_size S cmd = length data" and "length payload \<le> max_frame_bytes"
    and "rs_consume S c cmd data = (c', Some (0, resp))" and "rs_marshal S resp = Some out" and "length out \<le> max_frame_bytes"
  shows "serve_loop S c (frame frame_install_snapshot payload @ data @ rest) w = serve_loop S c' (data @ rest) (w @ frame frame_response out)"
proof -
  have "request_tag frame_install_snapshot" by code_simp
  then show ?thesis using assms
    by (simp add: serve_loop.simps [of S c "frame frame_install_snapshot payload @ data @ rest"] read_frame_frame write_frame_buffer)
qed

end
