(* ===== verification/Contract_Artifacts.thy ===== *)
theory Contract_Artifacts
  imports Contract_Check
begin

text \<open>
  The artifact files of \<open>contracttest/matrix.go\<close>: writing them and the round trip with their comparison.

  A file system maps paths to contents. The flags of \<open>artifact_faults\<close> say which directory cannot be made and
  which file cannot be written, and what a failed write leaves.
\<close>

record artifact_faults =
  af_json_dir :: bool
  af_markdown_dir :: bool
  af_json_write :: "string option option"
  af_markdown_write :: "string option option"

datatype write_error = MatrixNotEncoded | DirectoryNotMade | FileNotWritten

type_synonym contents = "string \<Rightarrow> string option"

definition put_file :: "string option option \<Rightarrow> contents \<Rightarrow> string \<Rightarrow> string \<Rightarrow> contents \<times> (write_error + unit)" where
  "put_file fault fs path data =
     (case fault of None \<Rightarrow> (fs(path \<mapsto> data), Inr ()) | Some left_over \<Rightarrow> (fs(path := left_over), Inl FileNotWritten))"

definition write_matrix_artifacts ::
    "(matrix \<Rightarrow> string option) \<Rightarrow> artifact_faults \<Rightarrow> contents \<Rightarrow> string \<Rightarrow> string \<Rightarrow> manifest \<Rightarrow> contents \<times> (write_error + unit)" where
  "write_matrix_artifacts to_json F fs json_path markdown_path m =
     (let mx = build_matrix m
      in case to_json mx of
           None \<Rightarrow> (fs, Inl MatrixNotEncoded)
         | Some j \<Rightarrow>
             if af_json_dir F \<or> af_markdown_dir F then (fs, Inl DirectoryNotMade)
             else (case put_file (af_json_write F) fs json_path (j @ [CHR 0x0A]) of
                 (fs1, Inl e) \<Rightarrow> (fs1, Inl e)
               | (fs1, Inr _) \<Rightarrow> put_file (af_markdown_write F) fs1 markdown_path (markdown mx)))"

text \<open>Artifacts that were written pass the comparison with the manifest they were written for, and fail it for
  a manifest with another matrix or another rendering; nothing else is touched.\<close>

theorem written_artifacts_pass:
  assumes "write_matrix_artifacts to_json F fs json_path markdown_path m = (fs', Inr ())" and "json_path \<noteq> markdown_path"
  shows "(check_matrix_artifacts to_json (fs' json_path) (fs' markdown_path) m' = Inr () \<longleftrightarrow>
      to_json (build_matrix m') = to_json (build_matrix m) \<and> markdown (build_matrix m') = markdown (build_matrix m)) \<and>
    (\<forall>p. p \<noteq> json_path \<and> p \<noteq> markdown_path \<longrightarrow> fs' p = fs p)"
  using assms
  by (auto simp: write_matrix_artifacts_def check_matrix_artifacts_def put_file_def Let_def split: option.splits if_splits)

text \<open>One path for both artifacts never passes, unless the two renderings are the same text.\<close>

lemma same_path_stale:
  assumes "write_matrix_artifacts to_json F fs p p m = (fs', Inr ())"
  shows "check_matrix_artifacts to_json (fs' p) (fs' p) m = Inr () \<longleftrightarrow> (\<exists>j. to_json (build_matrix m) = Some j \<and> markdown (build_matrix m) = j @ [CHR 0x0A])"
  using assms
  by (auto simp: write_matrix_artifacts_def check_matrix_artifacts_def put_file_def Let_def split: option.splits if_splits)

end
