(* ===== verification/Cluster_Vocabulary.thy ===== *)
theory Cluster_Vocabulary
  imports Cluster_Model Cli_Parse
begin

text \<open>
  The vocabularies that the products share for clusters: \<open>cluster/cli.go\<close> and \<open>cluster/parity.go\<close>,
  and the views of \<open>cluster/contracts.go\<close>.
\<close>

record cli_command =
  cc_path :: string
  cc_mutation :: bool
  cc_secret :: bool

definition cluster_command :: "string \<Rightarrow> bool \<Rightarrow> bool \<Rightarrow> cli_command" where
  "cluster_command verb mutation secret = \<lparr>cc_path = ''cluster '' @ verb, cc_mutation = mutation, cc_secret = secret\<rparr>"

definition common_cli :: "cli_command list" where
  "common_cli =
     [cluster_command ''init'' True False, cluster_command ''invite'' True True, cluster_command ''join'' True True,
      cluster_command ''approve'' True True, cluster_command ''members'' False False, cluster_command ''status'' False False,
      cluster_command ''rotate'' True True, cluster_command ''revoke'' True False, cluster_command ''remove'' True False]"

definition cluster_paths :: "string list" where
  "cluster_paths = [''/api/cluster/v1/join'', ''/api/cluster/v1/rpc/summary'', ''/api/cluster/v1/rpc/compare'']"

definition common_lifecycle :: "string list" where
  "common_lifecycle = [''invite'', ''join'', ''approve'', ''reject'', ''collect'', ''rotate'', ''revoke'', ''remove'']"

definition cluster_audit_actions :: "string list" where
  "cluster_audit_actions =
     [''cluster.invite.create'', ''cluster.join.approve'', ''cluster.join.reject'', ''cluster.member.disable'',
      ''cluster.member.enable'', ''cluster.member.rotate'', ''cluster.member.revoke'', ''cluster.member.remove'']"

text \<open>Every command is two words of the grammar, commands are distinct, and what bears a secret is a mutation.\<close>

lemma common_cli_parses:
  "list_all (\<lambda>c. length (split_all (CHR '' '') (cc_path c)) = 2 \<and> list_all cli_word (split_all (CHR '' '') (cc_path c)) \<and>
     (cc_secret c \<longrightarrow> cc_mutation c)) common_cli \<and> distinct (map cc_path common_cli)"
  by code_simp

lemma audit_actions_distinct: "distinct cluster_audit_actions"
  by code_simp

section \<open>Views\<close>

record member_view =
  mv_member :: cluster_member
  mv_health :: string
  mv_warning :: string

record invitation_view =
  nv_invitation :: invitation
  nv_fingerprint :: string

record audit_view =
  av_at :: int
  av_action :: string
  av_node :: string
  av_detail :: string

record cluster_overview =
  ov_local :: node_identity
  ov_members :: "member_view list"
  ov_pending :: "invitation_view list"
  ov_audit :: "audit_view list"

end
