(* ===== verification/Replica_Harness.thy ===== *)
theory Replica_Harness
  imports Replica_Node_Laws Workspace_Paths "HOL-Library.AList"
begin

text \<open>
  The rest of \<open>replication/cluster.go\<close> and of \<open>replication/node.go\<close>: adding nodes over their stores,
  waiting for a leader, barriers, shutting down and closing; then the harness as a transition
  system over all its operations.

  The file system is \<open>harness_io\<close>: each operation answers with an error or with the store it
  opened. \<open>raft_admin\<close> is what a node uses of the consensus library besides \<open>raft_lib\<close>.
\<close>

section \<open>Node operations\<close>

record ('r, 'f) raft_admin =
  ra_barrier :: "'r \<Rightarrow> 'f \<Rightarrow> int \<Rightarrow> 'r \<times> 'f \<times> string option"
  ra_transfer :: "'r \<Rightarrow> 'r \<times> string option"
  ra_snapshot :: "'r \<Rightarrow> 'f \<Rightarrow> 'r \<times> string option"
  ra_shutdown :: "'r \<Rightarrow> 'r \<times> string option"

definition node_state :: "('r, 'f, 'e, 'x) raft_lib \<Rightarrow> ('r, 'f) node \<Rightarrow> raft_state" where
  "node_state R n = rf_state R (n_raft n)"

definition node_leader :: "('r, 'f, 'e, 'x) raft_lib \<Rightarrow> ('r, 'f) node \<Rightarrow> server_addr \<times> server_id" where
  "node_leader R n = rf_leader R (n_raft n)"

definition node_configuration :: "('r, 'f, 'e, 'x) raft_lib \<Rightarrow> ('r, 'f) node \<Rightarrow> string + server list" where
  "node_configuration R n = rf_configuration R (n_raft n)"

definition local_keys :: "('r, 'f) node \<Rightarrow> string set" where
  "local_keys n = dom (n_local n)"

definition node_barrier :: "('r, 'f) raft_admin \<Rightarrow> ('r, 'f) node \<Rightarrow> ('r, 'f) node \<times> string option" where
  "node_barrier A n =
     (case ra_barrier A (n_raft n) (n_fsm n) (n_timeout n) of
        (r, f, e) \<Rightarrow> (n\<lparr>n_raft := r, n_fsm := f\<rparr>, e))"

definition with_raft ::
  "('r, 'f) node \<Rightarrow> 'r \<times> string option \<Rightarrow> ('r, 'f) node \<times> string option" where
  "with_raft n re = (n\<lparr>n_raft := fst re\<rparr>, snd re)"

definition leadership_transfer :: "('r, 'f) raft_admin \<Rightarrow> ('r, 'f) node \<Rightarrow> ('r, 'f) node \<times> string option" where
  "leadership_transfer A n = with_raft n (ra_transfer A (n_raft n))"

definition node_snapshot :: "('r, 'f) raft_admin \<Rightarrow> ('r, 'f) node \<Rightarrow> ('r, 'f) node \<times> string option" where
  "node_snapshot A n = with_raft n (ra_snapshot A (n_raft n) (n_fsm n))"

definition node_shutdown :: "('r, 'f) raft_admin \<Rightarrow> ('r, 'f) node \<Rightarrow> ('r, 'f) node \<times> string option" where
  "node_shutdown A n = with_raft n (ra_shutdown A (n_raft n))"

section \<open>Adding nodes\<close>

text \<open>\<open>h\<close> is what the heap holds before anything is allocated. Durations are in nanoseconds.\<close>

definition new_cluster :: "('r, 'f) node_heap \<Rightarrow> ('r, 'f) cluster" where
  "new_cluster h = \<lparr>cl_fabric = new_fabric, cl_heap = h, cl_next = 0, cl_nodes = [], cl_stores = [],
     cl_heartbeat = 100 * 1000000, cl_election = 200 * 1000000, cl_commit = 20 * 1000000,
     cl_lease = 100 * 1000000, cl_propose = 3 * 1000000000\<rparr>"

record ('d, 's) harness_io =
  io_mkdir :: "string \<Rightarrow> string option"
  io_bolt :: "string \<Rightarrow> string + 'd"
  io_inmem :: 'd
  io_snaps :: "string \<Rightarrow> string + 's"

datatype harness_error = HarnessIO string | HarnessNode node_error

text \<open>
  The log and stable store, durable or in memory, then the snapshot store. A durable store is
  recorded as soon as it is open, before anything later can fail.
\<close>

definition open_stores ::
  "('d, 's) harness_io \<Rightarrow> ('r, 'f) cluster \<Rightarrow> server_id \<Rightarrow> string \<Rightarrow> bool \<Rightarrow>
   ('r, 'f) cluster \<times> (harness_error + 'd \<times> 's)" where
  "open_stores io c i dir durable =
     (let path = join_path [dir, ''raft.db''];
          snaps = (\<lambda>c d. case io_snaps io (join_path [dir, ''snapshots'']) of
            Inl e \<Rightarrow> (c, Inl (HarnessIO e)) | Inr s \<Rightarrow> (c, Inr (d, s)))
      in if durable
         then (case io_bolt io path of
             Inl e \<Rightarrow> (c, Inl (HarnessIO e))
           | Inr d \<Rightarrow> snaps (c\<lparr>cl_stores := AList.update i path (cl_stores c)\<rparr>) d)
         else snaps c (io_inmem io))"

text \<open>The pointer \<open>NewNode\<close> returned, under its identity in the node map.\<close>

definition install_node :: "('r, 'f) cluster \<Rightarrow> server_id \<Rightarrow> ('r, 'f) node \<Rightarrow> ('r, 'f) cluster" where
  "install_node c i n = c\<lparr>cl_heap := (cl_heap c)(cl_next c := n), cl_next := Suc (cl_next c),
     cl_nodes := AList.update i (cl_next c) (cl_nodes c)\<rparr>"

definition harness_options ::
  "('r, 'f) cluster \<Rightarrow> server_id \<Rightarrow> server_addr \<Rightarrow> 't option \<Rightarrow> 'st \<Rightarrow> ('st, 't, 'f) node_options" where
  "harness_options c i addr tr st =
     \<lparr>o_id = i, o_addr = addr, o_transport = tr, o_stores = Some st, o_fsm = None,
      o_bootstrap = (cl_nodes c = []), o_heartbeat = cl_heartbeat c, o_election = cl_election c,
      o_commit = cl_commit c, o_lease = cl_lease c, o_propose_timeout = cl_propose c,
      o_max_schema = 0, o_snap_format = 0, o_features = [], o_caps_source = None\<rparr>"

text \<open>
  \<open>AddNodeCaps\<close>: the transport registers with the fabric before the stores are opened, and the
  node once it is there. \<open>new_fsm\<close> is \<open>NewKVFSMWithSchema\<close>.
\<close>

definition harness_addr :: "server_id \<Rightarrow> server_addr" where
  "harness_addr i = ''node-'' @ i"

definition add_node_caps ::
  "('d, 's) harness_io \<Rightarrow> ('d \<times> 's, node_transport, 'f, 'r) raft_boot \<Rightarrow> (int \<Rightarrow> 'f) \<Rightarrow>
   ('r, 'f) cluster \<Rightarrow> server_id \<Rightarrow> string \<Rightarrow> bool \<Rightarrow> int \<Rightarrow> int \<Rightarrow> string list \<Rightarrow>
   ('r, 'f) cluster \<times> (harness_error + nat)" where
  "add_node_caps io B new_fsm c i dir durable mx fmt feats =
     (case io_mkdir io dir of
        Some e \<Rightarrow> (c, Inl (HarnessIO e))
      | None \<Rightarrow>
        (let addr = harness_addr i;
             (fo, nt) = new_node_transport i addr (Some (cl_fabric c))
         in case open_stores io (c\<lparr>cl_fabric := the fo\<rparr>) i dir durable of
              (c1, Inl e) \<Rightarrow> (c1, Inl e)
            | (c1, Inr st) \<Rightarrow>
                (case new_node B new_fsm
                        ((harness_options c1 i addr (Some nt) st)
                           \<lparr>o_max_schema := mx, o_snap_format := fmt, o_features := feats\<rparr>)
                        (Some (cl_fabric c1)) of
                   (_, Inl e) \<Rightarrow> (c1, Inl (HarnessNode e))
                 | (fb, Inr n) \<Rightarrow>
                     (install_node (c1\<lparr>cl_fabric := register_node (the fb) (n_id n) (cl_next c1)\<rparr>) i n,
                      Inr (cl_next c1)))))"

definition add_node ::
  "('d, 's) harness_io \<Rightarrow> ('d \<times> 's, node_transport, 'f, 'r) raft_boot \<Rightarrow> (int \<Rightarrow> 'f) \<Rightarrow>
   ('r, 'f) cluster \<Rightarrow> server_id \<Rightarrow> string \<Rightarrow> bool \<Rightarrow> ('r, 'f) cluster \<times> (harness_error + nat)" where
  "add_node io B new_fsm c i dir durable =
     add_node_caps io B new_fsm c i dir durable replication_version snapshot_format_version []"

text \<open>\<open>AddNetNode\<close>: no fabric, the transport and the capability source are the caller's.\<close>

definition add_net_node ::
  "('d, 's) harness_io \<Rightarrow> ('d \<times> 's, 't, 'f, 'r) raft_boot \<Rightarrow> (int \<Rightarrow> 'f) \<Rightarrow>
   ('r, 'f) cluster \<Rightarrow> server_id \<Rightarrow> server_addr \<Rightarrow> string \<Rightarrow> bool \<Rightarrow> 't option \<Rightarrow>
   (server_id \<Rightarrow> capabilities option) option \<Rightarrow> ('r, 'f) cluster \<times> (harness_error + nat)" where
  "add_net_node io B new_fsm c i addr dir durable tr src =
     (case io_mkdir io dir of
        Some e \<Rightarrow> (c, Inl (HarnessIO e))
      | None \<Rightarrow>
        (case open_stores io c i dir durable of
           (c1, Inl e) \<Rightarrow> (c1, Inl e)
         | (c1, Inr st) \<Rightarrow>
             (case snd (new_node B new_fsm ((harness_options c1 i addr tr st)\<lparr>o_caps_source := src\<rparr>)
                          (None :: nat fabric option)) of
                Inl e \<Rightarrow> (c1, Inl (HarnessNode e))
              | Inr n \<Rightarrow> (install_node c1 i n, Inr (cl_next c1)))))"

section \<open>Waiting, barriers and closing\<close>

text \<open>\<open>WaitLeader\<close> over its polls: the clock and the cluster as each poll finds them.\<close>

datatype leader_wait = LeaderIs nat | NoLeaderYet | LeaderPolling

fun wait_leader ::
  "('r, 'f, 'e, 'x) raft_lib \<Rightarrow> int \<Rightarrow> (int \<times> ('r, 'f) cluster) list \<Rightarrow> leader_wait" where
  "wait_leader R deadline [] = LeaderPolling"
| "wait_leader R deadline ((now, c) # polls) =
     (if \<not> now < deadline then NoLeaderYet
      else (case cluster_leader R c of
        Some p \<Rightarrow> LeaderIs p | None \<Rightarrow> wait_leader R deadline polls))"

text \<open>The loops over the node map, in the order of the list.\<close>

fun barrier_nodes ::
  "('r, 'f) raft_admin \<Rightarrow> ('r, 'f) node_heap \<Rightarrow> (server_id \<times> nat) list \<Rightarrow>
   ('r, 'f) node_heap \<times> string option" where
  "barrier_nodes A h [] = (h, None)"
| "barrier_nodes A h ((i, p) # ns) =
     (case node_barrier A (h p) of
        (n, Some e) \<Rightarrow> (h(p := n), Some e) | (n, None) \<Rightarrow> barrier_nodes A (h(p := n)) ns)"

definition barrier_all :: "('r, 'f) raft_admin \<Rightarrow> ('r, 'f) cluster \<Rightarrow> ('r, 'f) cluster \<times> string option" where
  "barrier_all A c = (case barrier_nodes A (cl_heap c) (cl_nodes c) of (h, e) \<Rightarrow> (c\<lparr>cl_heap := h\<rparr>, e))"

definition shutdown_at :: "('r, 'f) raft_admin \<Rightarrow> ('r, 'f) node_heap \<Rightarrow> nat \<Rightarrow> ('r, 'f) node_heap" where
  "shutdown_at A h p = h(p := fst (node_shutdown A (h p)))"

definition shutdown_all :: "('r, 'f) raft_admin \<Rightarrow> ('r, 'f) cluster \<Rightarrow> ('r, 'f) cluster" where
  "shutdown_all A c = c\<lparr>cl_heap := foldl (\<lambda>h (i, p). shutdown_at A h p) (cl_heap c) (cl_nodes c)\<rparr>"

text \<open>
  \<open>close\<close> closes the store open on a file. The second component is the files closed, in order.
  \<open>CloseNode\<close> leaves both maps as they are; \<open>CloseAll\<close> empties the map of the stores.
\<close>

definition close_node ::
  "('r, 'f) raft_admin \<Rightarrow> (string \<Rightarrow> string option) \<Rightarrow> ('r, 'f) cluster \<Rightarrow> server_id \<Rightarrow>
   ('r, 'f) cluster \<times> string list \<times> string option" where
  "close_node A close c i =
     (let c1 = (case map_of (cl_nodes c) i of
                  None \<Rightarrow> c | Some p \<Rightarrow> c\<lparr>cl_heap := shutdown_at A (cl_heap c) p\<rparr>)
      in case map_of (cl_stores c1) i of
           None \<Rightarrow> (c1, [], None) | Some path \<Rightarrow> (c1, [path], close path))"

definition close_all ::
  "('r, 'f) raft_admin \<Rightarrow> ('r, 'f) cluster \<Rightarrow> ('r, 'f) cluster \<times> string list" where
  "close_all A c = ((shutdown_all A c)\<lparr>cl_stores := []\<rparr>, map snd (cl_stores c))"

definition cluster_state :: "('r, 'f, 'e, 'x) raft_lib \<Rightarrow> ('r, 'f) cluster \<Rightarrow> server_id \<rightharpoonup> raft_state" where
  "cluster_state R c = (\<lambda>i. map_option (\<lambda>p. node_state R (cl_heap c p)) (map_of (cl_nodes c) i))"

section \<open>The harness as a transition system\<close>

text \<open>Partitions and upgrades act on the fabric and the nodes the harness shares with its user.\<close>

inductive harness_step ::
  "('d, 's) harness_io \<Rightarrow> ('d \<times> 's, node_transport, 'f, 'r) raft_boot \<Rightarrow>
   ('d \<times> 's, 't, 'f, 'r) raft_boot \<Rightarrow> (int \<Rightarrow> 'f) \<Rightarrow> ('r, 'f, 'e, 'x) raft_lib \<Rightarrow>
   ('r, 'f) raft_admin \<Rightarrow> ('a) codec_scheme \<Rightarrow> ('r, 'f) cluster \<Rightarrow> ('r, 'f) cluster \<Rightarrow> bool"
  for io B B' new_fsm R A J where
  StepAdd: "add_node_caps io B new_fsm c i dir durable mx fmt feats = (c', r) \<Longrightarrow>
     harness_step io B B' new_fsm R A J c c'"
| StepAddNet: "add_net_node io B' new_fsm c i addr dir durable tr src = (c', r) \<Longrightarrow>
     harness_step io B B' new_fsm R A J c c'"
| StepJoin: "join R c i a = (c', r) \<Longrightarrow> harness_step io B B' new_fsm R A J c c'"
| StepLearner: "add_learner R c i a = (c', r) \<Longrightarrow> harness_step io B B' new_fsm R A J c c'"
| StepPromote: "promote_learner R i deadline [(t, c)] = (Some c', r) \<Longrightarrow>
     harness_step io B B' new_fsm R A J c c'"
| StepPropose: "cluster_propose R J now c i op = (c', r) \<Longrightarrow> harness_step io B B' new_fsm R A J c c'"
| StepBarrier: "barrier_all A c = (c', r) \<Longrightarrow> harness_step io B B' new_fsm R A J c c'"
| StepShutdown: "shutdown_all A c = c' \<Longrightarrow> harness_step io B B' new_fsm R A J c c'"
| StepCloseNode: "close_node A close c i = (c', r) \<Longrightarrow> harness_step io B B' new_fsm R A J c c'"
| StepCloseAll: "close_all A c = (c', r) \<Longrightarrow> harness_step io B B' new_fsm R A J c c'"
| StepFault: "f \<in> {partition (cl_fabric c) a b, unpartition (cl_fabric c) a b,
       isolate (cl_fabric c) a, reconnect (cl_fabric c) a} \<Longrightarrow>
     harness_step io B B' new_fsm R A J c (c\<lparr>cl_fabric := f\<rparr>)"

definition harness_reachable ::
  "('d, 's) harness_io \<Rightarrow> ('d \<times> 's, node_transport, 'f, 'r) raft_boot \<Rightarrow>
   ('d \<times> 's, 't, 'f, 'r) raft_boot \<Rightarrow> (int \<Rightarrow> 'f) \<Rightarrow> ('r, 'f, 'e, 'x) raft_lib \<Rightarrow>
   ('r, 'f) raft_admin \<Rightarrow> ('a) codec_scheme \<Rightarrow> ('r, 'f) cluster \<Rightarrow> bool" where
  "harness_reachable io B B' new_fsm R A J c \<longleftrightarrow>
     (\<exists>h. (harness_step io B B' new_fsm R A J)\<^sup>*\<^sup>* (new_cluster h) c)"

text \<open>
  What the harness keeps: one entry per identity; both maps lead to allocated nodes that carry the
  identity they are filed under; a node the fabric knows is in the node map; one store per identity.
\<close>

definition filed :: "('r, 'f) cluster \<Rightarrow> server_id \<Rightarrow> nat \<Rightarrow> bool" where
  "filed c i p \<longleftrightarrow> p < cl_next c \<and> n_id (cl_heap c p) = i"

definition harness_wf :: "('r, 'f) cluster \<Rightarrow> bool" where
  "harness_wf c \<longleftrightarrow> distinct (map fst (cl_nodes c)) \<and> distinct (map fst (cl_stores c)) \<and>
     (\<forall>i p. map_of (cl_nodes c) i = Some p \<longrightarrow> filed c i p) \<and>
     (\<forall>i p. fb_nodes (cl_fabric c) i = Some p \<longrightarrow> filed c i p \<and> map_of (cl_nodes c) i \<noteq> None) \<and>
     fabric_wf (cl_fabric c)"

text \<open>Operations on existing nodes leave this of a harness unchanged.\<close>

definition same_shape :: "('r, 'f) cluster \<Rightarrow> ('r, 'f) cluster \<Rightarrow> bool" where
  "same_shape c c' \<longleftrightarrow> cl_nodes c' = cl_nodes c \<and> cl_next c' = cl_next c \<and>
     fb_nodes (cl_fabric c') = fb_nodes (cl_fabric c) \<and> fabric_wf (cl_fabric c') = fabric_wf (cl_fabric c) \<and>
     (\<forall>p. n_id (cl_heap c' p) = n_id (cl_heap c p)) \<and>
     (cl_stores c' = cl_stores c \<or> cl_stores c' = [])"

lemma same_shape_refl [simp]: "same_shape c c"
  by (simp add: same_shape_def)

lemma same_shape_wf: "same_shape c c' \<Longrightarrow> harness_wf c \<Longrightarrow> harness_wf c'"
  by (auto simp: same_shape_def harness_wf_def filed_def)

lemma same_shape_heap: "(\<And>p. n_id (h p) = n_id (cl_heap c p)) \<Longrightarrow> same_shape c (c\<lparr>cl_heap := h\<rparr>)"
  by (simp add: same_shape_def)

lemma n_id_upd: "n_id n = n_id (h p) \<Longrightarrow> n_id ((h(p := n)) q) = n_id (h q)"
  by simp

subsection \<open>Operations on existing nodes\<close>

lemma node_change_id: "node_change R n m = (n', r) \<Longrightarrow> n_id n' = n_id n"
  by (auto simp: node_change_def split: prod.splits)

lemma propose_local_id: "propose_local R J now seen n op = (n', r) \<Longrightarrow> n_id n' = n_id n"
  by (auto simp: propose_local_def submit_local_def split: prod.splits sum.splits if_splits)

lemma heap_propose_local_id:
  "heap_propose_local R J now h p op = (h', r) \<Longrightarrow> n_id (h' q) = n_id (h q)"
  by (auto simp: heap_propose_local_def dest: propose_local_id split: prod.splits)

lemma handle_propose_id:
  assumes "handle_propose R J now f h p op = (h', r)"
  shows "n_id (h' q) = n_id (h q)"
proof -
  obtain h1 r1 where l: "heap_propose_local R J now h p op = (h1, r1)" by fastforce
  show ?thesis
    using assms l heap_propose_local_id [of R J now h _ op]
    by (auto simp: handle_propose_def forward_proposal_def Let_def
        split: prod.splits sum.splits if_splits option.splits)
qed

lemma barrier_nodes_id: "barrier_nodes A h ns = (h', e) \<Longrightarrow> n_id (h' q) = n_id (h q)"
proof (induction A h ns rule: barrier_nodes.induct)
  case (2 A h i p ns)
  obtain n e1 where n: "node_barrier A (h p) = (n, e1)" by fastforce
  have "n_id n = n_id (h p)" using n by (auto simp: node_barrier_def split: prod.splits)
  with 2 n show ?case by (auto simp: fun_upd_def split: option.splits if_splits)
qed simp

lemma shutdown_at_id [simp]: "n_id (shutdown_at A h p q) = n_id (h q)"
  by (simp add: shutdown_at_def node_shutdown_def with_raft_def)

lemma shutdown_fold_id: "n_id (foldl (\<lambda>h (i, p). shutdown_at A h p) h ns q) = n_id (h q)"
  by (induction ns arbitrary: h) auto

lemma cluster_join_shape:
  assumes "cluster_join R c change = (c', r)" and "\<And>n n' e. change n = (n', e) \<Longrightarrow> n_id n' = n_id n"
  shows "same_shape c c'"
  using assms by (fastforce simp: cluster_join_def same_shape_def split: option.splits prod.splits)

lemma promote_shape:
  "promote_learner R i deadline [(t, c)] = (Some c', r) \<Longrightarrow> same_shape c c'"
  by (auto simp: add_voter_def same_shape_def dest: node_change_id
      split: if_splits option.splits prod.splits)

lemma propose_shape: "cluster_propose R J now c i op = (c', r) \<Longrightarrow> same_shape c c'"
  by (auto simp: cluster_propose_def dest: handle_propose_id intro!: same_shape_heap
      split: option.splits prod.splits)

lemma barrier_shape: "barrier_all A c = (c', e) \<Longrightarrow> same_shape c c'"
  by (auto simp: barrier_all_def dest: barrier_nodes_id intro!: same_shape_heap split: prod.splits)

lemma shutdown_shape: "same_shape c (shutdown_all A c)"
  by (simp add: shutdown_all_def same_shape_def shutdown_fold_id)

lemma close_node_shape: "close_node A close c i = (c', r) \<Longrightarrow> same_shape c c'"
  by (auto simp: close_node_def Let_def same_shape_def split: option.splits)

lemma close_all_shape: "close_all A c = (c', r) \<Longrightarrow> same_shape c c'"
  by (auto simp: close_all_def shutdown_all_def same_shape_def shutdown_fold_id)

lemma fault_shape:
  "f \<in> {partition (cl_fabric c) a b, unpartition (cl_fabric c) a b, isolate (cl_fabric c) a,
     reconnect (cl_fabric c) a} \<Longrightarrow> same_shape c (c\<lparr>cl_fabric := f\<rparr>)"
  by (auto simp: same_shape_def) (simp_all add: partition_def unpartition_def isolate_def reconnect_def)

subsection \<open>Operations that add a node\<close>

lemma open_stores_step:
  assumes "open_stores io c i dir durable = (c1, r)"
  shows "\<exists>ss. c1 = c\<lparr>cl_stores := ss\<rparr> \<and>
     (ss = cl_stores c \<or> (\<exists>path. ss = AList.update i path (cl_stores c)))"
  using assms
  by (intro exI [of _ "cl_stores c1"]) (auto simp: open_stores_def Let_def split: if_splits sum.splits)

lemma wf_stores:
  assumes "harness_wf c" and "ss = cl_stores c \<or> (\<exists>path. ss = AList.update i path (cl_stores c))"
  shows "harness_wf (c\<lparr>cl_stores := ss\<rparr>)"
  using assms by (auto simp: harness_wf_def filed_def intro: distinct_update)

lemma wf_transport: "harness_wf c \<Longrightarrow> harness_wf (c\<lparr>cl_fabric := register_transport (cl_fabric c) nt\<rparr>)"
  by (auto simp: harness_wf_def filed_def fabric_wf_register) (simp_all add: register_transport_def)

lemma map_of_AList_update: "map_of (AList.update k v al) = (map_of al)(k \<mapsto> v)"
  by (rule update_conv')

lemma wf_install:
  assumes wf: "harness_wf c" and n: "n_id n = i" and fw: "fabric_wf fb"
    and fb: "fb_nodes fb = fb_nodes (cl_fabric c) \<or> fb_nodes fb = (fb_nodes (cl_fabric c))(i \<mapsto> cl_next c)"
  shows "harness_wf (install_node (c\<lparr>cl_fabric := fb\<rparr>) i n)"
proof -
  let ?c = "install_node (c\<lparr>cl_fabric := fb\<rparr>) i n"
  have old: "filed c j q \<Longrightarrow> filed ?c j q" for j q
    by (simp add: filed_def install_node_def)
  have new: "filed ?c i (cl_next c)" using n by (simp add: filed_def install_node_def)
  have nodes: "map_of (cl_nodes ?c) = (map_of (cl_nodes c))(i \<mapsto> cl_next c)"
    by (simp add: install_node_def map_of_AList_update)
  have "distinct (map fst (cl_nodes ?c))" "distinct (map fst (cl_stores ?c))"
    using wf by (auto simp: harness_wf_def install_node_def intro: distinct_update)
  moreover have "filed ?c j q" if "map_of (cl_nodes ?c) j = Some q" for j q
    using that wf old new by (auto simp: nodes harness_wf_def split: if_splits)
  moreover have "filed ?c j q \<and> map_of (cl_nodes ?c) j \<noteq> None"
    if "fb_nodes (cl_fabric ?c) j = Some q" for j q
  proof -
    have f: "fb_nodes fb j = Some q" using that by (simp add: install_node_def)
    show ?thesis
    proof (cases "fb_nodes (cl_fabric c) j = Some q")
      case True
      then show ?thesis using wf old by (auto simp: nodes harness_wf_def)
    next
      case False
      with f fb have "j = i" "q = cl_next c" by (auto split: if_splits)
      then show ?thesis using new by (simp add: nodes)
    qed
  qed
  moreover have "fabric_wf (cl_fabric ?c)" using fw by (simp add: install_node_def)
  ultimately show ?thesis by (auto simp: harness_wf_def)
qed

lemma new_node_ok:
  assumes "new_node B new_fsm o1 fb = (fb', Inr n)"
  shows "n_id n = o_id o1 \<and> fb' = map_option (\<lambda>f. register_capabilities f (o_id o1) (node_capabilities o1)) fb"
  using assms by (auto simp: new_node_def Let_def split: option.splits sum.splits)

lemma add_caps_wf:
  assumes add: "add_node_caps io B new_fsm c i dir durable mx fmt feats = (c', r)" and wf: "harness_wf c"
  shows "harness_wf c'"
proof (cases "io_mkdir io dir")
  case (Some e)
  with add wf show ?thesis by (simp add: add_node_caps_def)
next
  case None
  let ?nt = "\<lparr>nt_id = i, nt_addr = harness_addr i\<rparr>"
  let ?c0 = "c\<lparr>cl_fabric := register_transport (cl_fabric c) ?nt\<rparr>"
  obtain c1 st where st: "open_stores io ?c0 i dir durable = (c1, st)" by fastforce
  have wf1: "harness_wf c1"
    using open_stores_step [OF st] wf_stores [OF wf_transport [OF wf, of ?nt]] by auto
  show ?thesis
  proof (cases st)
    case (Inl e)
    with add None st wf1 show ?thesis by (simp add: add_node_caps_def new_node_transport_def Let_def)
  next
    case (Inr ds)
    let ?o = "(harness_options c1 i (harness_addr i) (Some ?nt) ds)
      \<lparr>o_max_schema := mx, o_snap_format := fmt, o_features := feats\<rparr>"
    obtain fb nr where nn: "new_node B new_fsm ?o (Some (cl_fabric c1)) = (fb, nr)" by fastforce
    show ?thesis
    proof (cases nr)
      case (Inl e)
      with add None st nn \<open>st = Inr ds\<close> wf1 show ?thesis
        by (simp add: add_node_caps_def new_node_transport_def Let_def)
    next
      case nr: (Inr n)
      have ok: "n_id n = i"
        "the fb = register_capabilities (cl_fabric c1) i (node_capabilities ?o)"
        using new_node_ok nn nr by (fastforce simp: harness_options_def)+
      have c': "c' = install_node (c1\<lparr>cl_fabric := register_node (the fb) (n_id n) (cl_next c1)\<rparr>) i n"
        using add None st nn nr Inr by (simp add: add_node_caps_def new_node_transport_def Let_def)
      have "fb_nodes (register_node (the fb) (n_id n) (cl_next c1)) =
          (fb_nodes (cl_fabric c1))(i \<mapsto> cl_next c1)"
        unfolding ok by (simp add: register_node_def register_capabilities_def)
      moreover have "fabric_wf (register_node (the fb) (n_id n) (cl_next c1))"
        unfolding ok using wf1 by (simp add: harness_wf_def)
      ultimately show ?thesis unfolding c' using wf_install [OF wf1 ok(1)] by simp
    qed
  qed
qed

lemma add_net_wf:
  assumes add: "add_net_node io B new_fsm c i addr dir durable tr src = (c', r)" and wf: "harness_wf c"
  shows "harness_wf c'"
proof -
  obtain c1 st where st: "open_stores io c i dir durable = (c1, st)" by fastforce
  have wf1: "harness_wf c1" using open_stores_step [OF st] wf_stores [OF wf] by auto
  have "fabric_wf (cl_fabric c1)" using wf1 by (simp add: harness_wf_def)
  then have ins: "harness_wf (install_node c1 i n)" if "n_id n = i" for n
    using wf_install [OF wf1 that, of "cl_fabric c1"] by simp
  have new: "n_id n = i"
    if "snd (new_node B new_fsm ((harness_options c1 i addr tr ds)\<lparr>o_caps_source := src\<rparr>)
          (None :: nat fabric option)) = Inr n" for ds n
    using that new_node_ok [of B new_fsm "(harness_options c1 i addr tr ds)\<lparr>o_caps_source := src\<rparr>"
      "None :: nat fabric option" _ n]
    by (cases "new_node B new_fsm ((harness_options c1 i addr tr ds)\<lparr>o_caps_source := src\<rparr>)
          (None :: nat fabric option)") (simp add: harness_options_def)
  show ?thesis
    using add wf wf1 st new by (auto simp: add_net_node_def intro!: ins split: option.splits sum.splits)
qed

lemma harness_step_wf: "harness_step io B B' new_fsm R A J c c' \<Longrightarrow> harness_wf c \<Longrightarrow> harness_wf c'"
proof (induction rule: harness_step.induct)
  case (StepAdd c i dir durable mx fmt feats c' r)
  then show ?case by (rule add_caps_wf)
next
  case (StepAddNet c i addr dir durable tr src c' r)
  then show ?case by (rule add_net_wf)
next
  case (StepJoin c i a c' r)
  then show ?case
    by (auto simp: join_def add_voter_def intro: same_shape_wf dest!: cluster_join_shape dest: node_change_id)
next
  case (StepLearner c i a c' r)
  then show ?case
    by (auto simp: add_learner_def add_nonvoter_def intro: same_shape_wf dest!: cluster_join_shape
        dest: node_change_id)
next
  case (StepPromote i deadline t c c' r)
  then show ?case by (blast intro: same_shape_wf promote_shape)
next
  case (StepFault f c a b)
  then show ?case by (blast intro: same_shape_wf fault_shape)
qed (auto intro: same_shape_wf propose_shape barrier_shape shutdown_shape close_node_shape close_all_shape)

lemma new_cluster_wf [simp]: "harness_wf (new_cluster h)"
  by (simp add: new_cluster_def harness_wf_def new_fabric_def fabric_wf_def)

subsection \<open>The first node\<close>

lemma open_stores_nodes: "open_stores io c i dir durable = (c1, r) \<Longrightarrow> cl_nodes c1 = cl_nodes c"
  by (auto dest: open_stores_step)

lemma add_caps_nodes:
  "add_node_caps io B new_fsm c i dir durable mx fmt feats = (c', r) \<Longrightarrow>
   cl_nodes c' = cl_nodes c \<or> (\<exists>p. cl_nodes c' = AList.update i p (cl_nodes c))"
  by (auto simp: add_node_caps_def new_node_transport_def Let_def install_node_def
      dest!: open_stores_nodes split: option.splits prod.splits sum.splits)

lemma add_net_nodes:
  "add_net_node io B new_fsm c i addr dir durable tr src = (c', r) \<Longrightarrow>
   cl_nodes c' = cl_nodes c \<or> (\<exists>p. cl_nodes c' = AList.update i p (cl_nodes c))"
  by (auto simp: add_net_node_def install_node_def dest!: open_stores_nodes
      split: option.splits prod.splits sum.splits)

lemma new_node_no_bootstrap:
  "\<not> o_bootstrap o1 \<Longrightarrow>
   new_node (B\<lparr>has_existing_state := hs, bootstrap_cluster := bs\<rparr>) new_fsm o1 fb = new_node B new_fsm o1 fb"
  by (cases "o_stores o1"; cases "o_transport o1") (simp_all add: new_node_def bootstrap_stores_def Let_def)

lemma add_caps_no_bootstrap:
  assumes "cl_nodes c \<noteq> []"
  shows "add_node_caps io (B\<lparr>has_existing_state := hs, bootstrap_cluster := bs\<rparr>) new_fsm c i dir durable mx fmt feats =
     add_node_caps io B new_fsm c i dir durable mx fmt feats"
proof -
  have k: "new_node (B\<lparr>has_existing_state := hs, bootstrap_cluster := bs\<rparr>) new_fsm
      ((harness_options c1 i a tr st)\<lparr>o_max_schema := mx, o_snap_format := fmt, o_features := feats\<rparr>) fb =
    new_node B new_fsm
      ((harness_options c1 i a tr st)\<lparr>o_max_schema := mx, o_snap_format := fmt, o_features := feats\<rparr>) fb"
    if "open_stores io (c\<lparr>cl_fabric := f\<rparr>) i dir durable = (c1, r)" for f c1 r a tr st and fb :: "nat fabric option"
    using assms open_stores_nodes [OF that] by (intro new_node_no_bootstrap) (simp add: harness_options_def)
  show ?thesis
  proof (cases "io_mkdir io dir")
    case None
    then show ?thesis
      by (auto simp: add_node_caps_def new_node_transport_def Let_def k split: prod.splits sum.splits)
  qed (simp add: add_node_caps_def)
qed

lemma add_net_no_bootstrap:
  assumes "cl_nodes c \<noteq> []"
  shows "add_net_node io (B\<lparr>has_existing_state := hs, bootstrap_cluster := bs\<rparr>) new_fsm c i addr dir durable tr src =
     add_net_node io B new_fsm c i addr dir durable tr src"
proof -
  have k: "new_node (B\<lparr>has_existing_state := hs, bootstrap_cluster := bs\<rparr>) new_fsm
      ((harness_options c1 i addr tr st)\<lparr>o_caps_source := src\<rparr>) fb =
    new_node B new_fsm ((harness_options c1 i addr tr st)\<lparr>o_caps_source := src\<rparr>) fb"
    if "open_stores io c i dir durable = (c1, r)" for c1 r st and fb :: "nat fabric option"
    using assms open_stores_nodes [OF that] by (intro new_node_no_bootstrap) (simp add: harness_options_def)
  show ?thesis
  proof (cases "io_mkdir io dir")
    case None
    then show ?thesis by (auto simp: add_net_node_def k split: prod.splits sum.splits)
  qed (simp add: add_net_node_def)
qed

lemma harness_step_nodes:
  "harness_step io B B' new_fsm R A J c c' \<Longrightarrow>
   cl_nodes c' = cl_nodes c \<or> (\<exists>i p. cl_nodes c' = AList.update i p (cl_nodes c))"
proof (induction rule: harness_step.induct)
  case (StepAdd c i dir durable mx fmt feats c' r)
  then show ?case by (blast dest: add_caps_nodes)
next
  case (StepAddNet c i addr dir durable tr src c' r)
  then show ?case by (blast dest: add_net_nodes)
next
  case (StepJoin c i a c' r)
  then show ?case by (auto simp: join_def cluster_join_def split: option.splits prod.splits)
next
  case (StepLearner c i a c' r)
  then show ?case by (auto simp: add_learner_def cluster_join_def split: option.splits prod.splits)
next
  case (StepPromote i deadline t c c' r)
  then show ?case by (blast dest: promote_shape [unfolded same_shape_def])
next
  case (StepPropose i c op c' r)
  then show ?case by (blast dest: propose_shape [unfolded same_shape_def])
next
  case (StepBarrier c c' r)
  then show ?case by (blast dest: barrier_shape [unfolded same_shape_def])
next
  case (StepShutdown c c')
  then show ?case using shutdown_shape [of c A] by (simp add: same_shape_def)
next
  case (StepCloseNode close c i c' r)
  then show ?case by (blast dest: close_node_shape [unfolded same_shape_def])
next
  case (StepCloseAll c c' r)
  then show ?case by (blast dest: close_all_shape [unfolded same_shape_def])
qed simp_all

lemma harness_run_nodes:
  "(harness_step io B B' new_fsm R A J)\<^sup>*\<^sup>* c c' \<Longrightarrow> dom (map_of (cl_nodes c)) \<subseteq> dom (map_of (cl_nodes c'))"
proof (induction rule: rtranclp_induct)
  case (step c1 c2)
  then show ?case using harness_step_nodes [OF step(2)] by (auto simp: map_of_AList_update)
qed simp

section \<open>Properties\<close>

text \<open>In every state a harness can reach, by adding nodes, joining, promoting, proposing, partitioning,
  barriers, shutting down and closing in any order, each identity has one node and one durable
  store on file, the node map and the fabric lead from an identity to an allocated node that
  carries this identity, and the fabric knows no node that the harness does not.\<close>

theorem harness_filed:
  assumes "harness_reachable io B B' new_fsm R A J c"
  shows "harness_wf c"
proof -
  obtain h where "(harness_step io B B' new_fsm R A J)\<^sup>*\<^sup>* (new_cluster h) c"
    using assms by (auto simp: harness_reachable_def)
  then show ?thesis
    by (induction rule: rtranclp_induct) (auto intro: harness_step_wf)
qed

text \<open>Only the first node is bootstrapped: once a harness has a node, whatever happens to it
  afterwards, adding another, in process or over the network, gives the same outcome and the same
  state whatever the two raft functions that detect existing state and bootstrap a cluster would
  do.\<close>

theorem first_node_bootstraps:
  assumes "cl_nodes c \<noteq> []" and "(harness_step io B B' new_fsm R A J)\<^sup>*\<^sup>* c c'"
  shows "add_node_caps io (B\<lparr>has_existing_state := hs, bootstrap_cluster := bs\<rparr>) new_fsm c' i dir durable mx fmt feats =
      add_node_caps io B new_fsm c' i dir durable mx fmt feats \<and>
    add_net_node io (B'\<lparr>has_existing_state := hs', bootstrap_cluster := bs'\<rparr>) new_fsm c' i addr dir durable tr src =
      add_net_node io B' new_fsm c' i addr dir durable tr src"
proof -
  have "cl_nodes c' \<noteq> []" using harness_run_nodes [OF assms(2)] assms(1) by (cases "cl_nodes c") auto
  then show ?thesis by (intro conjI add_caps_no_bootstrap add_net_no_bootstrap)
qed

text \<open>A file system that answers every request, and a harness with one durable node.\<close>

definition ex_io :: "(unit, unit) harness_io" where
  "ex_io = \<lparr>io_mkdir = (\<lambda>_. None), io_bolt = (\<lambda>_. Inr ()), io_inmem = (), io_snaps = (\<lambda>_. Inr ())\<rparr>"

definition ex_start :: "(unit \<times> unit, 't, kvfsm, nat) raft_boot" where
  "ex_start = \<lparr>default_config = default_config ex_boot, has_existing_state = (\<lambda>_. Inr False),
     bootstrap_cluster = (\<lambda>_ st _ _. Inr st), new_raft = (\<lambda>_ _ _ _. Inr 0)\<rparr>"

definition ex_admin :: "(nat, kvfsm) raft_admin" where
  "ex_admin = \<lparr>ra_barrier = (\<lambda>r f t. (r, f, None)), ra_transfer = (\<lambda>r. (r, None)),
     ra_snapshot = (\<lambda>r f. (r, None)), ra_shutdown = (\<lambda>r. (r, None))\<rparr>"

definition ex_harness :: "(nat, kvfsm) cluster" where
  "ex_harness = fst (add_node ex_io ex_start new_kvfsm_with_schema (new_cluster (\<lambda>_. ex_node CapsNone))
     ''a'' ''/d'' True)"

abbreviation ex_harness_step :: "(nat, kvfsm) cluster \<Rightarrow> (nat, kvfsm) cluster \<Rightarrow> bool" where
  "ex_harness_step \<equiv> harness_step ex_io ex_start (ex_start :: (unit \<times> unit, unit, kvfsm, nat) raft_boot)
     new_kvfsm_with_schema (ex_raft ex_voters) ex_admin ex_snap"

lemma ex_harness_step1: "ex_harness_step (new_cluster (\<lambda>_. ex_node CapsNone)) ex_harness"
  unfolding ex_harness_def add_node_def by (rule StepAdd) (rule surjective_pairing)

lemma ex_harness_fields:
  "cl_nodes ex_harness = [(''a'', 0)]" "map fst (cl_stores ex_harness) = [''a'']"
  by (simp_all add: ex_harness_def add_node_def add_node_caps_def new_node_transport_def Let_def
      open_stores_def ex_io_def ex_start_def new_node_def bootstrap_stores_def harness_options_def
      install_node_def new_cluster_def)

lemma harness_filed_witness:
  "cl_nodes ex_harness = [(''a'', 0)] \<and> harness_wf ex_harness"
proof -
  have "harness_reachable ex_io ex_start (ex_start :: (unit \<times> unit, unit, kvfsm, nat) raft_boot)
      new_kvfsm_with_schema (ex_raft ex_voters) ex_admin ex_snap ex_harness"
    unfolding harness_reachable_def using ex_harness_step1 by blast
  from harness_filed [OF this] show ?thesis by (simp add: ex_harness_fields)
qed

lemma first_node_bootstraps_witness:
  "cl_nodes ex_harness \<noteq> [] \<and>
   add_node_caps ex_io (ex_start\<lparr>has_existing_state := \<lambda>_. Inl ''unread'', bootstrap_cluster := \<lambda>_ _ _ _. Inl ''refused''\<rparr>)
     new_kvfsm_with_schema (shutdown_all ex_admin ex_harness) ''b'' ''/e'' False 2 1 [] =
   add_node_caps ex_io ex_start new_kvfsm_with_schema (shutdown_all ex_admin ex_harness) ''b'' ''/e'' False 2 1 []"
proof -
  have "ex_harness_step\<^sup>*\<^sup>* ex_harness (shutdown_all ex_admin ex_harness)"
    by (rule r_into_rtranclp, rule StepShutdown) (rule refl)
  moreover have "cl_nodes ex_harness \<noteq> []" by (simp add: ex_harness_fields)
  ultimately show ?thesis
    using first_node_bootstraps [THEN conjunct1] by blast
qed

end
