(* ===== verification/Replica_Serve.thy ===== *)
theory Replica_Serve
  imports Replica_Net_Laws Go_Bytes
begin

text \<open>
  The goroutines of \<open>replication/nettransport.go\<close>: the accept loop, one goroutine per accepted
  connection with its revalidation ticker, and \<open>Close\<close>, which waits for all of them.

  A connection the listener returned is \<open>pending\<close> until its goroutine has entered it into the table
  of accepted connections, and \<open>running\<close> from then until the goroutine is done. A running goroutine
  waits for bytes without a deadline: it ends when its socket is closed at this end or its peer
  makes it end.
\<close>

section \<open>State and steps\<close>

record serving =
  sv_net :: net_transport
  sv_listening :: bool
  sv_revalidating :: bool
  sv_pending :: "nat set"
  sv_running :: "nat set"
  sv_auth :: "nat \<rightharpoonup> server_id"

definition start_serving :: "net_transport \<Rightarrow> serving" where
  "start_serving t = \<lparr>sv_net = t, sv_listening = True, sv_revalidating = nx_membership (x_opts t),
     sv_pending = {}, sv_running = {}, sv_auth = Map.empty\<rparr>"

text \<open>One turn of \<open>serve\<close>: a connection is handed to a goroutine; an error ends the loop once the
  transport is shut down.\<close>

definition serve_turn :: "serving \<Rightarrow> nat option \<Rightarrow> serving" where
  "serve_turn s conn =
     (case conn of
        Some c \<Rightarrow> s\<lparr>sv_pending := insert c (sv_pending s)\<rparr>
      | None \<Rightarrow> if x_closed (sv_net s) then s\<lparr>sv_listening := False\<rparr> else s)"

text \<open>The first lines of \<open>serveConn\<close>, and what it deferred.\<close>

definition serve_register :: "serving \<Rightarrow> nat \<Rightarrow> serving" where
  "serve_register s c = s\<lparr>sv_pending := sv_pending s - {c}, sv_running := insert c (sv_running s),
     sv_net := (sv_net s)\<lparr>x_accepted := insert c (x_accepted (sv_net s))\<rparr>\<rparr>"

definition serve_done :: "serving \<Rightarrow> nat \<Rightarrow> serving" where
  "serve_done s c = s\<lparr>sv_running := sv_running s - {c}, sv_auth := (sv_auth s)(c := None),
     sv_net := close_conn ((sv_net s)\<lparr>x_accepted := x_accepted (sv_net s) - {c}\<rparr>) c\<rparr>"

text \<open>One tick of the goroutine that \<open>serveConn\<close> starts after the handshake.\<close>

definition serve_tick ::
  "(server_id \<Rightarrow> handshake_error + membership_status) \<Rightarrow> serving \<Rightarrow> nat \<Rightarrow> serving" where
  "serve_tick mem s c =
     (case sv_auth s c of
        None \<Rightarrow> s
      | Some i \<Rightarrow>
          if \<not> nx_membership (x_opts (sv_net s)) \<or> member_active (x_opts (sv_net s)) (mem i) then s
          else s\<lparr>sv_net := close_conn (sv_net s) c\<rparr>)"

definition serving_close :: "serving \<Rightarrow> serving" where
  "serving_close s = s\<lparr>sv_net := transport_close (sv_net s)\<rparr>"

text \<open>The wait group is at zero.\<close>

definition all_done :: "serving \<Rightarrow> bool" where
  "all_done s \<longleftrightarrow> \<not> sv_listening s \<and> \<not> sv_revalidating s \<and> sv_pending s = {} \<and> sv_running s = {}"

text \<open>What happens without the peers: turns of the loops, registrations, ticks, and the end of a
  goroutine whose socket is closed here.\<close>

inductive serve_alone :: "serving \<Rightarrow> serving \<Rightarrow> bool" where
  Stopped: "sv_listening s \<Longrightarrow> serve_alone s (serve_turn s None)"
| RevalidationStopped: "x_closed (sv_net s) \<Longrightarrow> serve_alone s (s\<lparr>sv_revalidating := False\<rparr>)"
| Registered: "c \<in> sv_pending s \<Longrightarrow> serve_alone s (serve_register s c)"
| Ticked: "c \<in> sv_running s \<Longrightarrow> serve_alone s (serve_tick mem s c)"
| Ended: "c \<in> sv_running s \<Longrightarrow> c \<in> x_shut (sv_net s) \<Longrightarrow> serve_alone s (serve_done s c)"

text \<open>What the peers and the user of the transport do; the listener can still return a connection while
  \<open>Close\<close> is under way.\<close>

inductive serve_step :: "serving \<Rightarrow> serving \<Rightarrow> bool" where
  Alone: "serve_alone s s' \<Longrightarrow> serve_step s s'"
| Accepted: "sv_listening s \<Longrightarrow> fresh_socket (sv_net s) c \<Longrightarrow>
     c \<notin> sv_pending s \<Longrightarrow> serve_step s (serve_turn s (Some c))"
| Authenticated: "c \<in> sv_running s \<Longrightarrow> serve_step s (s\<lparr>sv_auth := (sv_auth s)(c \<mapsto> i)\<rparr>)"
| PeerEnded: "c \<in> sv_running s \<Longrightarrow> serve_step s (serve_done s c)"
| Dialed: "fresh_socket (sv_net s) (pc_conn pc) \<Longrightarrow> pc_conn pc \<notin> sv_pending s \<Longrightarrow>
     serve_step s (s\<lparr>sv_net := fst (get_conn_install (sv_net s) target i pc)\<rparr>)"
| Dropped: "pc_conn pc \<notin> sv_pending s \<union> sv_running s \<Longrightarrow>
     serve_step s (s\<lparr>sv_net := drop_conn (sv_net s) target pc\<rparr>)"
| Closed: "serve_step s (serving_close s)"

section \<open>What the goroutines keep\<close>

definition table_sockets :: "net_transport \<Rightarrow> nat set" where
  "table_sockets t = pc_conn ` ran (x_conns t)"

definition serving_ok :: "serving \<Rightarrow> bool" where
  "serving_ok s \<longleftrightarrow> finite (sv_pending s) \<and> finite (sv_running s) \<and>
     x_accepted (sv_net s) = sv_running s \<and> sv_pending s \<inter> sv_running s = {} \<and>
     sv_pending s \<inter> x_shut (sv_net s) = {} \<and> dom (sv_auth s) \<subseteq> sv_running s \<and>
     sv_pending s \<inter> table_sockets (sv_net s) = {}"

lemma table_sockets_simps [simp]:
  "table_sockets (t\<lparr>x_accepted := A\<rparr>) = table_sockets t" "table_sockets (close_conn t c) = table_sockets t"
  by (simp_all add: table_sockets_def close_conn_def)

lemma close_conn_simps [simp]:
  "x_accepted (close_conn t c) = x_accepted t" "x_shut (close_conn t c) = insert c (x_shut t)"
  by (simp_all add: close_conn_def)

lemma serving_ok_register: "c \<in> sv_pending s \<Longrightarrow> serving_ok s \<Longrightarrow> serving_ok (serve_register s c)"
  by (auto simp: serving_ok_def serve_register_def)

lemma serving_ok_done: "c \<in> sv_running s \<Longrightarrow> serving_ok s \<Longrightarrow> serving_ok (serve_done s c)"
  by (auto simp: serving_ok_def serve_done_def)

lemma serving_ok_tick: "c \<in> sv_running s \<Longrightarrow> serving_ok s \<Longrightarrow> serving_ok (serve_tick mem s c)"
  by (auto simp: serving_ok_def serve_tick_def split: option.split)

lemma serving_ok_alone: "serve_alone s s' \<Longrightarrow> serving_ok s \<Longrightarrow> serving_ok s'"
proof (induction rule: serve_alone.induct)
  case (Stopped s)
  then show ?case by (auto simp: serving_ok_def serve_turn_def)
next
  case (RevalidationStopped s)
  then show ?case by (simp add: serving_ok_def)
qed (simp_all add: serving_ok_register serving_ok_done serving_ok_tick)

lemma get_conn_install_frame:
  "x_accepted (fst (get_conn_install t target i pc)) = x_accepted t"
  "x_shut (fst (get_conn_install t target i pc)) \<subseteq> insert (pc_conn pc) (x_shut t)"
  "table_sockets (fst (get_conn_install t target i pc)) \<subseteq> insert (pc_conn pc) (table_sockets t)"
  by (auto simp: get_conn_install_def close_conn_def table_sockets_def ran_def split: option.splits if_splits)

lemma drop_conn_frame: "table_sockets (drop_conn t target pc) \<subseteq> table_sockets t"
  by (auto simp: table_sockets_def ran_def split: if_splits)

lemma transport_close_frame:
  "x_accepted (transport_close t) = x_accepted t" "table_sockets (transport_close t) \<subseteq> table_sockets t"
  "x_shut (transport_close t) \<subseteq> x_shut t \<union> table_sockets t \<union> x_accepted t"
  by (auto simp: transport_close_def table_sockets_def)

lemma serving_ok_table:
  assumes "serving_ok s" and "x_accepted t = x_accepted (sv_net s)"
    and "table_sockets t \<inter> sv_pending s = {}" and "x_shut t \<inter> sv_pending s = {}"
  shows "serving_ok (s\<lparr>sv_net := t\<rparr>)"
  using assms by (auto simp: serving_ok_def)

lemma serving_ok_step: "serve_step s s' \<Longrightarrow> serving_ok s \<Longrightarrow> serving_ok s'"
proof (induction rule: serve_step.induct)
  case (Alone s s')
  then show ?case by (rule serving_ok_alone)
next
  case (Accepted s c)
  then have "c \<notin> table_sockets (sv_net s)" by (auto simp: fresh_socket_def table_sockets_def ran_def)
  with Accepted show ?case by (auto simp: serving_ok_def serve_turn_def fresh_socket_def)
next
  case (Dialed s pc target i)
  then show ?case
    using get_conn_install_frame [of "sv_net s" target i pc]
    by (intro serving_ok_table) (auto simp: serving_ok_def)
next
  case (Dropped pc s target)
  then show ?case
    using drop_conn_frame [of "sv_net s" target pc] by (intro serving_ok_table) (auto simp: serving_ok_def)
next
  case (Closed s)
  then show ?case
    using transport_close_frame [of "sv_net s"] unfolding serving_close_def
    by (intro serving_ok_table) (simp_all add: serving_ok_def, blast+)
next
  case (Authenticated c s i)
  then show ?case by (simp add: serving_ok_def)
qed (rule serving_ok_done)

lemma serving_ok_run: "serve_step\<^sup>*\<^sup>* s s' \<Longrightarrow> serving_ok s \<Longrightarrow> serving_ok s'"
  by (induction rule: rtranclp_induct) (auto intro: serving_ok_step)

lemma serving_ok_start:
  "new_net_transport o1 bound = Inr t \<Longrightarrow> serving_ok (start_serving t)"
  by (auto simp: new_net_transport_def serving_ok_def start_serving_def table_sockets_def split: if_splits option.splits)

section \<open>Closing\<close>

text \<open>A goroutine whose socket is open at this end stays as long as its peer does nothing.\<close>

definition held :: "nat \<Rightarrow> serving \<Rightarrow> bool" where
  "held c s \<longleftrightarrow> c \<in> sv_pending s \<union> sv_running s \<and> c \<notin> x_shut (sv_net s) \<and> sv_auth s c = None"

lemma held_alone: "serve_alone s s' \<Longrightarrow> held c s \<Longrightarrow> held c s'"
proof (induction rule: serve_alone.induct)
  case (Ticked c' s mem)
  then show ?case by (auto simp: held_def serve_tick_def close_conn_def split: option.splits)
qed (auto simp: held_def serve_turn_def serve_register_def serve_done_def close_conn_def)

lemma held_run: "serve_alone\<^sup>*\<^sup>* s s' \<Longrightarrow> held c s \<Longrightarrow> held c s'"
  by (induction rule: rtranclp_induct) (auto intro: held_alone)

lemma held_not_done: "held c s \<Longrightarrow> \<not> all_done s"
  by (auto simp: held_def all_done_def)

text \<open>Goroutines whose sockets are closed end one after the other.\<close>

lemma drain:
  assumes "finite R" and "sv_running s = R" and "R \<subseteq> x_shut (sv_net s)"
  shows "\<exists>s'. serve_alone\<^sup>*\<^sup>* s s' \<and> sv_running s' = {} \<and> sv_pending s' = sv_pending s \<and>
     x_closed (sv_net s') = x_closed (sv_net s)"
  using assms
proof (induction R arbitrary: s rule: finite_induct)
  case (insert c R)
  let ?s = "serve_done s c"
  have step: "serve_alone s ?s" using insert.prems by (intro Ended) auto
  have s: "sv_running ?s = R" "R \<subseteq> x_shut (sv_net ?s)" "sv_pending ?s = sv_pending s"
    "x_closed (sv_net ?s) = x_closed (sv_net s)"
    using insert by (auto simp: serve_done_def close_conn_def)
  from insert.IH [OF s(1,2)] show ?case
    unfolding s(3,4) using converse_rtranclp_into_rtranclp [of serve_alone, OF step] by blast
qed blast

lemma loops_stop:
  assumes "x_closed (sv_net s)" and "sv_running s = {}" and "sv_pending s = {}"
  shows "\<exists>s'. serve_alone\<^sup>*\<^sup>* s s' \<and> all_done s'"
proof -
  let ?r = "s\<lparr>sv_revalidating := False\<rparr>"
  have r: "serve_alone s ?r" using assms(1) by (rule RevalidationStopped)
  show ?thesis
  proof (cases "sv_listening s")
    case True
    then have "serve_alone ?r (serve_turn ?r None)" by (intro Stopped) simp
    with r have "serve_alone\<^sup>*\<^sup>* s (serve_turn ?r None)" by simp
    then show ?thesis using assms by (fastforce simp: all_done_def serve_turn_def)
  next
    case False
    with assms have "all_done ?r" by (simp add: all_done_def)
    with r show ?thesis by blast
  qed
qed

section \<open>Properties\<close>

text \<open>C9. Whether \<open>Close\<close> returns without help from the peers: from every reachable state of an open
  transport, the goroutines that \<open>Close\<close> waits for can all end without any peer acting exactly when
  every accepted connection had been entered into the table before \<open>Close\<close> read it. A connection
  whose goroutine enters it later is left open, and keeps \<open>Close\<close> waiting until its peer ends it.\<close>

theorem close_returns_iff_registered:
  assumes new: "new_net_transport o1 bound = Inr t0" and run: "serve_step\<^sup>*\<^sup>* (start_serving t0) s"
    and opened: "\<not> x_closed (sv_net s)"
  shows "(\<exists>s'. serve_alone\<^sup>*\<^sup>* (serving_close s) s' \<and> all_done s') \<longleftrightarrow> sv_pending s = {}"
proof
  have ok: "serving_ok s" using run serving_ok_start [OF new] by (rule serving_ok_run)
  have ok': "serving_ok (serving_close s)" using Closed ok by (rule serving_ok_step)
  have same: "sv_pending (serving_close s) = sv_pending s" "sv_running (serving_close s) = sv_running s"
    by (simp_all add: serving_close_def)
  {
    assume "\<exists>s'. serve_alone\<^sup>*\<^sup>* (serving_close s) s' \<and> all_done s'"
    then obtain s' where s': "serve_alone\<^sup>*\<^sup>* (serving_close s) s'" "all_done s'" by blast
    show "sv_pending s = {}"
    proof (rule ccontr)
      assume "sv_pending s \<noteq> {}"
      then obtain c where "c \<in> sv_pending s" by blast
      then have "held c (serving_close s)"
        using ok' unfolding held_def serving_ok_def same by blast
      with s' show False using held_run held_not_done by blast
    qed
  next
    assume none: "sv_pending s = {}"
    have "sv_running (serving_close s) \<subseteq> x_shut (sv_net (serving_close s))"
      using ok opened by (auto simp: serving_ok_def serving_close_def transport_close_def)
    moreover have "finite (sv_running (serving_close s))" using ok' by (simp add: serving_ok_def)
    moreover have "x_closed (sv_net (serving_close s))" by (simp add: serving_close_def transport_close_def)
    ultimately obtain u where u: "serve_alone\<^sup>*\<^sup>* (serving_close s) u" "sv_running u = {}"
      "sv_pending u = {}" "x_closed (sv_net u)"
      using drain [of "sv_running (serving_close s)" "serving_close s"] none same(1) by auto
    with loops_stop show "\<exists>s'. serve_alone\<^sup>*\<^sup>* (serving_close s) s' \<and> all_done s'"
      by (meson rtranclp_trans)
  }
qed

text \<open>A connection accepted just before \<open>Close\<close>, and a transport that accepted none.\<close>

definition ex_accepting :: serving where
  "ex_accepting = serve_turn (start_serving ex_transport) (Some 3)"

lemma close_returns_iff_registered_witness:
  "\<not> (\<exists>s'. serve_alone\<^sup>*\<^sup>* (serving_close ex_accepting) s' \<and> all_done s') \<and>
   (\<exists>s'. serve_alone\<^sup>*\<^sup>* (serving_close (serve_register ex_accepting 3)) s' \<and> all_done s')"
proof
  have s: "serve_step\<^sup>*\<^sup>* (start_serving ex_transport) ex_accepting"
    unfolding ex_accepting_def
    by (intro r_into_rtranclp Accepted) (simp_all add: start_serving_def ex_transport_def fresh_socket_def)
  have p: "sv_pending ex_accepting = {3}" "\<not> x_closed (sv_net ex_accepting)"
    by (simp_all add: ex_accepting_def serve_turn_def start_serving_def ex_transport_def)
  show "\<not> (\<exists>s'. serve_alone\<^sup>*\<^sup>* (serving_close ex_accepting) s' \<and> all_done s')"
    using close_returns_iff_registered [OF ex_transport_new s p(2)] p(1) by simp
  have "serve_step ex_accepting (serve_register ex_accepting 3)"
    using p(1) by (intro Alone Registered) simp
  with s have r: "serve_step\<^sup>*\<^sup>* (start_serving ex_transport) (serve_register ex_accepting 3)" by simp
  have "\<not> x_closed (sv_net (serve_register ex_accepting 3))" "sv_pending (serve_register ex_accepting 3) = {}"
    using p by (simp_all add: serve_register_def)
  with close_returns_iff_registered [OF ex_transport_new r]
  show "\<exists>s'. serve_alone\<^sup>*\<^sup>* (serving_close (serve_register ex_accepting 3)) s' \<and> all_done s'" by simp
qed

section \<open>Nonces\<close>

text \<open>\<open>newNonce\<close> of \<open>replication/rand.go\<close>: \<open>random\<close> is what \<open>crypto/rand\<close> answers to a request for so many
  bytes. Different bytes give different nonces.\<close>

definition new_nonce :: "(nat \<Rightarrow> string option) \<Rightarrow> string option" where
  "new_nonce random = map_option (base64_encode base64_url) (random 18)"

lemma nonces_differ:
  assumes "new_nonce r = Some a" and "new_nonce r' = Some b" and "r 18 \<noteq> r' 18"
  shows "a \<noteq> b"
proof -
  obtain x where x: "r 18 = Some x" "a = base64_encode base64_url x"
    using assms(1) by (cases "r 18") (simp_all add: new_nonce_def)
  obtain y where y: "r' 18 = Some y" "b = base64_encode base64_url y"
    using assms(2) by (cases "r' 18") (simp_all add: new_nonce_def)
  have "base64_decode base64_url a \<noteq> base64_decode base64_url b"
    using assms(3) unfolding x y by simp
  then show ?thesis by blast
qed

lemma length_sextets_thirds: "length xs mod 3 = 0 \<Longrightarrow> 3 * length (sextets xs) = 4 * length xs"
proof (induction xs rule: sextets.induct)
  case (1 a b c r)
  then have "length r mod 3 = 0" by (simp add: mod_Suc split: if_splits)
  with 1 show ?case by simp
qed simp_all

lemma nonce_length:
  assumes "new_nonce r = Some a" and "\<And>x. r 18 = Some x \<Longrightarrow> length x = 18"
  shows "length a = 24"
proof -
  obtain x where x: "r 18 = Some x" "a = base64_encode base64_url x"
    using assms(1) by (cases "r 18") (simp_all add: new_nonce_def)
  then show ?thesis using length_sextets_thirds [of "map of_char x"] assms(2) by (simp add: base64_encode_def)
qed

end
