(* ===== verification/Auth_Clone.thy ===== *)
theory Auth_Clone
  imports Auth_Accounts
begin

text \<open>
  The copies of \<open>auth/model.go\<close>: \<open>cloneAccounts\<close>, \<open>cloneAccount\<close>, \<open>cloneIdentity\<close> and \<open>cloneRoles\<close>,
  over an explicit store of the arrays behind the slices.

  The other theories treat the documents of the account model as values. Here a document is a value
  that holds addresses of arrays, and what it contains is a view of the store; that a copy shares
  no array with its source is what makes the two readings agree. A slice is \<open>None\<close> when it is nil,
  and otherwise the whole of its array.
\<close>

section \<open>Arrays\<close>

record ref_identity =
  ri_scalars :: identity
  ri_recovery :: "nat option"

record ref_account =
  ra_scalars :: account
  ra_roles :: "nat option"
  ra_identities :: "nat option"

record ref_role =
  rr_scalars :: role
  rr_caps :: "nat option"

record arrays =
  ar_strings :: "nat \<Rightarrow> string list"
  ar_identities :: "nat \<Rightarrow> ref_identity list"
  ar_accounts :: "nat \<Rightarrow> ref_account list"
  ar_roles :: "nat \<Rightarrow> ref_role list"
  ar_next :: nat

record ref_accounts_file =
  raf_version :: int
  raf_accounts :: "nat option"

record ref_roles_file =
  rrf_version :: int
  rrf_roles :: "nat option"

definition slice_of :: "(nat \<Rightarrow> 'a list) \<Rightarrow> nat option \<Rightarrow> 'a list" where
  "slice_of f s = (case s of None \<Rightarrow> [] | Some p \<Rightarrow> f p)"

definition reserve :: "arrays \<Rightarrow> arrays \<times> nat" where
  "reserve h = (h\<lparr>ar_next := Suc (ar_next h)\<rparr>, ar_next h)"

section \<open>Copies\<close>

text \<open>\<open>append([]string(nil), xs...)\<close>: nil for no elements, a new array otherwise.\<close>

definition copy_strings :: "arrays \<Rightarrow> nat option \<Rightarrow> arrays \<times> nat option" where
  "copy_strings h s =
     (if slice_of (ar_strings h) s = [] then (h, None)
      else (case reserve h of
        (h1, p) \<Rightarrow> (h1\<lparr>ar_strings := (ar_strings h1)(p := slice_of (ar_strings h) s)\<rparr>, Some p)))"

fun clone_each :: "(arrays \<Rightarrow> 'a \<Rightarrow> arrays \<times> 'a) \<Rightarrow> arrays \<Rightarrow> 'a list \<Rightarrow> arrays \<times> 'a list" where
  "clone_each f h [] = (h, [])"
| "clone_each f h (x # xs) =
     (case f h x of (h1, y) \<Rightarrow> case clone_each f h1 xs of (h2, ys) \<Rightarrow> (h2, y # ys))"

definition clone_identity :: "arrays \<Rightarrow> ref_identity \<Rightarrow> arrays \<times> ref_identity" where
  "clone_identity h i = (case copy_strings h (ri_recovery i) of (h1, s) \<Rightarrow> (h1, i\<lparr>ri_recovery := s\<rparr>))"

text \<open>The array of identities is copied first, and its elements are then replaced one by one.\<close>

definition clone_identities :: "arrays \<Rightarrow> nat option \<Rightarrow> arrays \<times> nat option" where
  "clone_identities h s =
     (if slice_of (ar_identities h) s = [] then (h, None)
      else (case reserve h of
        (h1, p) \<Rightarrow> (case clone_each clone_identity h1 (slice_of (ar_identities h) s) of
          (h2, ys) \<Rightarrow> (h2\<lparr>ar_identities := (ar_identities h2)(p := ys)\<rparr>, Some p))))"

definition clone_account :: "arrays \<Rightarrow> ref_account \<Rightarrow> arrays \<times> ref_account" where
  "clone_account h a =
     (case copy_strings h (ra_roles a) of
        (h1, rs) \<Rightarrow> (case clone_identities h1 (ra_identities a) of
          (h2, is) \<Rightarrow> (h2, a\<lparr>ra_roles := rs, ra_identities := is\<rparr>)))"

definition clone_accounts :: "arrays \<Rightarrow> ref_accounts_file \<Rightarrow> arrays \<times> ref_accounts_file" where
  "clone_accounts h d =
     (case reserve h of
        (h1, p) \<Rightarrow> (case clone_each clone_account h1 (slice_of (ar_accounts h) (raf_accounts d)) of
          (h2, ys) \<Rightarrow> (h2\<lparr>ar_accounts := (ar_accounts h2)(p := ys)\<rparr>, d\<lparr>raf_accounts := Some p\<rparr>)))"

definition clone_role :: "arrays \<Rightarrow> ref_role \<Rightarrow> arrays \<times> ref_role" where
  "clone_role h r = (case copy_strings h (rr_caps r) of (h1, s) \<Rightarrow> (h1, r\<lparr>rr_caps := s\<rparr>))"

definition clone_roles :: "arrays \<Rightarrow> ref_roles_file \<Rightarrow> arrays \<times> ref_roles_file" where
  "clone_roles h d =
     (case reserve h of
        (h1, p) \<Rightarrow> (case clone_each clone_role h1 (slice_of (ar_roles h) (rrf_roles d)) of
          (h2, ys) \<Rightarrow> (h2\<lparr>ar_roles := (ar_roles h2)(p := ys)\<rparr>, d\<lparr>rrf_roles := Some p\<rparr>)))"

section \<open>Views and reach\<close>

definition identity_view :: "arrays \<Rightarrow> ref_identity \<Rightarrow> identity" where
  "identity_view h i = (ri_scalars i)\<lparr>id_recovery := slice_of (ar_strings h) (ri_recovery i)\<rparr>"

definition identity_reach :: "arrays \<Rightarrow> ref_identity \<Rightarrow> nat set" where
  "identity_reach h i = set_option (ri_recovery i)"

definition account_view :: "arrays \<Rightarrow> ref_account \<Rightarrow> account" where
  "account_view h a = (ra_scalars a)\<lparr>ac_roles := slice_of (ar_strings h) (ra_roles a),
     ac_identities := map (identity_view h) (slice_of (ar_identities h) (ra_identities a))\<rparr>"

definition account_reach :: "arrays \<Rightarrow> ref_account \<Rightarrow> nat set" where
  "account_reach h a = set_option (ra_roles a) \<union> set_option (ra_identities a) \<union>
     (\<Union>i \<in> set (slice_of (ar_identities h) (ra_identities a)). identity_reach h i)"

definition accounts_view :: "arrays \<Rightarrow> ref_accounts_file \<Rightarrow> accounts_file" where
  "accounts_view h d = \<lparr>af_version = raf_version d,
     af_accounts = map (account_view h) (slice_of (ar_accounts h) (raf_accounts d))\<rparr>"

definition accounts_reach :: "arrays \<Rightarrow> ref_accounts_file \<Rightarrow> nat set" where
  "accounts_reach h d = set_option (raf_accounts d) \<union>
     (\<Union>a \<in> set (slice_of (ar_accounts h) (raf_accounts d)). account_reach h a)"

definition role_view :: "arrays \<Rightarrow> ref_role \<Rightarrow> role" where
  "role_view h r = (rr_scalars r)\<lparr>ro_caps := slice_of (ar_strings h) (rr_caps r)\<rparr>"

definition role_reach :: "arrays \<Rightarrow> ref_role \<Rightarrow> nat set" where
  "role_reach h r = set_option (rr_caps r)"

definition roles_view :: "arrays \<Rightarrow> ref_roles_file \<Rightarrow> roles_file" where
  "roles_view h d = \<lparr>rf_version = rrf_version d,
     rf_roles = map (role_view h) (slice_of (ar_roles h) (rrf_roles d))\<rparr>"

definition roles_reach :: "arrays \<Rightarrow> ref_roles_file \<Rightarrow> nat set" where
  "roles_reach h d = set_option (rrf_roles d) \<union>
     (\<Union>r \<in> set (slice_of (ar_roles h) (rrf_roles d)). role_reach h r)"

text \<open>Two stores agree on a set of addresses; one extends another when it keeps all its arrays.\<close>

definition agree :: "nat set \<Rightarrow> arrays \<Rightarrow> arrays \<Rightarrow> bool" where
  "agree X h g \<longleftrightarrow> (\<forall>p \<in> X. ar_strings g p = ar_strings h p \<and> ar_identities g p = ar_identities h p \<and>
     ar_accounts g p = ar_accounts h p \<and> ar_roles g p = ar_roles h p)"

definition extends :: "arrays \<Rightarrow> arrays \<Rightarrow> bool" where
  "extends h h' \<longleftrightarrow> agree {..<ar_next h} h h' \<and> ar_next h \<le> ar_next h'"

lemma agree_mono: "agree Y h g \<Longrightarrow> X \<subseteq> Y \<Longrightarrow> agree X h g"
  by (auto simp: agree_def)

lemma agree_trans: "agree X h g \<Longrightarrow> agree X g k \<Longrightarrow> agree X h k"
  by (auto simp: agree_def)

lemma extends_refl [simp]: "extends h h"
  by (simp add: extends_def agree_def)

lemma extends_trans: "extends h g \<Longrightarrow> extends g k \<Longrightarrow> extends h k"
  unfolding extends_def by (meson agree_mono agree_trans lessThan_subset_iff order_trans)

lemma extends_agree: "extends h g \<Longrightarrow> X \<subseteq> {..<ar_next h} \<Longrightarrow> agree X h g"
  unfolding extends_def by (blast intro: agree_mono)

lemma slice_of_agree: "agree X h g \<Longrightarrow> set_option s \<subseteq> X \<Longrightarrow> slice_of (ar_strings g) s = slice_of (ar_strings h) s \<and>
    slice_of (ar_identities g) s = slice_of (ar_identities h) s \<and>
    slice_of (ar_accounts g) s = slice_of (ar_accounts h) s \<and> slice_of (ar_roles g) s = slice_of (ar_roles h) s"
  by (cases s) (auto simp: slice_of_def agree_def)

section \<open>Deep copies\<close>

text \<open>What a copy promises: it keeps every array there was, reads as its source does, and reaches new
  arrays only. A view depends on what it reaches alone.\<close>

locale deep_copy =
  fixes view :: "arrays \<Rightarrow> 'a \<Rightarrow> 'b" and reach :: "arrays \<Rightarrow> 'a \<Rightarrow> nat set"
    and clone :: "arrays \<Rightarrow> 'a \<Rightarrow> arrays \<times> 'a"
  assumes view_agree: "agree (reach h x) h g \<Longrightarrow> view g x = view h x"
    and reach_agree: "agree (reach h x) h g \<Longrightarrow> reach g x = reach h x"
    and clone_extends: "clone h x = (h', y) \<Longrightarrow> reach h x \<subseteq> {..<ar_next h} \<Longrightarrow> extends h h'"
    and clone_view: "clone h x = (h', y) \<Longrightarrow> reach h x \<subseteq> {..<ar_next h} \<Longrightarrow> view h' y = view h x"
    and clone_fresh: "clone h x = (h', y) \<Longrightarrow> reach h x \<subseteq> {..<ar_next h} \<Longrightarrow>
       reach h' y \<subseteq> {ar_next h..<ar_next h'}"
begin

lemma source_kept:
  assumes "extends h h'" and "reach h x \<subseteq> {..<ar_next h}"
  shows "view h' x = view h x" and "reach h' x = reach h x"
  using extends_agree [OF assms] by (rule view_agree, rule reach_agree)

text \<open>The copies of a list of elements, one after the other.\<close>

lemma clone_each:
  assumes "clone_each clone h xs = (h', ys)" and "\<forall>x \<in> set xs. reach h x \<subseteq> {..<ar_next h}"
  shows "extends h h' \<and> map (view h') ys = map (view h) xs \<and>
     (\<forall>y \<in> set ys. reach h' y \<subseteq> {ar_next h..<ar_next h'})"
  using assms
proof (induction xs arbitrary: h ys)
  case (Cons x xs)
  obtain h1 y where c: "clone h x = (h1, y)" by fastforce
  obtain ys' where r: "clone_each clone h1 xs = (h', ys')" "ys = y # ys'"
    using Cons.prems(1) c by (auto split: prod.splits)
  have x: "reach h x \<subseteq> {..<ar_next h}" using Cons.prems(2) by simp
  note cx = clone_extends [OF c x] clone_view [OF c x] clone_fresh [OF c x]
  have le: "ar_next h \<le> ar_next h1" using cx(1) by (simp add: extends_def)
  have xs: "\<forall>z \<in> set xs. view h1 z = view h z \<and> reach h1 z = reach h z"
    using Cons.prems(2) source_kept [OF cx(1)] by simp
  then have "\<forall>z \<in> set xs. reach h1 z \<subseteq> {..<ar_next h1}" using Cons.prems(2) le by fastforce
  from Cons.IH [OF r(1) this] have ih: "extends h1 h'" "map (view h') ys' = map (view h1) xs"
    "\<forall>z \<in> set ys'. reach h' z \<subseteq> {ar_next h1..<ar_next h'}" by auto
  have y: "reach h1 y \<subseteq> {..<ar_next h1}" using cx(3) by auto
  note ky = source_kept [OF ih(1) y]
  have le': "ar_next h1 \<le> ar_next h'" using ih(1) by (simp add: extends_def)
  have "map (view h') ys = map (view h) (x # xs)" using ky(1) cx(2) ih(2) xs r(2) by simp
  moreover have "\<forall>z \<in> set ys. reach h' z \<subseteq> {ar_next h..<ar_next h'}"
    using ky(2) cx(3) ih(3) r(2) le le' by fastforce
  ultimately show ?case using extends_trans [OF cx(1) ih(1)] by blast
qed simp

lemma map_view_agree:
  assumes "\<forall>x \<in> set xs. agree (reach h x) h g"
  shows "map (view g) xs = map (view h) xs" and "(\<Union>x \<in> set xs. reach g x) = (\<Union>x \<in> set xs. reach h x)"
proof -
  have "view g x = view h x" "reach g x = reach h x" if "x \<in> set xs" for x
    using view_agree [of h x g] reach_agree [of h x g] assms that by blast+
  then show "map (view g) xs = map (view h) xs" "(\<Union>x \<in> set xs. reach g x) = (\<Union>x \<in> set xs. reach h x)"
    by auto
qed

text \<open>A new array filled with copies.\<close>

lemma clone_array:
  assumes res: "reserve h = (h1, p)" and each: "clone_each clone h1 xs = (h2, ys)"
    and old: "\<forall>x \<in> set xs. reach h x \<subseteq> {..<ar_next h}"
    and fill: "agree (- {p}) h2 h3" "ar_next h3 = ar_next h2"
  shows "extends h h3 \<and> map (view h3) ys = map (view h) xs \<and>
     (\<forall>y \<in> set ys. reach h3 y \<subseteq> {ar_next h..<ar_next h3}) \<and> p \<in> {ar_next h..<ar_next h3}"
proof -
  have h1: "agree X h h1" "ar_next h1 = Suc (ar_next h)" "p = ar_next h" for X
    using res by (auto simp: reserve_def agree_def)
  note k = map_view_agree [of xs h h1]
  have "\<forall>x \<in> set xs. reach h1 x \<subseteq> {..<ar_next h1}"
  proof
    fix x
    assume "x \<in> set xs"
    then have "reach h x \<subseteq> {..<ar_next h}" using old by blast
    then show "reach h1 x \<subseteq> {..<ar_next h1}" using reach_agree [OF h1(1)] h1(2) by auto
  qed
  note e = clone_each [OF each this]
  have le: "ar_next h1 \<le> ar_next h2" using e by (simp add: extends_def)
  have ys: "agree (reach h2 y) h2 h3" if "y \<in> set ys" for y
  proof -
    have "reach h2 y \<subseteq> - {p}" using e that h1 by fastforce
    with fill(1) show ?thesis by (rule agree_mono)
  qed
  note ky = map_view_agree [of ys h2 h3]
  have reach3: "reach h3 y = reach h2 y" if "y \<in> set ys" for y
    using ys [OF that] by (rule reach_agree)
  have "agree {..<ar_next h} h h3"
  proof -
    have "agree {..<ar_next h} h1 h2" using e h1(2) by (auto simp: extends_def intro: agree_mono)
    moreover have "agree {..<ar_next h} h2 h3" using fill(1) by (rule agree_mono) (simp add: h1(3))
    ultimately show ?thesis using h1(1) agree_trans by blast
  qed
  then have "extends h h3" using le fill(2) h1(2) by (simp add: extends_def)
  moreover have "map (view h3) ys = map (view h) xs"
    using ky(1) ys k(1) h1(1) e by simp
  moreover have "\<forall>y \<in> set ys. reach h3 y \<subseteq> {ar_next h..<ar_next h3}"
    using reach3 e h1(2) fill(2) by fastforce
  moreover have "p \<in> {ar_next h..<ar_next h3}" using h1 le fill(2) by simp
  ultimately show ?thesis by blast
qed

end

lemma copy_strings_deep:
  assumes "copy_strings h s = (h', t)" and "set_option s \<subseteq> {..<ar_next h}"
  shows "extends h h'" and "slice_of (ar_strings h') t = slice_of (ar_strings h) s"
    and "set_option t \<subseteq> {ar_next h..<ar_next h'}"
  using assms by (auto simp: copy_strings_def reserve_def extends_def agree_def slice_of_def
      split: if_splits option.splits)

interpretation idents: deep_copy identity_view identity_reach clone_identity
proof unfold_locales
  show "agree (identity_reach h x) h g \<Longrightarrow> identity_view g x = identity_view h x" for h g x
    using slice_of_agree [of "identity_reach h x" h g "ri_recovery x"]
    by (simp add: identity_view_def identity_reach_def)
  show "agree (identity_reach h x) h g \<Longrightarrow> identity_reach g x = identity_reach h x" for h g x
    by (simp add: identity_reach_def)
next
  fix h x h' y
  assume "clone_identity h x = (h', y)" and r: "identity_reach h x \<subseteq> {..<ar_next h}"
  then obtain s where s: "copy_strings h (ri_recovery x) = (h', s)" "y = x\<lparr>ri_recovery := s\<rparr>"
    by (auto simp: clone_identity_def split: prod.splits)
  note c = copy_strings_deep [OF s(1) r [unfolded identity_reach_def]]
  show "extends h h'" "identity_view h' y = identity_view h x"
    "identity_reach h' y \<subseteq> {ar_next h..<ar_next h'}"
    using c s(2) by (simp_all add: identity_view_def identity_reach_def)
qed

interpretation roledocs: deep_copy role_view role_reach clone_role
proof unfold_locales
  show "agree (role_reach h x) h g \<Longrightarrow> role_view g x = role_view h x" for h g x
    using slice_of_agree [of "role_reach h x" h g "rr_caps x"]
    by (simp add: role_view_def role_reach_def)
  show "agree (role_reach h x) h g \<Longrightarrow> role_reach g x = role_reach h x" for h g x
    by (simp add: role_reach_def)
next
  fix h x h' y
  assume "clone_role h x = (h', y)" and r: "role_reach h x \<subseteq> {..<ar_next h}"
  then obtain s where s: "copy_strings h (rr_caps x) = (h', s)" "y = x\<lparr>rr_caps := s\<rparr>"
    by (auto simp: clone_role_def split: prod.splits)
  note c = copy_strings_deep [OF s(1) r [unfolded role_reach_def]]
  show "extends h h'" "role_view h' y = role_view h x" "role_reach h' y \<subseteq> {ar_next h..<ar_next h'}"
    using c s(2) by (simp_all add: role_view_def role_reach_def)
qed

lemma slices_kept:
  assumes "extends h h'" and "set_option s \<subseteq> {..<ar_next h}"
  shows "slice_of (ar_strings h') s = slice_of (ar_strings h) s"
    and "slice_of (ar_identities h') s = slice_of (ar_identities h) s"
    and "slice_of (ar_accounts h') s = slice_of (ar_accounts h) s"
    and "slice_of (ar_roles h') s = slice_of (ar_roles h) s"
  using slice_of_agree [OF extends_agree [OF assms] order_refl] by auto

lemma clone_identities_deep:
  assumes c: "clone_identities h s = (h', t)"
    and old: "\<forall>i \<in> set (slice_of (ar_identities h) s). identity_reach h i \<subseteq> {..<ar_next h}"
  shows "extends h h'" and "set_option t \<subseteq> {ar_next h..<ar_next h'}"
    and "map (identity_view h') (slice_of (ar_identities h') t) =
      map (identity_view h) (slice_of (ar_identities h) s)"
    and "\<forall>i \<in> set (slice_of (ar_identities h') t). identity_reach h' i \<subseteq> {ar_next h..<ar_next h'}"
proof -
  have "extends h h' \<and> set_option t \<subseteq> {ar_next h..<ar_next h'} \<and>
     map (identity_view h') (slice_of (ar_identities h') t) =
       map (identity_view h) (slice_of (ar_identities h) s) \<and>
     (\<forall>i \<in> set (slice_of (ar_identities h') t). identity_reach h' i \<subseteq> {ar_next h..<ar_next h'})"
  proof (cases "slice_of (ar_identities h) s = []")
    case True
    with c have "h' = h" "t = None" by (simp_all add: clone_identities_def)
    with True show ?thesis by (simp add: slice_of_def)
  next
    case False
    obtain h1 p h2 ys where h: "reserve h = (h1, p)"
      "clone_each clone_identity h1 (slice_of (ar_identities h) s) = (h2, ys)"
      "h' = h2\<lparr>ar_identities := (ar_identities h2)(p := ys)\<rparr>" "t = Some p"
      using c False by (auto simp: clone_identities_def split: prod.splits)
    have "agree (- {p}) h2 h'" "ar_next h' = ar_next h2" using h(3) by (simp_all add: agree_def)
    from idents.clone_array [OF h(1,2) old this] show ?thesis
      using h(3,4) by (simp add: slice_of_def)
  qed
  then show "extends h h'" "set_option t \<subseteq> {ar_next h..<ar_next h'}"
    "map (identity_view h') (slice_of (ar_identities h') t) =
      map (identity_view h) (slice_of (ar_identities h) s)"
    "\<forall>i \<in> set (slice_of (ar_identities h') t). identity_reach h' i \<subseteq> {ar_next h..<ar_next h'}"
    by blast+
qed

lemma account_agree:
  assumes "agree (account_reach h a) h g"
  shows "account_view g a = account_view h a" and "account_reach g a = account_reach h a"
proof -
  let ?is = "slice_of (ar_identities h) (ra_identities a)"
  have s: "slice_of (ar_strings g) (ra_roles a) = slice_of (ar_strings h) (ra_roles a)"
    "slice_of (ar_identities g) (ra_identities a) = ?is"
    using slice_of_agree [OF assms, of "ra_roles a"] slice_of_agree [OF assms, of "ra_identities a"]
    by (auto simp: account_reach_def)
  have "\<forall>i \<in> set ?is. agree (identity_reach h i) h g"
    using assms by (auto simp: account_reach_def intro: agree_mono)
  note k = idents.map_view_agree [OF this]
  show "account_view g a = account_view h a" "account_reach g a = account_reach h a"
    unfolding account_view_def account_reach_def s using k by simp_all
qed

lemma clone_account_deep:
  assumes c: "clone_account h a = (h', b)" and old: "account_reach h a \<subseteq> {..<ar_next h}"
  shows "extends h h' \<and> account_view h' b = account_view h a \<and>
     account_reach h' b \<subseteq> {ar_next h..<ar_next h'}"
proof -
  obtain h1 rs ids where h: "copy_strings h (ra_roles a) = (h1, rs)"
    "clone_identities h1 (ra_identities a) = (h', ids)" "b = a\<lparr>ra_roles := rs, ra_identities := ids\<rparr>"
    using c by (auto simp: clone_account_def split: prod.splits)
  have parts: "set_option (ra_roles a) \<subseteq> {..<ar_next h}" "set_option (ra_identities a) \<subseteq> {..<ar_next h}"
    "\<forall>i \<in> set (slice_of (ar_identities h) (ra_identities a)). identity_reach h i \<subseteq> {..<ar_next h}"
    using old by (auto simp: account_reach_def)
  note r = copy_strings_deep [OF h(1) parts(1)]
  have le: "ar_next h \<le> ar_next h1" using r(1) by (simp add: extends_def)
  have same: "slice_of (ar_identities h1) (ra_identities a) = slice_of (ar_identities h) (ra_identities a)"
    using slices_kept(2) [OF r(1) parts(2)] .
  have old1: "\<forall>i \<in> set (slice_of (ar_identities h) (ra_identities a)).
      identity_view h1 i = identity_view h i \<and> identity_reach h1 i \<subseteq> {..<ar_next h1}"
    using idents.source_kept [OF r(1)] parts(3) le by fastforce
  note i = clone_identities_deep [OF h(2)]
  have i: "extends h1 h'" "set_option ids \<subseteq> {ar_next h1..<ar_next h'}"
    "map (identity_view h') (slice_of (ar_identities h') ids) =
      map (identity_view h) (slice_of (ar_identities h) (ra_identities a))"
    "\<forall>i \<in> set (slice_of (ar_identities h') ids). identity_reach h' i \<subseteq> {ar_next h1..<ar_next h'}"
    using i old1 unfolding same by auto
  have le': "ar_next h1 \<le> ar_next h'" using i(1) by (simp add: extends_def)
  have "set_option rs \<subseteq> {..<ar_next h1}" using r(3) by auto
  then have "slice_of (ar_strings h') rs = slice_of (ar_strings h) (ra_roles a)"
    using slices_kept(1) [OF i(1)] r(2) by simp
  then have "account_view h' b = account_view h a" using h(3) i(3) by (simp add: account_view_def)
  moreover have "account_reach h' b \<subseteq> {ar_next h..<ar_next h'}"
    using h(3) r(3) i(2,4) le le' by (fastforce simp: account_reach_def)
  ultimately show ?thesis using extends_trans [OF r(1) i(1)] by blast
qed

interpretation accts: deep_copy account_view account_reach clone_account
  by unfold_locales (auto dest: account_agree clone_account_deep)

section \<open>Whole documents\<close>

lemma clone_accounts_deep:
  assumes c: "clone_accounts h d = (h', d')" and old: "accounts_reach h d \<subseteq> {..<ar_next h}"
  shows "extends h h' \<and> accounts_view h' d' = accounts_view h d \<and>
     accounts_reach h' d' \<subseteq> {ar_next h..<ar_next h'}"
proof -
  let ?xs = "slice_of (ar_accounts h) (raf_accounts d)"
  obtain h1 p h2 ys where h: "reserve h = (h1, p)" "clone_each clone_account h1 ?xs = (h2, ys)"
    "h' = h2\<lparr>ar_accounts := (ar_accounts h2)(p := ys)\<rparr>" "d' = d\<lparr>raf_accounts := Some p\<rparr>"
    using c by (auto simp: clone_accounts_def split: prod.splits)
  have "\<forall>a \<in> set ?xs. account_reach h a \<subseteq> {..<ar_next h}" using old by (auto simp: accounts_reach_def)
  moreover have "agree (- {p}) h2 h'" "ar_next h' = ar_next h2" using h(3) by (simp_all add: agree_def)
  ultimately have "extends h h' \<and> map (account_view h') ys = map (account_view h) ?xs \<and>
      (\<forall>y \<in> set ys. account_reach h' y \<subseteq> {ar_next h..<ar_next h'}) \<and> p \<in> {ar_next h..<ar_next h'}"
    using accts.clone_array [OF h(1,2)] by blast
  moreover have "slice_of (ar_accounts h') (raf_accounts d') = ys" using h(3,4) by (simp add: slice_of_def)
  ultimately show ?thesis using h(4) by (auto simp: accounts_view_def accounts_reach_def)
qed

lemma clone_roles_deep:
  assumes c: "clone_roles h d = (h', d')" and old: "roles_reach h d \<subseteq> {..<ar_next h}"
  shows "extends h h' \<and> roles_view h' d' = roles_view h d \<and>
     roles_reach h' d' \<subseteq> {ar_next h..<ar_next h'}"
proof -
  let ?xs = "slice_of (ar_roles h) (rrf_roles d)"
  obtain h1 p h2 ys where h: "reserve h = (h1, p)" "clone_each clone_role h1 ?xs = (h2, ys)"
    "h' = h2\<lparr>ar_roles := (ar_roles h2)(p := ys)\<rparr>" "d' = d\<lparr>rrf_roles := Some p\<rparr>"
    using c by (auto simp: clone_roles_def split: prod.splits)
  have "\<forall>r \<in> set ?xs. role_reach h r \<subseteq> {..<ar_next h}" using old by (auto simp: roles_reach_def)
  moreover have "agree (- {p}) h2 h'" "ar_next h' = ar_next h2" using h(3) by (simp_all add: agree_def)
  ultimately have "extends h h' \<and> map (role_view h') ys = map (role_view h) ?xs \<and>
      (\<forall>y \<in> set ys. role_reach h' y \<subseteq> {ar_next h..<ar_next h'}) \<and> p \<in> {ar_next h..<ar_next h'}"
    using roledocs.clone_array [OF h(1,2)] by blast
  moreover have "slice_of (ar_roles h') (rrf_roles d') = ys" using h(3,4) by (simp add: slice_of_def)
  ultimately show ?thesis using h(4) by (auto simp: roles_view_def roles_reach_def)
qed

lemma accounts_agree: "agree (accounts_reach h d) h g \<Longrightarrow> accounts_view g d = accounts_view h d"
proof -
  assume a: "agree (accounts_reach h d) h g"
  have s: "slice_of (ar_accounts g) (raf_accounts d) = slice_of (ar_accounts h) (raf_accounts d)"
    using slice_of_agree [OF a, of "raf_accounts d"] by (auto simp: accounts_reach_def)
  have "\<forall>x \<in> set (slice_of (ar_accounts h) (raf_accounts d)). agree (account_reach h x) h g"
    using a by (auto simp: accounts_reach_def intro: agree_mono)
  from accts.map_view_agree(1) [OF this] show ?thesis by (simp add: accounts_view_def s)
qed

section \<open>Properties\<close>

text \<open>C20. Copies of the account document are deep: the copy reads as the source did, nobody who writes to
  any array that can be reached from the copy changes what the source contains, and nobody who
  writes to the arrays of the source changes what the copy contains. So a caller that was handed a
  copy cannot change the account model, and the documents can be treated as values.\<close>

theorem account_copies_are_deep:
  assumes "clone_accounts h d = (h', d')" and "accounts_reach h d \<subseteq> {..<ar_next h}"
    and "agree (- accounts_reach h' d') h' g" and "agree (- accounts_reach h d) h' k"
  shows "accounts_view h' d' = accounts_view h d \<and>
    accounts_view g d = accounts_view h d \<and> accounts_view k d' = accounts_view h d"
proof -
  note deep = clone_accounts_deep [OF assms(1,2)]
  have disj: "accounts_reach h d \<inter> accounts_reach h' d' = {}" using deep assms(2) by fastforce
  have "agree (accounts_reach h d) h h'" using deep assms(2) extends_agree by blast
  moreover have "agree (accounts_reach h d) h' g" using assms(3) by (rule agree_mono) (use disj in blast)
  ultimately have "agree (accounts_reach h d) h g" by (rule agree_trans)
  moreover have "agree (accounts_reach h' d') h' k" using assms(4) by (rule agree_mono) (use disj in blast)
  ultimately show ?thesis using deep accounts_agree by metis
qed

text \<open>A document with one account; the caller overwrites a recovery code and a role of the copy.\<close>

definition ex_arrays :: arrays where
  "ex_arrays =
     \<lparr>ar_strings = (\<lambda>p. if p = 1 then [''admin''] else if p = 2 then [''hash''] else []),
      ar_identities = (\<lambda>p. if p = 3 then [\<lparr>ri_scalars = \<lparr>id_id = ''id_1'', id_type = ''password'', id_username = ''ada'',
        id_email = [], id_subject = [], id_password = ''h'', id_totp = True, id_recovery = [], id_enabled = True\<rparr>,
        ri_recovery = Some 2\<rparr>] else []),
      ar_accounts = (\<lambda>p. if p = 0 then [\<lparr>ra_scalars = \<lparr>ac_id = ''acct_1'', ac_name = ''Ada'', ac_enabled = True,
        ac_roles = [], ac_identities = [], ac_created = 5\<rparr>, ra_roles = Some 1, ra_identities = Some 3\<rparr>] else []),
      ar_roles = (\<lambda>_. []), ar_next = 4\<rparr>"

definition ex_document :: ref_accounts_file where
  "ex_document = \<lparr>raf_version = 1, raf_accounts = Some 0\<rparr>"

definition ex_copied :: arrays where
  "ex_copied = fst (clone_accounts ex_arrays ex_document)"

definition ex_overwritten :: arrays where
  "ex_overwritten = ex_copied\<lparr>ar_strings := (ar_strings ex_copied)(5 := [''administrator''], 7 := [''known''])\<rparr>"

lemmas ex_clone_defs = ex_copied_def ex_arrays_def ex_document_def clone_accounts_def clone_account_def
  clone_identities_def clone_identity_def copy_strings_def reserve_def slice_of_def

lemma ex_clone: "clone_accounts ex_arrays ex_document = (ex_copied, \<lparr>raf_version = 1, raf_accounts = Some 4\<rparr>)"
  by (simp add: ex_clone_defs)

lemma ex_copy_reach: "{5, 7} \<subseteq> accounts_reach ex_copied \<lparr>raf_version = 1, raf_accounts = Some 4\<rparr>"
  by (simp add: ex_clone_defs accounts_reach_def account_reach_def identity_reach_def)

lemma account_copies_are_deep_witness:
  "accounts_view ex_overwritten ex_document = accounts_view ex_arrays ex_document \<and>
   accounts_view ex_overwritten \<lparr>raf_version = 1, raf_accounts = Some 4\<rparr> \<noteq> accounts_view ex_arrays ex_document"
proof
  have old: "accounts_reach ex_arrays ex_document \<subseteq> {..<ar_next ex_arrays}"
    by (simp add: ex_arrays_def ex_document_def accounts_reach_def account_reach_def identity_reach_def slice_of_def)
  have g: "agree (- accounts_reach ex_copied \<lparr>raf_version = 1, raf_accounts = Some 4\<rparr>) ex_copied ex_overwritten"
    using ex_copy_reach by (auto simp: agree_def ex_overwritten_def)
  have k: "agree (- accounts_reach ex_arrays ex_document) ex_copied ex_copied" by (simp add: agree_def)
  from account_copies_are_deep [OF ex_clone old g k]
  show "accounts_view ex_overwritten ex_document = accounts_view ex_arrays ex_document" by blast
  show "accounts_view ex_overwritten \<lparr>raf_version = 1, raf_accounts = Some 4\<rparr> \<noteq> accounts_view ex_arrays ex_document"
    by (simp add: ex_overwritten_def ex_clone_defs accounts_view_def account_view_def)
qed

end
