(* ===== verification/Prop_Manager.thy ===== *)
theory Prop_Manager
  imports Prop_Profile_Laws
begin

text \<open>
  The remaining operations of \<open>propagation/manager.go\<close>, over the whole state store of a product, and
  the records of \<open>propagation/ui.go\<close> that the products show.
\<close>

record 'w manager_store = "'w state_store" +
  st_delete :: "'w \<Rightarrow> string \<Rightarrow> 'w \<times> string option"
  st_record :: "'w \<Rightarrow> history_record \<Rightarrow> 'w \<times> string option"
  st_history :: "'w \<Rightarrow> int \<Rightarrow> string + history_record list"

record 'w manager =
  mg_adapter :: "'w local_adapter option"
  mg_export :: "'w \<Rightarrow> string list \<Rightarrow> actor \<Rightarrow> string \<Rightarrow> string + envelope list"
  mg_store :: "'w manager_store option"
  mg_now :: "int option"

definition manager_now :: "'w manager \<Rightarrow> int \<Rightarrow> int" where
  "manager_now m clock = (case mg_now m of None \<Rightarrow> clock | Some t \<Rightarrow> t)"

text \<open>\<open>mg_export\<close> is the adapter's \<open>Export\<close>.\<close>

definition manager_export ::
  "'w manager \<Rightarrow> 'w \<Rightarrow> string list \<Rightarrow> actor \<Rightarrow> string \<Rightarrow> apply_error + envelope list" where
  "manager_export m w kinds act target =
     (case mg_adapter m of
        None \<Rightarrow> Inl AdapterRequired
      | Some _ \<Rightarrow> map_sum AdapterError id (mg_export m w kinds act target))"

definition manager_preview ::
  "('a) prop_lib_scheme \<Rightarrow> 'w manager \<Rightarrow> 'w \<Rightarrow> envelope list \<Rightarrow> actor \<Rightarrow> (apply_error + preview) outcome" where
  "manager_preview L m w source act = preview_local L (mg_adapter m) w source act False"

text \<open>The error of recording the history is dropped.\<close>

definition manager_apply_bundle ::
  "('a) prop_lib_scheme \<Rightarrow> 'w manager \<Rightarrow> 'w \<Rightarrow> string \<Rightarrow> envelope list \<Rightarrow> actor \<Rightarrow> string \<Rightarrow> int \<Rightarrow>
   ('w \<times> bundle_result \<times> apply_error option) outcome" where
  "manager_apply_bundle L m w plan_id source act target clock =
     manager_apply L (mg_adapter m) (map_option (\<lambda>S w h. fst (st_record S w h)) (mg_store m)) w
       plan_id source act target (manager_now m clock)"

definition manager_delete_profile :: "'w manager \<Rightarrow> 'w \<Rightarrow> string \<Rightarrow> 'w \<times> profile_error option" where
  "manager_delete_profile m w i =
     (case mg_store m of
        None \<Rightarrow> (w, Some StoreRequired)
      | Some S \<Rightarrow> (case st_delete S w i of (w1, e) \<Rightarrow> (w1, map_option StoreError e)))"

definition manager_profiles :: "'w manager \<Rightarrow> 'w \<Rightarrow> profile_error + profile list" where
  "manager_profiles m w =
     (case mg_store m of None \<Rightarrow> Inl StoreRequired | Some S \<Rightarrow> map_sum StoreError id (st_list S w))"

definition manager_history :: "'w manager \<Rightarrow> 'w \<Rightarrow> int \<Rightarrow> profile_error + history_record list" where
  "manager_history m w limit =
     (case mg_store m of
        None \<Rightarrow> Inl StoreRequired
      | Some S \<Rightarrow> map_sum StoreError id (st_history S w (history_limit limit)))"

section \<open>What is shown\<close>

record ui_kind =
  uk_kind :: string
  uk_label :: string
  uk_reversible :: bool
  uk_mergeable :: bool

record ui_target =
  ut_id :: string
  ut_label :: string
  ut_compatible :: bool
  ut_reason :: string

record ui_history_entry =
  uh_plan :: string
  uh_actor :: string
  uh_created :: int
  uh_target :: string
  uh_applied :: int
  uh_failed :: int
  uh_rolled_back :: int

record ui_view =
  uv_kinds :: "ui_kind list"
  uv_targets :: "ui_target list"
  uv_preview :: "preview option"
  uv_progress :: "ui_progress list"
  uv_history :: "ui_history_entry list"
  uv_confirm :: bool

section \<open>Facts\<close>

text \<open>Without a store nothing of the profiles or the history is read or changed, and a bundle is applied
  as with one; a store is asked for at most 200 records.\<close>

lemma no_store:
  assumes "mg_store m = None"
  shows "manager_delete_profile m w i = (w, Some StoreRequired)" "manager_profiles m w = Inl StoreRequired"
    "manager_history m w limit = Inl StoreRequired"
  using assms by (simp_all add: manager_delete_profile_def manager_profiles_def manager_history_def)

lemma history_limit_bounds: "0 < history_limit l \<and> history_limit l \<le> 200"
  by (simp add: history_limit_def)

text \<open>The state store never decides the outcome of a bundle: results and errors are those of the
  adapter, with or without a store.\<close>

lemma store_does_not_decide:
  assumes "manager_apply_bundle L m w plan_id source act target clock = Returned (w1, r, e)"
  shows "\<exists>w2. manager_apply_bundle L (m\<lparr>mg_store := None\<rparr>) w plan_id source act target clock = Returned (w2, r, e)"
  using assms by (auto simp: manager_apply_bundle_def manager_apply_def manager_now_def split: outcome.splits)

end
