(* ===== verification/Spec2Isabelle.thy ===== *)
theory Spec2Isabelle
  imports Replica_KVFSM_Laws Replica_Auth_Laws Replica_Authority Replica_Store Replica_Node_Laws
    Replica_Net_Laws Prop_Model_Laws Prop_Apply_Laws Prop_Profile_Laws
    Auth_Sessions_Laws Auth_Execution_Laws Agent_Run_Laws Conv_Events_Laws Cluster_Model_Laws
    Cluster_Security_Laws Cluster_Routing_Laws Cli_Parse_Laws Protocol_Wire_Laws Contract_Check_Laws
    Terminal_Session Workspace_Paths Editor_Files Launcher_Catalogue Automation_Run Auth_Audit Surface_Command Replica_Rpc
    Contract_Artifacts Cluster_Vocabulary Replica_Harness Replica_Serve Auth_Clone Prop_Manager
begin

text \<open>
  A model of \<open>gantry-core\<close>, the Go library that the Gantry products share, with the theorems that make
  its parts correct.

  The parts. Products declare operations as contracts (\<open>operation/\<close>) and test the declared surface
  against the observed one (\<open>contracttest/\<close>). A command line (\<open>cli/\<close>) and an HTTP protocol
  (\<open>protocol/\<close>) carry the operations; \<open>auth/\<close> keeps accounts, roles, sessions and the execution context
  that authorizes them. Nodes pair and sign requests to each other and fan calls out (\<open>cluster/\<close>).
  State that must agree on all nodes goes through \<open>replication/\<close>: an operation is proposed to the leader,
  committed by raft and applied by the key/value state machine of every node; readiness and authority decide
  whether a mutation may be proposed, forwarded or refused, and peers authenticate with handshakes over
  TLS connections. Objects that are copied between nodes go through \<open>propagation/\<close>: a plan is made,
  dry-run, applied node by node and rolled back, by bundles and profiles. Agent runs, conversations and
  terminal sessions are records with rules of their own (\<open>agent/\<close>, \<open>conversations/\<close>, \<open>terminal/\<close>). A Go client
  (\<open>client/\<close>) and a command (\<open>automation/\<close>) call the operations of a contract over HTTP, and products share a
  workspace resolver, an editor and a launcher (\<open>workspace/\<close>, \<open>editor/\<close>, \<open>launcher/\<close>).

  The theories, by the source they follow. Each component has a theory of definitions, in the order
  of the code, and one of laws where the laws are long.

  \<^item> \<open>Go_Base\<close>, \<open>Go_Bytes\<close>, \<open>Go_Utf8\<close>: what the code uses of Go's standard library (trimming, splitting,
    64-bit integers, big-endian, hexadecimal, base64, decimals, UTF-8), and the contracts of guarded
    components as the locales \<open>guarded_view\<close> and \<open>guarded_machine\<close>.
  \<^item> \<open>Replica_Operation\<close> (\<open>replication/operation.go\<close>), \<open>Replica_Machine\<close> and \<open>Replica_KVFSM\<close>
    (\<open>kvfsm.go\<close>, \<open>snapshot.go\<close>): operations, and the state machine with apply, snapshot and restore.
  \<^item> \<open>Replica_Auth\<close> (\<open>auth.go\<close>), \<open>Replica_Authority\<close> (\<open>authority.go\<close>, \<open>readiness.go\<close>, \<open>leader.go\<close>),
    \<open>Replica_Node\<close> (\<open>node.go\<close>), \<open>Replica_Fabric\<close> (\<open>fabric.go\<close>), \<open>Replica_Harness\<close> (\<open>cluster.go\<close> and the rest
    of \<open>node.go\<close>), \<open>Replica_Store\<close> (\<open>store.go\<close>), \<open>Replica_Wire\<close>, \<open>Replica_Net\<close>, \<open>Replica_Rpc\<close> and \<open>Replica_Serve\<close>
    (\<open>nettransport.go\<close>, \<open>tls.go\<close>, \<open>rand.go\<close>; the last has the goroutines that serve and \<open>Close\<close> waiting for them).
  \<^item> \<open>Prop_Model\<close>, \<open>Prop_Apply\<close>, \<open>Prop_Profile\<close>, \<open>Prop_Manager\<close>: \<open>propagation/\<close>.
  \<^item> \<open>Auth_Accounts\<close>, \<open>Auth_Password\<close> (\<open>auth/accounts.go\<close>), \<open>Auth_Model\<close> (\<open>model.go\<close>), \<open>Auth_Sessions\<close>
    (\<open>sessions.go\<close>), \<open>Auth_Execution\<close> (\<open>execution.go\<close>, \<open>policy.go\<close>), \<open>Auth_Audit\<close> (\<open>audit.go\<close>, its regular
    expressions written as functions on bytes). \<open>Auth_Clone\<close> has the copies of \<open>model.go\<close> over a store of arrays; that
    they are deep is why the other theories can treat documents as values.
  \<^item> \<open>Op_Contract\<close> (\<open>operation/operation.go\<close>), \<open>Contract_Check\<close> and \<open>Contract_Artifacts\<close> (\<open>contracttest/\<close>), \<open>Cli_Parse\<close>
    (\<open>cli/cli.go\<close>), \<open>Protocol_Wire\<close> (\<open>protocol/protocol.go\<close>).
  \<^item> \<open>Cluster_Model\<close> (\<open>cluster/model.go\<close>, \<open>pairing.go\<close>), \<open>Cluster_Security\<close> (\<open>security.go\<close>),
    \<open>Cluster_Routing\<close> (\<open>routing.go\<close>), \<open>Cluster_Vocabulary\<close> (\<open>cli.go\<close>, \<open>parity.go\<close>, \<open>contracts.go\<close>).
  \<^item> \<open>Agent_Run\<close> (\<open>agent/agent.go\<close>), \<open>Conv_Events\<close> (\<open>conversations/conversations.go\<close>),
    \<open>Terminal_Session\<close> (\<open>terminal/terminal.go\<close>), \<open>Surface_Inventory\<close> and \<open>Surface_Command\<close>
    (\<open>cmd/surface-inventory/main.go\<close>).
  \<^item> \<open>Api_Client\<close> (\<open>client/client.go\<close>) and \<open>Automation_Run\<close> (\<open>automation/automation.go\<close>), which build on the
    contracts, the grammar, the protocol and the execution context; \<open>Workspace_Paths\<close>
    (\<open>workspace/workspace.go\<close>), \<open>Editor_Files\<close> (\<open>editor/editor.go\<close>), \<open>Launcher_Catalogue\<close>
    (\<open>launcher/launcher.go\<close>).

  How code becomes definitions. A struct is a record, an enumeration a datatype (or the string it is, where
  the code compares strings), a map a partial function or, where order or duplicates matter, an
  association list. A method takes its receiver and returns it with its outcome; an \<open>error\<close> is the left
  summand of a sum; a nil dereference or an index out of range is the outcome \<open>Panic\<close>. A method that holds its
  mutex is one step. Where a method reads shared state several times without holding a lock, either each read is a
  value of its own (\<open>propose_reads\<close>) or the method is several steps. Goroutines that matter are steps of a relation
  (\<open>fan_step\<close>, \<open>login_step\<close>, the readiness driver, the connections of the transport and the goroutines that
  serve them, the operations of the harness), so that every interleaving is covered. 64-bit counters are words;
  other integers are \<open>int\<close>, with \<open>wrap64\<close> where they can wrap.

  Parameters. Code outside the repository and cryptographic or textual primitives of the standard library
  are arguments of the definitions: the raft library, the bolt engine, TLS, JSON and regular expressions,
  \<open>url.Parse\<close>, SHA-256 and HMAC, the rendering of times and durations, random bytes, and the answers of the
  environment. A theorem states what it relies on of them as a hypothesis about the values at hand (a
  rendered time parses back, random reads fill their buffer), and its witness runs it with concrete
  functions for them. No theorem assumes that a hash has no collisions: where it matters, a collision is
  one of the alternatives of the conclusion, and it is the collision of the very texts in question.

  What the groups of lemmas show. For replication: an operation takes effect once, a reused id with another
  payload is refused, a snapshot stands for the log it replaces, nothing falls open without a leader, only
  authenticated peers get connections, an acknowledged proposal is a committed entry (whose schema every
  voter advertised if the node led already when \<open>Propose\<close> began), \<open>Close\<close> can return alone exactly when no connection was about to be entered, a learner is promoted only when it has caught up, the
  harness files every node under its identity and bootstraps the first one only, and the log store is a map from indexes from which \<open>DeleteRange\<close> removes what its cursor stands on and
  nothing past the range. For propagation: a plan has one item for each object and each permitted deletion and never
  overwrites what it must not, the outcome of a transaction is known node by node, partial ones included, and a
  bundle is applied in order and rolled back in reverse, as far as the adapter lets it. For accounts: what is in
  memory is always valid, passwords verify exactly, codes are used once, sessions are bounded, wrong guesses are
  bounded for each login and each concurrent call, an assigned secret in the audit log is replaced up to
  its closing quote or the next blank, and the copies a caller is given are deep. For the surface: a
  registry and a manifest are accepted exactly when they are consistent, every declared command is one the grammar
  accepts, a command line has a normal form, and redaction hides what its pointers (other than the empty one) name. For the
  cluster: a signature verifies another request only if the two signed texts collide, a written request is read and
  accepted, fan-out is bounded and live. For records: runs only move forward, merges keep every event once as far as
  signatures tell events apart, scrollback stays valid. For the
  callers: a call is repeated only where that is safe and then overcomes transient failures, a command sends
  nothing unconfirmed and takes credentials from protected files alone, paths stay under the root, a file is
  written whole or not at all, and a catalogue has distinct valid entries.

  Termination. Every loop is a total function: structural recursion, or a measure on what is left
  to read. The fan-out has a measure that drops by one with every step. There is no fuel. Loops
  that wait for their environment take its answers as a list and have not returned when it is used up: the loop that
  draws identifiers until one is free, for which one distinct value for each item is enough, the cursor of
  \<open>DeleteRange\<close>, which is enough once it comes to a nil key or past the range, and polling loops.

  Not modelled: locks, loggers and the accessors of single fields, the parsing of the flags and the notes of a
  report of the surface inventory, the HTML of pages, and process, socket and file input and output around the
  modelled operations. What the code leaves to a caller or peer is assumed to answer: a call inside a fan-out
  returns. Two models take a method as one step though the code holds its lock for a part of it only: \<open>reload\<close>
  (what an overlap does is \<open>overlapping_reload_stale\<close>) and \<open>session_authenticate\<close> (whose parts \<open>login_step\<close>
  interleaves); the routing of proposals in the harness reads the raft state once. A connection that the listener returns while \<open>Close\<close> is under way is a step of the
  goroutines like any other; the order of the system calls inside \<open>Close\<close> is not.
\<close>

end
